(* ===== verification/Convoy_Prelude.thy ===== *)
theory Convoy_Prelude
  imports Complex_Main "HOL-Library.Word" "HOL-Library.Multiset"
    "HOL-Library.List_Lexorder" "HOL-Library.Char_ord"
begin

text \<open>
  Shared vocabulary of the development: the machine types of the sources, errors as values,
  the \<^verbatim>\<open>std::vector\<close> idioms that every component of
  \<^verbatim>\<open>convoy-architecture\<close> uses (find-and-replace, erase-remove) with their lemmas, the
  unsigned age test of the expiry timers, and the contract of a record that keeps the
  freshest entry per key.

  Conventions.  \<^verbatim>\<open>uint64_t\<close> is \<open>u64\<close> and \<^verbatim>\<open>unsigned int\<close> \<open>u32\<close> (wrap-around included),
  \<^verbatim>\<open>MacNodeId\<close> (\<^verbatim>\<open>unsigned short\<close>) is a 16-bit word,
  \<^verbatim>\<open>simtime_t\<close> is its raw tick count (an \<open>int\<close>), \<^verbatim>\<open>int\<close> identifiers
  are \<open>int\<close>, and \<^verbatim>\<open>double\<close> is idealised as \<open>real\<close> (no rounding, no NaN).
\<close>

section \<open>Machine types and errors\<close>

type_synonym u64 = "64 word"
type_synonym u32 = "32 word"
type_synonym MacNodeId = "16 word"
type_synonym LogicalCid = "16 word"
type_synonym simtime = int

text \<open>The cast \<^verbatim>\<open>(uint64_t) t.raw()\<close>.\<close>

definition to_u64 :: "simtime \<Rightarrow> u64" where
  "to_u64 t = word_of_int t"

text \<open>
  The ways a handler can leave by an exception or by undefined behaviour:
  \<^verbatim>\<open>check_and_cast\<close> on the wrong class, \<^verbatim>\<open>cRuntimeError\<close>,
  \<^verbatim>\<open>std::vector::at\<close> out of range, a null pointer, an access to a deleted object, an
  integer division by zero, and a failing \<^verbatim>\<open>assert\<close>.
\<close>

datatype cerror =
  CastError | RuntimeError string | OutOfRange | NullDeref | UseAfterFree | DivisionByZero
  | AssertionFailure

type_synonym 'a res = "cerror + 'a"

definition rbind :: "'a res \<Rightarrow> ('a \<Rightarrow> 'b res) \<Rightarrow> 'b res" where
  "rbind r f = (case r of Inl e \<Rightarrow> Inl e | Inr x \<Rightarrow> f x)"

named_theorems vec_simps \<open>rules for the vector idioms\<close>
named_theorems age_simps \<open>rules for the unsigned age test\<close>

lemma rbind_simps [simp]:
  "rbind (Inl e) f = Inl e"
  "rbind (Inr x) f = f x"
  by (simp_all add: rbind_def)

lemma rbind_Inr_iff: "rbind r f = Inr y \<longleftrightarrow> (\<exists>x. r = Inr x \<and> f x = Inr y)"
  by (cases r) simp_all

text \<open>A call that may not return: \<open>None\<close>.\<close>

type_synonym 'a run = "'a res option"

definition run_bind :: "'a run \<Rightarrow> ('a \<Rightarrow> 'b run) \<Rightarrow> 'b run" where
  "run_bind r f = (case r of None \<Rightarrow> None | Some (Inl e) \<Rightarrow> Some (Inl e) | Some (Inr x) \<Rightarrow> f x)"

lemma run_bind_simps [simp]:
  "run_bind None f = None" "run_bind (Some (Inl e)) f = Some (Inl e)" "run_bind (Some (Inr x)) f = f x"
  by (simp_all add: run_bind_def)

section \<open>Words\<close>

lemma unat_succ_less: "w < v \<Longrightarrow> unat (w + 1 :: u32) = Suc (unat w)"
proof -
  assume "w < v"
  moreover have "unat v < 2 ^ 32" using unsigned_less [of v] by simp
  ultimately show ?thesis by (simp add: word_less_nat_alt unat_word_ariths)
qed

lemma sint_small: "unat w < 2 ^ 31 \<Longrightarrow> sint (w :: u32) = int (unat w)"
proof -
  assume "unat w < 2 ^ 31"
  then have "int (unat w) < int (2 ^ 31)" by (rule iffD2 [OF of_nat_less_iff])
  then have "uint w < 2 ^ 31" by (simp only: uint_nat of_nat_power of_nat_numeral)
  moreover have "- (2 ^ 31) \<le> uint w" by (rule order_trans [OF _ uint_ge_0]) simp
  ultimately have "signed_take_bit 31 (uint w) = uint w" by (intro signed_take_bit_int_eq_self)
  then have "sint w = uint w" by (simp add: sint_uint)
  then show ?thesis by (simp only: uint_nat)
qed

lemma uint_sint_pos: "0 < sint w \<Longrightarrow> uint (w :: u32) = sint w"
proof -
  assume "0 < sint w"
  moreover have "sint w < 2 ^ 31" using sint_lt [of w] by simp
  ultimately have "take_bit 32 (sint w) = sint w" by (simp add: take_bit_int_eq_self)
  then show ?thesis using uint_sint [of w] by simp
qed

section \<open>Vector idioms\<close>

text \<open>A checked access: \<^verbatim>\<open>std::vector::at\<close>, or an array getter of a generated message class.\<close>

definition vec_at :: "'a list \<Rightarrow> nat \<Rightarrow> 'a res" where
  "vec_at xs i = (if i < length xs then Inr (xs ! i) else Inl OutOfRange)"

text \<open>
  \<^verbatim>\<open>std::find_if\<close> followed by an assignment through the iterator touches the first
  matching element only.
\<close>

fun replace_first :: "('a \<Rightarrow> bool) \<Rightarrow> ('a \<Rightarrow> 'a) \<Rightarrow> 'a list \<Rightarrow> 'a list" where
  "replace_first p f [] = []"
| "replace_first p f (y # ys) = (if p y then f y # ys else y # replace_first p f ys)"

text \<open>
  The idiom of every record of the program: look the key up with \<^verbatim>\<open>std::find_if\<close>; if it
  is found assign through the iterator, otherwise \<^verbatim>\<open>push_back\<close>.
\<close>

definition upsert :: "('a \<Rightarrow> bool) \<Rightarrow> ('a \<Rightarrow> 'a) \<Rightarrow> 'a \<Rightarrow> 'a list \<Rightarrow> 'a list" where
  "upsert p f x xs = (if list_ex p xs then replace_first p f xs else xs @ [x])"

definition lookup_by :: "('e \<Rightarrow> 'k) \<Rightarrow> 'k \<Rightarrow> 'e list \<Rightarrow> 'e option" where
  "lookup_by key k xs = find (\<lambda>e. key e = k) xs"

lemma lookup_by_simps [simp]:
  "lookup_by key k [] = None"
  "lookup_by key k (x # xs) = (if key x = k then Some x else lookup_by key k xs)"
  by (simp_all add: lookup_by_def)

lemma lookup_by_append:
  "lookup_by key k (xs @ ys) =
     (case lookup_by key k xs of None \<Rightarrow> lookup_by key k ys | Some x \<Rightarrow> Some x)"
  by (induction xs) auto

lemma lookup_by_None_iff: "lookup_by key k xs = None \<longleftrightarrow> k \<notin> key ` set xs"
  by (induction xs) auto

lemma lookup_by_SomeD: "lookup_by key k xs = Some e \<Longrightarrow> e \<in> set xs \<and> key e = k"
  by (induction xs) (auto split: if_splits)

lemma lookup_by_Some_iff:
  "distinct (map key xs) \<Longrightarrow> lookup_by key k xs = Some e \<longleftrightarrow> e \<in> set xs \<and> key e = k"
  by (induction xs) (auto simp: image_iff)

lemma length_replace_first [simp, vec_simps]: "length (replace_first p f xs) = length xs"
  by (induction xs) auto

lemma map_key_replace_first:
  assumes "\<And>y. p y \<Longrightarrow> key (f y) = key y"
  shows "map key (replace_first p f xs) = map key xs"
  using assms by (induction xs) auto

lemma list_ex_key [vec_simps]: "list_ex (\<lambda>y. key y = k) xs \<longleftrightarrow> k \<in> key ` set xs"
  by (induction xs) auto

lemma length_upsert [vec_simps]:
  "length (upsert p f x xs) = (if list_ex p xs then length xs else Suc (length xs))"
  by (simp add: upsert_def)

lemma distinct_upsert:
  assumes "distinct (map key xs)" and "\<And>y. key y = key x \<Longrightarrow> key (f y) = key x"
  shows "distinct (map key (upsert (\<lambda>y. key y = key x) f x xs))"
proof -
  have "map key (replace_first (\<lambda>y. key y = key x) f xs) = map key xs"
    by (rule map_key_replace_first) (simp add: assms(2))
  then show ?thesis
    using assms(1) by (auto simp: upsert_def list_ex_key)
qed

lemma lookup_replace_first:
  assumes "\<And>y. key y = k0 \<Longrightarrow> key (f y) = k0"
  shows "lookup_by key k (replace_first (\<lambda>y. key y = k0) f xs) =
     (if k = k0 then map_option f (lookup_by key k xs) else lookup_by key k xs)"
  using assms by (induction xs) auto

lemma lookup_upsert:
  assumes "\<And>y. key y = key x \<Longrightarrow> key (f y) = key x"
  shows "lookup_by key k (upsert (\<lambda>y. key y = key x) f x xs) =
     (if k = key x
      then Some (case lookup_by key k xs of None \<Rightarrow> x | Some y \<Rightarrow> f y)
      else lookup_by key k xs)"
proof (cases "list_ex (\<lambda>y. key y = key x) xs")
  case True
  then obtain y where "lookup_by key (key x) xs = Some y"
    by (cases "lookup_by key (key x) xs") (auto simp: lookup_by_None_iff list_ex_key)
  with True show ?thesis
    by (simp add: upsert_def lookup_replace_first assms)
next
  case False
  then have "lookup_by key (key x) xs = None"
    by (simp add: lookup_by_None_iff list_ex_key)
  with False show ?thesis
    by (auto simp: upsert_def lookup_by_append split: option.splits)
qed

lemma set_replace_first_subset: "set (replace_first p f xs) \<subseteq> set xs \<union> f ` {y \<in> set xs. p y}"
  by (induction xs) auto

lemma set_upsert_subset: "set (upsert p f x xs) \<subseteq> insert x (set xs \<union> f ` {y \<in> set xs. p y})"
  using set_replace_first_subset [of p f xs] by (auto simp: upsert_def)

text \<open>\<^verbatim>\<open>v.erase(std::remove_if(..., p), v.end())\<close> keeps the others in order.\<close>

definition erase_if :: "('a \<Rightarrow> bool) \<Rightarrow> 'a list \<Rightarrow> 'a list" where
  "erase_if p xs = filter (\<lambda>x. \<not> p x) xs"

lemma set_erase_if [simp, vec_simps]: "set (erase_if p xs) = {x \<in> set xs. \<not> p x}"
  by (auto simp: erase_if_def)

lemma distinct_erase_if: "distinct (map key xs) \<Longrightarrow> distinct (map key (erase_if p xs))"
  by (simp add: erase_if_def distinct_map_filter)

lemma lookup_erase_if:
  assumes "distinct (map key xs)"
  shows "lookup_by key k (erase_if p xs) =
     (case lookup_by key k xs of None \<Rightarrow> None | Some e \<Rightarrow> if p e then None else Some e)"
proof (cases "lookup_by key k xs")
  case None
  then have "lookup_by key k (erase_if p xs) = None" by (auto simp: lookup_by_None_iff)
  with None show ?thesis by simp
next
  case (Some e)
  then have "e \<in> set xs" "key e = k" by (auto dest: lookup_by_SomeD)
  show ?thesis
  proof (cases "p e")
    case True
    have "\<forall>e' \<in> set xs. key e' = k \<longrightarrow> e' = e"
      using assms \<open>e \<in> set xs\<close> \<open>key e = k\<close> by (auto simp: distinct_map inj_on_def)
    with True have "lookup_by key k (erase_if p xs) = None"
      by (auto simp: lookup_by_None_iff)
    with True Some show ?thesis by simp
  next
    case False
    then have "lookup_by key k (erase_if p xs) = Some e"
      using \<open>e \<in> set xs\<close> \<open>key e = k\<close>
      by (subst lookup_by_Some_iff) (auto intro: distinct_erase_if assms)
    with False Some show ?thesis by simp
  qed
qed

section \<open>The unsigned age test of the expiry timers\<close>

text \<open>
  All three stores test \<^verbatim>\<open>(current - timestamp) >= max_age\<close> on \<^verbatim>\<open>uint64_t\<close>.  The
  subtraction wraps when the timestamp lies in the future.
\<close>

definition expired :: "u64 \<Rightarrow> u64 \<Rightarrow> u64 \<Rightarrow> bool" where
  "expired now max_age ts \<longleftrightarrow> max_age \<le> now - ts"

lemma expired_past [age_simps]:
  "ts \<le> now \<Longrightarrow> expired now max_age ts \<longleftrightarrow> uint max_age \<le> uint now - uint ts"
  by (simp add: expired_def word_le_def uint_sub_lem [THEN iffD1])

lemma uint_sub_future:
  assumes "now < (ts :: u64)"
  shows "uint (now - ts) = 2 ^ 64 + uint now - uint ts"
proof -
  have "uint now < uint ts" "uint ts < 2 ^ 64" "0 \<le> uint now"
    using assms uint_lt2p [of ts] by (simp_all add: word_less_def)
  then have "(uint now - uint ts + 2 ^ 64) mod 2 ^ 64 = uint now - uint ts + 2 ^ 64"
    by (intro mod_pos_pos_trivial) linarith+
  then show ?thesis by (simp add: uint_word_ariths)
qed

lemma expired_future [age_simps]:
  "now < ts \<Longrightarrow> expired now max_age ts \<longleftrightarrow> uint max_age \<le> 2 ^ 64 + uint now - uint ts"
  by (simp add: expired_def word_le_def uint_sub_future)

section \<open>Records that keep the freshest entry per key\<close>

text \<open>
  The reference behaviour: of the entries offered for a key, the first one with the largest
  timestamp.
\<close>

definition fresher :: "('e \<Rightarrow> u64) \<Rightarrow> 'e \<Rightarrow> 'e option \<Rightarrow> 'e option" where
  "fresher stamp e old =
     (case old of None \<Rightarrow> Some e | Some o' \<Rightarrow> Some (if stamp o' < stamp e then e else o'))"

fun freshest_from :: "('e \<Rightarrow> 'k) \<Rightarrow> ('e \<Rightarrow> u64) \<Rightarrow> 'k \<Rightarrow> 'e list \<Rightarrow> 'e option \<Rightarrow> 'e option" where
  "freshest_from key stamp k [] old = old"
| "freshest_from key stamp k (e # es) old =
     freshest_from key stamp k es (if key e = k then fresher stamp e old else old)"

abbreviation freshest :: "('e \<Rightarrow> 'k) \<Rightarrow> ('e \<Rightarrow> u64) \<Rightarrow> 'k \<Rightarrow> 'e list \<Rightarrow> 'e option" where
  "freshest key stamp k es \<equiv> freshest_from key stamp k es None"

lemma freshest_from_Some:
  "freshest_from key stamp k es (Some o') = Some e \<Longrightarrow>
     (e = o' \<or> e \<in> set es \<and> key e = k) \<and> stamp o' \<le> stamp e \<and>
     (\<forall>x \<in> set es. key x = k \<longrightarrow> stamp x \<le> stamp e)"
proof (induction es arbitrary: o')
  case Nil
  then show ?case by simp
next
  case (Cons x es)
  let ?o = "if key x = k \<and> stamp o' < stamp x then x else o'"
  have "freshest_from key stamp k es (Some ?o) = Some e"
    using Cons.prems by (auto simp: fresher_def split: if_splits)
  from Cons.IH [OF this] show ?case
    by (auto split: if_splits intro: order_trans dest: leI)
qed

lemma freshest_from_NoneD:
  "freshest_from key stamp k es None = Some e \<Longrightarrow>
     e \<in> set es \<and> key e = k \<and> (\<forall>x \<in> set es. key x = k \<longrightarrow> stamp x \<le> stamp e)"
proof (induction es)
  case Nil
  then show ?case by simp
next
  case (Cons x es)
  show ?case
  proof (cases "key x = k")
    case True
    with Cons.prems have "freshest_from key stamp k es (Some x) = Some e"
      by (simp add: fresher_def)
    from freshest_from_Some [OF this] True show ?thesis by auto
  next
    case False
    with Cons show ?thesis by simp
  qed
qed

lemma freshest_from_not_None: "freshest_from key stamp k es (Some o') \<noteq> None"
  by (induction es arbitrary: o') (auto simp: fresher_def)

lemma freshest_None_iff: "freshest key stamp k es = None \<longleftrightarrow> k \<notin> key ` set es"
  by (induction es) (auto simp: fresher_def freshest_from_not_None)

text \<open>
  What a store of timestamped entries promises its clients, whatever its representation: keys
  stay unique, and offering an entry keeps the fresher one.
\<close>

locale freshness_store =
  fixes key :: "'e \<Rightarrow> 'k"
    and stamp :: "'e \<Rightarrow> u64"
    and put :: "'e \<Rightarrow> 's \<Rightarrow> 's"
    and entries :: "'s \<Rightarrow> 'e list"
  assumes put_distinct:
      "distinct (map key (entries s)) \<Longrightarrow> distinct (map key (entries (put e s)))"
    and put_lookup:
      "lookup_by key k (entries (put e s)) =
         (if k = key e then fresher stamp e (lookup_by key k (entries s))
          else lookup_by key k (entries s))"
begin

lemma puts_distinct:
  "distinct (map key (entries s)) \<Longrightarrow> distinct (map key (entries (fold put es s)))"
  by (induction es arbitrary: s) (auto intro: put_distinct)

lemma puts_lookup:
  "lookup_by key k (entries (fold put es s)) =
     freshest_from key stamp k es (lookup_by key k (entries s))"
  by (induction es arbitrary: s) (auto simp: put_lookup)

lemma puts_from_empty:
  "entries s = [] \<Longrightarrow> lookup_by key k (entries (fold put es s)) = freshest key stamp k es"
  by (simp add: puts_lookup)

text \<open>Out-of-order delivery is harmless when no two reports of a key share a timestamp.\<close>

lemma puts_order_irrelevant:
  assumes "entries s = []" and "mset es = mset es'"
    and inj: "inj_on (\<lambda>e. (key e, stamp e)) (set es)"
  shows "lookup_by key k (entries (fold put es s)) = lookup_by key k (entries (fold put es' s))"
proof -
  have sets: "set es = set es'" using assms(2) by (rule mset_eq_setD)
  show ?thesis
  proof (cases "freshest key stamp k es")
    case None
    then have "freshest key stamp k es' = None"
      by (simp only: freshest_None_iff sets) simp
    with None assms(1) show ?thesis by (simp add: puts_from_empty)
  next
    case (Some e)
    then have "freshest key stamp k es' \<noteq> None"
      by (metis freshest_None_iff option.distinct(1) sets)
    then obtain e' where e': "freshest key stamp k es' = Some e'" by auto
    from freshest_from_NoneD [OF Some] freshest_from_NoneD [OF e'] sets
    have "key e = key e'" "stamp e = stamp e'" "e \<in> set es" "e' \<in> set es"
      by (auto intro: order.antisym)
    then have "e = e'" using inj by (auto simp: inj_on_def)
    with Some e' assms(1) show ?thesis by (simp add: puts_from_empty)
  qed
qed

end

lemma find_unique_index:
  assumes "x \<in> set xs" and "p x" and "\<And>y. y \<in> set xs \<Longrightarrow> p y \<Longrightarrow> y = x"
  shows "find p xs = Some x"
proof (cases "find p xs")
  case None
  with assms(1,2) show ?thesis by (auto simp: find_None_iff)
next
  case (Some y)
  then have "y \<in> set xs" "p y" by (auto simp: find_Some_iff)
  with Some assms(3) show ?thesis by blast
qed

lemma find_append:
  "find p (xs @ ys) = (case find p xs of Some x \<Rightarrow> Some x | None \<Rightarrow> find p ys)"
  by (induction xs) auto

section \<open>The contract of \<^verbatim>\<open>std::sort\<close>\<close>

text \<open>
  The result is a permutation in which no element comes after one that it should precede; the
  order of equivalent elements is left open.
\<close>

locale std_sort =
  fixes before :: "'a \<Rightarrow> 'a \<Rightarrow> bool" and srt :: "'a list \<Rightarrow> 'a list"
  assumes sort_perm: "mset (srt xs) = mset xs"
    and sort_ordered: "sorted_wrt (\<lambda>x y. \<not> before y x) (srt xs)"
begin

lemma sort_set: "set (srt xs) = set xs"
  by (rule mset_eq_setD) (rule sort_perm)

lemma sort_Nil_iff: "srt xs = [] \<longleftrightarrow> xs = []"
  using sort_perm [of xs] by (metis mset_zero_iff)

text \<open>The first element with a property is one that no other such element should precede.\<close>

lemma find_sorted_best:
  assumes "find p (srt xs) = Some x" and "y \<in> set xs" and "p y" and "\<not> before x x"
  shows "x \<in> set xs \<and> p x \<and> \<not> before y x"
proof -
  obtain i where i: "i < length (srt xs)" "p (srt xs ! i)" "x = srt xs ! i"
      "\<forall>j<i. \<not> p (srt xs ! j)"
    using assms(1) by (auto simp: find_Some_iff)
  obtain j where j: "j < length (srt xs)" "y = srt xs ! j"
    using assms(2) sort_set [of xs] by (metis in_set_conv_nth)
  have "i \<le> j" using i(4) j assms(3) by (meson not_le)
  then have "i = j \<or> \<not> before y x"
    using sort_ordered [of xs] i j by (auto simp: sorted_wrt_iff_nth_less)
  moreover have "x \<in> set xs" using i sort_set [of xs] by (metis nth_mem)
  ultimately show ?thesis using i j assms(4) by auto
qed

end

end
