(* ===== verification/Std_Containers.thy ===== *)
theory Std_Containers
  imports Convoy_Prelude
begin

text \<open>
  \<^verbatim>\<open>std::map\<close> and \<^verbatim>\<open>std::set\<close> as the strictly sorted (association) lists that their
  iteration order exposes, with \<^verbatim>\<open>operator[]\<close> in its two roles: assignment, and a read
  that inserts a default value for a missing key.  The contract the stores rely on is the
  locale \<open>std_map\<close>, interpreted on these lists.
\<close>

type_synonym ('k, 'v) smap = "('k \<times> 'v) list"
type_synonym 'k sset = "'k list"

definition smap_ok :: "('k::linorder, 'v) smap \<Rightarrow> bool" where
  "smap_ok m \<longleftrightarrow> sorted_wrt (<) (map fst m)"

definition sset_ok :: "'k::linorder sset \<Rightarrow> bool" where
  "sset_ok s \<longleftrightarrow> sorted_wrt (<) s"

fun smap_upd :: "'k::linorder \<Rightarrow> 'v \<Rightarrow> ('k, 'v) smap \<Rightarrow> ('k, 'v) smap" where
  "smap_upd k v [] = [(k, v)]"
| "smap_upd k v (e # m) =
     (if fst e < k then e # smap_upd k v m
      else if fst e = k then (k, v) # m
      else (k, v) # e # m)"

definition smap_del :: "'k \<Rightarrow> ('k, 'v) smap \<Rightarrow> ('k, 'v) smap" where
  "smap_del k m = filter (\<lambda>e. fst e \<noteq> k) m"

text \<open>\<^verbatim>\<open>m[k]\<close> used as a value: the entry, which is first created from \<open>d\<close> if missing.\<close>

definition smap_index :: "'v \<Rightarrow> 'k::linorder \<Rightarrow> ('k, 'v) smap \<Rightarrow> 'v \<times> ('k, 'v) smap" where
  "smap_index d k m =
     (case map_of m k of Some v \<Rightarrow> (v, m) | None \<Rightarrow> (d, smap_upd k d m))"

fun sset_ins :: "'k::linorder \<Rightarrow> 'k sset \<Rightarrow> 'k sset" where
  "sset_ins k [] = [k]"
| "sset_ins k (x # s) =
     (if x < k then x # sset_ins k s else if x = k then x # s else k # x # s)"

lemma smap_ok_Nil [simp]: "smap_ok []" by (simp add: smap_ok_def)
lemma sset_ok_Nil [simp]: "sset_ok []" by (simp add: sset_ok_def)

lemma map_of_None_ge:
  "\<forall>e \<in> set m. k < fst e \<Longrightarrow> map_of m (k::'k::linorder) = None"
  by (induction m) auto

lemma set_smap_upd_keys: "fst ` set (smap_upd k v m) = insert k (fst ` set m)"
  by (induction m) auto

lemma map_of_smap_upd:
  "smap_ok m \<Longrightarrow> map_of (smap_upd k v m) = (map_of m)(k \<mapsto> v)"
  by (induction m) (auto simp: smap_ok_def fun_eq_iff)

lemma smap_ok_upd: "smap_ok m \<Longrightarrow> smap_ok (smap_upd k v m)"
proof (induction m)
  case Nil
  then show ?case by (simp add: smap_ok_def)
next
  case (Cons e m)
  then have "smap_ok m" "\<forall>x \<in> fst ` set m. fst e < x" by (auto simp: smap_ok_def)
  with Cons.IH show ?case
    using set_smap_upd_keys [of k v m] by (fastforce simp: smap_ok_def)
qed

lemma smap_ok_filter: "smap_ok m \<Longrightarrow> smap_ok (filter p m)"
  by (induction m) (auto simp: smap_ok_def)

lemma smap_ok_del: "smap_ok m \<Longrightarrow> smap_ok (smap_del k m)"
  by (simp add: smap_del_def smap_ok_filter)

lemma map_of_smap_del: "map_of (smap_del k m) = (map_of m)(k := None)"
  by (induction m) (auto simp: smap_del_def fun_eq_iff)

lemma smap_distinct: "smap_ok m \<Longrightarrow> distinct (map fst m)"
  using strict_sorted_iff by (auto simp: smap_ok_def)

lemma smap_size: "smap_ok m \<Longrightarrow> length m = card (dom (map_of m))"
  by (metis distinct_card dom_map_of_conv_image_fst length_map list.set_map smap_distinct)

lemma map_of_filter_key: "map_of (filter (\<lambda>e. p (fst e)) m) k = (if p k then map_of m k else None)"
  by (induction m) auto

lemma map_of_filter_val:
  "distinct (map fst m) \<Longrightarrow>
   map_of (filter (\<lambda>e. p (snd e)) m) k =
     (case map_of m k of Some v \<Rightarrow> if p v then Some v else None | None \<Rightarrow> None)"
proof (induction m)
  case (Cons e m)
  have "map_of m k = None" if "fst e = k"
    using Cons.prems that by (auto simp: map_of_eq_None_iff)
  with Cons show ?case by (auto split: option.splits)
qed simp

lemma smap_index_value: "fst (smap_index d k m) = (case map_of m k of Some v \<Rightarrow> v | None \<Rightarrow> d)"
  by (simp add: smap_index_def split: option.splits)

lemma smap_index_map:
  "smap_ok m \<Longrightarrow> map_of (snd (smap_index d k m)) =
     (map_of m)(k \<mapsto> (case map_of m k of Some v \<Rightarrow> v | None \<Rightarrow> d))"
  by (auto simp: smap_index_def map_of_smap_upd fun_eq_iff split: option.splits)

lemma smap_ok_index: "smap_ok m \<Longrightarrow> smap_ok (snd (smap_index d k m))"
  by (simp add: smap_index_def smap_ok_upd split: option.splits)

lemma set_sset_ins [simp]: "set (sset_ins k s) = insert k (set s)"
  by (induction s) auto

lemma sset_ok_ins: "sset_ok s \<Longrightarrow> sset_ok (sset_ins k s)"
  by (induction s) (auto simp: sset_ok_def)

lemma sset_distinct: "sset_ok s \<Longrightarrow> distinct s"
  using strict_sorted_iff by (auto simp: sset_ok_def)

lemma sset_size: "sset_ok s \<Longrightarrow> length s = card (set s)"
  by (simp add: distinct_card sset_distinct)

section \<open>The contract\<close>

locale std_map =
  fixes lookup :: "'m \<Rightarrow> 'k \<Rightarrow> 'v option"
    and assign :: "'k \<Rightarrow> 'v \<Rightarrow> 'm \<Rightarrow> 'm"
    and erase :: "'k \<Rightarrow> 'm \<Rightarrow> 'm"
    and size_of :: "'m \<Rightarrow> nat"
    and ok :: "'m \<Rightarrow> bool"
  assumes lookup_assign: "ok m \<Longrightarrow> lookup (assign k v m) = (lookup m)(k \<mapsto> v)"
    and lookup_erase: "ok m \<Longrightarrow> lookup (erase k m) = (lookup m)(k := None)"
    and size_card: "ok m \<Longrightarrow> size_of m = card (dom (lookup m))"
    and finite_dom: "ok m \<Longrightarrow> finite (dom (lookup m))"
    and ok_assign: "ok m \<Longrightarrow> ok (assign k v m)"
    and ok_erase: "ok m \<Longrightarrow> ok (erase k m)"
begin

lemma size_assign:
  "ok m \<Longrightarrow> size_of (assign k v m) = (if lookup m k = None then Suc (size_of m) else size_of m)"
  using finite_dom [of m]
  by (auto simp: size_card ok_assign lookup_assign insert_absorb domI split: if_splits)
     (simp add: domIff)

lemma erase_assign: "ok m \<Longrightarrow> lookup (erase k (assign k v m)) = (lookup m)(k := None)"
  by (simp add: lookup_erase lookup_assign ok_assign)

lemma erase_other: "ok m \<Longrightarrow> k' \<noteq> k \<Longrightarrow> lookup (erase k m) k' = lookup m k'"
  by (simp add: lookup_erase)

lemma size_erase_le: "ok m \<Longrightarrow> size_of (erase k m) \<le> size_of m"
  using finite_dom [of m] by (simp add: size_card ok_erase lookup_erase card_Diff1_le)

lemma ok_erases: "ok m \<Longrightarrow> ok (fold erase ks m)"
  by (induction ks arbitrary: m) (auto intro: ok_erase)

lemma lookup_erases:
  "ok m \<Longrightarrow> lookup (fold erase ks m) k = (if k \<in> set ks then None else lookup m k)"
  by (induction ks arbitrary: m) (auto simp: ok_erase lookup_erase)

end

interpretation sm: std_map "map_of" "smap_upd" "smap_del" "length" "smap_ok"
  by unfold_locales
     (auto simp: map_of_smap_upd map_of_smap_del smap_size finite_dom_map_of smap_ok_upd smap_ok_del)

lemmas smap_rules = map_of_smap_upd map_of_smap_del smap_ok_upd smap_ok_del smap_ok_index
  smap_index_value smap_index_map

end
