(* ===== verification/Binder_Nodes.thy ===== *)
theory Binder_Nodes
  imports Std_Containers
begin

text \<open>
  simu5G's \<^verbatim>\<open>Binder\<close> (\<^verbatim>\<open>Binder.cc\<close>), the one global directory of the
  network: its state, the assignment of MAC node identifiers, and the next-hop table that
  the convoy routing consults.  The convoy registry and the radio tables of the same class
  are in \<^verbatim>\<open>Binder_Convoy\<close> and \<^verbatim>\<open>Binder_Radio\<close>.
\<close>

section \<open>State\<close>

datatype RanNodeType = UE | ENODEB | GNODEB | UNKNOWN_NODE_TYPE

datatype LteD2DMode = IM | DM

type_synonym NumerologyIndex = "16 word"
type_synonym Ipv4Address = "32 word"

datatype Direction = DL | UL | D2D | D2D_MULTI | UNKNOWN_DIRECTION

record SlotFormat =
  sf_tdd :: bool
  sf_numDlSymbols :: u32
  sf_numUlSymbols :: u32
  sf_numFlexSymbols :: u32

record CarrierInfo =
  ci_carrierFrequency :: real
  ci_numBands :: u32
  ci_numerologyIndex :: NumerologyIndex
  ci_slotFormat :: SlotFormat

text \<open>An entry of the uplink transmission map; the two pointers are module ids.\<close>

record UeAllocationInfo =
  ua_nodeId :: MacNodeId
  ua_cellId :: MacNodeId
  ua_phy :: "int option"
  ua_trafficGen :: "int option"
  ua_dir :: Direction

record Binder =
  macNodeIdCounter0 :: MacNodeId
  macNodeIdCounter1 :: MacNodeId
  macNodeIdCounter2 :: MacNodeId
  nodeIds :: "(int, int) smap"
  nextHop :: "MacNodeId list"
  secondaryNodeToMasterNode :: "MacNodeId list"
  dMap :: "(MacNodeId, (MacNodeId, bool) smap) smap"
  totalBands :: u32
  componentCarriers :: "(real, CarrierInfo) smap"
  carrierUeMap :: "(real, MacNodeId sset) smap"
  carrierFreqToNumerologyIndex :: "(real, NumerologyIndex) smap"
  ueMaxNumerologyIndex :: "NumerologyIndex list"
  ueNumerologyIndex :: "(MacNodeId, NumerologyIndex sset) smap"
  x2ListeningPorts :: "(MacNodeId, int list) smap"
  d2dPeeringMap :: "(MacNodeId, (MacNodeId, LteD2DMode) smap) smap"
  multicastGroupMap :: "(MacNodeId, u32 sset) smap"
  multicastTransmitterSet :: "MacNodeId sset"
  ueHandoverTriggered :: "MacNodeId sset"
  handoverTriggered :: "(MacNodeId, MacNodeId \<times> MacNodeId) smap"
  macNodeIdToIPAddress :: "(Ipv4Address, MacNodeId) smap"
  nrMacNodeIdToIPAddress :: "(Ipv4Address, MacNodeId) smap"
  ueList :: "(MacNodeId \<times> MacNodeId) list"
  ulTransmissionMap :: "(real, UeAllocationInfo list list list) smap"
  lastUpdateUplinkTransmissionInfo :: simtime
  lastUplinkTransmission :: simtime
  id_list_convoys :: "int list"
  cluster_map :: "(int, MacNodeId list) smap"

definition ENB_MIN_ID :: MacNodeId where "ENB_MIN_ID = 1"
definition ENB_MAX_ID :: MacNodeId where "ENB_MAX_ID = 1023"
definition UE_MIN_ID :: MacNodeId where "UE_MIN_ID = 1025"
definition NR_UE_MIN_ID :: MacNodeId where "NR_UE_MIN_ID = 2049"

lemmas id_bounds = ENB_MIN_ID_def ENB_MAX_ID_def UE_MIN_ID_def NR_UE_MIN_ID_def

text \<open>The constructor \<^verbatim>\<open>Binder()\<close>.\<close>

definition new_Binder :: Binder where
  "new_Binder = \<lparr>macNodeIdCounter0 = ENB_MIN_ID, macNodeIdCounter1 = UE_MIN_ID,
     macNodeIdCounter2 = NR_UE_MIN_ID, nodeIds = [], nextHop = [],
     secondaryNodeToMasterNode = [], dMap = [], totalBands = 0, componentCarriers = [],
     carrierUeMap = [], carrierFreqToNumerologyIndex = [], ueMaxNumerologyIndex = [],
     ueNumerologyIndex = [], x2ListeningPorts = [], d2dPeeringMap = [], multicastGroupMap = [],
     multicastTransmitterSet = [], ueHandoverTriggered = [], handoverTriggered = [],
     macNodeIdToIPAddress = [], nrMacNodeIdToIPAddress = [], ueList = [], ulTransmissionMap = [],
     lastUpdateUplinkTransmissionInfo = 0, lastUplinkTransmission = 0,
     id_list_convoys = [], cluster_map = []\<rparr>"

section \<open>Operations\<close>

definition getNodeTypeById :: "MacNodeId \<Rightarrow> RanNodeType" where
  "getNodeTypeById i =
     (if ENB_MIN_ID \<le> i \<and> i \<le> ENB_MAX_ID then ENODEB
      else if UE_MIN_ID \<le> i then UE
      else UNKNOWN_NODE_TYPE)"

definition isNrUe :: "MacNodeId \<Rightarrow> bool" where
  "isNrUe i \<longleftrightarrow> getNodeTypeById i = UE \<and> NR_UE_MIN_ID \<le> i"

text \<open>\<^verbatim>\<open>if (v.size() <= i) v.resize(i + 1); v[i] = x;\<close> with zero-initialised new slots.\<close>

definition grow_set :: "nat \<Rightarrow> MacNodeId \<Rightarrow> MacNodeId list \<Rightarrow> MacNodeId list" where
  "grow_set i x v = (v @ replicate (Suc i - length v) 0)[i := x]"

text \<open>\<^verbatim>\<open>dMap_[master][slave] = b\<close>\<close>

definition dMap_set ::
  "MacNodeId \<Rightarrow> MacNodeId \<Rightarrow> bool \<Rightarrow> (MacNodeId, (MacNodeId, bool) smap) smap
    \<Rightarrow> (MacNodeId, (MacNodeId, bool) smap) smap" where
  "dMap_set m s v d = smap_upd m (smap_upd s v (fst (smap_index [] m d))) d"

definition registerNextHop :: "MacNodeId \<Rightarrow> MacNodeId \<Rightarrow> Binder \<Rightarrow> Binder" where
  "registerNextHop masterId slaveId b =
     (let b1 = (if masterId \<noteq> slaveId
                then b\<lparr>dMap := dMap_set masterId slaveId True (dMap b)\<rparr> else b)
      in b1\<lparr>nextHop := grow_set (unat slaveId) masterId (nextHop b1)\<rparr>)"

definition unregisterNextHop :: "MacNodeId \<Rightarrow> MacNodeId \<Rightarrow> Binder \<Rightarrow> Binder" where
  "unregisterNextHop masterId slaveId b =
     (let b1 = b\<lparr>dMap := dMap_set masterId slaveId False (dMap b)\<rparr>
      in if length (nextHop b1) \<le> unat slaveId then b1
         else b1\<lparr>nextHop := (nextHop b1)[unat slaveId := 0]\<rparr>)"

definition getNextHop :: "MacNodeId \<Rightarrow> Binder \<Rightarrow> MacNodeId res" where
  "getNextHop slaveId b =
     (if length (nextHop b) \<le> unat slaveId
      then Inl (RuntimeError ''Binder::getNextHop(): bad slave id'')
      else Inr (nextHop b ! unat slaveId))"

definition registerMasterNode :: "MacNodeId \<Rightarrow> MacNodeId \<Rightarrow> Binder \<Rightarrow> Binder" where
  "registerMasterNode masterId slaveId b =
     b\<lparr>secondaryNodeToMasterNode :=
        grow_set (unat slaveId) (if masterId = 0 then slaveId else masterId)
          (secondaryNodeToMasterNode b)\<rparr>"

definition getMasterNode :: "MacNodeId \<Rightarrow> Binder \<Rightarrow> MacNodeId res" where
  "getMasterNode slaveId b =
     (if length (secondaryNodeToMasterNode b) \<le> unat slaveId
      then Inl (RuntimeError ''Binder::getMasterNode(): bad slave id'')
      else Inr (secondaryNodeToMasterNode b ! unat slaveId))"

text \<open>
  \<open>registerNode\<close> draws the identifier from the counter of the node's kind (16-bit, so the
  increment wraps), enters the module's OMNeT id and connects the node.  An unknown kind keeps
  the initial \<^verbatim>\<open>-1\<close>.
\<close>

definition draw_id :: "RanNodeType \<Rightarrow> bool \<Rightarrow> Binder \<Rightarrow> MacNodeId \<times> Binder" where
  "draw_id ty registerNr b =
     (if ty = UE
      then (if \<not> registerNr
            then (macNodeIdCounter1 b, b\<lparr>macNodeIdCounter1 := macNodeIdCounter1 b + 1\<rparr>)
            else (macNodeIdCounter2 b, b\<lparr>macNodeIdCounter2 := macNodeIdCounter2 b + 1\<rparr>))
      else if ty = ENODEB \<or> ty = GNODEB
      then (macNodeIdCounter0 b, b\<lparr>macNodeIdCounter0 := macNodeIdCounter0 b + 1\<rparr>)
      else (- 1, b))"

definition registerNode ::
  "int \<Rightarrow> RanNodeType \<Rightarrow> MacNodeId \<Rightarrow> bool \<Rightarrow> Binder \<Rightarrow> MacNodeId \<times> Binder" where
  "registerNode omnetId ty masterId registerNr b =
     (let (macNodeId, b1) = draw_id ty registerNr b;
          b2 = b1\<lparr>nodeIds := smap_upd (uint macNodeId) omnetId (nodeIds b1)\<rparr>;
          b3 = (if ty = UE then registerNextHop masterId macNodeId b2
                else if ty = ENODEB \<or> ty = GNODEB
                then registerMasterNode masterId macNodeId (registerNextHop macNodeId macNodeId b2)
                else b2)
      in (macNodeId, b3))"

definition getOmnetId :: "MacNodeId \<Rightarrow> Binder \<Rightarrow> int" where
  "getOmnetId nodeId b = (case map_of (nodeIds b) (uint nodeId) of Some i \<Rightarrow> i | None \<Rightarrow> 0)"

definition getMacNodeIdFromOmnetId :: "int \<Rightarrow> Binder \<Rightarrow> MacNodeId" where
  "getMacNodeIdFromOmnetId i b =
     (case find (\<lambda>e. snd e = i) (nodeIds b) of Some e \<Rightarrow> word_of_int (fst e) | None \<Rightarrow> 0)"

text \<open>\<^verbatim>\<open>getDeployedUes\<close> returns \<^verbatim>\<open>dMap_[localId]\<close>, which creates a missing entry.\<close>

definition getDeployedUes :: "MacNodeId \<Rightarrow> Binder \<Rightarrow> (MacNodeId, bool) smap \<times> Binder" where
  "getDeployedUes localId b =
     (let (m, d) = smap_index [] localId (dMap b) in (m, b\<lparr>dMap := d\<rparr>))"

section \<open>The next-hop table\<close>

lemma length_grow_set [simp]: "length (grow_set i x v) = max (length v) (Suc i)"
  by (simp add: grow_set_def)

lemma nth_grow_set:
  "j < length (grow_set i x v) \<Longrightarrow>
     grow_set i x v ! j = (if j = i then x else if j < length v then v ! j else 0)"
  by (auto simp: grow_set_def nth_list_update nth_append)

lemma nextHop_registerNextHop:
  "nextHop (registerNextHop m s b) = grow_set (unat s) m (nextHop b)"
  by (simp add: registerNextHop_def Let_def)

lemma getNextHop_registerNextHop:
  "getNextHop s' (registerNextHop m s b) =
     (if s' = s then Inr m
      else if length (nextHop b) \<le> unat s' \<and> unat s' < unat s then Inr 0
      else getNextHop s' b)"
proof (cases "s' = s")
  case True
  then show ?thesis
    by (simp add: getNextHop_def nextHop_registerNextHop nth_grow_set not_le)
next
  case False
  then have "unat s' \<noteq> unat s" by (simp add: word_unat_eq_iff)
  with False show ?thesis
    by (auto simp: getNextHop_def nextHop_registerNextHop nth_grow_set not_le)
qed

lemma getNextHop_unregisterNextHop:
  "getNextHop s' (unregisterNextHop m s b) =
     (if s' = s then (case getNextHop s b of Inl e \<Rightarrow> Inl e | Inr _ \<Rightarrow> Inr 0)
      else getNextHop s' b)"
proof (cases "s' = s")
  case True
  then show ?thesis by (simp add: getNextHop_def unregisterNextHop_def Let_def not_le)
next
  case False
  then have "unat s' \<noteq> unat s" by (simp add: word_unat_eq_iff)
  with False show ?thesis by (simp add: getNextHop_def unregisterNextHop_def Let_def)
qed

lemma getMasterNode_registerMasterNode:
  "getMasterNode s (registerMasterNode m s b) = Inr (if m = 0 then s else m)"
  by (simp add: getMasterNode_def registerMasterNode_def nth_grow_set not_le)

text \<open>
  The part of the state an operation leaves alone: the next-hop operations touch the hop table
  and the deployment map only.
\<close>

lemma registerNextHop_frame [simp]:
  "nodeIds (registerNextHop m s b) = nodeIds b"
  "macNodeIdCounter0 (registerNextHop m s b) = macNodeIdCounter0 b"
  "macNodeIdCounter1 (registerNextHop m s b) = macNodeIdCounter1 b"
  "macNodeIdCounter2 (registerNextHop m s b) = macNodeIdCounter2 b"
  "id_list_convoys (registerNextHop m s b) = id_list_convoys b"
  "cluster_map (registerNextHop m s b) = cluster_map b"
  by (simp_all add: registerNextHop_def Let_def)

lemma unregisterNextHop_frame [simp]:
  "nodeIds (unregisterNextHop m s b) = nodeIds b"
  "id_list_convoys (unregisterNextHop m s b) = id_list_convoys b"
  "cluster_map (unregisterNextHop m s b) = cluster_map b"
  by (simp_all add: unregisterNextHop_def Let_def)

lemma registerMasterNode_frame [simp]:
  "nodeIds (registerMasterNode m s b) = nodeIds b"
  "macNodeIdCounter0 (registerMasterNode m s b) = macNodeIdCounter0 b"
  "macNodeIdCounter1 (registerMasterNode m s b) = macNodeIdCounter1 b"
  "macNodeIdCounter2 (registerMasterNode m s b) = macNodeIdCounter2 b"
  "nextHop (registerMasterNode m s b) = nextHop b"
  "id_list_convoys (registerMasterNode m s b) = id_list_convoys b"
  "cluster_map (registerMasterNode m s b) = cluster_map b"
  by (simp_all add: registerMasterNode_def)

lemma getNextHop_registerMasterNode [simp]:
  "getNextHop x (registerMasterNode m s b) = getNextHop x b"
  by (simp add: getNextHop_def)

section \<open>Identifier assignment\<close>

text \<open>
  The identifiers in use lie below the counters of their kind, and the counters stay inside the
  range of their kind.
\<close>

definition ids_ok :: "Binder \<Rightarrow> bool" where
  "ids_ok b \<longleftrightarrow> smap_ok (nodeIds b) \<and>
     1 \<le> uint (macNodeIdCounter0 b) \<and> uint (macNodeIdCounter0 b) \<le> 1024 \<and>
     1025 \<le> uint (macNodeIdCounter1 b) \<and> uint (macNodeIdCounter1 b) \<le> 2049 \<and>
     2049 \<le> uint (macNodeIdCounter2 b) \<and>
     fst ` set (nodeIds b) \<subseteq> {1..<uint (macNodeIdCounter0 b)} \<union>
       {1025..<uint (macNodeIdCounter1 b)} \<union> {2049..<uint (macNodeIdCounter2 b)}"

text \<open>Room for one more node of a kind.\<close>

definition id_room :: "RanNodeType \<Rightarrow> bool \<Rightarrow> Binder \<Rightarrow> bool" where
  "id_room ty nr b \<longleftrightarrow>
     (case ty of UE \<Rightarrow> if nr then uint (macNodeIdCounter2 b) < 65535
                       else uint (macNodeIdCounter1 b) < 2049
      | UNKNOWN_NODE_TYPE \<Rightarrow> False
      | _ \<Rightarrow> uint (macNodeIdCounter0 b) < 1024)"

lemma ids_ok_new: "ids_ok new_Binder"
  by (simp add: ids_ok_def new_Binder_def id_bounds)

lemma uint_succ16: "uint (c :: MacNodeId) < 65535 \<Longrightarrow> uint (c + 1) = uint c + 1"
  by (simp add: uint_word_ariths)

lemma nodeIds_registerNode:
  "nodeIds (snd (registerNode i ty m nr b)) =
     smap_upd (uint (fst (registerNode i ty m nr b))) i (nodeIds b)"
  by (cases ty) (auto simp: registerNode_def draw_id_def Let_def split_def)

lemma registerNode_id:
  "fst (registerNode i ty m nr b) = fst (draw_id ty nr b)"
  by (simp add: registerNode_def Let_def split_def)

lemma registerNode_counters:
  "macNodeIdCounter0 (snd (registerNode i ty m nr b)) = macNodeIdCounter0 (snd (draw_id ty nr b))"
  "macNodeIdCounter1 (snd (registerNode i ty m nr b)) = macNodeIdCounter1 (snd (draw_id ty nr b))"
  "macNodeIdCounter2 (snd (registerNode i ty m nr b)) = macNodeIdCounter2 (snd (draw_id ty nr b))"
  by (simp_all add: registerNode_def Let_def split_def)

lemma registerNode_registry [simp]:
  "id_list_convoys (snd (registerNode i ty m nr b)) = id_list_convoys b"
  "cluster_map (snd (registerNode i ty m nr b)) = cluster_map b"
  by (simp_all add: registerNode_def draw_id_def Let_def split_def)

lemma registerNode_ids_ok:
  assumes "ids_ok b" and "id_room ty nr b"
  shows "ids_ok (snd (registerNode i ty m nr b))"
  using assms
  by (cases ty)
     (auto simp: ids_ok_def id_room_def nodeIds_registerNode registerNode_id registerNode_counters
        draw_id_def uint_succ16 set_smap_upd_keys smap_ok_upd split: if_splits dest!: subsetD)

lemma registerNode_fresh:
  assumes "ids_ok b" and "id_room ty nr b"
  shows "map_of (nodeIds b) (uint (fst (registerNode i ty m nr b))) = None"
  using assms
  by (cases ty)
     (auto simp: ids_ok_def id_room_def registerNode_id draw_id_def map_of_eq_None_iff
        split: if_splits dest!: subsetD)

lemma getOmnetId_registerNode:
  assumes "ids_ok b"
  shows "getOmnetId j (snd (registerNode i ty m nr b)) =
     (if j = fst (registerNode i ty m nr b) then i else getOmnetId j b)"
  using assms
  by (auto simp: getOmnetId_def nodeIds_registerNode map_of_smap_upd ids_ok_def word_uint_eq_iff)

lemma getNextHop_registerNode:
  "ty \<noteq> UNKNOWN_NODE_TYPE \<Longrightarrow>
   getNextHop (fst (registerNode i ty m nr b)) (snd (registerNode i ty m nr b)) =
     Inr (if ty = UE then m else fst (registerNode i ty m nr b))"
  by (cases ty) (simp_all add: registerNode_def Let_def split_def getNextHop_registerNextHop)

section \<open>Properties\<close>

text \<open>A sequence of registrations, with the identifiers handed out.\<close>

fun registerNodes ::
  "(int \<times> RanNodeType \<times> MacNodeId \<times> bool) list \<Rightarrow> Binder \<Rightarrow> MacNodeId list \<times> Binder" where
  "registerNodes [] b = ([], b)"
| "registerNodes ((i, ty, m, nr) # rs) b =
     (let (w, b1) = registerNode i ty m nr b; (ws, b2) = registerNodes rs b1 in (w # ws, b2))"

text \<open>Every registration of the sequence finds a free identifier of its kind.\<close>

fun rooms :: "(int \<times> RanNodeType \<times> MacNodeId \<times> bool) list \<Rightarrow> Binder \<Rightarrow> bool" where
  "rooms [] b \<longleftrightarrow> True"
| "rooms ((i, ty, m, nr) # rs) b \<longleftrightarrow> id_room ty nr b \<and> rooms rs (snd (registerNode i ty m nr b))"

lemma registerNodes_ids:
  assumes "ids_ok b" and "rooms rs b" and "registerNodes rs b = (ws, b')"
  shows "ids_ok b' \<and> length ws = length rs \<and> distinct ws \<and>
     (\<forall>w \<in> set ws. map_of (nodeIds b) (uint w) = None) \<and>
     (\<forall>j. j \<notin> set ws \<longrightarrow> getOmnetId j b' = getOmnetId j b) \<and>
     (\<forall>k < length rs. getOmnetId (ws ! k) b' = fst (rs ! k))"
  using assms
proof (induction rs arbitrary: b ws b')
  case Nil
  then show ?case by simp
next
  case (Cons r rs)
  obtain i ty m nr where r: "r = (i, ty, m, nr)" by (cases r)
  define w b1 where "w = fst (registerNode i ty m nr b)" and "b1 = snd (registerNode i ty m nr b)"
  obtain ws' where ws': "registerNodes rs b1 = (ws', b')" "ws = w # ws'"
    using Cons.prems(3) by (cases "registerNodes rs b1") (auto simp: r w_def b1_def split_def Let_def)
  have room: "id_room ty nr b" "rooms rs b1" using Cons.prems(2) by (simp_all add: r b1_def)
  have ok1: "ids_ok b1" unfolding b1_def by (rule registerNode_ids_ok [OF Cons.prems(1) room(1)])
  have omnet: "getOmnetId j b1 = (if j = w then i else getOmnetId j b)" for j
    unfolding b1_def w_def by (rule getOmnetId_registerNode [OF Cons.prems(1)])
  have keys: "map_of (nodeIds b1) (uint x) = (if x = w then Some i else map_of (nodeIds b) (uint x))" for x
    using Cons.prems(1)
    by (simp add: b1_def w_def nodeIds_registerNode map_of_smap_upd ids_ok_def word_uint_eq_iff)
  have "map_of (nodeIds b) (uint w) = None"
    unfolding w_def by (rule registerNode_fresh [OF Cons.prems(1) room(1)])
  with Cons.IH [OF ok1 room(2) ws'(1)] keys omnet show ?case
    by (auto simp: ws'(2) r nth_Cons split: nat.splits if_splits)
qed

text \<open>
  C28. From a fresh Binder, as long as no kind of node exhausts its range, every registered node
  gets an identifier of its own and the Binder finds each node's module under it.
\<close>

theorem registerNodes_unique:
  assumes "rooms rs new_Binder" and "registerNodes rs new_Binder = (ws, b)"
  shows "distinct ws \<and> length ws = length rs \<and>
     (\<forall>k < length rs. getOmnetId (ws ! k) b = fst (rs ! k))"
  using registerNodes_ids [OF ids_ok_new assms] by blast

theorem registerNodes_unique_witness:
  "distinct (fst (registerNodes [(70, GNODEB, 0, False), (71, UE, 1, False), (71, UE, 1, True)] new_Binder))"
proof -
  have "rooms [(70, GNODEB, 0, False), (71, UE, 1, False), (71, UE, 1, True)] new_Binder"
    by (simp add: id_room_def new_Binder_def id_bounds registerNode_counters draw_id_def)
  from registerNodes_unique [OF this prod.collapse [symmetric]] show ?thesis by simp
qed

text \<open>
  The range of base stations is not enforced: once 1024 base stations are registered, the
  next one is given the identifier 1025, which is the first UE identifier; it takes over that
  UE's entry and its type is read as UE.
\<close>

theorem registerNode_base_station_range_overrun:
  assumes "ids_ok (b\<lparr>macNodeIdCounter0 := 1\<rparr>)" and "macNodeIdCounter0 b = UE_MIN_ID"
    and "map_of (nodeIds b) (uint UE_MIN_ID) = Some ue"
  shows "fst (registerNode i GNODEB m nr b) = UE_MIN_ID \<and>
     getNodeTypeById (fst (registerNode i GNODEB m nr b)) = UE \<and>
     getOmnetId UE_MIN_ID b = ue \<and> getOmnetId UE_MIN_ID (snd (registerNode i GNODEB m nr b)) = i"
  using assms
  by (simp add: registerNode_id draw_id_def getNodeTypeById_def id_bounds getOmnetId_def
      nodeIds_registerNode map_of_smap_upd ids_ok_def)

theorem registerNode_base_station_range_overrun_witness:
  "getOmnetId UE_MIN_ID (snd (registerNode 99 GNODEB 0 False
     (new_Binder\<lparr>macNodeIdCounter0 := UE_MIN_ID, macNodeIdCounter1 := UE_MIN_ID + 1, nodeIds := [(1025, 71)]\<rparr>))) = 99"
proof -
  let ?b = "new_Binder\<lparr>macNodeIdCounter0 := UE_MIN_ID, macNodeIdCounter1 := UE_MIN_ID + 1,
      nodeIds := [(1025, 71)]\<rparr>"
  have "ids_ok (?b\<lparr>macNodeIdCounter0 := 1\<rparr>)"
    by (simp add: ids_ok_def new_Binder_def id_bounds smap_ok_def)
  from registerNode_base_station_range_overrun [OF this, of 71 99 0 False] show ?thesis
    by (simp add: id_bounds)
qed

end
