(* ===== verification/Binder_Radio.thy ===== *)
theory Binder_Radio
  imports Binder_Nodes
begin

text \<open>
  The radio side of simu5G's \<^verbatim>\<open>Binder\<close>: component carriers and numerologies, slot
  formats, channel-quality aggregates, addresses, multicast groups, device-to-device modes,
  pending handovers, X2 ports and the uplink transmission map.
\<close>

section \<open>Carriers\<close>

definition computeSlotFormat :: "bool \<Rightarrow> u32 \<Rightarrow> u32 \<Rightarrow> SlotFormat res" where
  "computeSlotFormat useTdd dl ul =
     (if \<not> useTdd
      then Inr \<lparr>sf_tdd = False, sf_numDlSymbols = 0, sf_numUlSymbols = 0, sf_numFlexSymbols = 0\<rparr>
      else (let rbxDl = 7 :: u32; numSymbols = rbxDl * 2
            in if numSymbols < dl + ul
               then Inl (RuntimeError ''Binder::computeSlotFormat - Number of symbols not valid'')
               else Inr \<lparr>sf_tdd = True, sf_numDlSymbols = dl, sf_numUlSymbols = ul,
                         sf_numFlexSymbols = numSymbols - dl - ul\<rparr>))"

text \<open>
  The numerology index narrows to 16 bits where it is stored; the band limits of a carrier,
  which \<open>registerCarrier\<close> leaves unset, are not part of \<open>CarrierInfo\<close>.
\<close>

definition registerCarrier ::
  "real \<Rightarrow> u32 \<Rightarrow> u32 \<Rightarrow> bool \<Rightarrow> u32 \<Rightarrow> u32 \<Rightarrow> Binder \<Rightarrow> Binder res" where
  "registerCarrier f carrierNumBands numerologyIndex useTdd dl ul b =
     (if (case map_of (componentCarriers b) f of
            Some old \<Rightarrow> carrierNumBands \<le> ci_numBands old | None \<Rightarrow> False)
      then Inr b
      else rbind (computeSlotFormat useTdd dl ul) (\<lambda>sf. Inr (b\<lparr>
        componentCarriers := smap_upd f \<lparr>ci_carrierFrequency = f, ci_numBands = carrierNumBands,
          ci_numerologyIndex = ucast numerologyIndex, ci_slotFormat = sf\<rparr> (componentCarriers b),
        totalBands := totalBands b + carrierNumBands,
        carrierFreqToNumerologyIndex :=
          smap_upd f (ucast numerologyIndex) (carrierFreqToNumerologyIndex b),
        carrierUeMap := smap_upd f [] (carrierUeMap b)\<rparr>)))"

definition grow :: "nat \<Rightarrow> NumerologyIndex list \<Rightarrow> NumerologyIndex list" where
  "grow n v = v @ replicate (n - length v) 0"

definition registerCarrierUe :: "real \<Rightarrow> u32 \<Rightarrow> MacNodeId \<Rightarrow> Binder \<Rightarrow> Binder res" where
  "registerCarrierUe f numerologyIndex ueId b =
     (case map_of (carrierUeMap b) f of
        None \<Rightarrow> Inl (RuntimeError ''Binder::registerCarrierUe - Carrier not found'')
      | Some ues \<Rightarrow>
          (let b1 = b\<lparr>carrierUeMap := smap_upd f (sset_ins ueId ues) (carrierUeMap b)\<rparr>;
               nums = (case map_of (ueNumerologyIndex b1) ueId of None \<Rightarrow> [] | Some s \<Rightarrow> s);
               b2 = b1\<lparr>ueNumerologyIndex :=
                 smap_upd ueId (sset_ins (ucast numerologyIndex) nums) (ueNumerologyIndex b1)\<rparr>;
               v = ueMaxNumerologyIndex b2; u = unat ueId
           in Inr (b2\<lparr>ueMaxNumerologyIndex :=
                if length v \<le> u then (grow (Suc u) v)[u := ucast numerologyIndex]
                else v[u := if ucast (v ! u) < numerologyIndex then ucast numerologyIndex else v ! u]\<rparr>)))"

definition getCarrierUeSet :: "real \<Rightarrow> Binder \<Rightarrow> MacNodeId sset res" where
  "getCarrierUeSet f b =
     (case map_of (carrierUeMap b) f of
        None \<Rightarrow> Inl (RuntimeError ''Binder::getCarrierUeSet - Carrier not found'') | Some s \<Rightarrow> Inr s)"

text \<open>An unchecked \<^verbatim>\<open>operator[]\<close>: past the end it has no defined result.\<close>

definition getUeMaxNumerologyIndex :: "MacNodeId \<Rightarrow> Binder \<Rightarrow> NumerologyIndex res" where
  "getUeMaxNumerologyIndex ueId b =
     (if unat ueId < length (ueMaxNumerologyIndex b)
      then Inr (ueMaxNumerologyIndex b ! unat ueId) else Inl OutOfRange)"

definition getUeNumerologyIndex :: "MacNodeId \<Rightarrow> Binder \<Rightarrow> NumerologyIndex sset option" where
  "getUeNumerologyIndex ueId b = map_of (ueNumerologyIndex b) ueId"

definition getSlotFormat :: "real \<Rightarrow> Binder \<Rightarrow> SlotFormat res" where
  "getSlotFormat f b =
     (case map_of (componentCarriers b) f of
        None \<Rightarrow> Inl (RuntimeError ''Binder::getSlotFormat - Carrier not found'')
      | Some ci \<Rightarrow> Inr (ci_slotFormat ci))"

section \<open>Channel quality\<close>

text \<open>\<^verbatim>\<open>Cqi\<close> is 16 bits wide: the sum wraps.  An empty vector divides by zero.\<close>

definition meanCqi :: "16 word list \<Rightarrow> 16 word res" where
  "meanCqi bandCqi =
     (if bandCqi = [] then Inl DivisionByZero
      else (let mean = word_of_nat (unat (foldl (+) 0 bandCqi) div length bandCqi)
            in Inr (if mean = 0 then 1 else mean)))"

definition medianCqi :: "16 word list \<Rightarrow> 16 word res" where
  "medianCqi bandCqi =
     (let v = sort bandCqi; medianPoint = length v div 2
      in if medianPoint < length v then Inr (v ! medianPoint) else Inl OutOfRange)"

definition computeInterferencePercentageDl :: "real \<Rightarrow> real \<Rightarrow> u32 \<Rightarrow> real" where
  "computeInterferencePercentageDl n k numBands =
     (if n = 0 then 0 else (if n < k then n else k) / n)"

definition computeInterferencePercentageUl :: "real \<Rightarrow> real \<Rightarrow> real \<Rightarrow> real \<Rightarrow> real" where
  "computeInterferencePercentageUl n k nTotal kTotal =
     (let m = (if kTotal < nTotal then nTotal else kTotal) in if m = 0 then 0 else k / m)"

definition computeRequestedRbsFromSinr :: "real \<Rightarrow> real \<Rightarrow> real \<Rightarrow> real" where
  "computeRequestedRbsFromSinr maxDataRatePerRb sinr reqLoad =
     (let MIN_SINR = - 5.5; MAX_SINR = 25.5;
          sinr1 = (if sinr \<le> - 3.5 then - 3.5 else sinr);
          sinr2 = (if MAX_SINR < sinr1 then MAX_SINR else sinr1);
          sinrRange = MAX_SINR - MIN_SINR;
          normalizedSinr = (sinr2 + \<bar>MIN_SINR\<bar>) / sinrRange;
          bitRate = normalizedSinr * maxDataRatePerRb
      in reqLoad / bitRate)"

section \<open>Addresses\<close>

definition getNrMacNodeId :: "Ipv4Address \<Rightarrow> Binder \<Rightarrow> MacNodeId" where
  "getNrMacNodeId address b =
     (case map_of (nrMacNodeIdToIPAddress b) address of None \<Rightarrow> 0 | Some i \<Rightarrow> i)"

text \<open>A UE whose LTE side is disconnected is addressed by its NR identifier.\<close>

definition getMacNodeId :: "Ipv4Address \<Rightarrow> Binder \<Rightarrow> MacNodeId res" where
  "getMacNodeId address b =
     (case map_of (macNodeIdToIPAddress b) address of
        None \<Rightarrow> Inr 0
      | Some nodeId \<Rightarrow> rbind (getNextHop nodeId b) (\<lambda>hop.
          Inr (if hop = 0 then getNrMacNodeId address b else nodeId)))"

definition setMacNodeId :: "Ipv4Address \<Rightarrow> MacNodeId \<Rightarrow> Binder \<Rightarrow> Binder" where
  "setMacNodeId address nodeId b =
     (if isNrUe nodeId
      then b\<lparr>nrMacNodeIdToIPAddress := smap_upd address nodeId (nrMacNodeIdToIPAddress b)\<rparr>
      else b\<lparr>macNodeIdToIPAddress := smap_upd address nodeId (macNodeIdToIPAddress b)\<rparr>)"

text \<open>\<^verbatim>\<open>UNSPECIFIED_ADDRESS\<close> is 0.\<close>

definition getIPv4Address :: "MacNodeId \<Rightarrow> Binder \<Rightarrow> Ipv4Address" where
  "getIPv4Address nodeId b =
     (case find (\<lambda>kv. snd kv = nodeId) (macNodeIdToIPAddress b) of
        Some kv \<Rightarrow> fst kv
      | None \<Rightarrow> (case find (\<lambda>kv. snd kv = nodeId) (nrMacNodeIdToIPAddress b) of
                   Some kv \<Rightarrow> fst kv | None \<Rightarrow> 0))"

section \<open>Multicast groups, device-to-device modes, handovers, X2 ports\<close>

definition registerMulticastGroup :: "MacNodeId \<Rightarrow> u32 \<Rightarrow> Binder \<Rightarrow> Binder" where
  "registerMulticastGroup nodeId groupId b =
     (case map_of (multicastGroupMap b) nodeId of
        None \<Rightarrow> b\<lparr>multicastGroupMap := smap_upd nodeId (sset_ins groupId []) (multicastGroupMap b)\<rparr>
      | Some s \<Rightarrow> b\<lparr>multicastGroupMap := smap_upd nodeId (sset_ins groupId s) (multicastGroupMap b)\<rparr>)"

definition isInMulticastGroup :: "MacNodeId \<Rightarrow> u32 \<Rightarrow> Binder \<Rightarrow> bool" where
  "isInMulticastGroup nodeId groupId b =
     (case map_of (multicastGroupMap b) nodeId of None \<Rightarrow> False | Some s \<Rightarrow> groupId \<in> set s)"

definition addD2DMulticastTransmitter :: "MacNodeId \<Rightarrow> Binder \<Rightarrow> Binder" where
  "addD2DMulticastTransmitter nodeId b =
     b\<lparr>multicastTransmitterSet := sset_ins nodeId (multicastTransmitterSet b)\<rparr>"

text \<open>The identifier test that the three D2D operations share.\<close>

definition not_a_ue :: "MacNodeId \<Rightarrow> Binder \<Rightarrow> bool" where
  "not_a_ue i b \<longleftrightarrow> i < UE_MIN_ID \<or> (macNodeIdCounter1 b \<le> i \<and> i < NR_UE_MIN_ID) \<or>
     macNodeIdCounter2 b \<le> i"

definition d2d_entry :: "MacNodeId \<Rightarrow> MacNodeId \<Rightarrow> Binder \<Rightarrow> LteD2DMode option" where
  "d2d_entry src dst b =
     (case map_of (d2dPeeringMap b) src of None \<Rightarrow> None | Some m \<Rightarrow> map_of m dst)"

definition d2d_set :: "MacNodeId \<Rightarrow> MacNodeId \<Rightarrow> LteD2DMode \<Rightarrow> Binder \<Rightarrow> Binder" where
  "d2d_set src dst mode b =
     b\<lparr>d2dPeeringMap := smap_upd src (smap_upd dst mode (fst (smap_index [] src (d2dPeeringMap b))))
        (d2dPeeringMap b)\<rparr>"

text \<open>
  \<open>isD2DCapable\<close> and \<open>d2dInitialMode\<close> answer for the MAC of a node.  The hop table is read
  without a bounds check.
\<close>

definition checkD2DCapability ::
  "(MacNodeId \<Rightarrow> bool) \<Rightarrow> (MacNodeId \<Rightarrow> bool) \<Rightarrow> MacNodeId \<Rightarrow> MacNodeId \<Rightarrow> Binder \<Rightarrow> (bool \<times> Binder) res" where
  "checkD2DCapability isD2DCapable d2dInitialMode src dst b =
     (if not_a_ue src b \<or> not_a_ue dst b
      then Inl (RuntimeError ''Binder::checkD2DCapability - Node Id not valid'')
      else if d2d_entry src dst b \<noteq> None then Inr (True, b)
      else if \<not> isD2DCapable dst then Inr (False, b)
      else if length (nextHop b) \<le> unat src \<or> length (nextHop b) \<le> unat dst then Inl OutOfRange
      else if nextHop b ! unat src = nextHop b ! unat dst
      then Inr (True, d2d_set src dst (if d2dInitialMode src then DM else IM) b)
      else Inr (True, d2d_set src dst IM b))"

definition getD2DCapability :: "MacNodeId \<Rightarrow> MacNodeId \<Rightarrow> Binder \<Rightarrow> bool res" where
  "getD2DCapability src dst b =
     (if not_a_ue src b \<or> not_a_ue dst b
      then Inl (RuntimeError ''Binder::getD2DCapability - Node Id not valid'')
      else Inr (d2d_entry src dst b \<noteq> None))"

text \<open>\<^verbatim>\<open>d2dPeeringMap_[src][dst]\<close> creates a missing entry, with the first mode, \<open>IM\<close>.\<close>

definition getD2DMode :: "MacNodeId \<Rightarrow> MacNodeId \<Rightarrow> Binder \<Rightarrow> (LteD2DMode \<times> Binder) res" where
  "getD2DMode src dst b =
     (if not_a_ue src b \<or> not_a_ue dst b
      then Inl (RuntimeError ''Binder::getD2DMode - Node Id not valid'')
      else (let mode = (case d2d_entry src dst b of None \<Rightarrow> IM | Some m \<Rightarrow> m)
            in Inr (mode, d2d_set src dst mode b)))"

definition isFrequencyReuseEnabled :: "MacNodeId \<Rightarrow> Binder \<Rightarrow> bool" where
  "isFrequencyReuseEnabled nodeId b =
     (case map_of (d2dPeeringMap b) nodeId of
        None \<Rightarrow> False
      | Some m \<Rightarrow> m \<noteq> [] \<and> list_all (\<lambda>e. snd e \<noteq> IM) m)"

definition updateUeInfoCellId :: "MacNodeId \<Rightarrow> MacNodeId \<Rightarrow> Binder \<Rightarrow> Binder" where
  "updateUeInfoCellId i newCellId b =
     b\<lparr>ueList := replace_first (\<lambda>u. fst u = i) (\<lambda>u. (fst u, newCellId)) (ueList b)\<rparr>"

definition addUeHandoverTriggered :: "MacNodeId \<Rightarrow> Binder \<Rightarrow> Binder" where
  "addUeHandoverTriggered nodeId b =
     b\<lparr>ueHandoverTriggered := sset_ins nodeId (ueHandoverTriggered b)\<rparr>"

definition hasUeHandoverTriggered :: "MacNodeId \<Rightarrow> Binder \<Rightarrow> bool" where
  "hasUeHandoverTriggered nodeId b \<longleftrightarrow> nodeId \<in> set (ueHandoverTriggered b)"

definition removeUeHandoverTriggered :: "MacNodeId \<Rightarrow> Binder \<Rightarrow> Binder" where
  "removeUeHandoverTriggered nodeId b =
     b\<lparr>ueHandoverTriggered := filter (\<lambda>i. i \<noteq> nodeId) (ueHandoverTriggered b)\<rparr>"

definition addHandoverTriggered :: "MacNodeId \<Rightarrow> MacNodeId \<Rightarrow> MacNodeId \<Rightarrow> Binder \<Rightarrow> Binder" where
  "addHandoverTriggered nodeId srcId destId b =
     b\<lparr>handoverTriggered := smap_upd nodeId (srcId, destId) (handoverTriggered b)\<rparr>"

definition getHandoverTriggered :: "MacNodeId \<Rightarrow> Binder \<Rightarrow> (MacNodeId \<times> MacNodeId) option" where
  "getHandoverTriggered nodeId b = map_of (handoverTriggered b) nodeId"

definition removeHandoverTriggered :: "MacNodeId \<Rightarrow> Binder \<Rightarrow> Binder" where
  "removeHandoverTriggered nodeId b = b\<lparr>handoverTriggered := smap_del nodeId (handoverTriggered b)\<rparr>"

definition registerX2Port :: "MacNodeId \<Rightarrow> int \<Rightarrow> Binder \<Rightarrow> Binder" where
  "registerX2Port nodeId port b =
     (case map_of (x2ListeningPorts b) nodeId of
        None \<Rightarrow> b\<lparr>x2ListeningPorts := smap_upd nodeId [port] (x2ListeningPorts b)\<rparr>
      | Some ports \<Rightarrow> b\<lparr>x2ListeningPorts := smap_upd nodeId (ports @ [port]) (x2ListeningPorts b)\<rparr>)"

text \<open>An exhausted list still has its entry: \<^verbatim>\<open>front()\<close> of an empty list is undefined.\<close>

definition getX2Port :: "MacNodeId \<Rightarrow> Binder \<Rightarrow> (int \<times> Binder) res" where
  "getX2Port nodeId b =
     (case map_of (x2ListeningPorts b) nodeId of
        None \<Rightarrow> Inl (RuntimeError ''Binder::getX2Port - No ports available on node'')
      | Some [] \<Rightarrow> Inl OutOfRange
      | Some (port # ports) \<Rightarrow>
          Inr (port, b\<lparr>x2ListeningPorts := smap_upd nodeId ports (x2ListeningPorts b)\<rparr>))"

section \<open>The uplink transmission map\<close>

text \<open>
  Per carrier, the allocations of the previous and of the current slot, one vector per band.
  The clock is in ticks, \<open>tti\<close> the length of a slot.
\<close>

definition initAndResetUlTransmissionInfo :: "simtime \<Rightarrow> simtime \<Rightarrow> Binder \<Rightarrow> Binder" where
  "initAndResetUlTransmissionInfo tti now b =
     (if lastUplinkTransmission b < now - 2 * tti then b
      else b\<lparr>ulTransmissionMap := map (\<lambda>(f, v). (f, tl v)) (ulTransmissionMap b),
             lastUpdateUplinkTransmissionInfo := now\<rparr>)"

definition default_CarrierInfo :: CarrierInfo where
  "default_CarrierInfo = \<lparr>ci_carrierFrequency = 0, ci_numBands = 0, ci_numerologyIndex = 0,
     ci_slotFormat = \<lparr>sf_tdd = False, sf_numDlSymbols = 0, sf_numUlSymbols = 0, sf_numFlexSymbols = 0\<rparr>\<rparr>"

definition num_bands :: "real \<Rightarrow> Binder \<Rightarrow> nat \<times> Binder" where
  "num_bands f b =
     (let (ci, m) = smap_index default_CarrierInfo f (componentCarriers b)
      in (unat (ci_numBands ci), b\<lparr>componentCarriers := m\<rparr>))"

text \<open>Make room for the two slots of a carrier.\<close>

definition prepare_slots :: "real \<Rightarrow> Binder \<Rightarrow> Binder" where
  "prepare_slots f b =
     (let v = (case map_of (ulTransmissionMap b) f of None \<Rightarrow> [] | Some v \<Rightarrow> v)
      in if length v = 0
         then (let (n, b) = num_bands f b
               in b\<lparr>ulTransmissionMap := smap_upd f [replicate n [], replicate n []] (ulTransmissionMap b)\<rparr>)
         else if length v = 1
         then (let (n, b) = num_bands f b
               in b\<lparr>ulTransmissionMap := smap_upd f (v @ [replicate n []]) (ulTransmissionMap b)\<rparr>)
         else b)"

fun push_bands :: "(16 word \<times> u32) list \<Rightarrow> UeAllocationInfo \<Rightarrow> UeAllocationInfo list list
    \<Rightarrow> UeAllocationInfo list list res" where
  "push_bands [] info slot = Inr slot"
| "push_bands ((band, blocks) # rest) info slot =
     (if 0 < blocks
      then (if unat band < length slot
            then push_bands rest info (slot[unat band := (slot ! unat band) @ [info]])
            else Inl OutOfRange)
      else push_bands rest info slot)"

text \<open>
  \<open>rbs\<close> is \<^verbatim>\<open>rbMap[antenna]\<close>.  The two overloads differ in which of the two pointers of the
  entry is set.
\<close>

definition storeUlTransmissionMap ::
  "simtime \<Rightarrow> real \<Rightarrow> (16 word \<times> u32) list \<Rightarrow> UeAllocationInfo \<Rightarrow> Binder \<Rightarrow> Binder res" where
  "storeUlTransmissionMap now f rbs info b =
     (let b = prepare_slots f b; v = the (map_of (ulTransmissionMap b) f)
      in rbind (push_bands rbs info (v ! 1)) (\<lambda>slot.
           Inr (b\<lparr>ulTransmissionMap := smap_upd f (v[1 := slot]) (ulTransmissionMap b),
                  lastUplinkTransmission := now\<rparr>)))"

definition storeUl_phy ::
  "simtime \<Rightarrow> real \<Rightarrow> (16 word \<times> u32) list \<Rightarrow> MacNodeId \<Rightarrow> MacNodeId \<Rightarrow> int \<Rightarrow> Direction \<Rightarrow> Binder \<Rightarrow> Binder res" where
  "storeUl_phy now f rbs nodeId cellId phy dir =
     storeUlTransmissionMap now f rbs \<lparr>ua_nodeId = nodeId, ua_cellId = cellId, ua_phy = Some phy,
       ua_trafficGen = None, ua_dir = dir\<rparr>"

definition storeUl_bgUe ::
  "simtime \<Rightarrow> real \<Rightarrow> (16 word \<times> u32) list \<Rightarrow> MacNodeId \<Rightarrow> MacNodeId \<Rightarrow> int \<Rightarrow> Direction \<Rightarrow> Binder \<Rightarrow> Binder res" where
  "storeUl_bgUe now f rbs nodeId cellId trafficGen dir =
     storeUlTransmissionMap now f rbs \<lparr>ua_nodeId = nodeId, ua_cellId = cellId, ua_phy = None,
       ua_trafficGen = Some trafficGen, ua_dir = dir\<rparr>"

definition getUlTransmissionMap :: "real \<Rightarrow> nat \<Rightarrow> Binder \<Rightarrow> UeAllocationInfo list list option" where
  "getUlTransmissionMap f t b =
     (case map_of (ulTransmissionMap b) f of
        None \<Rightarrow> None | Some v \<Rightarrow> if length v \<le> t then None else Some (v ! t))"

text \<open>
  \<open>unregisterNode\<close>: the IP table, the node table and the uplink map; the HARQ buffers it
  clears at the MACs of the other nodes and its cache of MAC pointers are not part of the
  state.
\<close>

definition unregisterNode :: "MacNodeId \<Rightarrow> Binder \<Rightarrow> Binder" where
  "unregisterNode i b = b\<lparr>
     macNodeIdToIPAddress := filter (\<lambda>e. snd e \<noteq> i) (macNodeIdToIPAddress b),
     nodeIds := smap_del (uint i) (nodeIds b),
     ulTransmissionMap := map (\<lambda>(f, slots). (f, map (map (filter (\<lambda>ue. ua_nodeId ue \<noteq> i))) slots))
       (ulTransmissionMap b)\<rparr>"

section \<open>Invariants and lemmas\<close>

text \<open>The stored maximum of a UE is the largest of its numerologies; a UE without any has 0.\<close>

definition numerology_ok :: "Binder \<Rightarrow> bool" where
  "numerology_ok b \<longleftrightarrow> smap_ok (ueNumerologyIndex b) \<and>
     (\<forall>u. case map_of (ueNumerologyIndex b) u of
        Some s \<Rightarrow> s \<noteq> [] \<and> unat u < length (ueMaxNumerologyIndex b) \<and>
          ueMaxNumerologyIndex b ! unat u = Max (set s)
      | None \<Rightarrow> unat u < length (ueMaxNumerologyIndex b) \<longrightarrow> ueMaxNumerologyIndex b ! unat u = 0)"

lemma narrow_less:
  assumes "n < (2 ^ 16 :: u32)"
  shows "ucast (m :: NumerologyIndex) < n \<longleftrightarrow> m < (ucast n :: NumerologyIndex)"
proof -
  have "uint n < 65536" using assms by (simp add: word_less_def)
  then have "uint (ucast n :: NumerologyIndex) = uint n"
    by (simp add: unsigned_ucast_eq take_bit_int_eq_self)
  moreover have "uint (ucast m :: u32) = uint m"
    using uint_lt2p [of m] by (simp add: unsigned_ucast_eq take_bit_int_eq_self)
  ultimately show ?thesis by (simp add: word_less_def)
qed

lemma max_swap: "max x m = (if m < x then x else (m :: 'a :: linorder))"
  by (auto simp: max_def)

lemma Max_insert_word:
  "finite A \<Longrightarrow> A \<noteq> {} \<Longrightarrow> Max (insert x A) = (if Max A < x then x else Max (A :: NumerologyIndex set))"
  by (subst Max_insert, simp, simp) (rule max_swap)

lemma registerCarrierUe_numerology:
  assumes "numerology_ok b" and "numerologyIndex < 2 ^ 16"
    and "registerCarrierUe f numerologyIndex ueId b = Inr b'"
  shows "numerology_ok b'"
proof -
  let ?n = "ucast numerologyIndex :: NumerologyIndex" and ?v = "ueMaxNumerologyIndex b"
  let ?nums = "case map_of (ueNumerologyIndex b) ueId of None \<Rightarrow> [] | Some s \<Rightarrow> s"
  have b': "ueNumerologyIndex b' = smap_upd ueId (sset_ins ?n ?nums) (ueNumerologyIndex b)"
      "ueMaxNumerologyIndex b' = (if length ?v \<le> unat ueId then (grow (Suc (unat ueId)) ?v)[unat ueId := ?n]
         else ?v[unat ueId := if ?v ! unat ueId < ?n then ?n else ?v ! unat ueId])"
  proof -
    obtain ues where "map_of (carrierUeMap b) f = Some ues"
      using assms(3) by (auto simp: registerCarrierUe_def split: option.splits)
    with assms(3) have "b' = b\<lparr>carrierUeMap := smap_upd f (sset_ins ueId ues) (carrierUeMap b),
        ueNumerologyIndex := smap_upd ueId (sset_ins ?n ?nums) (ueNumerologyIndex b),
        ueMaxNumerologyIndex := if length ?v \<le> unat ueId then (grow (Suc (unat ueId)) ?v)[unat ueId := ?n]
          else ?v[unat ueId := if ucast (?v ! unat ueId) < numerologyIndex then ?n else ?v ! unat ueId]\<rparr>"
      by (auto simp: registerCarrierUe_def Let_def split: if_splits)
    then show "ueNumerologyIndex b' = smap_upd ueId (sset_ins ?n ?nums) (ueNumerologyIndex b)"
      "ueMaxNumerologyIndex b' = (if length ?v \<le> unat ueId then (grow (Suc (unat ueId)) ?v)[unat ueId := ?n]
         else ?v[unat ueId := if ?v ! unat ueId < ?n then ?n else ?v ! unat ueId])"
      by (simp_all add: narrow_less [OF assms(2)])
  qed
  have ok: "smap_ok (ueNumerologyIndex b)" using assms(1) by (simp add: numerology_ok_def)
  have inv: "case map_of (ueNumerologyIndex b) u of
        Some s \<Rightarrow> s \<noteq> [] \<and> unat u < length ?v \<and> ?v ! unat u = Max (set s)
      | None \<Rightarrow> unat u < length ?v \<longrightarrow> ?v ! unat u = 0" for u
    using assms(1) by (simp add: numerology_ok_def)
  have "case map_of (ueNumerologyIndex b') u of
        Some s \<Rightarrow> s \<noteq> [] \<and> unat u < length (ueMaxNumerologyIndex b') \<and>
          ueMaxNumerologyIndex b' ! unat u = Max (set s)
      | None \<Rightarrow> unat u < length (ueMaxNumerologyIndex b') \<longrightarrow> ueMaxNumerologyIndex b' ! unat u = 0" for u
  proof (cases "u = ueId")
    case True
    have "sset_ins ?n ?nums \<noteq> []" by (metis empty_iff insertI1 list.set(1) set_sset_ins)
    moreover have "ueMaxNumerologyIndex b' ! unat u = Max (set (sset_ins ?n ?nums)) \<and>
        unat u < length (ueMaxNumerologyIndex b')"
      using inv [of ueId] True
      by (auto simp: b'(2) grow_def Max_insert_word nth_list_update split: option.splits)
         (auto simp: word_gt_0 not_less intro!: max_absorb2 [symmetric] elim!: order_trans)
    ultimately show ?thesis using True by (simp add: b'(1) map_of_smap_upd ok)
  next
    case False
    then have "unat u \<noteq> unat ueId" by (simp add: word_unat_eq_iff)
    then show ?thesis
      using False inv [of u]
      by (auto simp: b' map_of_smap_upd ok grow_def nth_append split: option.splits)
  qed
  then show ?thesis using ok by (simp add: numerology_ok_def b'(1) smap_ok_upd)
qed

text \<open>The two slots of a carrier after a store.\<close>

lemma length_push_bands: "push_bands rbs info slot = Inr slot' \<Longrightarrow> length slot' = length slot"
  by (induction rbs info slot rule: push_bands.induct) (auto split: if_splits)

lemma push_bands_mono:
  "push_bands rbs info slot = Inr slot' \<Longrightarrow> j < length slot \<Longrightarrow> x \<in> set (slot ! j) \<Longrightarrow>
     x \<in> set (slot' ! j)"
proof (induction rbs info slot rule: push_bands.induct)
  case (2 band blocks rest info slot)
  then show ?case by (auto simp: nth_list_update split: if_splits)
qed simp

lemma push_bands_stores:
  "push_bands rbs info slot = Inr slot' \<Longrightarrow> (band, blocks) \<in> set rbs \<Longrightarrow> 0 < blocks \<Longrightarrow>
     unat band < length slot' \<and> info \<in> set (slot' ! unat band)"
proof (induction rbs info slot rule: push_bands.induct)
  case (2 band' blocks' rest info slot)
  show ?case
  proof (cases "(band, blocks) \<in> set rest")
    case True
    with 2 show ?thesis by (auto split: if_splits)
  next
    case False
    with 2 have "push_bands rest info (slot[unat band := (slot ! unat band) @ [info]]) = Inr slot'"
      "unat band < length slot" by (auto split: if_splits)
    with push_bands_mono [OF this(1), of "unat band" info] show ?thesis
      by (auto dest: length_push_bands)
  qed
qed simp

lemma num_bands_frame [simp]: "ulTransmissionMap (snd (num_bands f b)) = ulTransmissionMap b"
  by (simp add: num_bands_def split_def Let_def)

lemma prepare_slots_two:
  assumes "smap_ok (ulTransmissionMap b)"
  shows "smap_ok (ulTransmissionMap (prepare_slots f b)) \<and>
    (\<exists>v. map_of (ulTransmissionMap (prepare_slots f b)) f = Some v \<and> 2 \<le> length v)"
proof -
  have "2 \<le> length v" if "length v \<noteq> 0" "length v \<noteq> 1" for v :: "UeAllocationInfo list list list"
    using that by linarith
  with assms show ?thesis
    by (auto simp: prepare_slots_def Let_def split_def map_of_smap_upd smap_ok_upd
        split: option.splits)
qed

lemma storeUl_slots:
  assumes "smap_ok (ulTransmissionMap b)" and "storeUlTransmissionMap now f rbs info b = Inr b'"
  obtains v slot where "map_of (ulTransmissionMap (prepare_slots f b)) f = Some v" "2 \<le> length v"
    "push_bands rbs info (v ! 1) = Inr slot" "map_of (ulTransmissionMap b') f = Some (v[1 := slot])"
    "smap_ok (ulTransmissionMap b')" "lastUplinkTransmission b' = now"
proof -
  obtain v where v: "map_of (ulTransmissionMap (prepare_slots f b)) f = Some v" "2 \<le> length v"
      "smap_ok (ulTransmissionMap (prepare_slots f b))"
    using prepare_slots_two [OF assms(1)] by blast
  with assms(2) obtain slot where "push_bands rbs info (v ! 1) = Inr slot"
      "b' = (prepare_slots f b)\<lparr>ulTransmissionMap :=
         smap_upd f (v[1 := slot]) (ulTransmissionMap (prepare_slots f b)), lastUplinkTransmission := now\<rparr>"
    by (auto simp: storeUlTransmissionMap_def Let_def rbind_Inr_iff)
  with v that [of v slot] show thesis by (simp add: map_of_smap_upd smap_ok_upd)
qed

lemma map_of_map_tl:
  "map_of (map (\<lambda>(f, v). (f, tl v)) m) f = map_option tl (map_of m f)"
  by (induction m) auto

section \<open>Properties\<close>

text \<open>
  Starting from a Binder whose table is consistent, registering a UE on a carrier keeps the
  stored maximum numerology of every UE equal to the largest numerology it ever registered
  (for indices that fit the 16 bits they are stored in).
\<close>

theorem registerCarrierUe_keeps_max:
  assumes "numerology_ok b" and "numerologyIndex < 2 ^ 16"
    and "registerCarrierUe f numerologyIndex ueId b = Inr b'"
  shows "numerology_ok b' \<and> (\<exists>s. getUeNumerologyIndex ueId b' = Some s \<and>
     ucast numerologyIndex \<in> set s \<and> getUeMaxNumerologyIndex ueId b' = Inr (Max (set s)))"
proof -
  have ok: "numerology_ok b'" by (rule registerCarrierUe_numerology [OF assms])
  obtain s where "map_of (ueNumerologyIndex b') ueId = Some s" "ucast numerologyIndex \<in> set s"
    using assms(1,3)
    by (auto simp: registerCarrierUe_def Let_def numerology_ok_def map_of_smap_upd split: option.splits)
  moreover have "unat ueId < length (ueMaxNumerologyIndex b')"
      "ueMaxNumerologyIndex b' ! unat ueId = Max (set s)"
    using ok [unfolded numerology_ok_def, THEN conjunct2, rule_format, of ueId] calculation(1)
    by simp_all
  ultimately show ?thesis
    using ok by (simp add: getUeNumerologyIndex_def getUeMaxNumerologyIndex_def)
qed

definition one_carrier :: Binder where
  "one_carrier = new_Binder\<lparr>carrierUeMap := [(2, [])]\<rparr>"

theorem registerCarrierUe_keeps_max_witness:
  "\<exists>b'. registerCarrierUe 2 3 5 one_carrier = Inr b' \<and> numerology_ok b' \<and>
     getUeMaxNumerologyIndex 5 b' = Inr (Max {3})"
proof -
  have "numerology_ok one_carrier" by (simp add: numerology_ok_def one_carrier_def new_Binder_def)
  moreover obtain b' where b': "registerCarrierUe 2 3 5 one_carrier = Inr b'"
    by (simp add: registerCarrierUe_def one_carrier_def Let_def)
  moreover have "getUeNumerologyIndex 5 b' = Some [3]"
    using b' by (auto simp: registerCarrierUe_def one_carrier_def new_Binder_def Let_def
        getUeNumerologyIndex_def)
  ultimately show ?thesis using registerCarrierUe_keeps_max [OF _ _ b'] by auto
qed

text \<open>
  Registering a carrier again with more bands empties the set of its UEs and adds its whole
  band count to the total a second time.
\<close>

theorem registerCarrier_again_counts_twice:
  assumes "smap_ok (componentCarriers b)" and "smap_ok (carrierUeMap b)"
    and "map_of (componentCarriers b) f = None"
    and "registerCarrier f n num tdd dl ul b = Inr b1" and "n < n'"
    and "carrierUeMap b2 = smap_upd f ues (carrierUeMap b1)"
    and "componentCarriers b2 = componentCarriers b1" and "totalBands b2 = totalBands b1"
    and "registerCarrier f n' num tdd dl ul b2 = Inr b3"
  shows "getCarrierUeSet f b3 = Inr [] \<and> totalBands b3 = totalBands b + n + n'"
proof -
  obtain sf where sf: "computeSlotFormat tdd dl ul = Inr sf"
    using assms(3,4) by (auto simp: registerCarrier_def rbind_Inr_iff)
  have b1: "map_of (componentCarriers b1) f = Some \<lparr>ci_carrierFrequency = f, ci_numBands = n,
        ci_numerologyIndex = ucast num, ci_slotFormat = sf\<rparr>"
      "totalBands b1 = totalBands b + n" "smap_ok (carrierUeMap b1)"
    using assms(1-4) by (auto simp: registerCarrier_def sf map_of_smap_upd smap_ok_upd)
  have "carrierUeMap b3 = smap_upd f [] (carrierUeMap b2)" "totalBands b3 = totalBands b2 + n'"
    using assms(5,7,9) b1(1) by (auto simp: registerCarrier_def sf not_le split: if_splits)
  with b1 assms(6,8) show ?thesis
    by (simp add: getCarrierUeSet_def map_of_smap_upd smap_ok_upd)
qed

theorem registerCarrier_again_counts_twice_witness:
  "\<exists>b1 b2 b3. registerCarrier 2 6 0 False 0 0 new_Binder = Inr b1 \<and>
     registerCarrierUe 2 0 1025 b1 = Inr b2 \<and> registerCarrier 2 25 0 False 0 0 b2 = Inr b3 \<and>
     getCarrierUeSet 2 b2 = Inr [1025] \<and> getCarrierUeSet 2 b3 = Inr [] \<and> totalBands b3 = 31"
proof -
  obtain b1 b2 b3 where r: "registerCarrier 2 6 0 False 0 0 new_Binder = Inr b1"
      "registerCarrierUe 2 0 1025 b1 = Inr b2" "registerCarrier 2 25 0 False 0 0 b2 = Inr b3"
    by (simp add: registerCarrier_def registerCarrierUe_def computeSlotFormat_def new_Binder_def Let_def)
  from r(1,2) have b2: "carrierUeMap b2 = smap_upd 2 [1025] (carrierUeMap b1)"
      "componentCarriers b2 = componentCarriers b1" "totalBands b2 = totalBands b1"
    by (auto simp: registerCarrier_def registerCarrierUe_def computeSlotFormat_def new_Binder_def Let_def)
  from registerCarrier_again_counts_twice [OF _ _ _ r(1) _ b2 r(3)]
  have "getCarrierUeSet 2 b3 = Inr [] \<and> totalBands b3 = 31" by (simp add: new_Binder_def)
  moreover from r(1,2) have "getCarrierUeSet 2 b2 = Inr [1025]"
    by (auto simp: registerCarrier_def registerCarrierUe_def computeSlotFormat_def new_Binder_def
        Let_def getCarrierUeSet_def)
  ultimately show ?thesis using r by blast
qed

text \<open>
  An uplink allocation that is stored in a slot is found at every band it uses in the
  current slot, and after the map is advanced in the next slot the same vectors are those of the
  previous slot.
\<close>

theorem storeUl_current_then_previous:
  assumes "smap_ok (ulTransmissionMap b)" and "storeUlTransmissionMap now f rbs info b = Inr b'"
    and "0 \<le> tti" and "now' \<le> now + 2 * tti"
  shows "\<exists>slot. getUlTransmissionMap f 1 b' = Some slot \<and>
     (\<forall>(band, blocks) \<in> set rbs. 0 < blocks \<longrightarrow> unat band < length slot \<and> info \<in> set (slot ! unat band)) \<and>
     getUlTransmissionMap f 0 (initAndResetUlTransmissionInfo tti now' b') = Some slot"
proof -
  obtain v slot where v: "2 \<le> length v" "push_bands rbs info (v ! 1) = Inr slot"
      "map_of (ulTransmissionMap b') f = Some (v[1 := slot])" "lastUplinkTransmission b' = now"
    using storeUl_slots [OF assms(1,2)] by metis
  obtain x y zs where "v = x # y # zs"
    using v(1) by (cases v; cases "tl v") auto
  with v assms(4) show ?thesis
    by (auto simp: getUlTransmissionMap_def initAndResetUlTransmissionInfo_def map_of_map_tl
        dest: push_bands_stores)
qed

theorem storeUl_current_then_previous_witness:
  "\<exists>slot. getUlTransmissionMap 2 0 (initAndResetUlTransmissionInfo 10 25
      (new_Binder\<lparr>ulTransmissionMap := [(2, [[[]], [[\<lparr>ua_nodeId = 7, ua_cellId = 1, ua_phy = Some 3,
          ua_trafficGen = None, ua_dir = UL\<rparr>]]])], componentCarriers := [(2, default_CarrierInfo\<lparr>ci_numBands := 1\<rparr>)],
        lastUplinkTransmission := 20\<rparr>)) = Some slot \<and> length slot = 1"
proof -
  let ?info = "\<lparr>ua_nodeId = 7, ua_cellId = 1, ua_phy = Some 3, ua_trafficGen = None, ua_dir = UL\<rparr>"
  let ?b = "new_Binder\<lparr>componentCarriers := [(2, default_CarrierInfo\<lparr>ci_numBands := 1\<rparr>)]\<rparr>"
  let ?b' = "new_Binder\<lparr>ulTransmissionMap := [(2, [[[]], [[?info]]])],
      componentCarriers := [(2, default_CarrierInfo\<lparr>ci_numBands := 1\<rparr>)], lastUplinkTransmission := 20\<rparr>"
  have "smap_ok (ulTransmissionMap ?b)" by (simp add: new_Binder_def)
  moreover have st: "storeUlTransmissionMap 20 2 [(0, 1)] ?info ?b = Inr ?b'"
    by (simp add: storeUlTransmissionMap_def prepare_slots_def num_bands_def Let_def smap_index_def
        new_Binder_def)
  ultimately obtain slot where "getUlTransmissionMap 2 1 ?b' = Some slot"
      "getUlTransmissionMap 2 0 (initAndResetUlTransmissionInfo 10 25 ?b') = Some slot"
    using storeUl_current_then_previous [of ?b 20 2 "[(0, 1)]" ?info ?b' 10 25] by auto
  moreover from this(1) have "length slot = 1" by (auto simp: getUlTransmissionMap_def)
  ultimately show ?thesis by blast
qed

end
