(* ===== verification/Convoy_Defs.thy ===== *)
theory Convoy_Defs
  imports Convoy_Prelude
begin

text \<open>
  The data of the program: \<^verbatim>\<open>common/defs.h\<close>, simu5G's
  \<^verbatim>\<open>ConvoyArchitectureDefs.h\<close>, and the message classes generated from
  \<^verbatim>\<open>messages/*.msg\<close> and \<^verbatim>\<open>packets/TransportPacket.msg\<close>.  Records carry a short prefix
  per struct; the rest of each field name is the source's.  Where a message transports an
  enumeration as \<^verbatim>\<open>int\<close> and the receiver casts it back, the field holds the enumeration
  itself: every value the program puts there is one.  The \<open>new_...\<close> constants are the
  freshly constructed messages (numbers 0, strings empty, arrays empty).
\<close>

section \<open>Enumerations\<close>

datatype StationType = VEHICLE | RSU | BACKEND

datatype ConvoyDirection = DIR_UNDEFINED | TOP | DOWN

datatype Role = UNDEFINED | MANAGER | MEMBER | GATEWAY

datatype MessageType =
  UNKNOWN | SUBSCRIPTION | PUBLICATION | MANEUVER | MEMBER_STATUS | ORCHESTRATION

datatype MemberControlState = INITIALIZING | INITIALIZED

datatype ClusterDeviceType = UNKNOWN_DEVICE | MASTER_DEVICE | MEMBER_DEVICE | GATEWAY_DEVICE

datatype DeviceInterfaceType = UNKNOWN_INTERFACE | PRIMARY_INTERFACE | GATEWAY_INTERFACE

text \<open>\<^verbatim>\<open>(int) direction\<close>, used to build module names.\<close>

fun direction_int :: "ConvoyDirection \<Rightarrow> int" where
  "direction_int DIR_UNDEFINED = 0"
| "direction_int TOP = 1"
| "direction_int DOWN = 2"

lemma direction_int_inject [simp]: "direction_int a = direction_int b \<longleftrightarrow> a = b"
  by (cases a; cases b) simp_all

section \<open>Structs\<close>

record Coord =
  cx :: real
  cy :: real
  cz :: real

record Node =
  n_name :: string
  n_address :: int
  n_id_gnb :: int
  n_id_ue :: int
  n_id_gnb_gw :: int
  n_id_ue_gw :: int
  n_type :: StationType
  n_role :: Role
  n_position :: Coord
  n_speed :: real
  n_txp :: real
  n_txp_gw :: real
  n_direction :: int
  n_id_convoy :: int
  n_id_cluster :: int
  n_timestamp :: u64

record Subscription =
  s_name :: string
  s_id :: int
  s_roi :: string
  s_qos :: string
  s_timestamp :: u64

record Publication =
  p_name :: string
  p_id :: int
  p_position :: Coord
  p_fov :: real
  p_direction :: ConvoyDirection
  p_cluster :: int

record Broadcast =
  b_id_convoy :: int
  b_id_cluster :: int
  b_full_convoy :: bool
  b_full_cluster :: bool
  b_direction :: ConvoyDirection
  b_rssi :: real

section \<open>Messages\<close>

record MemberStatus =
  ms_timestamp :: u64
  ms_name :: string
  ms_address :: int
  ms_direction :: int
  ms_id_gnb :: int
  ms_id_ue :: int
  ms_id_gnb_gw :: int
  ms_id_ue_gw :: int
  ms_type :: StationType
  ms_role :: Role
  ms_position_x :: real
  ms_position_y :: real
  ms_position_z :: real
  ms_speed :: real
  ms_txp :: real
  ms_txp_gw :: real
  ms_id_convoy :: int
  ms_id_cluster :: int

definition new_MemberStatus :: MemberStatus where
  "new_MemberStatus = \<lparr>ms_timestamp = 0, ms_name = '''', ms_address = 0, ms_direction = 0,
     ms_id_gnb = 0, ms_id_ue = 0, ms_id_gnb_gw = 0, ms_id_ue_gw = 0, ms_type = VEHICLE,
     ms_role = UNDEFINED, ms_position_x = 0, ms_position_y = 0, ms_position_z = 0, ms_speed = 0,
     ms_txp = 0, ms_txp_gw = 0, ms_id_convoy = 0, ms_id_cluster = 0\<rparr>"

record DtwinSub =
  ds_timestamp :: u64
  ds_subscriber_id :: string
  ds_subscriber_type :: string
  ds_subscriber_address :: int
  ds_roi_tag :: string
  ds_qos_tag :: string

definition new_DtwinSub :: DtwinSub where
  "new_DtwinSub = \<lparr>ds_timestamp = 0, ds_subscriber_id = '''', ds_subscriber_type = '''',
     ds_subscriber_address = 0, ds_roi_tag = '''', ds_qos_tag = ''''\<rparr>"

text \<open>\<open>ol_n_objects\<close> is a field of its own: nothing ties it to the length of the arrays.\<close>

record ObjectList =
  ol_timestamp :: u64
  ol_station_id :: string
  ol_station_type :: string
  ol_station_position_x :: real
  ol_station_position_y :: real
  ol_obj_byte_size :: int
  ol_n_objects :: int
  ol_object_id :: "string list"
  ol_object_address :: "int list"
  ol_object_type :: "string list"
  ol_object_timestamp :: "u64 list"
  ol_object_position_x :: "real list"
  ol_object_position_y :: "real list"
  ol_object_position_z :: "real list"
  ol_object_heading :: "real list"

definition new_ObjectList :: ObjectList where
  "new_ObjectList = \<lparr>ol_timestamp = 0, ol_station_id = '''', ol_station_type = '''',
     ol_station_position_x = 0, ol_station_position_y = 0, ol_obj_byte_size = 20,
     ol_n_objects = 0, ol_object_id = [], ol_object_address = [], ol_object_type = [],
     ol_object_timestamp = [], ol_object_position_x = [], ol_object_position_y = [],
     ol_object_position_z = [], ol_object_heading = []\<rparr>"

record CoopManeuver =
  cm_timestamp :: u64
  cm_ego_id :: string
  cm_partner_id :: string
  cm_partner_address :: int

definition new_CoopManeuver :: CoopManeuver where
  "new_CoopManeuver =
     \<lparr>cm_timestamp = 0, cm_ego_id = '''', cm_partner_id = '''', cm_partner_address = 0\<rparr>"

record ConvoyControlService =
  cc_timestamp :: u64
  cc_node_id :: string
  cc_node_address :: int
  cc_cluster_role :: Role
  cc_convoy_id :: int
  cc_cluster_id :: int
  cc_cluster_id_gw :: int
  cc_tx_power :: real
  cc_tx_power_gw :: real

definition new_ConvoyControlService :: ConvoyControlService where
  "new_ConvoyControlService = \<lparr>cc_timestamp = 0, cc_node_id = '''', cc_node_address = 0,
     cc_cluster_role = UNDEFINED, cc_convoy_id = 0, cc_cluster_id = 0, cc_cluster_id_gw = 0,
     cc_tx_power = 0, cc_tx_power_gw = 0\<rparr>"

record Orchestration =
  or_timestamp :: u64
  or_node_id :: string
  or_node_address :: int
  or_hop_address :: int
  or_cluster_role :: Role
  or_convoy_id :: int
  or_cluster_id :: int
  or_cluster_id_gw :: int
  or_tx_power :: real
  or_tx_power_gw :: real

definition new_Orchestration :: Orchestration where
  "new_Orchestration = \<lparr>or_timestamp = 0, or_node_id = '''', or_node_address = 0,
     or_hop_address = 0, or_cluster_role = UNDEFINED, or_convoy_id = 0, or_cluster_id = 0,
     or_cluster_id_gw = 0, or_tx_power = 0, or_tx_power_gw = 0\<rparr>"

record TransportPacket =
  tp_timestamp :: u64
  tp_hop_cluster :: int
  tp_dst_cluster :: int
  tp_hop_mac_id :: int
  tp_dst_mac_id :: int
  tp_msg_type :: MessageType
  tp_chunk_length :: int
  tp_msg_subscriber :: DtwinSub
  tp_msg_publisher :: ObjectList
  tp_msg_maneuver :: CoopManeuver
  tp_msg_member_status :: MemberStatus
  tp_msg_orchestration :: Orchestration

definition new_TransportPacket :: TransportPacket where
  "new_TransportPacket = \<lparr>tp_timestamp = 0, tp_hop_cluster = 0, tp_dst_cluster = 0,
     tp_hop_mac_id = 0, tp_dst_mac_id = 0, tp_msg_type = UNKNOWN, tp_chunk_length = 0,
     tp_msg_subscriber = new_DtwinSub, tp_msg_publisher = new_ObjectList,
     tp_msg_maneuver = new_CoopManeuver, tp_msg_member_status = new_MemberStatus,
     tp_msg_orchestration = new_Orchestration\<rparr>"

text \<open>An \<^verbatim>\<open>inet::Packet\<close> as \<^verbatim>\<open>RoutingControl\<close> builds it: its name, the transport packet at
  the front, and the requested destination (a module name to resolve, and a port).\<close>

record NetPacket =
  np_name :: string
  np_front :: TransportPacket
  np_dest :: string
  np_port :: int

text \<open>What travels over the gates; \<^verbatim>\<open>check_and_cast\<close> selects by constructor.\<close>

datatype app_msg =
    MMemberStatus MemberStatus
  | MDtwinSub DtwinSub
  | MObjectList ObjectList
  | MCoopManeuver CoopManeuver
  | MConvoyControlService ConvoyControlService
  | MOrchestration Orchestration
  | MTransport TransportPacket
  | MPacket NetPacket

text \<open>A message handed to \<^verbatim>\<open>send\<close>, with its output gate.\<close>

type_synonym out_msg = "app_msg \<times> string"

end
