(* ===== verification/Event_Kernel.thy ===== *)
theory Event_Kernel
  imports Convoy_Prelude
begin

text \<open>
  The OMNeT++ simulation kernel is not part of the repository.  What the modules use of it (
  \<^verbatim>\<open>scheduleAt\<close>, \<^verbatim>\<open>scheduleAfter\<close>, \<^verbatim>\<open>cancelEvent\<close>, \<^verbatim>\<open>isScheduled\<close> and the
  delivery of a self message) is a parameter \<open>K\<close> of every handler, and the documented laws
  those calls obey are the locale \<open>event_kernel\<close>.  Events are named by the string the
  module passes to \<^verbatim>\<open>new cMessage(...)\<close>.

  Six applications (\<^verbatim>\<open>Detector\<close>, \<^verbatim>\<open>Localizer\<close>, \<^verbatim>\<open>Maneuver\<close>, \<^verbatim>\<open>Publisher\<close>,
  \<^verbatim>\<open>Subscriber\<close>, \<^verbatim>\<open>ConvoyOrchestration\<close>) share one timing protocol: a start event, a
  periodic update event, and a stop time.  The protocol is the locale \<open>periodic_app\<close>; its
  lemmas say exactly when updates fire and that the application falls silent.
\<close>

section \<open>Kernel calls\<close>

record 'q kernel =
  k_scheduleAt :: "simtime \<Rightarrow> string \<Rightarrow> 'q \<Rightarrow> 'q"
  k_cancelEvent :: "string \<Rightarrow> 'q \<Rightarrow> 'q"
  k_deliver :: "string \<Rightarrow> 'q \<Rightarrow> 'q"
  k_arrival :: "'q \<Rightarrow> string \<Rightarrow> simtime option"

text \<open>\<^verbatim>\<open>isScheduled\<close>: the event is in the future-event set.\<close>

definition k_isScheduled :: "'q kernel \<Rightarrow> 'q \<Rightarrow> string \<Rightarrow> bool" where
  "k_isScheduled K q e \<longleftrightarrow> k_arrival K q e \<noteq> None"

text \<open>
  The laws.  Scheduling an event that is already scheduled is an error of the kernel, so
  nothing is promised about it.
\<close>

locale event_kernel =
  fixes K :: "'q kernel"
  assumes arrival_schedule:
      "k_arrival K q e = None \<Longrightarrow>
         k_arrival K (k_scheduleAt K t e q) = (k_arrival K q)(e \<mapsto> t)"
    and arrival_cancel: "k_arrival K (k_cancelEvent K e q) = (k_arrival K q)(e := None)"
    and arrival_deliver: "k_arrival K (k_deliver K e q) = (k_arrival K q)(e := None)"

text \<open>The future-event set as a finite map from event to arrival time obeys the laws.\<close>

definition fes_kernel :: "(string \<rightharpoonup> simtime) kernel" where
  "fes_kernel = \<lparr>k_scheduleAt = (\<lambda>t e q. q(e \<mapsto> t)), k_cancelEvent = (\<lambda>e q. q(e := None)),
     k_deliver = (\<lambda>e q. q(e := None)), k_arrival = (\<lambda>q. q)\<rparr>"

lemma fes_kernel_simps [simp]:
  "k_scheduleAt fes_kernel t e q = q(e \<mapsto> t)"
  "k_cancelEvent fes_kernel e q = q(e := None)"
  "k_deliver fes_kernel e q = q(e := None)"
  "k_arrival fes_kernel q = q"
  by (simp_all add: fes_kernel_def)

interpretation fes: event_kernel fes_kernel
  by unfold_locales simp_all

section \<open>The start / update / stop protocol\<close>

text \<open>A message as a handler sees it: a self message by name, or a payload on a gate.\<close>

datatype 'm in_msg = SelfMsg string | ExtMsg string 'm

text \<open>\<^verbatim>\<open>if (stop > start) scheduleAt(max(now, start), start_event)\<close> of every \<open>initialize\<close>.\<close>

definition schedule_start ::
  "'q kernel \<Rightarrow> simtime \<Rightarrow> simtime \<Rightarrow> simtime \<Rightarrow> 'q \<Rightarrow> 'q" where
  "schedule_start K now start stop q =
     (if start < stop
      then k_scheduleAt K (if now < start then start else now) ''startEvent'' q
      else q)"

text \<open>\<^verbatim>\<open>scheduleAfter(update_rate, update_event)\<close>.\<close>

definition schedule_update :: "'q kernel \<Rightarrow> simtime \<Rightarrow> simtime \<Rightarrow> 'q \<Rightarrow> 'q" where
  "schedule_update K now rate q = k_scheduleAt K (now + rate) ''updateEvent'' q"

text \<open>\<^verbatim>\<open>if (now >= stop && update_event->isScheduled()) cancelEvent(update_event)\<close>.\<close>

definition stop_check :: "'q kernel \<Rightarrow> simtime \<Rightarrow> simtime \<Rightarrow> 'q \<Rightarrow> 'q" where
  "stop_check K now stop q =
     (if stop \<le> now \<and> k_isScheduled K q ''updateEvent''
      then k_cancelEvent K ''updateEvent'' q else q)"

text \<open>
  Delivering pending update events one after the other (at most \<open>n\<close>): the times at which
  the application's update handler runs.
\<close>

fun update_times ::
  "'q kernel \<Rightarrow> (simtime \<Rightarrow> 's \<Rightarrow> 's) \<Rightarrow> ('s \<Rightarrow> 'q) \<Rightarrow> nat \<Rightarrow> 's \<Rightarrow> simtime list" where
  "update_times K upd queue 0 s = []"
| "update_times K upd queue (Suc n) s =
     (case k_arrival K (queue s) ''updateEvent'' of
        None \<Rightarrow> []
      | Some t \<Rightarrow> t # update_times K upd queue n (upd t s))"

text \<open>How many updates the protocol performs once the first one is pending at \<open>t0\<close>.\<close>

definition update_count :: "simtime \<Rightarrow> simtime \<Rightarrow> simtime \<Rightarrow> nat" where
  "update_count t0 rate stop = Suc (nat ((stop - t0 + rate - 1) div rate))"

lemma update_count_past: "0 < rate \<Longrightarrow> stop \<le> t0 \<Longrightarrow> update_count t0 rate stop = 1"
proof -
  assume "0 < rate" "stop \<le> t0"
  then have "(stop - t0 + rate - 1) div rate \<le> (rate - 1) div rate"
    by (intro zdiv_mono1) auto
  with \<open>0 < rate\<close> show ?thesis by (simp add: update_count_def)
qed

lemma update_count_next:
  assumes "0 < rate" and "t0 < stop"
  shows "update_count t0 rate stop = Suc (update_count (t0 + rate) rate stop)"
proof -
  have "(stop - t0 + rate - 1) div rate = (stop - (t0 + rate) + rate - 1) div rate + 1"
    using assms(1) div_add_self2 [of rate "stop - (t0 + rate) + rate - 1"]
    by (simp add: algebra_simps)
  moreover have "0 \<le> (stop - (t0 + rate) + rate - 1) div rate"
    using assms by (simp add: pos_imp_zdiv_nonneg_iff)
  ultimately show ?thesis by (simp add: update_count_def nat_add_distrib)
qed

text \<open>
  The protocol as the applications implement it: whatever else a handler does, on a self
  message it re-schedules the update and then applies the stop check.  The event that is
  delivered has left the future-event set.
\<close>

locale periodic_app = event_kernel K for K :: "'q kernel" +
  fixes upd :: "simtime \<Rightarrow> 's \<Rightarrow> 's"
    and queue :: "'s \<Rightarrow> 'q"
    and rate :: simtime
    and stop :: simtime
  assumes upd_queue:
    "k_arrival K (queue (upd now s)) ''updateEvent'' =
       k_arrival K (stop_check K now stop
         (schedule_update K now rate (k_deliver K ''updateEvent'' (queue s)))) ''updateEvent''"
begin

lemma arrival_after_update:
  "k_arrival K (queue (upd now s)) ''updateEvent'' =
     (if stop \<le> now then None else Some (now + rate))"
  by (simp add: upd_queue stop_check_def schedule_update_def k_isScheduled_def
      arrival_schedule arrival_cancel arrival_deliver)

text \<open>An update at or after the stop time is the last one.\<close>

lemma silent_after_stop:
  "stop \<le> now \<Longrightarrow> update_times K upd queue n (upd now s) = []"
  by (cases n) (simp_all add: arrival_after_update)

lemma update_times_exact:
  assumes "0 < rate" and "k_arrival K (queue s) ''updateEvent'' = Some t0"
    and "update_count t0 rate stop \<le> n"
  shows "update_times K upd queue n s =
     map (\<lambda>i. t0 + int i * rate) [0..<update_count t0 rate stop]"
  using assms(2,3)
proof (induction n arbitrary: s t0)
  case 0
  then show ?case by (simp add: update_count_def)
next
  case (Suc n)
  show ?case
  proof (cases "stop \<le> t0")
    case True
    then show ?thesis
      using Suc.prems assms(1) by (simp add: update_count_past silent_after_stop)
  next
    case False
    let ?m = "update_count (t0 + rate) rate stop"
    have count: "update_count t0 rate stop = Suc ?m"
      using False assms(1) by (simp add: update_count_next)
    have "update_times K upd queue n (upd t0 s) = map (\<lambda>i. (t0 + rate) + int i * rate) [0..<?m]"
      using False Suc.prems(2) count by (intro Suc.IH) (simp_all add: arrival_after_update)
    moreover have "map (\<lambda>i. t0 + int i * rate) [0..<Suc ?m] =
        t0 # map (\<lambda>i. (t0 + rate) + int i * rate) [0..<?m]"
      by (subst upt_conv_Cons, simp, subst map_Suc_upt [symmetric])
         (simp add: algebra_simps)
    ultimately show ?thesis using Suc.prems(1) count by simp
  qed
qed

text \<open>No update fires later than one period after the stop time.\<close>

lemma update_times_bounded:
  assumes "0 < rate" and "k_arrival K (queue s) ''updateEvent'' = Some t0" and "t0 < stop + rate"
    and "t \<in> set (update_times K upd queue n s)"
  shows "t < stop + rate"
  using assms(2-)
proof (induction n arbitrary: s t0)
  case (Suc n)
  show ?case
  proof (cases "t = t0")
    case False
    with Suc.prems have "t \<in> set (update_times K upd queue n (upd t0 s))" by simp
    moreover from this have "\<not> stop \<le> t0" using silent_after_stop by fastforce
    ultimately show ?thesis
      by (intro Suc.IH [of "upd t0 s" "t0 + rate"]) (simp_all add: arrival_after_update)
  qed (use Suc.prems in simp)
qed simp

end

section \<open>Time parameters of an application\<close>

record app_times =
  at_start :: simtime
  at_stop :: simtime
  at_rate :: simtime

text \<open>\<^verbatim>\<open>simtime_t::dbl()\<close>: the tick is a picosecond, the kernel's default resolution.\<close>

definition dbl :: "simtime \<Rightarrow> real" where
  "dbl t = real_of_int t / 10 ^ 12"

lemma dbl_mono: "s \<le> t \<Longrightarrow> dbl s \<le> dbl t"
  by (simp add: dbl_def divide_right_mono)

lemma dbl_diff: "dbl (s - t) = dbl s - dbl t"
  by (simp add: dbl_def diff_divide_distrib)

end
