(* ===== verification/Convoy_Phy.thy ===== *)
theory Convoy_Phy
  imports Binder_Radio Convoy_Defs Event_Kernel
begin

text \<open>
  The physical layer as far as the convoy architecture extends or drives it:
  \<^verbatim>\<open>LtePhyBase\<close> (broadcast parameters and frames, transmission power), \<^verbatim>\<open>LtePhyEnb\<close>
  (cluster broadcasts of a manager), \<^verbatim>\<open>LtePhyUe\<close> and \<^verbatim>\<open>NRPhyUe\<close> (reception of
  broadcasts, attachment to a cluster, and the handover state machine).

  Radio measurements (\<^verbatim>\<open>getSINR\<close>, \<^verbatim>\<open>receiveBroadcast\<close>) are arguments.  Calls into
  other modules (MAC, RLC, PDCP, AMC, IP2Nic, feedback generator) are returned as a list
  of \<open>phy_call\<close>s in call order; everything they do to the Binder and to the PHY itself is
  performed.
\<close>

section \<open>Frames and state\<close>

datatype LtePhyFrameType =
  DATAPKT | BROADCASTPKT | FEEDBACKPKT | HANDOVERPKT | HARQPKT | GRANTPKT | RACPKT
  | D2DMODESWITCHPKT | UNKNOWN_TYPE

record UserControlInfo =
  uc_isBroadcast :: bool
  uc_isCorruptible :: bool
  uc_sourceId :: MacNodeId
  uc_destId :: MacNodeId
  uc_frameType :: LtePhyFrameType
  uc_direction :: Direction
  uc_txPower :: real
  uc_carrierFrequency :: real
  uc_isNr :: bool
  uc_coord :: Coord
  uc_convoyID :: int
  uc_clusterID :: int
  uc_convoyFull :: bool
  uc_clusterFull :: bool
  uc_convoyDirection :: ConvoyDirection
  uc_rssi :: real
  uc_publisherName :: "string list"
  uc_publisherNodeID :: "int list"
  uc_publisherNodeX :: "real list"
  uc_publisherNodeY :: "real list"
  uc_publisherFOV :: "real list"
  uc_publisherDirection :: "ConvoyDirection list"

definition new_UserControlInfo :: UserControlInfo where
  "new_UserControlInfo = \<lparr>uc_isBroadcast = False, uc_isCorruptible = True, uc_sourceId = 0,
     uc_destId = 0, uc_frameType = UNKNOWN_TYPE, uc_direction = UNKNOWN_DIRECTION, uc_txPower = 0,
     uc_carrierFrequency = 0, uc_isNr = False, uc_coord = \<lparr>cx = 0, cy = 0, cz = 0\<rparr>,
     uc_convoyID = 0, uc_clusterID = 0, uc_convoyFull = False, uc_clusterFull = False,
     uc_convoyDirection = DIR_UNDEFINED, uc_rssi = 0, uc_publisherName = [],
     uc_publisherNodeID = [], uc_publisherNodeX = [], uc_publisherNodeY = [],
     uc_publisherFOV = [], uc_publisherDirection = []\<rparr>"

record AirFrame =
  af_name :: string
  af_info :: UserControlInfo

text \<open>
  One record serves base stations and UEs.  Timers that are single messages live in the event
  queue; \<open>ph_unicast_timers\<close> are the pending arrival times of the status-report messages, of
  which each attachment allocates a new one.
\<close>

record 'q phy =
  ph_nodeId :: MacNodeId
  ph_isNr :: bool
  ph_txPower :: real
  ph_carrierFrequency :: real
  ph_position :: Coord
  ph_convoy_id :: MacNodeId
  ph_cluster_id :: MacNodeId
  ph_convoy_direction :: ConvoyDirection
  ph_convoy_full :: bool
  ph_cluster_full :: bool
  ph_publisher_id :: "MacNodeId list"
  ph_publisher_x :: "real list"
  ph_publisher_y :: "real list"
  ph_publisher_fov :: "real list"
  ph_publisher_direction :: "ConvoyDirection list"
  ph_broadcast_for_transmission :: Broadcast
  ph_publishers_for_transmission :: "Publication list"
  ph_masterId :: MacNodeId
  ph_candidateMasterId :: MacNodeId
  ph_currentMasterRssi :: real
  ph_candidateMasterRssi :: real
  ph_hysteresisTh :: real
  ph_cellInfo :: "MacNodeId option"
  ph_unicast_timers :: "simtime list"
  ph_queue :: 'q

record phy_par =
  hysteresisFactor :: real
  minRssi :: real
  enableHandover :: bool
  handoverDelta :: simtime
  handoverAttachment :: simtime
  handoverDetachment :: simtime
  convoyCtrlUnicastInterval :: simtime
  convoyCtrlBroadcastInterval :: simtime
  bdcUpdateInterval :: simtime

datatype phy_out = Broadcasted AirFrame | Unicasted AirFrame | Signalled UserControlInfo

section \<open>Broadcast parameters and frames\<close>

definition setClusterBroadcastParameters_ids ::
  "MacNodeId \<Rightarrow> MacNodeId \<Rightarrow> ConvoyDirection \<Rightarrow> bool \<Rightarrow> bool \<Rightarrow> 'q phy \<Rightarrow> 'q phy" where
  "setClusterBroadcastParameters_ids convoy_id cluster_id convoy_direction convoy_full cluster_full p =
     p\<lparr>ph_convoy_id := convoy_id, ph_cluster_id := cluster_id,
       ph_convoy_direction := convoy_direction, ph_convoy_full := convoy_full,
       ph_cluster_full := cluster_full\<rparr>"

text \<open>\<^verbatim>\<open>resize\<close> then \<^verbatim>\<open>std::copy\<close>: the vectors become copies of the arguments.\<close>

definition setClusterBroadcastParameters_publishers ::
  "MacNodeId list \<Rightarrow> real list \<Rightarrow> real list \<Rightarrow> real list \<Rightarrow> ConvoyDirection list \<Rightarrow> 'q phy \<Rightarrow> 'q phy" where
  "setClusterBroadcastParameters_publishers ids xs ys fovs dirs p =
     p\<lparr>ph_publisher_id := ids, ph_publisher_x := xs, ph_publisher_y := ys,
       ph_publisher_fov := fovs, ph_publisher_direction := dirs\<rparr>"

definition updateBroadcastParameters_broadcast :: "Broadcast \<Rightarrow> 'q phy \<Rightarrow> 'q phy" where
  "updateBroadcastParameters_broadcast bc p = p\<lparr>ph_broadcast_for_transmission := bc\<rparr>"

definition updateBroadcastParameters_publishers :: "Publication list \<Rightarrow> 'q phy \<Rightarrow> 'q phy" where
  "updateBroadcastParameters_publishers pubs p = p\<lparr>ph_publishers_for_transmission := pubs\<rparr>"

definition setTxPower :: "real \<Rightarrow> 'q phy \<Rightarrow> 'q phy" where
  "setTxPower tx_power p = p\<lparr>ph_txPower := tx_power\<rparr>"

definition getTxPower :: "'q phy \<Rightarrow> real" where
  "getTxPower p = ph_txPower p"

definition base_info :: "LtePhyFrameType \<Rightarrow> 'q phy \<Rightarrow> UserControlInfo" where
  "base_info ty p = new_UserControlInfo\<lparr>uc_isBroadcast := True, uc_isCorruptible := False,
     uc_sourceId := ph_nodeId p, uc_frameType := ty, uc_txPower := ph_txPower p,
     uc_carrierFrequency := ph_carrierFrequency p, uc_isNr := ph_isNr p,
     uc_coord := ph_position p\<rparr>"

definition createHandoverMessage :: "'q phy \<Rightarrow> AirFrame" where
  "createHandoverMessage p = \<lparr>af_name = ''handoverFrame'', af_info = base_info HANDOVERPKT p\<rparr>"

fun append_publishers :: "'q phy \<Rightarrow> nat list \<Rightarrow> UserControlInfo \<Rightarrow> UserControlInfo res" where
  "append_publishers p [] info = Inr info"
| "append_publishers p (i # is) info =
     rbind (vec_at (ph_publisher_id p) i) (\<lambda>n.
     rbind (vec_at (ph_publisher_x p) i) (\<lambda>x.
     rbind (vec_at (ph_publisher_y p) i) (\<lambda>y.
     rbind (vec_at (ph_publisher_fov p) i) (\<lambda>fov.
     rbind (vec_at (ph_publisher_direction p) i) (\<lambda>d.
       append_publishers p is (info\<lparr>
         uc_publisherNodeID := uc_publisherNodeID info @ [uint n],
         uc_publisherNodeX := uc_publisherNodeX info @ [x],
         uc_publisherNodeY := uc_publisherNodeY info @ [y],
         uc_publisherFOV := uc_publisherFOV info @ [fov],
         uc_publisherDirection := uc_publisherDirection info @ [d]\<rparr>))))))"

definition createConvoyControlMessage :: "'q phy \<Rightarrow> AirFrame res" where
  "createConvoyControlMessage p =
     rbind (append_publishers p [0..<length (ph_publisher_id p)]
       ((base_info BROADCASTPKT p)\<lparr>uc_convoyID := uint (ph_convoy_id p),
          uc_clusterID := uint (ph_nodeId p), uc_convoyFull := ph_convoy_full p,
          uc_clusterFull := ph_cluster_full p, uc_convoyDirection := ph_convoy_direction p\<rparr>))
       (\<lambda>info. Inr \<lparr>af_name = ''convoyControlFrame'', af_info = info\<rparr>)"

definition createConvoyBroadcastMessage :: "'q phy \<Rightarrow> AirFrame" where
  "createConvoyBroadcastMessage p =
     (let bc = ph_broadcast_for_transmission p; pubs = ph_publishers_for_transmission p
      in \<lparr>af_name = ''clusterBroadcast'',
          af_info = (base_info BROADCASTPKT p)\<lparr>
            uc_convoyID := b_id_convoy bc, uc_clusterID := b_id_cluster bc,
            uc_convoyFull := b_full_convoy bc, uc_clusterFull := b_full_cluster bc,
            uc_convoyDirection := b_direction bc,
            uc_publisherName := map p_name pubs, uc_publisherNodeID := map p_id pubs,
            uc_publisherNodeX := map (\<lambda>q. cx (p_position q)) pubs,
            uc_publisherNodeY := map (\<lambda>q. cy (p_position q)) pubs,
            uc_publisherFOV := map p_fov pubs,
            uc_publisherDirection := map p_direction pubs\<rparr>\<rparr>)"

text \<open>
  \<^verbatim>\<open>sendUnicast\<close>: a frame whose destination has no module any more is deleted.
\<close>

definition sendUnicast :: "Binder \<Rightarrow> AirFrame \<Rightarrow> phy_out list" where
  "sendUnicast b frame =
     (if getOmnetId (uc_destId (af_info frame)) b = 0 then [] else [Unicasted frame])"

section \<open>Base station\<close>

text \<open>\<^verbatim>\<open>LtePhyEnb::handleSelfMessage\<close>\<close>

definition LtePhyEnb_handleSelfMessage ::
  "'q kernel \<Rightarrow> phy_par \<Rightarrow> simtime \<Rightarrow> string \<Rightarrow> 'q phy \<Rightarrow> 'q phy \<times> phy_out list" where
  "LtePhyEnb_handleSelfMessage K par now ev p =
     (if ev = ''bdcStarter''
      then (p\<lparr>ph_queue := k_scheduleAt K (now + bdcUpdateInterval par) ev (ph_queue p)\<rparr>,
            [Broadcasted (createHandoverMessage p)])
      else if ev = ''convoyCtrlBroadcastStarter''
      then (p\<lparr>ph_queue := k_scheduleAt K (now + convoyCtrlBroadcastInterval par) ev (ph_queue p)\<rparr>,
            [Broadcasted (createConvoyBroadcastMessage p)])
      else (p, []))"

definition LtePhyEnb_handleBroadcastPkt :: "UserControlInfo \<Rightarrow> phy_out list" where
  "LtePhyEnb_handleBroadcastPkt lteinfo = [Signalled (lteinfo\<lparr>uc_rssi := 100\<rparr>)]"

text \<open>
  \<^verbatim>\<open>LtePhyEnb::handleControlPkt\<close>: whether the frame was a control frame, and the convoy
  signal it causes (HARQ, RAC and feedback frames go to other handlers).
\<close>

definition LtePhyEnb_handleControlPkt :: "Binder \<Rightarrow> UserControlInfo \<Rightarrow> bool \<times> phy_out list" where
  "LtePhyEnb_handleControlPkt b lteinfo =
     (if getOmnetId (uc_sourceId lteinfo) b = 0 then (True, [])
      else if uc_frameType lteinfo = HANDOVERPKT then (True, [])
      else if uc_frameType lteinfo = HARQPKT \<or> uc_frameType lteinfo = RACPKT then (True, [])
      else if uc_frameType lteinfo = FEEDBACKPKT then (True, [])
      else if uc_frameType lteinfo = BROADCASTPKT then (True, LtePhyEnb_handleBroadcastPkt lteinfo)
      else (False, []))"

section \<open>User equipment: reception\<close>

definition updateHysteresisTh :: "phy_par \<Rightarrow> real \<Rightarrow> real" where
  "updateHysteresisTh par v = (if hysteresisFactor par = 0 then 0 else v / hysteresisFactor par)"

text \<open>What the radio measures for a frame: the DAS value and the SINR per resource block.\<close>

record measurement =
  rx_das :: real
  rx_sinr :: "real list"

definition mean_sinr :: "measurement \<Rightarrow> real" where
  "mean_sinr rx = foldl (+) 0 (rx_sinr rx) / real (length (rx_sinr rx))"

definition NRPhyUe_broadcastHandler ::
  "phy_par \<Rightarrow> measurement \<Rightarrow> UserControlInfo \<Rightarrow> 'q phy \<Rightarrow> phy_out list" where
  "NRPhyUe_broadcastHandler par rx info p =
     (let rssi = (if (getNodeTypeById (uc_sourceId info) = ENODEB \<or>
                      getNodeTypeById (uc_sourceId info) = GNODEB) \<and> uc_sourceId info = ph_masterId p
                  then rx_das rx else mean_sinr rx)
      in if rssi < minRssi par then [] else [Signalled (info\<lparr>uc_rssi := rssi\<rparr>)])"

text \<open>\<^verbatim>\<open>LtePhyUe::handoverHandler\<close>\<close>

definition schedule_handover :: "'q kernel \<Rightarrow> phy_par \<Rightarrow> simtime \<Rightarrow> 'q phy \<Rightarrow> 'q phy" where
  "schedule_handover K par now p =
     (if k_isScheduled K (ph_queue p) ''handoverStarter'' then p
      else p\<lparr>ph_queue := k_scheduleAt K (now + handoverDelta par) ''handoverStarter'' (ph_queue p)\<rparr>)"

definition LtePhyUe_handoverHandler ::
  "'q kernel \<Rightarrow> phy_par \<Rightarrow> simtime \<Rightarrow> measurement \<Rightarrow> UserControlInfo \<Rightarrow> 'q phy \<times> Binder \<Rightarrow> 'q phy \<times> Binder" where
  "LtePhyUe_handoverHandler K par now rx info = (\<lambda>(p, b).
     let src = uc_sourceId info; master = ph_masterId p;
         rssi = (if getNodeTypeById src = ENODEB \<and> src = master then rx_das rx else mean_sinr rx)
     in if \<not> enableHandover par then (p, b)
        else if src \<noteq> master \<and> rssi < minRssi par then (p, b)
        else if ph_candidateMasterRssi p + ph_hysteresisTh p < rssi
        then (if src = master
              then (p\<lparr>ph_currentMasterRssi := rssi, ph_candidateMasterId := master,
                      ph_candidateMasterRssi := rssi, ph_hysteresisTh := updateHysteresisTh par rssi,
                      ph_queue := k_cancelEvent K ''handoverStarter'' (ph_queue p)\<rparr>, b)
              else (schedule_handover K par now (p\<lparr>ph_candidateMasterId := src,
                      ph_candidateMasterRssi := rssi, ph_hysteresisTh := updateHysteresisTh par rssi\<rparr>),
                    addHandoverTriggered (ph_nodeId p) master src b))
        else if src = master
        then (if minRssi par \<le> rssi
              then (p\<lparr>ph_currentMasterRssi := rssi, ph_candidateMasterRssi := rssi,
                      ph_hysteresisTh := updateHysteresisTh par rssi\<rparr>, b)
              else if ph_candidateMasterId p = master
              then (schedule_handover K par now (p\<lparr>ph_candidateMasterId := 0,
                      ph_candidateMasterRssi := 0, ph_hysteresisTh := updateHysteresisTh par 0\<rparr>),
                    addHandoverTriggered (ph_nodeId p) master 0 b)
              else (p, b))
        else (p, b))"

text \<open>
  \<^verbatim>\<open>NRPhyUe::handleAirFrame\<close> up to the point where only unicast traffic is left: dropped
  frames, handover frames and cluster broadcasts.  \<open>channel\<close> tells whether the node has a
  channel model for a carrier; \<open>other\<close> is the PHY of the other radio of the same UE.  The
  result \<open>None\<close> says that the frame goes on to the traffic part.
\<close>

definition NRPhyUe_handleAirFrame ::
  "'q kernel \<Rightarrow> phy_par \<Rightarrow> (real \<Rightarrow> bool) \<Rightarrow> simtime \<Rightarrow> measurement \<Rightarrow> UserControlInfo \<Rightarrow> 'q phy
    \<Rightarrow> 'q phy \<times> Binder \<Rightarrow> (('q phy \<times> Binder) \<times> phy_out list) option res" where
  "NRPhyUe_handleAirFrame K par channel now rx info other = (\<lambda>(p, b).
     let src = uc_sourceId info; f = uc_carrierFrequency info
     in if getOmnetId src b = 0 then Inr (Some ((p, b), []))
        else if \<not> channel f then Inr (Some ((p, b), []))
        else if uc_frameType info = HANDOVERPKT
        then (if f \<noteq> ph_carrierFrequency p \<or> k_isScheduled K (ph_queue p) ''handoverTrigger''
              then Inr (Some ((p, b), []))
              else if uc_isNr info \<noteq> ph_isNr p then Inr (Some ((p, b), []))
              else rbind (getMasterNode src b) (\<lambda>masterNodeId.
                if masterNodeId \<noteq> src \<and> ph_masterId other \<noteq> masterNodeId
                then Inr (Some ((p, b), []))
                else Inr (Some (LtePhyUe_handoverHandler K par now rx info (p, b), []))))
        else if uc_frameType info = BROADCASTPKT
        then (if f \<noteq> ph_carrierFrequency p \<or> uc_isNr info \<noteq> ph_isNr p
              then Inr (Some ((p, b), []))
              else Inr (Some ((p, b), NRPhyUe_broadcastHandler par rx info p)))
        else Inr None)"

section \<open>User equipment: attachment and handover\<close>

datatype phy_call =
    HoldDownlink MacNodeId bool
  | ForwardToTarget MacNodeId MacNodeId MacNodeId
  | ModeSwitch MacNodeId MacNodeId bool
  | DeleteBuffers MacNodeId MacNodeId
  | AmcDetach MacNodeId Direction
  | AmcAttach MacNodeId Direction
  | SetMasterRuSet MacNodeId
  | MoveUeCollector MacNodeId MacNodeId
  | CellDetach MacNodeId
  | CellAttach MacNodeId
  | InitChannel MacNodeId
  | MacHandover MacNodeId
  | FeedbackHandover MacNodeId
  | HandoverCompleteUe bool
  | HandoverCompleteTarget MacNodeId MacNodeId

definition NRPhyUe_forceHandover ::
  "'q kernel \<Rightarrow> phy_par \<Rightarrow> simtime \<Rightarrow> MacNodeId \<Rightarrow> real \<Rightarrow> 'q phy \<Rightarrow> 'q phy" where
  "NRPhyUe_forceHandover K par now target rssi p =
     p\<lparr>ph_candidateMasterId := target, ph_candidateMasterRssi := rssi,
       ph_hysteresisTh := updateHysteresisTh par (ph_currentMasterRssi p),
       ph_queue := k_scheduleAt K now ''handoverStarter''
         (k_cancelEvent K ''handoverStarter'' (ph_queue p))\<rparr>"

definition NRPhyUe_attachToCluster ::
  "'q kernel \<Rightarrow> phy_par \<Rightarrow> simtime \<Rightarrow> MacNodeId \<Rightarrow> real \<Rightarrow> 'q phy \<Rightarrow> 'q phy" where
  "NRPhyUe_attachToCluster K par now mac_cell_id rssi p =
     (let p = NRPhyUe_forceHandover K par now mac_cell_id rssi p
      in if convoyCtrlUnicastInterval par \<noteq> 0
         then p\<lparr>ph_unicast_timers := ph_unicast_timers p @ [now + convoyCtrlUnicastInterval par]\<rparr>
         else p)"

text \<open>
  The status-report branch of \<^verbatim>\<open>NRPhyUe::handleSelfMessage\<close>, for a report timer that has
  just been delivered: an unattached UE returns before the timer is re-armed.
\<close>

definition NRPhyUe_unicastTimer ::
  "phy_par \<Rightarrow> simtime \<Rightarrow> 'q phy \<times> Binder \<Rightarrow> 'q phy \<times> phy_out list" where
  "NRPhyUe_unicastTimer par now = (\<lambda>(p, b).
     let rearmed = p\<lparr>ph_unicast_timers := ph_unicast_timers p @ [now + convoyCtrlUnicastInterval par]\<rparr>
     in if \<not> hasUeHandoverTriggered (ph_nodeId p) b
        then (if ph_masterId p = 0 then (p, [])
              else (rearmed, sendUnicast b (let f = createConvoyBroadcastMessage p
                      in f\<lparr>af_info := (af_info f)\<lparr>uc_direction := UL, uc_destId := ph_masterId p,
                           uc_isBroadcast := False\<rparr>\<rparr>)))
        else (rearmed, []))"

definition module_at :: "(int \<Rightarrow> bool) \<Rightarrow> Binder \<Rightarrow> MacNodeId \<Rightarrow> bool" where
  "module_at alive b i \<longleftrightarrow> getOmnetId i b \<noteq> 0 \<and> alive (getOmnetId i b)"

text \<open>
  \<^verbatim>\<open>NRPhyUe::triggerHandover\<close>.  The first block postpones or cancels the handover to a
  secondary node whose master the other radio is about to change.
\<close>

datatype ho_decision = Proceed | Delay simtime | Cancel

definition ho_secondary :: "phy_par \<Rightarrow> 'q phy \<Rightarrow> 'q phy \<Rightarrow> Binder \<Rightarrow> MacNodeId \<Rightarrow> ho_decision" where
  "ho_secondary par p other b masterNode =
     (if masterNode \<noteq> ph_candidateMasterId p \<and> ph_masterId other = masterNode
      then (case getHandoverTriggered (ph_nodeId other) b of
              None \<Rightarrow> Proceed
            | Some (src, dst) \<Rightarrow>
                if dst = ph_candidateMasterId p
                then Delay (handoverDelta par +
                  (if src \<noteq> 0 then handoverDetachment par + handoverAttachment par
                   else handoverAttachment par))
                else Cancel)
      else Proceed)"

definition ho_latency :: "phy_par \<Rightarrow> 'q phy \<Rightarrow> simtime" where
  "ho_latency par p =
     (if ph_masterId p = 0 then handoverAttachment par
      else if ph_candidateMasterId p = 0 then handoverDetachment par
      else handoverDetachment par + handoverAttachment par)"

definition ho_start ::
  "'q kernel \<Rightarrow> phy_par \<Rightarrow> (int \<Rightarrow> bool) \<Rightarrow> simtime \<Rightarrow> 'q phy \<Rightarrow> 'q phy \<Rightarrow> Binder
    \<Rightarrow> (('q phy \<times> 'q phy \<times> Binder) \<times> phy_call list) res" where
  "ho_start K par alive now p other b =
     (let master = ph_masterId p; cand = ph_candidateMasterId p;
          b' = addUeHandoverTriggered (ph_nodeId p) b
      in if master \<noteq> 0 \<and> \<not> module_at alive b master then Inl NullDeref
         else Inr ((p\<lparr>ph_queue := k_scheduleAt K (now + ho_latency par p) ''handoverTrigger'' (ph_queue p)\<rparr>,
                    other, b'),
                   [HoldDownlink cand (ph_isNr p)]
                   @ (if master \<noteq> 0 \<and> cand \<noteq> 0 then [ForwardToTarget master (ph_nodeId p) cand] else [])
                   @ (if master \<noteq> 0 then [ModeSwitch master (ph_nodeId p) False] else [])))"

definition NRPhyUe_triggerHandover ::
  "'q kernel \<Rightarrow> phy_par \<Rightarrow> (int \<Rightarrow> bool) \<Rightarrow> simtime \<Rightarrow> 'q phy \<times> 'q phy \<times> Binder
    \<Rightarrow> (('q phy \<times> 'q phy \<times> Binder) \<times> phy_call list) res" where
  "NRPhyUe_triggerHandover K par alive now = (\<lambda>(p, other, b).
     if ph_masterId p = ph_candidateMasterId p then Inl AssertionFailure
     else rbind (getMasterNode (ph_candidateMasterId p) b) (\<lambda>masterNode.
       case ho_secondary par p other b masterNode of
         Delay d \<Rightarrow> Inr ((p\<lparr>ph_queue := k_scheduleAt K (now + d) ''handoverStarter'' (ph_queue p)\<rparr>, other, b), [])
       | Cancel \<Rightarrow> Inr ((p, other, removeHandoverTriggered (ph_nodeId p) b), [])
       | Proceed \<Rightarrow>
           if ph_masterId other = 0 then ho_start K par alive now p other b
           else rbind (getMasterNode (ph_masterId other) b) (\<lambda>otherMaster.
             if otherMaster = ph_masterId p
             then Inr ((p\<lparr>ph_queue := k_scheduleAt K (now + handoverDetachment par + handoverDelta par)
                          ''handoverStarter'' (ph_queue p)\<rparr>,
                        NRPhyUe_forceHandover K par now 0 0 other, b), [])
             else ho_start K par alive now p other b)))"

text \<open>\<^verbatim>\<open>NRPhyUe::doHandover\<close>, with the buffers deleted by \<^verbatim>\<open>deleteOldBuffers\<close>.\<close>

definition NRPhyUe_deleteOldBuffers :: "(int \<Rightarrow> bool) \<Rightarrow> Binder \<Rightarrow> MacNodeId \<Rightarrow> phy_call res" where
  "NRPhyUe_deleteOldBuffers alive b master =
     (if \<not> module_at alive b master then Inl NullDeref
      else rbind (getMasterNode master b) (\<lambda>masterNode.
        if module_at alive b masterNode then Inr (DeleteBuffers master masterNode) else Inl NullDeref))"

definition ho_leave :: "(int \<Rightarrow> bool) \<Rightarrow> Binder \<Rightarrow> MacNodeId \<Rightarrow> phy_call list res" where
  "ho_leave alive b master =
     (if master = 0 then Inr []
      else rbind (NRPhyUe_deleteOldBuffers alive b master) (\<lambda>del.
        Inr [del, AmcDetach master UL, AmcDetach master DL, AmcDetach master D2D]))"

definition ho_enter :: "(int \<Rightarrow> bool) \<Rightarrow> Binder \<Rightarrow> MacNodeId \<Rightarrow> phy_call list res" where
  "ho_enter alive b cand =
     (if cand = 0 then Inr []
      else if getOmnetId cand b = 0 then Inl AssertionFailure
      else if \<not> alive (getOmnetId cand b) then Inl NullDeref
      else Inr [AmcAttach cand UL, AmcAttach cand DL, AmcAttach cand D2D])"

definition ho_binder :: "MacNodeId \<Rightarrow> MacNodeId \<Rightarrow> MacNodeId \<Rightarrow> Binder \<Rightarrow> Binder" where
  "ho_binder node master cand b =
     (let b = (if master \<noteq> 0 then unregisterNextHop master node b else b);
          b = (if cand \<noteq> 0 then registerNextHop cand node b else b);
          b = updateUeInfoCellId node cand b
      in removeHandoverTriggered node (removeUeHandoverTriggered node b))"

definition NRPhyUe_doHandover ::
  "'q kernel \<Rightarrow> phy_par \<Rightarrow> (int \<Rightarrow> bool) \<Rightarrow> bool \<Rightarrow> simtime \<Rightarrow> 'q phy \<times> Binder
    \<Rightarrow> (('q phy \<times> Binder) \<times> phy_call list) res" where
  "NRPhyUe_doHandover K par alive has_collector now = (\<lambda>(p, b).
     let old = ph_masterId p; cand = ph_candidateMasterId p; node = ph_nodeId p
     in rbind (ho_leave alive b old) (\<lambda>leave.
        rbind (ho_enter alive b cand) (\<lambda>enter.
        rbind (if old \<noteq> 0
               then (case ph_cellInfo p of None \<Rightarrow> Inl NullDeref | Some c \<Rightarrow> Inr [CellDetach c])
               else Inr []) (\<lambda>celldetach.
          let p' = p\<lparr>ph_masterId := cand, ph_currentMasterRssi := ph_candidateMasterRssi p,
                     ph_hysteresisTh := updateHysteresisTh par (ph_candidateMasterRssi p)\<rparr>;
              p' = (if cand \<noteq> 0
                    then p'\<lparr>ph_cellInfo := Some cand,
                            ph_queue := k_scheduleAt K now ''doModeSwitchAtHandover'' (ph_queue p')\<rparr>
                    else p')
          in Inr ((p', ho_binder node old cand b),
               leave @ enter @ (if cand \<noteq> 0 then [SetMasterRuSet cand] else [])
               @ (if has_collector then [MoveUeCollector old cand] else [])
               @ celldetach @ [MacHandover cand]
               @ (if cand \<noteq> 0 then [CellAttach cand] else [])
               @ (if cand \<noteq> 0 \<and> ph_cellInfo p = None then [InitChannel node] else [])
               @ [FeedbackHandover cand, HandoverCompleteUe (ph_isNr p)]
               @ (if old \<noteq> 0 \<and> cand \<noteq> 0 then [HandoverCompleteTarget node old] else []))))))"

text \<open>
  The timers of \<^verbatim>\<open>NRPhyUe::handleSelfMessage\<close> and \<^verbatim>\<open>LtePhyUe::handleSelfMessage\<close> that drive
  the state machine, for an event that has just been delivered.
\<close>

definition NRPhyUe_handleSelfMessage ::
  "'q kernel \<Rightarrow> phy_par \<Rightarrow> (int \<Rightarrow> bool) \<Rightarrow> bool \<Rightarrow> simtime \<Rightarrow> string \<Rightarrow> 'q phy \<times> 'q phy \<times> Binder
    \<Rightarrow> (('q phy \<times> 'q phy \<times> Binder) \<times> phy_call list \<times> phy_out list) res" where
  "NRPhyUe_handleSelfMessage K par alive has_collector now ev = (\<lambda>(p, other, b).
     if ev = ''convoyCtrlUnicastStarter''
     then (let (p', out) = NRPhyUe_unicastTimer par now (p, b) in Inr ((p', other, b), [], out))
     else if ev = ''handoverStarter''
     then rbind (NRPhyUe_triggerHandover K par alive now (p, other, b)) (\<lambda>(s, calls). Inr (s, calls, []))
     else if ev = ''handoverTrigger''
     then rbind (NRPhyUe_doHandover K par alive has_collector now (p, b))
            (\<lambda>((p', b'), calls). Inr ((p', other, b'), calls, []))
     else Inr ((p, other, b), [], []))"

section \<open>The hop table follows the master of the PHY\<close>

definition ue_synced :: "'q phy \<Rightarrow> Binder \<Rightarrow> bool" where
  "ue_synced p b \<longleftrightarrow> getNextHop (ph_nodeId p) b = Inr (ph_masterId p)"

lemma handover_frame [simp]:
  "nextHop (addUeHandoverTriggered i b) = nextHop b"
  "nextHop (removeUeHandoverTriggered i b) = nextHop b"
  "nextHop (addHandoverTriggered i s d b) = nextHop b"
  "nextHop (removeHandoverTriggered i b) = nextHop b"
  "nextHop (updateUeInfoCellId i c b) = nextHop b"
  by (simp_all add: addUeHandoverTriggered_def removeUeHandoverTriggered_def addHandoverTriggered_def
      removeHandoverTriggered_def updateUeInfoCellId_def)

lemma getNextHop_frame: "nextHop b' = nextHop b \<Longrightarrow> getNextHop i b' = getNextHop i b"
  by (simp add: getNextHop_def)

lemmas getNextHop_handover [simp] = handover_frame [THEN getNextHop_frame]

lemma ho_binder_nextHop:
  "ho_binder node master cand b' = b \<Longrightarrow> getNextHop node b' = Inr master \<Longrightarrow>
     getNextHop node b = Inr cand"
  by (auto simp: ho_binder_def Let_def getNextHop_registerNextHop getNextHop_unregisterNextHop)

lemma ho_binder_flags:
  "\<not> hasUeHandoverTriggered node (ho_binder node master cand b) \<and>
   getHandoverTriggered node (ho_binder node master cand b) = None"
  by (simp add: ho_binder_def Let_def hasUeHandoverTriggered_def removeUeHandoverTriggered_def
      removeHandoverTriggered_def getHandoverTriggered_def map_of_smap_del)

lemma doHandover_result:
  assumes "NRPhyUe_doHandover K par alive has_collector now (p, b) = Inr ((p', b'), calls)"
  shows "ph_nodeId p' = ph_nodeId p \<and> ph_masterId p' = ph_candidateMasterId p \<and>
    b' = ho_binder (ph_nodeId p) (ph_masterId p) (ph_candidateMasterId p) b"
  using assms by (auto simp: NRPhyUe_doHandover_def Let_def rbind_Inr_iff)

lemma forceHandover_frame [simp]:
  "ph_nodeId (NRPhyUe_forceHandover K par now t r p) = ph_nodeId p"
  "ph_masterId (NRPhyUe_forceHandover K par now t r p) = ph_masterId p"
  by (simp_all add: NRPhyUe_forceHandover_def)

lemma ho_start_frame:
  "ho_start K par alive now p other b = Inr ((p', other', b'), calls) \<Longrightarrow>
     ph_nodeId p' = ph_nodeId p \<and> ph_masterId p' = ph_masterId p \<and> other' = other \<and>
     nextHop b' = nextHop b"
  by (auto simp: ho_start_def Let_def split: if_splits)

lemma triggerHandover_frame:
  assumes "NRPhyUe_triggerHandover K par alive now (p, other, b) = Inr ((p', other', b'), calls)"
  shows "ph_nodeId p' = ph_nodeId p \<and> ph_masterId p' = ph_masterId p \<and>
    ph_nodeId other' = ph_nodeId other \<and> ph_masterId other' = ph_masterId other \<and>
    nextHop b' = nextHop b"
proof -
  obtain mn where mn: "getMasterNode (ph_candidateMasterId p) b = Inr mn"
    using assms by (auto simp: NRPhyUe_triggerHandover_def rbind_Inr_iff split: if_splits)
  show ?thesis
  proof (cases "ho_secondary par p other b mn")
    case Proceed
    show ?thesis
    proof (cases "ho_start K par alive now p other b = Inr ((p', other', b'), calls)")
      case True
      then show ?thesis by (auto dest!: ho_start_frame)
    next
      case False
      with assms Proceed mn obtain t where
        "p' = p\<lparr>ph_queue := k_scheduleAt K t ''handoverStarter'' (ph_queue p)\<rparr>"
        "other' = NRPhyUe_forceHandover K par now 0 0 other" "b' = b"
        by (fastforce simp: NRPhyUe_triggerHandover_def rbind_Inr_iff split: if_splits)
      then show ?thesis by simp
    qed
  next
    case (Delay d)
    with assms mn show ?thesis by (auto simp: NRPhyUe_triggerHandover_def split: if_splits)
  next
    case Cancel
    with assms mn show ?thesis by (auto simp: NRPhyUe_triggerHandover_def split: if_splits)
  qed
qed

lemma unicastTimer_frame:
  "NRPhyUe_unicastTimer par now (p, b) = (p', out) \<Longrightarrow>
     ph_nodeId p' = ph_nodeId p \<and> ph_masterId p' = ph_masterId p"
  by (auto simp: NRPhyUe_unicastTimer_def Let_def split: if_splits)

lemma handoverHandler_frame:
  "LtePhyUe_handoverHandler K par now rx info (p, b) = (p', b') \<Longrightarrow>
     ph_nodeId p' = ph_nodeId p \<and> ph_masterId p' = ph_masterId p \<and> nextHop b' = nextHop b"
  by (auto simp: LtePhyUe_handoverHandler_def schedule_handover_def Let_def split: if_splits)

lemma nextHop_ho_binder_other:
  "i \<noteq> node \<Longrightarrow> getNextHop i b = Inr m \<Longrightarrow> getNextHop i (ho_binder node master cand b) = Inr m"
  by (auto simp: ho_binder_def Let_def getNextHop_registerNextHop getNextHop_unregisterNextHop)
     (auto simp: getNextHop_def unregisterNextHop_def Let_def split: if_splits)

text \<open>
  The steps of the two radios of a UE: a timer of the first radio, a frame received by it, an
  attachment ordered from above.
\<close>

inductive ue_step ::
  "'q kernel \<Rightarrow> phy_par \<Rightarrow> (int \<Rightarrow> bool) \<Rightarrow> 'q phy \<times> 'q phy \<times> Binder \<Rightarrow> 'q phy \<times> 'q phy \<times> Binder \<Rightarrow> bool"
  for K par alive where
  timer: "NRPhyUe_handleSelfMessage K par alive has_collector now ev s = Inr (s', calls, out) \<Longrightarrow>
    ue_step K par alive s s'"
| frame: "NRPhyUe_handleAirFrame K par channel now rx info other (p, b) = Inr (Some ((p', b'), out)) \<Longrightarrow>
    ue_step K par alive (p, other, b) (p', other, b')"
| attach: "ue_step K par alive (p, other, b) (NRPhyUe_attachToCluster K par now c rssi p, other, b)"

definition ues_synced :: "'q phy \<times> 'q phy \<times> Binder \<Rightarrow> bool" where
  "ues_synced = (\<lambda>(p, other, b). ph_nodeId p \<noteq> ph_nodeId other \<and> ue_synced p b \<and> ue_synced other b)"

lemma handleSelfMessage_cases:
  assumes "NRPhyUe_handleSelfMessage K par alive hc now ev (p, other, b) = Inr ((p', other', b'), calls, out)"
  obtains (unicast) p1 out1 where "NRPhyUe_unicastTimer par now (p, b) = (p1, out1)"
      "p' = p1" "other' = other" "b' = b"
    | (start) calls1 where "NRPhyUe_triggerHandover K par alive now (p, other, b) = Inr ((p', other', b'), calls1)"
    | (do) calls1 where "NRPhyUe_doHandover K par alive hc now (p, b) = Inr ((p', b'), calls1)" "other' = other"
    | (idle) "p' = p" "other' = other" "b' = b"
proof -
  consider "ev = ''convoyCtrlUnicastStarter''" | "ev = ''handoverStarter''" | "ev = ''handoverTrigger''"
    | "ev \<notin> {''convoyCtrlUnicastStarter'', ''handoverStarter'', ''handoverTrigger''}" by blast
  then show thesis
  proof cases
    case 1
    obtain p1 out1 where u: "NRPhyUe_unicastTimer par now (p, b) = (p1, out1)"
      by (cases "NRPhyUe_unicastTimer par now (p, b)")
    with 1 assms have "p' = p1" "other' = other" "b' = b"
      by (simp_all add: NRPhyUe_handleSelfMessage_def)
    with u show ?thesis by (rule unicast)
  next
    case 2
    with assms start show ?thesis
      by (simp add: NRPhyUe_handleSelfMessage_def rbind_Inr_iff split_def prod_eq_iff)
  next
    case 3
    with assms do show ?thesis
      by (simp add: NRPhyUe_handleSelfMessage_def rbind_Inr_iff split_def prod_eq_iff)
  next
    case 4
    with assms idle show ?thesis by (simp add: NRPhyUe_handleSelfMessage_def)
  qed
qed

lemma handleSelfMessage_synced:
  assumes "NRPhyUe_handleSelfMessage K par alive hc now ev (p, other, b) = Inr ((p', other', b'), calls, out)"
    and "ues_synced (p, other, b)"
  shows "ues_synced (p', other', b')"
proof -
  consider (unicast) p1 out1 where "NRPhyUe_unicastTimer par now (p, b) = (p1, out1)"
      "p' = p1" "other' = other" "b' = b"
    | (start) calls1 where "NRPhyUe_triggerHandover K par alive now (p, other, b) = Inr ((p', other', b'), calls1)"
    | (do) calls1 where "NRPhyUe_doHandover K par alive hc now (p, b) = Inr ((p', b'), calls1)" "other' = other"
    | (idle) "p' = p" "other' = other" "b' = b"
    using assms(1) by (rule handleSelfMessage_cases) blast+
  then show ?thesis
  proof cases
    case do
    then show ?thesis
      using assms(2) doHandover_result [OF do(1)] ho_binder_nextHop nextHop_ho_binder_other
      by (fastforce simp: ues_synced_def ue_synced_def)
  qed (use assms(2) in \<open>auto simp: ues_synced_def ue_synced_def getNextHop_def
        dest!: unicastTimer_frame triggerHandover_frame\<close>)
qed

lemma handleAirFrame_synced:
  assumes "NRPhyUe_handleAirFrame K par channel now rx info other (p, b) = Inr (Some ((p', b'), out))"
    and "ues_synced (p, other, b)"
  shows "ues_synced (p', other, b')"
proof -
  have "(p', b') = (p, b) \<or> LtePhyUe_handoverHandler K par now rx info (p, b) = (p', b')"
    using assms(1)
    by (auto simp: NRPhyUe_handleAirFrame_def Let_def rbind_Inr_iff split: if_splits)
  then show ?thesis
    using assms(2) by (auto simp: ues_synced_def ue_synced_def getNextHop_def dest!: handoverHandler_frame)
qed

lemma attachToCluster_frame [simp]:
  "ph_nodeId (NRPhyUe_attachToCluster K par now c rssi p) = ph_nodeId p"
  "ph_masterId (NRPhyUe_attachToCluster K par now c rssi p) = ph_masterId p"
  by (simp_all add: NRPhyUe_attachToCluster_def Let_def)

lemma ue_step_synced: "ue_step K par alive s s' \<Longrightarrow> ues_synced s \<Longrightarrow> ues_synced s'"
proof (induction rule: ue_step.induct)
  case (timer has_collector now ev s s' calls out)
  then show ?case by (cases s; cases s') (auto dest: handleSelfMessage_synced)
next
  case (attach p other b now c rssi)
  then show ?case by (simp add: ues_synced_def ue_synced_def)
qed (rule handleAirFrame_synced)

section \<open>Properties\<close>

definition sample_phy :: "MacNodeId \<Rightarrow> (string \<rightharpoonup> simtime) phy" where
  "sample_phy node = \<lparr>ph_nodeId = node, ph_isNr = True, ph_txPower = 26, ph_carrierFrequency = 2,
     ph_position = \<lparr>cx = 0, cy = 0, cz = 0\<rparr>, ph_convoy_id = 0, ph_cluster_id = 0,
     ph_convoy_direction = TOP, ph_convoy_full = False, ph_cluster_full = False,
     ph_publisher_id = [], ph_publisher_x = [], ph_publisher_y = [], ph_publisher_fov = [],
     ph_publisher_direction = [],
     ph_broadcast_for_transmission = \<lparr>b_id_convoy = 0, b_id_cluster = 0, b_full_convoy = False,
       b_full_cluster = False, b_direction = TOP, b_rssi = 0\<rparr>,
     ph_publishers_for_transmission = [], ph_masterId = 0, ph_candidateMasterId = 0,
     ph_currentMasterRssi = 0, ph_candidateMasterRssi = 0, ph_hysteresisTh = 0, ph_cellInfo = None,
     ph_unicast_timers = [], ph_queue = Map.empty\<rparr>"

definition sample_phy_par :: phy_par where
  "sample_phy_par = \<lparr>hysteresisFactor = 10, minRssi = 5, enableHandover = False, handoverDelta = 1,
     handoverAttachment = 3, handoverDetachment = 2, convoyCtrlUnicastInterval = 4,
     convoyCtrlBroadcastInterval = 4, bdcUpdateInterval = 4\<rparr>"

text \<open>One manager (id 1) and the two radios of a UE (ids 1025 and 2049), not attached.\<close>

definition sample_binder :: Binder where
  "sample_binder = snd (registerNodes [(70, GNODEB, 0, False), (71, UE, 0, False), (71, UE, 0, True)] new_Binder)"

lemma sample_binder_facts:
  "getMasterNode 1 sample_binder = Inr 1" "getOmnetId 1 sample_binder = 70"
  "getNextHop 1025 sample_binder = Inr 0" "getNextHop 2049 sample_binder = Inr 0"
  by (simp_all add: sample_binder_def registerNode_def draw_id_def Let_def new_Binder_def id_bounds
      registerNextHop_def registerMasterNode_def getMasterNode_def getOmnetId_def getNextHop_def
      grow_set_def nth_list_update nth_append)





text \<open>
  A UE that is ordered to attach to the cluster it is already attached to fails: its handover
  timer runs into the assertion that the candidate differs from the current master.
\<close>

theorem NRPhyUe_reattach_asserts:
  assumes "ph_masterId p = c"
  shows "NRPhyUe_triggerHandover K par alive now (NRPhyUe_attachToCluster K par now c rssi p, other, b) =
     Inl AssertionFailure"
  using assms
  by (simp add: NRPhyUe_triggerHandover_def NRPhyUe_attachToCluster_def NRPhyUe_forceHandover_def Let_def)

theorem NRPhyUe_reattach_asserts_witness:
  "NRPhyUe_triggerHandover fes_kernel sample_phy_par (\<lambda>_. True) 7
     (NRPhyUe_attachToCluster fes_kernel sample_phy_par 7 1 20 ((sample_phy 2049)\<lparr>ph_masterId := 1\<rparr>),
      sample_phy 1025, sample_binder) = Inl AssertionFailure"
  by (rule NRPhyUe_reattach_asserts) simp

text \<open>
  A received handover frame never changes the master, and it changes the candidate only for a
  reason: the sender is stronger than the candidate by more than the hysteresis and, unless it
  is the master itself, above the minimum; or the master has become too weak and the candidate
  is dropped.
\<close>

theorem handoverHandler_candidate_change:
  assumes "LtePhyUe_handoverHandler K par now rx info (p, b) = (p', b')"
    and "ph_candidateMasterId p' \<noteq> ph_candidateMasterId p"
  shows "ph_masterId p' = ph_masterId p \<and> enableHandover par \<and>
     (ph_candidateMasterId p' = uc_sourceId info \<and>
      ph_candidateMasterRssi p + ph_hysteresisTh p < ph_candidateMasterRssi p' \<and>
      (uc_sourceId info \<noteq> ph_masterId p \<longrightarrow> minRssi par \<le> ph_candidateMasterRssi p')
      \<or> ph_candidateMasterId p' = 0 \<and> uc_sourceId info = ph_masterId p \<and>
        ph_candidateMasterId p = ph_masterId p)"
  using assms
  by (auto simp: LtePhyUe_handoverHandler_def schedule_handover_def Let_def split: if_splits)

theorem handoverHandler_candidate_change_witness:
  "let (p', b') = LtePhyUe_handoverHandler fes_kernel (sample_phy_par\<lparr>enableHandover := True\<rparr>) 7
       \<lparr>rx_das = 0, rx_sinr = [12, 14]\<rparr> (new_UserControlInfo\<lparr>uc_sourceId := 1\<rparr>) (sample_phy 2049, sample_binder)
   in ph_candidateMasterId p' = 1 \<and> 0 < ph_candidateMasterRssi p'"
proof -
  let ?r = "LtePhyUe_handoverHandler fes_kernel (sample_phy_par\<lparr>enableHandover := True\<rparr>) 7
       \<lparr>rx_das = 0, rx_sinr = [12, 14]\<rparr> (new_UserControlInfo\<lparr>uc_sourceId := 1\<rparr>) (sample_phy 2049, sample_binder)"
  obtain p' b' where r: "?r = (p', b')" by (cases ?r)
  have "ph_candidateMasterId p' \<noteq> ph_candidateMasterId (sample_phy 2049)"
    using r by (auto simp: LtePhyUe_handoverHandler_def Let_def schedule_handover_def sample_phy_def
        sample_phy_par_def mean_sinr_def k_isScheduled_def getNodeTypeById_def id_bounds new_UserControlInfo_def)
  from handoverHandler_candidate_change [OF r this] this
  have "ph_candidateMasterId p' = 1 \<and> 0 < ph_candidateMasterRssi p'"
    by (auto simp: sample_phy_def new_UserControlInfo_def)
  then show ?thesis by (simp only: r Let_def prod.case)
qed

text \<open>
  Every attachment starts one more status-report timer and none is ever cancelled: after any
  number of attachments there are as many pending timers as attachments.
\<close>

theorem NRPhyUe_report_timers_accumulate:
  assumes "convoyCtrlUnicastInterval par \<noteq> 0"
  shows "length (ph_unicast_timers (fold (\<lambda>(now, c, rssi). NRPhyUe_attachToCluster K par now c rssi) joins p)) =
     length (ph_unicast_timers p) + length joins"
  using assms
  by (induction joins arbitrary: p)
     (auto simp: NRPhyUe_attachToCluster_def NRPhyUe_forceHandover_def Let_def)

theorem NRPhyUe_report_timers_accumulate_witness:
  "length (ph_unicast_timers (fold (\<lambda>(now, c, rssi). NRPhyUe_attachToCluster fes_kernel sample_phy_par now c rssi)
     [(7, 1, 20), (9, 2, 21)] (sample_phy 2049))) = 2"
  using NRPhyUe_report_timers_accumulate [of sample_phy_par fes_kernel "[(7, 1, 20), (9, 2, 21)]" "sample_phy 2049"]
  by (simp add: sample_phy_par_def sample_phy_def)

end
