(* ===== verification/Binder_Convoy.thy ===== *)
theory Binder_Convoy
  imports Binder_Nodes
begin

text \<open>
  The convoy registry that the repository adds to simu5G's \<^verbatim>\<open>Binder\<close>: the list of convoy
  identifiers and, per convoy, the vector of cluster managers.  \<^verbatim>\<open>_cluster_map[c]\<close> creates
  a missing entry, so even a failing lookup changes the state.  The vectors hold 16-bit node
  identifiers while the operations take \<^verbatim>\<open>int\<close>: comparisons promote, insertions truncate.
\<close>

section \<open>Operations\<close>

text \<open>\<^verbatim>\<open>_cluster_map[convoy]\<close> as a value.\<close>

definition clusters_of :: "int \<Rightarrow> Binder \<Rightarrow> MacNodeId list" where
  "clusters_of c b = fst (smap_index [] c (cluster_map b))"

text \<open>\<^verbatim>\<open>_cluster_map[convoy] = v\<close> (also the effect of touching it with its own value).\<close>

definition set_clusters :: "int \<Rightarrow> MacNodeId list \<Rightarrow> Binder \<Rightarrow> Binder" where
  "set_clusters c v b = b\<lparr>cluster_map := smap_upd c v (cluster_map b)\<rparr>"

text \<open>\<^verbatim>\<open>_cluster_map.insert\<close> does nothing when the key is present.\<close>

definition insert_clusters :: "int \<Rightarrow> Binder \<Rightarrow> Binder" where
  "insert_clusters c b =
     (if map_of (cluster_map b) c = None
      then b\<lparr>cluster_map := smap_upd c [] (cluster_map b)\<rparr> else b)"

definition registerConvoy :: "int \<Rightarrow> Binder \<Rightarrow> Binder" where
  "registerConvoy id_convoy b =
     (if id_convoy \<in> set (id_list_convoys b) then b
      else insert_clusters id_convoy (b\<lparr>id_list_convoys := id_list_convoys b @ [id_convoy]\<rparr>))"

definition deRegisterConvoy :: "int \<Rightarrow> Binder \<Rightarrow> Binder" where
  "deRegisterConvoy id_convoy b =
     b\<lparr>id_list_convoys := filter (\<lambda>i. i \<noteq> id_convoy) (id_list_convoys b)\<rparr>"

definition getMaxIdConvoy :: "Binder \<Rightarrow> int" where
  "getMaxIdConvoy b =
     (case id_list_convoys b of [] \<Rightarrow> 0 | x # xs \<Rightarrow> foldl max x xs)"

definition registerCluster :: "int \<Rightarrow> int \<Rightarrow> Binder \<Rightarrow> Binder" where
  "registerCluster id_convoy id_cluster b =
     (let v = clusters_of id_convoy b
      in if list_ex (\<lambda>w. uint w = id_cluster) v then set_clusters id_convoy v b
         else set_clusters id_convoy (v @ [word_of_int id_cluster]) b)"

definition deRegisterCluster :: "int \<Rightarrow> int \<Rightarrow> Binder \<Rightarrow> Binder" where
  "deRegisterCluster id_convoy id_cluster b =
     set_clusters id_convoy (filter (\<lambda>w. uint w \<noteq> id_cluster) (clusters_of id_convoy b)) b"

text \<open>The older interface of the registry, indexed by a per-convoy cluster number.\<close>

definition notifyConvoy :: "int \<Rightarrow> Binder \<Rightarrow> Binder" where
  "notifyConvoy i b =
     (if i \<in> set (id_list_convoys b) then b
      else insert_clusters i (b\<lparr>id_list_convoys := id_list_convoys b @ [i]\<rparr>))"

definition deNotifyConvoy :: "int \<Rightarrow> Binder \<Rightarrow> Binder" where
  "deNotifyConvoy i b = b\<lparr>id_list_convoys := filter (\<lambda>j. j \<noteq> i) (id_list_convoys b)\<rparr>"

definition getMaxIdCluster :: "int \<Rightarrow> Binder \<Rightarrow> int \<times> Binder" where
  "getMaxIdCluster convoy_id b =
     (if convoy_id \<in> set (id_list_convoys b)
      then (int (length (clusters_of convoy_id b)) - 1,
            set_clusters convoy_id (clusters_of convoy_id b) b)
      else (- 1, b))"

text \<open>
  \<^verbatim>\<open>size() < (cluster_id + 1)\<close> compares as \<^verbatim>\<open>size_t\<close> and \<^verbatim>\<open>at\<close> takes a
  \<^verbatim>\<open>size_t\<close>, so the \<^verbatim>\<open>int\<close> argument is read modulo \<open>2 ^ 64\<close>.
\<close>

definition size_t :: "int \<Rightarrow> nat" where
  "size_t i = unat (word_of_int i :: u64)"

definition notifyCluster :: "int \<Rightarrow> int \<Rightarrow> MacNodeId \<Rightarrow> Binder \<Rightarrow> Binder res" where
  "notifyCluster convoy_id cluster_id cluster_manager b =
     (let v = clusters_of convoy_id b;
          v' = v @ replicate (size_t (cluster_id + 1) - length v) 0
      in if size_t cluster_id < length v'
         then Inr (set_clusters convoy_id (v'[size_t cluster_id := cluster_manager]) b)
         else Inl OutOfRange)"

text \<open>
  The loop \<^verbatim>\<open>for (auto it : _cluster_map)\<close> binds a copy of each entry: the erasure happens
  on the copy, which is dropped at the end of the iteration.
\<close>

fun erase_on_copies :: "MacNodeId \<Rightarrow> (int, MacNodeId list) smap \<Rightarrow> (int, MacNodeId list) smap" where
  "erase_on_copies w [] = []"
| "erase_on_copies w (entry # rest) =
     (let it = entry;
          it' = (if w \<in> set (snd it) then (fst it, filter (\<lambda>x. x \<noteq> w) (snd it)) else it)
      in entry # erase_on_copies w rest)"

definition deNotifyCluster :: "MacNodeId \<Rightarrow> Binder \<Rightarrow> Binder" where
  "deNotifyCluster cluster_manager b =
     b\<lparr>cluster_map := erase_on_copies cluster_manager (cluster_map b)\<rparr>"

definition getManagerId :: "int \<Rightarrow> int \<Rightarrow> Binder \<Rightarrow> MacNodeId res \<times> Binder" where
  "getManagerId convoy_id cluster_id b =
     (let v = clusters_of convoy_id b
      in (if size_t cluster_id < length v then Inr (v ! size_t cluster_id) else Inl OutOfRange,
          set_clusters convoy_id v b))"

fun index_of :: "'a \<Rightarrow> 'a list \<Rightarrow> nat option" where
  "index_of x [] = None"
| "index_of x (y # ys) = (if y = x then Some 0 else map_option Suc (index_of x ys))"

definition getClusterId :: "int \<Rightarrow> MacNodeId \<Rightarrow> Binder \<Rightarrow> int \<times> Binder" where
  "getClusterId convoy_id cluster_manager b =
     (if convoy_id \<in> set (id_list_convoys b)
      then (case index_of cluster_manager (clusters_of convoy_id b) of Some i \<Rightarrow> int i | None \<Rightarrow> - 1,
            set_clusters convoy_id (clusters_of convoy_id b) b)
      else (- 1, b))"

section \<open>Invariant and frame\<close>

text \<open>
  Well-formed registry: the map is ordered, every listed convoy has an entry, convoy ids are
  unique, and no convoy lists a cluster twice.
\<close>

definition registry_ok :: "Binder \<Rightarrow> bool" where
  "registry_ok b \<longleftrightarrow> smap_ok (cluster_map b) \<and> distinct (id_list_convoys b) \<and>
     set (id_list_convoys b) \<subseteq> dom (map_of (cluster_map b)) \<and>
     (\<forall>c v. map_of (cluster_map b) c = Some v \<longrightarrow> distinct v)"

lemma registry_ok_new: "registry_ok new_Binder"
  by (simp add: registry_ok_def new_Binder_def)

lemma clusters_of_alt: "clusters_of c b = (case map_of (cluster_map b) c of Some v \<Rightarrow> v | None \<Rightarrow> [])"
  by (simp add: clusters_of_def smap_index_value)

lemma clusters_of_set_clusters:
  "smap_ok (cluster_map b) \<Longrightarrow>
     clusters_of c (set_clusters c' v b) = (if c = c' then v else clusters_of c b)"
  by (simp add: clusters_of_alt set_clusters_def map_of_smap_upd)

lemma registry_ok_set_clusters:
  "registry_ok b \<Longrightarrow> distinct v \<Longrightarrow> registry_ok (set_clusters c v b)"
  by (auto simp: registry_ok_def set_clusters_def map_of_smap_upd smap_ok_upd)

lemma registry_ok_distinct: "registry_ok b \<Longrightarrow> distinct (clusters_of c b)"
  by (auto simp: registry_ok_def clusters_of_alt split: option.splits)

lemma registry_ok_smap: "registry_ok b \<Longrightarrow> smap_ok (cluster_map b)"
  by (simp add: registry_ok_def)

lemma registry_frame [simp]:
  "nextHop (set_clusters c v b) = nextHop b"
  "nodeIds (set_clusters c v b) = nodeIds b"
  "id_list_convoys (set_clusters c v b) = id_list_convoys b"
  "nextHop (insert_clusters c b) = nextHop b"
  "nodeIds (insert_clusters c b) = nodeIds b"
  "id_list_convoys (insert_clusters c b) = id_list_convoys b"
  by (simp_all add: set_clusters_def insert_clusters_def)

lemma registerConvoy_ok: "registry_ok b \<Longrightarrow> registry_ok (registerConvoy c b)"
  by (auto simp: registry_ok_def registerConvoy_def insert_clusters_def map_of_smap_upd smap_ok_upd)

lemma deRegisterConvoy_ok: "registry_ok b \<Longrightarrow> registry_ok (deRegisterConvoy c b)"
  by (auto simp: registry_ok_def deRegisterConvoy_def)

lemma notifyConvoy_eq: "notifyConvoy = registerConvoy"
  by (simp add: fun_eq_iff notifyConvoy_def registerConvoy_def)

lemma deNotifyConvoy_eq: "deNotifyConvoy = deRegisterConvoy"
  by (simp add: fun_eq_iff deNotifyConvoy_def deRegisterConvoy_def)

text \<open>Identifiers that fit 16 bits survive the narrowing cast.\<close>

definition mac_range :: "int \<Rightarrow> bool" where
  "mac_range i \<longleftrightarrow> 0 \<le> i \<and> i < 65536"

lemma uint_word_of_int_mac: "mac_range i \<Longrightarrow> uint (word_of_int i :: MacNodeId) = i"
  by (simp add: mac_range_def uint_word_of_int)

lemma mac_range_uint [simp]: "mac_range (uint (w :: MacNodeId))"
  using uint_lt2p [of w] by (simp add: mac_range_def)

lemma registerCluster_clusters:
  "smap_ok (cluster_map b) \<Longrightarrow> clusters_of c' (registerCluster c k b) =
     (if c' = c \<and> k \<notin> uint ` set (clusters_of c b)
      then clusters_of c b @ [word_of_int k] else clusters_of c' b)"
  by (auto simp: registerCluster_def Let_def clusters_of_set_clusters list_ex_iff image_iff)

lemma deRegisterCluster_clusters:
  "smap_ok (cluster_map b) \<Longrightarrow> clusters_of c' (deRegisterCluster c k b) =
     (if c' = c then filter (\<lambda>w. uint w \<noteq> k) (clusters_of c b) else clusters_of c' b)"
  by (simp add: deRegisterCluster_def clusters_of_set_clusters)

lemma registerCluster_ok:
  assumes "registry_ok b" and "mac_range k"
  shows "registry_ok (registerCluster c k b)"
proof (cases "k \<in> uint ` set (clusters_of c b)")
  case True
  then show ?thesis
    using assms(1) by (auto simp: registerCluster_def Let_def list_ex_iff
        intro!: registry_ok_set_clusters registry_ok_distinct)
next
  case False
  then have "word_of_int k \<notin> set (clusters_of c b)"
    using assms(2) by (metis image_eqI uint_word_of_int_mac)
  with False assms(1) show ?thesis
    by (auto simp: registerCluster_def Let_def list_ex_iff image_iff
        intro!: registry_ok_set_clusters registry_ok_distinct)
qed

lemma deRegisterCluster_ok: "registry_ok b \<Longrightarrow> registry_ok (deRegisterCluster c k b)"
  by (simp add: deRegisterCluster_def registry_ok_set_clusters registry_ok_distinct)

lemma foldl_max_ge: "x \<in> set xs \<or> x = a \<Longrightarrow> x \<le> foldl max (a::int) xs"
proof (induction xs arbitrary: a x)
  case (Cons y ys)
  show ?case
  proof (cases "x \<in> set ys")
    case True
    then show ?thesis using Cons.IH by simp
  next
    case False
    with Cons.prems have "x \<le> max a y" by auto
    also have "max a y \<le> foldl max (max a y) ys" by (rule Cons.IH) simp
    finally show ?thesis by simp
  qed
qed simp

lemma foldl_max_in: "foldl max (a::int) xs \<in> insert a (set xs)"
proof (induction xs arbitrary: a)
  case (Cons y ys)
  have "foldl max (max a y) ys \<in> insert (max a y) (set ys)" by (rule Cons.IH)
  moreover have "max a y \<in> {a, y}" by (auto simp: max_def)
  ultimately show ?case by auto
qed simp

lemma getMaxIdConvoy_ge: "i \<in> set (id_list_convoys b) \<Longrightarrow> i \<le> getMaxIdConvoy b"
  by (auto simp: getMaxIdConvoy_def foldl_max_ge split: list.splits)

lemma getMaxIdConvoy_in: "id_list_convoys b \<noteq> [] \<Longrightarrow> getMaxIdConvoy b \<in> set (id_list_convoys b)"
  using foldl_max_in by (auto simp: getMaxIdConvoy_def split: list.splits)

lemma getMaxIdConvoy_fresh: "getMaxIdConvoy b + 1 \<notin> set (id_list_convoys b)"
  using getMaxIdConvoy_ge [of "getMaxIdConvoy b + 1" b] by auto

section \<open>Properties\<close>

text \<open>
  Histories of the registry: the operations the convoy architecture calls, in any order.
\<close>

inductive registry_step :: "Binder \<Rightarrow> Binder \<Rightarrow> bool" where
  convoy: "registry_step b (registerConvoy c b)"
| leave: "registry_step b (deRegisterConvoy c b)"
| cluster: "mac_range k \<Longrightarrow> registry_step b (registerCluster c k b)"
| remove: "registry_step b (deRegisterCluster c k b)"
| node: "registry_step b (snd (registerNode i ty m nr b))"

inductive_cases registry_stepE: "registry_step b b'"

lemma registry_ok_cong:
  "id_list_convoys b' = id_list_convoys b \<Longrightarrow> cluster_map b' = cluster_map b \<Longrightarrow>
     registry_ok b' = registry_ok b"
  by (simp add: registry_ok_def)

lemma registry_step_ok: "registry_step b b' \<Longrightarrow> registry_ok b \<Longrightarrow> registry_ok b'"
  by (induction rule: registry_step.induct)
     (auto simp: registry_ok_cong [OF registerNode_registry] intro: registerConvoy_ok
        deRegisterConvoy_ok registerCluster_ok deRegisterCluster_ok)

lemma registry_reachable_ok: "registry_step\<^sup>*\<^sup>* new_Binder b \<Longrightarrow> registry_ok b"
  by (induction rule: rtranclp_induct) (auto intro: registry_ok_new registry_step_ok)

text \<open>
  C29. In every registry state that registrations and removals can reach, convoy ids are unique,
  every listed convoy has a cluster vector without repetitions, and the id a new convoy would
  get (the maximum plus one) is unused.
\<close>

theorem registry_reachable:
  assumes "registry_step\<^sup>*\<^sup>* new_Binder b"
  shows "distinct (id_list_convoys b) \<and> distinct (clusters_of c b) \<and>
     (\<forall>i. i \<in> set (id_list_convoys b) \<longrightarrow> map_of (cluster_map b) i \<noteq> None) \<and>
     getMaxIdConvoy b + 1 \<notin> set (id_list_convoys b)"
  using registry_reachable_ok [OF assms] registry_ok_distinct [of b c] getMaxIdConvoy_fresh
  by (auto simp: registry_ok_def dom_def)

theorem registry_reachable_witness:
  "getMaxIdConvoy (registerCluster 1 5 (registerConvoy 1 new_Binder)) + 1
     \<notin> set (id_list_convoys (registerCluster 1 5 (registerConvoy 1 new_Binder)))"
proof -
  have "registry_step new_Binder (registerConvoy 1 new_Binder)"
      "registry_step (registerConvoy 1 new_Binder) (registerCluster 1 5 (registerConvoy 1 new_Binder))"
    by (rule registry_step.convoy, rule registry_step.cluster) (simp add: mac_range_def)
  then have "registry_step\<^sup>*\<^sup>* new_Binder (registerCluster 1 5 (registerConvoy 1 new_Binder))"
    by (meson converse_rtranclp_into_rtranclp r_into_rtranclp)
  from registry_reachable [OF this] show ?thesis by blast
qed

text \<open>
  Registering a cluster makes it a member of its convoy, deregistering it removes it again
  and restores the vector of the convoy, and neither touches another convoy.
\<close>

theorem registerCluster_roundtrip:
  assumes "registry_ok b" and "mac_range k" and "word_of_int k \<notin> set (clusters_of c b)"
  shows "word_of_int k \<in> set (clusters_of c (registerCluster c k b)) \<and>
     clusters_of c (deRegisterCluster c k (registerCluster c k b)) = clusters_of c b \<and>
     (c' \<noteq> c \<longrightarrow> clusters_of c' (deRegisterCluster c k (registerCluster c k b)) = clusters_of c' b)"
proof -
  have new: "uint w \<noteq> k" if "w \<in> set (clusters_of c b)" for w
    using that assms(3) by auto
  then have "k \<notin> uint ` set (clusters_of c b)" by auto
  moreover have "filter (\<lambda>w. uint w \<noteq> k) (clusters_of c b) = clusters_of c b"
    using new by (simp add: filter_id_conv)
  ultimately show ?thesis
    using registry_ok_smap [OF assms(1)] registry_ok_smap [OF registerCluster_ok [OF assms(1,2)]]
    by (simp add: registerCluster_clusters deRegisterCluster_clusters uint_word_of_int_mac [OF assms(2)])
qed

theorem registerCluster_roundtrip_witness:
  "clusters_of 1 (deRegisterCluster 1 5 (registerCluster 1 5 (registerConvoy 1 new_Binder))) = []"
  using registerCluster_roundtrip [of "registerConvoy 1 new_Binder" 5 1 0]
    registerConvoy_ok [OF registry_ok_new, of 1]
  by (simp add: mac_range_def) (simp add: registerConvoy_def insert_clusters_def clusters_of_alt new_Binder_def)

lemma erase_on_copies_id [simp]: "erase_on_copies w m = m"
  by (induction m) (simp_all add: Let_def)

text \<open>
  \<open>deNotifyCluster\<close> has no effect: the manager stays in every cluster vector it was in.
\<close>

theorem deNotifyCluster_no_effect: "deNotifyCluster cluster_manager b = b"
  by (simp add: deNotifyCluster_def)

text \<open>
  Deregistering a convoy forgets its id but not its clusters: registering the same id again
  brings the old clusters back.
\<close>

theorem deRegisterConvoy_keeps_clusters:
  assumes "registry_ok b" and "c \<in> set (id_list_convoys b)"
  shows "c \<notin> set (id_list_convoys (deRegisterConvoy c b)) \<and>
     clusters_of c (registerConvoy c (deRegisterConvoy c b)) = clusters_of c b"
  using assms
  by (auto simp: deRegisterConvoy_def registerConvoy_def insert_clusters_def clusters_of_alt
      registry_ok_def)

theorem deRegisterConvoy_keeps_clusters_witness:
  "clusters_of 1 (registerConvoy 1 (deRegisterConvoy 1 (registerCluster 1 5 (registerConvoy 1 new_Binder)))) = [5]"
proof -
  let ?b = "registerCluster 1 5 (registerConvoy 1 new_Binder)"
  have "registry_ok ?b"
    by (intro registerCluster_ok registerConvoy_ok registry_ok_new) (simp add: mac_range_def)
  moreover have "1 \<in> set (id_list_convoys ?b)" "clusters_of 1 ?b = [5]"
    by (simp_all add: registerCluster_def registerConvoy_def insert_clusters_def set_clusters_def
        clusters_of_def smap_index_def new_Binder_def Let_def)
  ultimately show ?thesis using deRegisterConvoy_keeps_clusters [of ?b 1] by simp
qed

end
