(* ===== verification/Cluster_Device.thy ===== *)
theory Cluster_Device
  imports Convoy_Phy Binder_Convoy
begin

text \<open>
  \<^verbatim>\<open>devices/ClusterDevice\<close>: the network interface through which a station takes part in a
  cluster, as the master (a gNB) or as a member or gateway (a UE).  Starting a device runs
  \<^verbatim>\<open>IP2Nic::initialize\<close>, which registers it with the Binder, and the initialisation of its
  PHY.
\<close>

section \<open>What starting a device runs\<close>

text \<open>
  \<^verbatim>\<open>IP2Nic::initialize\<close>, the registration stages: a base station gets one identifier; a UE
  gets one for each radio, the second only if it has an \<^verbatim>\<open>nrMasterId\<close>.
\<close>

definition IP2Nic_initialize ::
  "RanNodeType \<Rightarrow> int \<Rightarrow> MacNodeId \<Rightarrow> MacNodeId option \<Rightarrow> Binder \<Rightarrow> ((MacNodeId \<times> MacNodeId) \<times> Binder) res" where
  "IP2Nic_initialize nodeType omnetId masterId nrMasterId b =
     (if nodeType = ENODEB \<or> nodeType = GNODEB
      then (let (cellId, b) = registerNode omnetId nodeType masterId False b in Inr ((cellId, 0), b))
      else if nodeType = UE
      then (let (nodeId, b) = registerNode omnetId nodeType masterId False b
            in case nrMasterId of
                 Some m \<Rightarrow> (let (nrNodeId, b) = registerNode omnetId nodeType m True b
                            in Inr ((nodeId, nrNodeId), b))
               | None \<Rightarrow> Inr ((nodeId, 0), b))
      else Inl (RuntimeError ''unhandled node type''))"

text \<open>The parameters a PHY reads when it starts.\<close>

record 'q phy_ini =
  ini_ueTxPower :: real
  ini_eNodeBTxPower :: real
  ini_microTxPower :: real
  ini_micro :: bool
  ini_carrierFrequency :: real
  ini_position :: Coord
  ini_queue :: 'q

definition new_Broadcast :: Broadcast where
  "new_Broadcast = \<lparr>b_id_convoy = 0, b_id_cluster = 0, b_full_convoy = False, b_full_cluster = False,
     b_direction = DIR_UNDEFINED, b_rssi = 0\<rparr>"

text \<open>
  \<^verbatim>\<open>LtePhyUe::initialize\<close> with static cell association, for the radio with identifier
  \<open>node\<close> and configured master \<open>master\<close>.  Members that the source leaves uninitialised are 0.
\<close>

definition LtePhyUe_initialize :: "'q phy_ini \<Rightarrow> MacNodeId \<Rightarrow> bool \<Rightarrow> MacNodeId \<Rightarrow> 'q phy" where
  "LtePhyUe_initialize ini node isNr master =
     \<lparr>ph_nodeId = node, ph_isNr = isNr, ph_txPower = ini_ueTxPower ini,
      ph_carrierFrequency = ini_carrierFrequency ini, ph_position = ini_position ini,
      ph_convoy_id = 0, ph_cluster_id = 0, ph_convoy_direction = DIR_UNDEFINED,
      ph_convoy_full = False, ph_cluster_full = False, ph_publisher_id = [], ph_publisher_x = [],
      ph_publisher_y = [], ph_publisher_fov = [], ph_publisher_direction = [],
      ph_broadcast_for_transmission = new_Broadcast, ph_publishers_for_transmission = [],
      ph_masterId = master, ph_candidateMasterId = master, ph_currentMasterRssi = - 999,
      ph_candidateMasterRssi = - 999, ph_hysteresisTh = 0,
      ph_cellInfo = (if 0 < master then Some master else None), ph_unicast_timers = [],
      ph_queue = ini_queue ini\<rparr>"

text \<open>\<^verbatim>\<open>LtePhyEnb::initialize\<close>: transmission power and the two periodic broadcasts.\<close>

definition LtePhyEnb_initialize ::
  "'q kernel \<Rightarrow> phy_par \<Rightarrow> 'q phy_ini \<Rightarrow> simtime \<Rightarrow> MacNodeId \<Rightarrow> 'q phy" where
  "LtePhyEnb_initialize K par ini now node =
     (let p = (LtePhyUe_initialize ini node True 0)\<lparr>
            ph_txPower := if ini_micro ini then ini_microTxPower ini else ini_eNodeBTxPower ini\<rparr>;
          q = (if bdcUpdateInterval par \<noteq> 0 \<and> enableHandover par
               then k_scheduleAt K now ''bdcStarter'' (ph_queue p) else ph_queue p);
          q = (if convoyCtrlBroadcastInterval par \<noteq> 0
               then k_scheduleAt K now ''convoyCtrlBroadcastStarter'' q else q)
      in p\<lparr>ph_queue := q\<rparr>)"

section \<open>The device\<close>

text \<open>
  \<open>cd_phy\<close> is the PHY the device talks to: \<^verbatim>\<open>phy\<close> of a master, \<^verbatim>\<open>nrPhy\<close> of any other device.
  Links are pairs of gate names, from base node to device and from device to base node;
  \<open>cd_subscribed\<close> says that the membership control listens to the PHY's broadcast signal.
\<close>

record 'q ClusterDevice =
  cd_device_type :: ClusterDeviceType
  cd_interface_type :: DeviceInterfaceType
  cd_address :: int
  cd_address_manager :: int
  cd_address_convoy :: int
  cd_convoyDirection :: ConvoyDirection
  cd_convoyID :: int
  cd_isPrimary :: bool
  cd_isMaster :: bool
  cd_nicType :: string
  cd_nodeType :: string
  cd_macNodeId :: MacNodeId
  cd_nrMacNodeId :: MacNodeId
  cd_module :: int
  cd_phy :: "'q phy"
  cd_links_in :: "(string \<times> string) list"
  cd_links_out :: "(string \<times> string) list"
  cd_subscribed :: bool
  cd_display :: "real \<times> real \<times> string"

text \<open>A created module, with the defaults of \<^verbatim>\<open>ClusterDevice.ned\<close>; its PHY does not run yet.\<close>

definition new_ClusterDevice :: "int \<Rightarrow> 'q phy_ini \<Rightarrow> 'q ClusterDevice" where
  "new_ClusterDevice omnetId ini =
     \<lparr>cd_device_type = UNKNOWN_DEVICE, cd_interface_type = UNKNOWN_INTERFACE, cd_address = 0,
      cd_address_manager = 0, cd_address_convoy = 0, cd_convoyDirection = DIR_UNDEFINED,
      cd_convoyID = - 1, cd_isPrimary = True, cd_isMaster = True, cd_nicType = ''NRNicEnb'',
      cd_nodeType = ''GNODEB'', cd_macNodeId = 0, cd_nrMacNodeId = 0, cd_module = omnetId,
      cd_phy = LtePhyUe_initialize ini 0 True 0, cd_links_in = [], cd_links_out = [],
      cd_subscribed = False, cd_display = (0, 0, ''red'')\<rparr>"

definition ClusterDevice_setType ::
  "ClusterDeviceType \<Rightarrow> DeviceInterfaceType \<Rightarrow> 'q ClusterDevice \<Rightarrow> 'q ClusterDevice" where
  "ClusterDevice_setType device_type interface_type d =
     d\<lparr>cd_device_type := device_type, cd_interface_type := interface_type\<rparr>"

definition ClusterDevice_updateBroadcastInfo_broadcast ::
  "Broadcast \<Rightarrow> 'q ClusterDevice \<Rightarrow> 'q ClusterDevice" where
  "ClusterDevice_updateBroadcastInfo_broadcast bc d =
     (if cd_device_type d = MASTER_DEVICE
      then d\<lparr>cd_phy := updateBroadcastParameters_broadcast bc (cd_phy d)\<rparr> else d)"

definition ClusterDevice_updateBroadcastInfo_publishers ::
  "Publication list \<Rightarrow> 'q ClusterDevice \<Rightarrow> 'q ClusterDevice" where
  "ClusterDevice_updateBroadcastInfo_publishers pubs d =
     (if cd_device_type d = MASTER_DEVICE
      then d\<lparr>cd_phy := updateBroadcastParameters_publishers pubs (cd_phy d)\<rparr>
      else d\<lparr>cd_phy := updateBroadcastParameters_publishers pubs (cd_phy d)\<rparr>)"

text \<open>Configuration before the module is built.\<close>

definition ClusterDevice_configure ::
  "ConvoyDirection \<Rightarrow> int \<Rightarrow> 'q ClusterDevice \<Rightarrow> 'q ClusterDevice" where
  "ClusterDevice_configure direction address_convoy d =
     (let d = d\<lparr>cd_address_convoy := address_convoy, cd_convoyDirection := direction,
                cd_convoyID := address_convoy\<rparr>;
          d = (if cd_interface_type d \<noteq> PRIMARY_INTERFACE then d\<lparr>cd_isPrimary := False\<rparr> else d)
      in if cd_device_type d \<noteq> MASTER_DEVICE
         then d\<lparr>cd_isMaster := False, cd_nicType := ''NRNicUe'', cd_nodeType := ''UE''\<rparr> else d)"

definition ClusterDevice_configureAndStart ::
  "'q kernel \<Rightarrow> phy_par \<Rightarrow> 'q phy_ini \<Rightarrow> simtime \<Rightarrow> ConvoyDirection \<Rightarrow> int
    \<Rightarrow> 'q ClusterDevice \<times> Binder \<Rightarrow> ('q ClusterDevice \<times> Binder) res" where
  "ClusterDevice_configureAndStart K par ini now direction address_convoy = (\<lambda>(d, b).
     let d = ClusterDevice_configure direction address_convoy d
     in rbind (IP2Nic_initialize (if cd_nodeType d = ''UE'' then UE else GNODEB) (cd_module d) 0 (Some 0) b)
          (\<lambda>((node, nr), b).
            let d = d\<lparr>cd_macNodeId := node, cd_nrMacNodeId := nr,
                      cd_phy := if cd_isMaster d then LtePhyEnb_initialize K par ini now node
                                else LtePhyUe_initialize ini nr True 0\<rparr>;
                address = (if cd_device_type d = MASTER_DEVICE then cd_macNodeId d else cd_nrMacNodeId d)
            in rbind (getNextHop address b) (\<lambda>manager.
                 let d = d\<lparr>cd_address := uint address, cd_address_manager := uint manager\<rparr>;
                     d = (if cd_device_type d = MASTER_DEVICE
                          then ClusterDevice_updateBroadcastInfo_publishers []
                            (ClusterDevice_updateBroadcastInfo_broadcast
                              \<lparr>b_id_convoy = address_convoy, b_id_cluster = cd_address_manager d,
                               b_full_convoy = False, b_full_cluster = False,
                               b_direction = direction, b_rssi = 0\<rparr> d)
                          else d)
                 in Inr (d, b))))"

text \<open>The gates that \<open>connectPrimaryDeviceTo\<close> and \<open>connectGatewayDeviceTo\<close> wire.\<close>

definition device_services :: "string list" where
  "device_services = [''Publisher'', ''Subscriber'', ''Maneuver'', ''MemberControl'', ''MemberReport'']"

definition ClusterDevice_connectPrimaryDeviceTo :: "'q ClusterDevice \<Rightarrow> 'q ClusterDevice" where
  "ClusterDevice_connectPrimaryDeviceTo d =
     d\<lparr>cd_links_in := cd_links_in d @ map (\<lambda>s. (''outLl'' @ s, ''fromApp'' @ s)) device_services,
       cd_links_out := cd_links_out d @ map (\<lambda>s. (''toApp'' @ s, ''inLl'' @ s)) device_services\<rparr>"

definition ClusterDevice_connectGatewayDeviceTo :: "'q ClusterDevice \<Rightarrow> 'q ClusterDevice" where
  "ClusterDevice_connectGatewayDeviceTo d =
     d\<lparr>cd_links_in := cd_links_in d @ map (\<lambda>s. (''outLl'' @ s @ ''Gw'', ''fromApp'' @ s)) device_services,
       cd_links_out := cd_links_out d @ map (\<lambda>s. (''toApp'' @ s, ''inLl'' @ s @ ''Gw'')) device_services\<rparr>"

text \<open>\<^verbatim>\<open>gate->disconnect()\<close> cuts the connection that starts at the gate.\<close>

definition ClusterDevice_disconnect :: "'q ClusterDevice \<Rightarrow> 'q ClusterDevice" where
  "ClusterDevice_disconnect d = d\<lparr>cd_links_out := []\<rparr>"

definition ClusterDevice_remove :: "'q ClusterDevice \<Rightarrow> Binder \<Rightarrow> Binder" where
  "ClusterDevice_remove d b =
     (if cd_device_type d = MASTER_DEVICE
      then deRegisterCluster (cd_address_convoy d) (cd_address_manager d) b else b)"

definition ClusterDevice_joinNewCluster ::
  "'q kernel \<Rightarrow> phy_par \<Rightarrow> simtime \<Rightarrow> int \<Rightarrow> int \<Rightarrow> real \<Rightarrow> 'q ClusterDevice \<Rightarrow> 'q ClusterDevice" where
  "ClusterDevice_joinNewCluster K par now id_convoy id_cluster rssi d =
     (if cd_device_type d \<noteq> MASTER_DEVICE
      then d\<lparr>cd_phy := NRPhyUe_attachToCluster K par now (word_of_int id_cluster) rssi (cd_phy d),
             cd_address := uint (cd_nrMacNodeId d), cd_address_manager := id_cluster,
             cd_address_convoy := id_convoy\<rparr>
      else d)"

definition ClusterDevice_detachFromCluster :: "'q ClusterDevice \<Rightarrow> 'q ClusterDevice" where
  "ClusterDevice_detachFromCluster d =
     d\<lparr>cd_address := 0, cd_address_manager := 0, cd_address_convoy := 0\<rparr>"

definition ClusterDevice_setTxp :: "real \<Rightarrow> 'q ClusterDevice \<Rightarrow> 'q ClusterDevice" where
  "ClusterDevice_setTxp txp d = d\<lparr>cd_phy := setTxPower txp (cd_phy d)\<rparr>"

definition ClusterDevice_getTxp :: "'q ClusterDevice \<Rightarrow> real" where
  "ClusterDevice_getTxp d = getTxPower (cd_phy d)"

section \<open>Starting a device\<close>

lemma IP2Nic_initialize_registry:
  "IP2Nic_initialize ty i m nm b = Inr (w, b') \<Longrightarrow>
     id_list_convoys b' = id_list_convoys b \<and> cluster_map b' = cluster_map b"
  by (auto simp: IP2Nic_initialize_def Let_def split_def split: if_splits option.splits)

text \<open>A started master manages itself: its address is its cluster.\<close>

lemma start_master:
  assumes "cd_device_type d = MASTER_DEVICE" and "cd_nodeType d \<noteq> ''UE''" and "cd_isMaster d"
  shows "\<exists>d' b'. ClusterDevice_configureAndStart K par ini now dir c (d, b) = Inr (d', b') \<and>
     cd_device_type d' = MASTER_DEVICE \<and> cd_address d' = uint (macNodeIdCounter0 b) \<and>
     cd_address_manager d' = cd_address d' \<and> cd_address_convoy d' = c \<and>
     ph_broadcast_for_transmission (cd_phy d') = \<lparr>b_id_convoy = c, b_id_cluster = cd_address d',
       b_full_convoy = False, b_full_cluster = False, b_direction = dir, b_rssi = 0\<rparr> \<and>
     b' = snd (registerNode (cd_module d) GNODEB 0 False b)"
proof -
  let ?r = "registerNode (cd_module d) GNODEB 0 False b"
  have hop: "getNextHop (fst ?r) (snd ?r) = Inr (fst ?r)"
    using getNextHop_registerNode [of GNODEB "cd_module d" 0 False b] by simp
  have fst: "fst ?r = macNodeIdCounter0 b" by (simp add: registerNode_id draw_id_def)
  show ?thesis
    using assms hop fst
    by (auto simp: ClusterDevice_configureAndStart_def ClusterDevice_configure_def IP2Nic_initialize_def
        Let_def split_def ClusterDevice_updateBroadcastInfo_broadcast_def
        ClusterDevice_updateBroadcastInfo_publishers_def updateBroadcastParameters_broadcast_def
        updateBroadcastParameters_publishers_def)
qed

text \<open>A started member or gateway has its NR identifier as address and no manager yet.\<close>

lemma start_ue:
  assumes "cd_device_type d \<noteq> MASTER_DEVICE"
  shows "\<exists>d' b'. ClusterDevice_configureAndStart K par ini now dir c (d, b) = Inr (d', b') \<and>
     cd_device_type d' = cd_device_type d \<and> cd_address d' = uint (macNodeIdCounter2 b) \<and>
     cd_nrMacNodeId d' = macNodeIdCounter2 b \<and> cd_address_manager d' = 0 \<and> cd_address_convoy d' = c \<and>
     ph_masterId (cd_phy d') = 0 \<and> ph_nodeId (cd_phy d') = cd_nrMacNodeId d' \<and>
     ue_synced (cd_phy d') b' \<and>
     b' = snd (registerNode (cd_module d) UE 0 True (snd (registerNode (cd_module d) UE 0 False b)))"
proof -
  let ?b1 = "snd (registerNode (cd_module d) UE 0 False b)"
  let ?r = "registerNode (cd_module d) UE 0 True ?b1"
  have hop: "getNextHop (fst ?r) (snd ?r) = Inr 0"
    using getNextHop_registerNode [of UE "cd_module d" 0 True ?b1] by simp
  have fst: "fst ?r = macNodeIdCounter2 b"
    by (simp add: registerNode_id draw_id_def registerNode_counters)
  show ?thesis
    using assms hop fst
    by (auto simp: ClusterDevice_configureAndStart_def ClusterDevice_configure_def IP2Nic_initialize_def
        Let_def split_def LtePhyUe_initialize_def ue_synced_def)
qed

lemma configureAndStart_registry:
  assumes "ClusterDevice_configureAndStart K par ini now dir c (d, b) = Inr (d', b')"
  shows "id_list_convoys b' = id_list_convoys b \<and> cluster_map b' = cluster_map b"
  using assms
  by (auto simp: ClusterDevice_configureAndStart_def Let_def split_def rbind_Inr_iff
      dest!: IP2Nic_initialize_registry)

end
