(* ===== verification/Membership_Control.thy ===== *)
theory Membership_Control
  imports Cluster_Device
begin

text \<open>
  \<^verbatim>\<open>controls/MembershipControl\<close>: each station's agent that scans cluster broadcasts, joins
  the best cluster or founds one, keeps the list of publishers, reports to the backend and obeys
  its orchestration orders.  Operations act on the agent and on the shared part of the
  simulation: the Binder, the module vectors of the network and the next module id.
\<close>

section \<open>State\<close>

text \<open>What the agent reads from its \<^verbatim>\<open>BaseNode\<close>.\<close>

record base_node =
  bn_fullName :: string
  bn_stationType :: StationType
  bn_location :: Coord
  bn_detectorFovLimitRange :: real

record mc_par =
  broadcastScanDuration :: simtime
  broadcastScanInterval :: simtime
  minRSSIClusterManager :: real
  convoyDirection :: ConvoyDirection
  publisherUpdateInterval :: simtime
  memberReportStartTime :: simtime
  memberReportUpdateRate :: simtime

record 'q mc_env =
  env_kernel :: "'q kernel"
  env_phy_par :: phy_par
  env_phy_ini :: "'q phy_ini"
  env_par :: mc_par
  env_base :: base_node
  env_now :: simtime

record sim =
  sim_binder :: Binder
  sim_vectors :: "(string, int) smap"
  sim_next_module :: int

record 'q MembershipControl =
  mc_control_state :: MemberControlState
  mc_broadcasts_received :: "Broadcast list"
  mc_publishers :: "Publication list"
  mc_device_pr :: "'q ClusterDevice option"
  mc_device_gw :: "'q ClusterDevice option"
  mc_role :: Role
  mc_queue :: 'q

text \<open>Dereferencing \<^verbatim>\<open>_device_pr\<close> or \<^verbatim>\<open>_device_gw\<close>.\<close>

definition deref :: "'a option \<Rightarrow> 'a res" where
  "deref x = (case x of None \<Rightarrow> Inl NullDeref | Some y \<Rightarrow> Inr y)"

lemma deref_simps [simp]:
  "deref None = Inl NullDeref"
  "deref (Some y) = Inr y"
  by (simp_all add: deref_def)

lemma deref_Inr_iff: "deref x = Inr y \<longleftrightarrow> x = Some y"
  by (cases x) auto

section \<open>Devices\<close>

definition MembershipControl_updateLocation :: "base_node \<Rightarrow> 'q ClusterDevice \<Rightarrow> 'q ClusterDevice" where
  "MembershipControl_updateLocation base d =
     (let (offset_x, offset_y, color) =
            (case cd_device_type d of
               MASTER_DEVICE \<Rightarrow> (0, - 1, ''red'')
             | GATEWAY_DEVICE \<Rightarrow> (- 2, - 1, ''blue'')
             | _ \<Rightarrow> (2, - 1, ''yellow''))
      in d\<lparr>cd_display := (cx (bn_location base) + offset_x, cy (bn_location base) + offset_y, color)\<rparr>)"

definition device_name :: "ClusterDeviceType \<Rightarrow> string" where
  "device_name ty = (if ty = MEMBER_DEVICE then ''member''
     else if ty = MASTER_DEVICE then ''master'' else ''gateway'')"

text \<open>Grow the module vector of the device's kind and create the next element.\<close>

definition create_module :: "string \<Rightarrow> sim \<Rightarrow> int \<times> sim" where
  "create_module name s =
     (let index = (case map_of (sim_vectors s) name of None \<Rightarrow> 0 | Some n \<Rightarrow> n)
      in (sim_next_module s, s\<lparr>sim_vectors := smap_upd name (index + 1) (sim_vectors s),
                               sim_next_module := sim_next_module s + 1\<rparr>))"

definition MembershipControl_createInitClusterDevice ::
  "'q mc_env \<Rightarrow> ClusterDeviceType \<Rightarrow> DeviceInterfaceType \<Rightarrow> int \<Rightarrow> sim \<Rightarrow> ('q ClusterDevice \<times> sim) res" where
  "MembershipControl_createInitClusterDevice env device_type interface_type id_convoy s =
     (let (omnetId, s) = create_module (device_name device_type) s;
          d = new_ClusterDevice omnetId (env_phy_ini env);
          d = ClusterDevice_setType device_type interface_type d;
          d = MembershipControl_updateLocation (env_base env) d
      in rbind (ClusterDevice_configureAndStart (env_kernel env) (env_phy_par env) (env_phy_ini env)
                  (env_now env) (convoyDirection (env_par env)) id_convoy (d, sim_binder s))
           (\<lambda>(d, b).
             let d = (if device_type = GATEWAY_DEVICE then ClusterDevice_connectGatewayDeviceTo d
                      else (ClusterDevice_connectPrimaryDeviceTo d)\<lparr>cd_subscribed := True\<rparr>)
             in Inr (d, s\<lparr>sim_binder := b\<rparr>)))"

definition MembershipControl_initialize ::
  "'q mc_env \<Rightarrow> 'q \<Rightarrow> sim \<Rightarrow> ('q MembershipControl \<times> sim) res" where
  "MembershipControl_initialize env q s =
     rbind (MembershipControl_createInitClusterDevice env MEMBER_DEVICE PRIMARY_INTERFACE 0 s) (\<lambda>(pr, s).
     rbind (MembershipControl_createInitClusterDevice env GATEWAY_DEVICE GATEWAY_INTERFACE 0 s) (\<lambda>(gw, s).
       let duration = broadcastScanDuration (env_par env);
           interval = broadcastScanInterval (env_par env);
           duration = (if duration < interval then 3 * interval else duration)
       in Inr (\<lparr>mc_control_state = INITIALIZING, mc_broadcasts_received = [], mc_publishers = [],
                mc_device_pr = Some pr, mc_device_gw = Some gw, mc_role = UNDEFINED,
                mc_queue = k_scheduleAt (env_kernel env) (env_now env + duration) ''EventScanBroadcast'' q\<rparr>, s)))"

section \<open>Publishers and reports\<close>

definition put_publisher :: "Publication \<Rightarrow> Publication list \<Rightarrow> Publication list" where
  "put_publisher publisher pubs =
     upsert (\<lambda>val. p_name val = p_name publisher) (\<lambda>it. publisher) publisher pubs"

definition MembershipControl_updatePublishers ::
  "'q mc_env \<Rightarrow> 'q MembershipControl \<Rightarrow> 'q MembershipControl res" where
  "MembershipControl_updatePublishers env m =
     rbind (deref (mc_device_pr m)) (\<lambda>pr. rbind (deref (mc_device_gw m)) (\<lambda>gw.
       let base = env_base env;
           m = (if bn_stationType base = RSU
                then m\<lparr>mc_publishers := put_publisher
                       \<lparr>p_name = bn_fullName base, p_id = cd_address pr, p_position = bn_location base,
                        p_fov = bn_detectorFovLimitRange base,
                        p_direction = convoyDirection (env_par env),
                        p_cluster = cd_address_manager pr\<rparr> (mc_publishers m)\<rparr>
                else m)
       in Inr (m\<lparr>mc_device_pr := Some (ClusterDevice_updateBroadcastInfo_publishers (mc_publishers m) pr),
                 mc_device_gw := Some (ClusterDevice_updateBroadcastInfo_publishers (mc_publishers m) gw)\<rparr>)))"

definition MembershipControl_sendMemberReport ::
  "'q mc_env \<Rightarrow> 'q MembershipControl \<Rightarrow> out_msg res" where
  "MembershipControl_sendMemberReport env m =
     rbind (deref (mc_device_pr m)) (\<lambda>pr. rbind (deref (mc_device_gw m)) (\<lambda>gw.
       let base = env_base env
       in Inr (MMemberStatus (new_MemberStatus\<lparr>ms_timestamp := to_u64 (env_now env),
            ms_name := bn_fullName base, ms_direction := direction_int (convoyDirection (env_par env)),
            ms_id_convoy := cd_address_convoy pr, ms_id_gnb := cd_address_manager pr,
            ms_id_ue := cd_address pr, ms_id_gnb_gw := cd_address_manager gw,
            ms_id_ue_gw := cd_address gw, ms_role := mc_role m,
            ms_position_x := cx (bn_location base), ms_position_y := cy (bn_location base),
            ms_position_z := cz (bn_location base), ms_txp := ClusterDevice_getTxp pr,
            ms_txp_gw := ClusterDevice_getTxp gw\<rparr>), ''out'')))"

definition MembershipControl_readPublishers :: "'q MembershipControl \<Rightarrow> Publication list" where
  "MembershipControl_readPublishers m = mc_publishers m"

section \<open>Forming and joining clusters\<close>

definition MembershipControl_createNewCluster ::
  "'q mc_env \<Rightarrow> int \<Rightarrow> 'q MembershipControl \<times> sim \<Rightarrow> ('q MembershipControl \<times> sim) res" where
  "MembershipControl_createNewCluster env id_convoy = (\<lambda>(m, s).
     rbind (deref (mc_device_pr m)) (\<lambda>old.
       let old = ClusterDevice_disconnect old;
           s = s\<lparr>sim_binder := ClusterDevice_remove old (sim_binder s)\<rparr>
       in rbind (MembershipControl_createInitClusterDevice env MASTER_DEVICE PRIMARY_INTERFACE id_convoy s)
            (\<lambda>(pr, s).
              let m = m\<lparr>mc_device_pr := Some pr\<rparr>;
                  s = s\<lparr>sim_binder := registerCluster id_convoy (cd_address_manager pr) (sim_binder s)\<rparr>
              in rbind (MembershipControl_updatePublishers env m) (\<lambda>m.
                   Inr (m\<lparr>mc_role := MANAGER, mc_control_state := INITIALIZED\<rparr>, s)))))"

definition MembershipControl_createNewConvoy ::
  "'q mc_env \<Rightarrow> 'q MembershipControl \<times> sim \<Rightarrow> ('q MembershipControl \<times> sim) res" where
  "MembershipControl_createNewConvoy env = (\<lambda>(m, s).
     let id_convoy = getMaxIdConvoy (sim_binder s) + 1
     in MembershipControl_createNewCluster env id_convoy
          (m, s\<lparr>sim_binder := registerConvoy id_convoy (sim_binder s)\<rparr>))"

definition MembershipControl_joinNewCluster ::
  "'q mc_env \<Rightarrow> int \<Rightarrow> int \<Rightarrow> DeviceInterfaceType \<Rightarrow> real \<Rightarrow> 'q MembershipControl \<Rightarrow> 'q MembershipControl res" where
  "MembershipControl_joinNewCluster env id_convoy id_cluster interface_type rssi m =
     (let join = ClusterDevice_joinNewCluster (env_kernel env) (env_phy_par env) (env_now env)
                   id_convoy id_cluster rssi
      in if interface_type = GATEWAY_INTERFACE
         then rbind (deref (mc_device_gw m)) (\<lambda>gw.
                Inr (m\<lparr>mc_device_gw := Some (join gw), mc_role := GATEWAY\<rparr>))
         else rbind (deref (mc_device_pr m)) (\<lambda>pr.
                Inr (m\<lparr>mc_device_pr := Some (join pr),
                       mc_role := if mc_role m = GATEWAY then GATEWAY else MEMBER,
                       mc_control_state := INITIALIZED\<rparr>)))"

definition MembershipControl_detachFromCluster ::
  "DeviceInterfaceType \<Rightarrow> 'q MembershipControl \<times> sim \<Rightarrow> ('q MembershipControl \<times> sim) res" where
  "MembershipControl_detachFromCluster interface_type = (\<lambda>(m, s).
     if interface_type = GATEWAY_INTERFACE
     then rbind (deref (mc_device_gw m)) (\<lambda>gw.
            Inr (m\<lparr>mc_device_gw := Some (if cd_address_manager gw \<noteq> 0
                       then ClusterDevice_detachFromCluster gw else gw), mc_role := MEMBER\<rparr>, s))
     else rbind (deref (mc_device_pr m)) (\<lambda>pr.
            let s' = (if cd_address_manager pr \<noteq> 0 \<and> cd_device_type pr = MASTER_DEVICE
                      then s\<lparr>sim_binder := deRegisterCluster (cd_address_convoy pr)
                               (cd_address_manager pr) (sim_binder s)\<rparr> else s);
                pr' = (if cd_address_manager pr \<noteq> 0 then ClusterDevice_detachFromCluster pr else pr)
            in Inr (m\<lparr>mc_device_pr := Some pr', mc_role := UNDEFINED,
                      mc_control_state := INITIALIZING\<rparr>, s')))"

text \<open>
  The scan event.  \<open>srt\<close> is \<^verbatim>\<open>std::sort\<close> with the comparison \<open>rssi_before\<close>.
\<close>

definition rssi_before :: "Broadcast \<Rightarrow> Broadcast \<Rightarrow> bool" where
  "rssi_before lhs rhs \<longleftrightarrow> b_rssi rhs < b_rssi lhs"

definition qualified_broadcasts :: "mc_par \<Rightarrow> Broadcast list \<Rightarrow> Broadcast list" where
  "qualified_broadcasts par received =
     filter (\<lambda>bc. b_direction bc = convoyDirection par \<and> minRSSIClusterManager par \<le> b_rssi bc) received"

definition choose_cluster ::
  "(Broadcast list \<Rightarrow> Broadcast list) \<Rightarrow> 'q mc_env \<Rightarrow> 'q MembershipControl \<times> sim
    \<Rightarrow> ('q MembershipControl \<times> sim) res" where
  "choose_cluster srt env = (\<lambda>(m, s).
     if mc_broadcasts_received m \<noteq> []
     then (let qual = qualified_broadcasts (env_par env) (mc_broadcasts_received m)
           in if qual \<noteq> []
              then (case find (\<lambda>c. \<not> b_full_convoy c) (srt qual) of
                      Some candidate \<Rightarrow>
                        if \<not> b_full_cluster candidate
                        then rbind (MembershipControl_joinNewCluster env (b_id_convoy candidate)
                               (b_id_cluster candidate) PRIMARY_INTERFACE (b_rssi candidate) m)
                               (\<lambda>m. Inr (m, s))
                        else MembershipControl_createNewCluster env (b_id_convoy candidate) (m, s)
                    | None \<Rightarrow> MembershipControl_createNewConvoy env (m, s))
              else MembershipControl_createNewConvoy env (m, s))
     else MembershipControl_createNewConvoy env (m, s))"

definition MembershipControl_handleBroadcastScanEvent ::
  "(Broadcast list \<Rightarrow> Broadcast list) \<Rightarrow> 'q mc_env \<Rightarrow> 'q MembershipControl \<times> sim
    \<Rightarrow> ('q MembershipControl \<times> sim) res" where
  "MembershipControl_handleBroadcastScanEvent srt env = (\<lambda>(m, s).
     rbind (choose_cluster srt env (m, s)) (\<lambda>(m, s).
       let K = env_kernel env; now = env_now env; par = env_par env;
           q = k_scheduleAt K (now + publisherUpdateInterval par) ''EventPublisherUpdate'' (mc_queue m);
           start = memberReportStartTime par;
           q = k_scheduleAt K (if now < start then start else now) ''EventMemberReport'' q
       in Inr (m\<lparr>mc_queue := q\<rparr>, s)))"

section \<open>Signals\<close>

datatype mc_signal = MobilityStateChanged | ClusterBroadcastReceived UserControlInfo

definition broadcast_of :: "UserControlInfo \<Rightarrow> Broadcast" where
  "broadcast_of msg = \<lparr>b_id_convoy = uc_convoyID msg, b_id_cluster = uc_clusterID msg,
     b_full_convoy = uc_convoyFull msg, b_full_cluster = uc_clusterFull msg,
     b_direction = uc_convoyDirection msg, b_rssi = uc_rssi msg\<rparr>"

definition put_broadcast :: "Broadcast \<Rightarrow> Broadcast list \<Rightarrow> Broadcast list" where
  "put_broadcast bc rec =
     upsert (\<lambda>val. b_id_cluster val = b_id_cluster bc) (\<lambda>it. bc) bc rec"

text \<open>The publisher announced at an index; its cluster is its next hop in the Binder.\<close>

definition announced_publisher :: "Binder \<Rightarrow> UserControlInfo \<Rightarrow> nat \<Rightarrow> Publication res" where
  "announced_publisher b msg i =
     rbind (vec_at (uc_publisherName msg) i) (\<lambda>name.
     rbind (vec_at (uc_publisherNodeID msg) i) (\<lambda>node.
     rbind (vec_at (uc_publisherNodeX msg) i) (\<lambda>x.
     rbind (vec_at (uc_publisherNodeY msg) i) (\<lambda>y.
     rbind (vec_at (uc_publisherFOV msg) i) (\<lambda>fov.
     rbind (vec_at (uc_publisherDirection msg) i) (\<lambda>dir.
     rbind (getNextHop (word_of_int node) b) (\<lambda>hop.
       Inr \<lparr>p_name = name, p_id = node, p_position = \<lparr>cx = x, cy = y, cz = 0\<rparr>, p_fov = fov,
            p_direction = dir, p_cluster = uint hop\<rparr>)))))))"

fun put_announced ::
  "Binder \<Rightarrow> UserControlInfo \<Rightarrow> nat list \<Rightarrow> Publication list \<Rightarrow> Publication list res" where
  "put_announced b msg [] pubs = Inr pubs"
| "put_announced b msg (i # is) pubs =
     rbind (announced_publisher b msg i) (\<lambda>p. put_announced b msg is (put_publisher p pubs))"

definition MembershipControl_receiveSignal ::
  "'q mc_env \<Rightarrow> Binder \<Rightarrow> mc_signal \<Rightarrow> 'q MembershipControl \<Rightarrow> 'q MembershipControl res" where
  "MembershipControl_receiveSignal env b sig m =
     (case sig of
        MobilityStateChanged \<Rightarrow>
          Inr (m\<lparr>mc_device_pr := map_option (MembershipControl_updateLocation (env_base env)) (mc_device_pr m),
                 mc_device_gw := map_option (MembershipControl_updateLocation (env_base env)) (mc_device_gw m)\<rparr>)
      | ClusterBroadcastReceived msg \<Rightarrow>
          (let m = m\<lparr>mc_broadcasts_received := put_broadcast (broadcast_of msg) (mc_broadcasts_received m)\<rparr>
           in if minRSSIClusterManager (env_par env) \<le> uc_rssi msg
              then rbind (put_announced b msg [0..<length (uc_publisherNodeID msg)] (mc_publishers m))
                     (\<lambda>pubs. Inr (m\<lparr>mc_publishers := pubs\<rparr>))
              else Inr m))"

section \<open>What the routing control asks\<close>

definition MembershipControl_isInitialized :: "'q MembershipControl \<Rightarrow> bool" where
  "MembershipControl_isInitialized m \<longleftrightarrow> mc_control_state m = INITIALIZED"

definition getAddressOfManagerForPrimaryDevice :: "'q MembershipControl \<Rightarrow> int" where
  "getAddressOfManagerForPrimaryDevice m =
     (case mc_device_pr m of None \<Rightarrow> 0 | Some d \<Rightarrow> cd_address_manager d)"

definition getAddressOfManagerForGatewayDevice :: "'q MembershipControl \<Rightarrow> int" where
  "getAddressOfManagerForGatewayDevice m =
     (case mc_device_gw m of None \<Rightarrow> 0 | Some d \<Rightarrow> cd_address_manager d)"

definition getAddressOfPrimaryDevice :: "'q MembershipControl \<Rightarrow> int" where
  "getAddressOfPrimaryDevice m = (case mc_device_pr m of None \<Rightarrow> 0 | Some d \<Rightarrow> cd_address d)"

definition getAddressOfGatewayDevice :: "'q MembershipControl \<Rightarrow> int" where
  "getAddressOfGatewayDevice m = (case mc_device_gw m of None \<Rightarrow> 0 | Some d \<Rightarrow> cd_address d)"

definition addressMatchesPrimaryDevice :: "int \<Rightarrow> 'q MembershipControl \<Rightarrow> bool" where
  "addressMatchesPrimaryDevice address m =
     (case mc_device_pr m of None \<Rightarrow> False | Some d \<Rightarrow> address = cd_address d)"

definition addressMatchesGatewayDevice :: "int \<Rightarrow> 'q MembershipControl \<Rightarrow> bool" where
  "addressMatchesGatewayDevice address m =
     (case mc_device_gw m of None \<Rightarrow> False | Some d \<Rightarrow> address = cd_address d)"

definition MembershipControl_clusterMatch :: "int \<Rightarrow> 'q MembershipControl \<Rightarrow> ClusterDeviceType" where
  "MembershipControl_clusterMatch cluster_address m =
     (case mc_device_pr m of
        Some pr \<Rightarrow> if cluster_address = cd_address_manager pr then cd_device_type pr
          else (case mc_device_gw m of
                  Some gw \<Rightarrow> if cluster_address = cd_address_manager gw then cd_device_type gw
                             else UNKNOWN_DEVICE
                | None \<Rightarrow> UNKNOWN_DEVICE)
      | None \<Rightarrow> (case mc_device_gw m of
                  Some gw \<Rightarrow> if cluster_address = cd_address_manager gw then cd_device_type gw
                             else UNKNOWN_DEVICE
                | None \<Rightarrow> UNKNOWN_DEVICE))"

section \<open>Orchestration\<close>

text \<open>The RSSI last heard from a cluster, 0 if none was heard.\<close>

definition heard_rssi :: "int \<Rightarrow> 'q MembershipControl \<Rightarrow> real" where
  "heard_rssi id_cluster m =
     (case find (\<lambda>val. b_id_cluster val = id_cluster) (mc_broadcasts_received m) of
        Some bc \<Rightarrow> b_rssi bc | None \<Rightarrow> 0)"

definition join_gateway ::
  "'q mc_env \<Rightarrow> int \<Rightarrow> int \<Rightarrow> 'q MembershipControl \<Rightarrow> 'q MembershipControl res" where
  "join_gateway env id_convoy id_cluster_gw m =
     MembershipControl_joinNewCluster env id_convoy id_cluster_gw GATEWAY_INTERFACE (heard_rssi id_cluster_gw m) m"

text \<open>Replace the master device of a former manager by a member device, then join.\<close>

definition join_primary ::
  "'q mc_env \<Rightarrow> Role \<Rightarrow> int \<Rightarrow> int \<Rightarrow> 'q MembershipControl \<times> sim \<Rightarrow> ('q MembershipControl \<times> sim) res" where
  "join_primary env previous_role id_convoy id_cluster = (\<lambda>(m, s).
     rbind (if previous_role = MANAGER
            then rbind (deref (mc_device_pr m)) (\<lambda>old.
              let old = ClusterDevice_disconnect old;
                  s = s\<lparr>sim_binder := ClusterDevice_remove old (sim_binder s)\<rparr>
              in rbind (MembershipControl_createInitClusterDevice env MEMBER_DEVICE PRIMARY_INTERFACE id_convoy s)
                   (\<lambda>(pr, s). Inr (m\<lparr>mc_device_pr := Some pr\<rparr>, s)))
            else Inr (m, s))
       (\<lambda>(m, s). rbind (MembershipControl_joinNewCluster env id_convoy id_cluster PRIMARY_INTERFACE
                   (heard_rssi id_cluster m) m) (\<lambda>m. Inr (m, s))))"

definition MembershipControl_changeClusterMembership ::
  "'q mc_env \<Rightarrow> Role \<Rightarrow> int \<Rightarrow> int \<Rightarrow> int \<Rightarrow> 'q MembershipControl \<times> sim
    \<Rightarrow> ('q MembershipControl \<times> sim) res" where
  "MembershipControl_changeClusterMembership env role id_convoy id_cluster id_cluster_gw = (\<lambda>(m, s).
     let previous_role = mc_role m
     in if role = MANAGER then MembershipControl_createNewCluster env id_convoy (m, s)
        else rbind (if role = GATEWAY then join_gateway env id_convoy id_cluster_gw m else Inr m) (\<lambda>m.
          if role = MEMBER \<or> role = GATEWAY
          then join_primary env previous_role id_convoy id_cluster (m, s)
          else Inr (m, s)))"

text \<open>Detach both devices (without telling the Binder).\<close>

definition detach_devices :: "'q MembershipControl \<Rightarrow> 'q MembershipControl res" where
  "detach_devices m =
     rbind (deref (mc_device_pr m)) (\<lambda>pr. rbind (deref (mc_device_gw m)) (\<lambda>gw.
       Inr (m\<lparr>mc_device_pr := Some (ClusterDevice_detachFromCluster pr),
              mc_device_gw := Some (ClusterDevice_detachFromCluster gw)\<rparr>)))"

definition enforce_membership ::
  "'q mc_env \<Rightarrow> ConvoyControlService \<Rightarrow> 'q MembershipControl \<times> sim \<Rightarrow> ('q MembershipControl \<times> sim) res" where
  "enforce_membership env msg = (\<lambda>(m, s).
     let role = cc_cluster_role msg; id_convoy = cc_convoy_id msg; id_cluster = cc_cluster_id msg;
         id_cluster_gw = cc_cluster_id_gw msg;
         change = MembershipControl_changeClusterMembership env role id_convoy id_cluster id_cluster_gw
     in rbind (deref (mc_device_pr m)) (\<lambda>pr. rbind (deref (mc_device_gw m)) (\<lambda>gw.
          if id_convoy \<noteq> cd_address_convoy pr
          then rbind (detach_devices m) (\<lambda>m.
                 rbind (if getMaxIdConvoy (sim_binder s) < id_convoy
                        then MembershipControl_createNewConvoy env (m, s) else Inr (m, s)) change)
          else if role \<noteq> mc_role m
          then rbind (detach_devices m) (\<lambda>m. change (m, s))
          else if id_cluster \<noteq> cd_address_manager pr \<or> id_cluster_gw \<noteq> cd_address_manager gw
          then change (m, s)
          else Inr (m, s))))"

definition MembershipControl_handleOrchestrationMessage ::
  "'q mc_env \<Rightarrow> ConvoyControlService \<Rightarrow> 'q MembershipControl \<times> sim \<Rightarrow> ('q MembershipControl \<times> sim) res" where
  "MembershipControl_handleOrchestrationMessage env msg = (\<lambda>(m, s).
     rbind (enforce_membership env msg (m, s)) (\<lambda>(m, s).
       rbind (deref (mc_device_pr m)) (\<lambda>pr. rbind (deref (mc_device_gw m)) (\<lambda>gw.
         Inr (m\<lparr>mc_device_pr := Some (ClusterDevice_setTxp (cc_tx_power msg) pr),
                mc_device_gw := Some (ClusterDevice_setTxp (cc_tx_power_gw msg) gw)\<rparr>, s)))))"

section \<open>The handler\<close>

text \<open>
  An external message is looked at by name first; only one called \<^verbatim>\<open>ConvoyOrchestration\<close> is
  cast.  The handler returns the messages sent.
\<close>

definition MembershipControl_handleMessage ::
  "(Broadcast list \<Rightarrow> Broadcast list) \<Rightarrow> 'q mc_env \<Rightarrow> (string \<times> app_msg) in_msg
    \<Rightarrow> 'q MembershipControl \<times> sim \<Rightarrow> (('q MembershipControl \<times> sim) \<times> out_msg list) res" where
  "MembershipControl_handleMessage srt env msg = (\<lambda>(m, s).
     let K = env_kernel env; now = env_now env; par = env_par env
     in case msg of
          SelfMsg ev \<Rightarrow>
            (if ev = ''EventScanBroadcast''
             then rbind (MembershipControl_handleBroadcastScanEvent srt env (m, s)) (\<lambda>r. Inr (r, []))
             else if ev = ''EventPublisherUpdate''
             then rbind (MembershipControl_updatePublishers env m) (\<lambda>m.
                    Inr ((m\<lparr>mc_queue := k_scheduleAt K (now + publisherUpdateInterval par) ev (mc_queue m)\<rparr>, s), []))
             else if ev = ''EventMemberReport''
             then rbind (MembershipControl_sendMemberReport env m) (\<lambda>out.
                    Inr ((m\<lparr>mc_queue := k_scheduleAt K (now + memberReportUpdateRate par) ev (mc_queue m)\<rparr>, s), [out]))
             else Inr ((m, s), []))
        | ExtMsg gate (name, payload) \<Rightarrow>
            (if gate = ''in'' \<and> name = ''ConvoyOrchestration''
             then (case payload of
                     MConvoyControlService c \<Rightarrow>
                       rbind (MembershipControl_handleOrchestrationMessage env c (m, s)) (\<lambda>r. Inr (r, []))
                   | _ \<Rightarrow> Inl CastError)
             else Inr ((m, s), [])))"

text \<open>The destructor takes the devices off the air and their clusters off the registry.\<close>

definition MembershipControl_destroy :: "'q MembershipControl \<times> sim \<Rightarrow> sim" where
  "MembershipControl_destroy = (\<lambda>(m, s).
     let b = sim_binder s;
         b = (case mc_device_pr m of None \<Rightarrow> b | Some d \<Rightarrow> ClusterDevice_remove d b);
         b = (case mc_device_gw m of None \<Rightarrow> b | Some d \<Rightarrow> ClusterDevice_remove d b)
     in s\<lparr>sim_binder := b\<rparr>)"

section \<open>What creating a device yields\<close>

lemma updateLocation_frame [simp]:
  "cd_device_type (MembershipControl_updateLocation base d) = cd_device_type d"
  "cd_nodeType (MembershipControl_updateLocation base d) = cd_nodeType d"
  "cd_isMaster (MembershipControl_updateLocation base d) = cd_isMaster d"
  "cd_module (MembershipControl_updateLocation base d) = cd_module d"
  "cd_address (MembershipControl_updateLocation base d) = cd_address d"
  "cd_address_manager (MembershipControl_updateLocation base d) = cd_address_manager d"
  "cd_address_convoy (MembershipControl_updateLocation base d) = cd_address_convoy d"
  by (simp_all add: MembershipControl_updateLocation_def split_def Let_def)

lemma connect_frame [simp]:
  "cd_device_type (ClusterDevice_connectPrimaryDeviceTo d) = cd_device_type d"
  "cd_address (ClusterDevice_connectPrimaryDeviceTo d) = cd_address d"
  "cd_address_manager (ClusterDevice_connectPrimaryDeviceTo d) = cd_address_manager d"
  "cd_address_convoy (ClusterDevice_connectPrimaryDeviceTo d) = cd_address_convoy d"
  "cd_phy (ClusterDevice_connectPrimaryDeviceTo d) = cd_phy d"
  "cd_nrMacNodeId (ClusterDevice_connectPrimaryDeviceTo d) = cd_nrMacNodeId d"
  "cd_device_type (ClusterDevice_connectGatewayDeviceTo d) = cd_device_type d"
  "cd_address (ClusterDevice_connectGatewayDeviceTo d) = cd_address d"
  "cd_address_manager (ClusterDevice_connectGatewayDeviceTo d) = cd_address_manager d"
  "cd_address_convoy (ClusterDevice_connectGatewayDeviceTo d) = cd_address_convoy d"
  by (simp_all add: ClusterDevice_connectPrimaryDeviceTo_def ClusterDevice_connectGatewayDeviceTo_def)

lemma create_master:
  "\<exists>d s'. MembershipControl_createInitClusterDevice env MASTER_DEVICE itf c s = Inr (d, s') \<and>
     cd_device_type d = MASTER_DEVICE \<and> cd_address d = uint (macNodeIdCounter0 (sim_binder s)) \<and>
     cd_address_manager d = cd_address d \<and> cd_address_convoy d = c \<and>
     ph_broadcast_for_transmission (cd_phy d) = \<lparr>b_id_convoy = c, b_id_cluster = cd_address d,
       b_full_convoy = False, b_full_cluster = False, b_direction = convoyDirection (env_par env), b_rssi = 0\<rparr> \<and>
     id_list_convoys (sim_binder s') = id_list_convoys (sim_binder s) \<and>
     cluster_map (sim_binder s') = cluster_map (sim_binder s)"
proof -
  let ?d = "MembershipControl_updateLocation (env_base env)
      (ClusterDevice_setType MASTER_DEVICE itf (new_ClusterDevice (sim_next_module s) (env_phy_ini env)))"
  have "cd_device_type ?d = MASTER_DEVICE" "cd_nodeType ?d \<noteq> ''UE''" "cd_isMaster ?d"
    by (simp_all add: ClusterDevice_setType_def new_ClusterDevice_def)
  from start_master [OF this, of "env_kernel env" "env_phy_par env" "env_phy_ini env" "env_now env"
      "convoyDirection (env_par env)" c "sim_binder s"]
  show ?thesis
    by (auto simp: MembershipControl_createInitClusterDevice_def create_module_def Let_def)
qed

lemma create_ue:
  assumes "ty \<noteq> MASTER_DEVICE"
  shows "\<exists>d s'. MembershipControl_createInitClusterDevice env ty itf c s = Inr (d, s') \<and>
     cd_device_type d = ty \<and> cd_address_manager d = 0 \<and> cd_address_convoy d = c \<and>
     id_list_convoys (sim_binder s') = id_list_convoys (sim_binder s) \<and>
     cluster_map (sim_binder s') = cluster_map (sim_binder s)"
proof -
  let ?d = "MembershipControl_updateLocation (env_base env)
      (ClusterDevice_setType ty itf (new_ClusterDevice (sim_next_module s) (env_phy_ini env)))"
  have ty: "cd_device_type ?d = ty" by (simp add: ClusterDevice_setType_def)
  with assms have "cd_device_type ?d \<noteq> MASTER_DEVICE" by simp
  from start_ue [OF this, of "env_kernel env" "env_phy_par env" "env_phy_ini env" "env_now env"
      "convoyDirection (env_par env)" c "sim_binder s"] ty
  show ?thesis
    by (auto simp: MembershipControl_createInitClusterDevice_def create_module_def Let_def)
qed

section \<open>Well-formed agents\<close>

definition mc_ok :: "'q MembershipControl \<times> sim \<Rightarrow> bool" where
  "mc_ok = (\<lambda>(m, s). registry_ok (sim_binder s) \<and>
     (\<exists>pr gw. mc_device_pr m = Some pr \<and> mc_device_gw m = Some gw \<and>
        cd_device_type gw = GATEWAY_DEVICE \<and> cd_device_type pr \<in> {MASTER_DEVICE, MEMBER_DEVICE} \<and>
        (mc_role m = MANAGER \<longrightarrow> cd_device_type pr = MASTER_DEVICE)) \<and>
     distinct (map b_id_cluster (mc_broadcasts_received m)) \<and> distinct (map p_name (mc_publishers m)))"

lemma mc_okE:
  assumes "mc_ok (m, s)"
  obtains pr gw where "registry_ok (sim_binder s)" "mc_device_pr m = Some pr" "mc_device_gw m = Some gw"
    "cd_device_type gw = GATEWAY_DEVICE" "cd_device_type pr \<in> {MASTER_DEVICE, MEMBER_DEVICE}"
    "mc_role m = MANAGER \<longrightarrow> cd_device_type pr = MASTER_DEVICE"
    "distinct (map b_id_cluster (mc_broadcasts_received m))" "distinct (map p_name (mc_publishers m))"
  using assms by (auto simp: mc_ok_def)

lemma put_publisher_distinct:
  "distinct (map p_name pubs) \<Longrightarrow> distinct (map p_name (put_publisher p pubs))"
  unfolding put_publisher_def by (rule distinct_upsert) simp_all

lemma put_broadcast_distinct:
  "distinct (map b_id_cluster rec) \<Longrightarrow> distinct (map b_id_cluster (put_broadcast bc rec))"
  unfolding put_broadcast_def by (rule distinct_upsert) simp_all

lemma put_broadcast_lookup:
  "lookup_by b_id_cluster k (put_broadcast bc rec) =
     (if k = b_id_cluster bc then Some bc else lookup_by b_id_cluster k rec)"
  unfolding put_broadcast_def by (subst lookup_upsert) (auto split: option.splits)

lemma put_publisher_lookup:
  "lookup_by p_name k (put_publisher p pubs) = (if k = p_name p then Some p else lookup_by p_name k pubs)"
  unfolding put_publisher_def by (subst lookup_upsert) (auto split: option.splits)

lemma updateBroadcastInfo_frame [simp]:
  "cd_device_type (ClusterDevice_updateBroadcastInfo_publishers pubs d) = cd_device_type d"
  "cd_address (ClusterDevice_updateBroadcastInfo_publishers pubs d) = cd_address d"
  "cd_address_manager (ClusterDevice_updateBroadcastInfo_publishers pubs d) = cd_address_manager d"
  "cd_address_convoy (ClusterDevice_updateBroadcastInfo_publishers pubs d) = cd_address_convoy d"
  "ph_broadcast_for_transmission (cd_phy (ClusterDevice_updateBroadcastInfo_publishers pubs d)) =
     ph_broadcast_for_transmission (cd_phy d)"
  by (simp_all add: ClusterDevice_updateBroadcastInfo_publishers_def updateBroadcastParameters_publishers_def)

lemma joinNewCluster_type [simp]:
  "cd_device_type (ClusterDevice_joinNewCluster K par now c k rssi d) = cd_device_type d"
  by (simp add: ClusterDevice_joinNewCluster_def)

lemma detach_type [simp]:
  "cd_device_type (ClusterDevice_detachFromCluster d) = cd_device_type d"
  "cd_device_type (ClusterDevice_disconnect d) = cd_device_type d"
  "cd_device_type (ClusterDevice_setTxp txp d) = cd_device_type d"
  by (simp_all add: ClusterDevice_detachFromCluster_def ClusterDevice_disconnect_def ClusterDevice_setTxp_def)

lemma remove_ok: "registry_ok b \<Longrightarrow> registry_ok (ClusterDevice_remove d b)"
  by (simp add: ClusterDevice_remove_def deRegisterCluster_ok)

lemma updatePublishers_effect:
  assumes "mc_device_pr m = Some pr" and "mc_device_gw m = Some gw"
  shows "\<exists>pubs. MembershipControl_updatePublishers env m = Inr (m\<lparr>mc_publishers := pubs,
      mc_device_pr := Some (ClusterDevice_updateBroadcastInfo_publishers pubs pr),
      mc_device_gw := Some (ClusterDevice_updateBroadcastInfo_publishers pubs gw)\<rparr>) \<and>
    (distinct (map p_name (mc_publishers m)) \<longrightarrow> distinct (map p_name pubs))"
proof (cases "bn_stationType (env_base env) = RSU")
  case True
  with assms put_publisher_distinct show ?thesis
    by (auto simp: MembershipControl_updatePublishers_def Let_def)
next
  case False
  with assms show ?thesis
    by (intro exI [of _ "mc_publishers m"]) (simp add: MembershipControl_updatePublishers_def Let_def)
qed

text \<open>Founding a cluster always succeeds, and the registry lists the new manager.\<close>

lemma createNewCluster_effect:
  assumes "mc_device_pr m = Some old" and "mc_device_gw m = Some gw"
  shows "\<exists>m' s' pr. MembershipControl_createNewCluster env c (m, s) = Inr (m', s') \<and>
    mc_role m' = MANAGER \<and> mc_control_state m' = INITIALIZED \<and>
    mc_queue m' = mc_queue m \<and> mc_broadcasts_received m' = mc_broadcasts_received m \<and>
    (distinct (map p_name (mc_publishers m)) \<longrightarrow> distinct (map p_name (mc_publishers m'))) \<and>
    mc_device_pr m' = Some pr \<and> cd_device_type pr = MASTER_DEVICE \<and>
    cd_address pr = uint (macNodeIdCounter0 (sim_binder s)) \<and> cd_address_manager pr = cd_address pr \<and>
    cd_address_convoy pr = c \<and>
    b_id_convoy (ph_broadcast_for_transmission (cd_phy pr)) = c \<and>
    b_id_cluster (ph_broadcast_for_transmission (cd_phy pr)) = cd_address pr \<and>
    (\<exists>gw'. mc_device_gw m' = Some gw' \<and> cd_device_type gw' = cd_device_type gw \<and>
       cd_address_manager gw' = cd_address_manager gw) \<and>
    id_list_convoys (sim_binder s') = id_list_convoys (sim_binder s) \<and>
    cluster_map (sim_binder s') =
      cluster_map (registerCluster c (cd_address pr) (ClusterDevice_remove old (sim_binder s)))"
proof -
  define s1 where "s1 = s\<lparr>sim_binder := ClusterDevice_remove (ClusterDevice_disconnect old) (sim_binder s)\<rparr>"
  have rm: "ClusterDevice_remove (ClusterDevice_disconnect old) b = ClusterDevice_remove old b" for b
    by (simp add: ClusterDevice_remove_def ClusterDevice_disconnect_def)
  have cnt: "macNodeIdCounter0 (sim_binder s1) = macNodeIdCounter0 (sim_binder s)"
      "id_list_convoys (sim_binder s1) = id_list_convoys (sim_binder s)"
    by (simp_all add: s1_def ClusterDevice_remove_def deRegisterCluster_def set_clusters_def)
  obtain pr s2 where pr: "MembershipControl_createInitClusterDevice env MASTER_DEVICE PRIMARY_INTERFACE c s1 = Inr (pr, s2)"
      "cd_device_type pr = MASTER_DEVICE" "cd_address pr = uint (macNodeIdCounter0 (sim_binder s1))"
      "cd_address_manager pr = cd_address pr" "cd_address_convoy pr = c"
      "ph_broadcast_for_transmission (cd_phy pr) = \<lparr>b_id_convoy = c, b_id_cluster = cd_address pr,
       b_full_convoy = False, b_full_cluster = False, b_direction = convoyDirection (env_par env), b_rssi = 0\<rparr>"
      "id_list_convoys (sim_binder s2) = id_list_convoys (sim_binder s1)"
      "cluster_map (sim_binder s2) = cluster_map (sim_binder s1)"
    using create_master [of env PRIMARY_INTERFACE c s1] by blast
  obtain pubs where pubs: "MembershipControl_updatePublishers env (m\<lparr>mc_device_pr := Some pr\<rparr>) =
      Inr (m\<lparr>mc_publishers := pubs,
        mc_device_pr := Some (ClusterDevice_updateBroadcastInfo_publishers pubs pr),
        mc_device_gw := Some (ClusterDevice_updateBroadcastInfo_publishers pubs gw)\<rparr>)"
      "distinct (map p_name (mc_publishers m)) \<longrightarrow> distinct (map p_name pubs)"
    using updatePublishers_effect [of "m\<lparr>mc_device_pr := Some pr\<rparr>" pr gw env] assms(2) by auto
  have "cluster_map (registerCluster c (cd_address pr) (sim_binder s2)) =
      cluster_map (registerCluster c (cd_address pr) (ClusterDevice_remove old (sim_binder s)))"
    using pr(8) by (simp add: registerCluster_def Let_def clusters_of_def set_clusters_def s1_def rm)
  with assms pubs pr cnt show ?thesis
    by (auto simp: MembershipControl_createNewCluster_def Let_def s1_def [symmetric]
        registerCluster_def set_clusters_def)
qed

section \<open>Every operation keeps the agent well-formed\<close>

lemma registry_ok_transfer:
  "registry_ok b \<Longrightarrow> id_list_convoys b' = id_list_convoys b \<Longrightarrow> cluster_map b' = cluster_map b \<Longrightarrow>
     registry_ok b'"
  by (simp add: registry_ok_def)

lemma createNewCluster_ok:
  assumes "mc_ok (m, s)"
  shows "\<exists>m' s'. MembershipControl_createNewCluster env c (m, s) = Inr (m', s') \<and> mc_ok (m', s') \<and>
    mc_role m' = MANAGER \<and> mc_control_state m' = INITIALIZED \<and> mc_queue m' = mc_queue m"
proof -
  obtain old gw where d: "registry_ok (sim_binder s)" "mc_device_pr m = Some old" "mc_device_gw m = Some gw"
      "cd_device_type gw = GATEWAY_DEVICE"
      "distinct (map b_id_cluster (mc_broadcasts_received m))" "distinct (map p_name (mc_publishers m))"
    using assms by (rule mc_okE)
  from createNewCluster_effect [OF d(2,3), of env c s]
  obtain m' s' pr gw' where e: "MembershipControl_createNewCluster env c (m, s) = Inr (m', s')"
      "mc_role m' = MANAGER" "mc_control_state m' = INITIALIZED" "mc_queue m' = mc_queue m"
      "mc_broadcasts_received m' = mc_broadcasts_received m" "distinct (map p_name (mc_publishers m'))"
      "mc_device_pr m' = Some pr" "cd_device_type pr = MASTER_DEVICE"
      "cd_address pr = uint (macNodeIdCounter0 (sim_binder s))"
      "mc_device_gw m' = Some gw'" "cd_device_type gw' = cd_device_type gw"
      "id_list_convoys (sim_binder s') = id_list_convoys (sim_binder s)"
      "cluster_map (sim_binder s') =
        cluster_map (registerCluster c (cd_address pr) (ClusterDevice_remove old (sim_binder s)))"
    using d(6) by blast
  have "registry_ok (registerCluster c (cd_address pr) (ClusterDevice_remove old (sim_binder s)))"
    by (intro registerCluster_ok remove_ok d(1)) (simp add: e(9))
  then have "registry_ok (sim_binder s')"
    by (rule registry_ok_transfer)
       (simp_all add: e(12,13) registerCluster_def set_clusters_def Let_def ClusterDevice_remove_def
          deRegisterCluster_def)
  with e d show ?thesis by (auto simp: mc_ok_def)
qed

lemma createNewConvoy_ok:
  assumes "mc_ok (m, s)"
  shows "\<exists>m' s'. MembershipControl_createNewConvoy env (m, s) = Inr (m', s') \<and> mc_ok (m', s') \<and>
    mc_role m' = MANAGER \<and> mc_control_state m' = INITIALIZED \<and> mc_queue m' = mc_queue m"
proof -
  let ?s = "s\<lparr>sim_binder := registerConvoy (getMaxIdConvoy (sim_binder s) + 1) (sim_binder s)\<rparr>"
  have "mc_ok (m, ?s)" using assms registerConvoy_ok by (auto simp: mc_ok_def)
  from createNewCluster_ok [OF this] show ?thesis
    by (simp add: MembershipControl_createNewConvoy_def Let_def)
qed

lemma joinNewCluster_ok:
  assumes "mc_ok (m, s)"
  shows "\<exists>m'. MembershipControl_joinNewCluster env c k itf rssi m = Inr m' \<and> mc_ok (m', s) \<and>
    mc_role m' = (if itf = GATEWAY_INTERFACE \<or> mc_role m = GATEWAY then GATEWAY else MEMBER) \<and>
    (itf \<noteq> GATEWAY_INTERFACE \<longrightarrow> mc_control_state m' = INITIALIZED) \<and> mc_queue m' = mc_queue m"
  using assms by (auto simp: MembershipControl_joinNewCluster_def mc_ok_def Let_def)

lemma detach_devices_ok:
  assumes "mc_ok (m, s)"
  shows "\<exists>m'. detach_devices m = Inr m' \<and> mc_ok (m', s) \<and> mc_role m' = mc_role m"
  using assms by (auto simp: detach_devices_def mc_ok_def)

lemma join_primary_ok:
  assumes "mc_ok (m, s)"
  shows "\<exists>m' s'. join_primary env previous c k (m, s) = Inr (m', s') \<and> mc_ok (m', s')"
proof -
  have keep: "\<exists>m' s'. rbind (MembershipControl_joinNewCluster env c k PRIMARY_INTERFACE (heard_rssi k m1) m1)
      (\<lambda>m. Inr (m, s1)) = Inr (m', s') \<and> mc_ok (m', s')" if "mc_ok (m1, s1)" for m1 s1
    using joinNewCluster_ok [OF that, of env c k PRIMARY_INTERFACE "heard_rssi k m1"] by auto
  show ?thesis
  proof (cases "previous = MANAGER")
    case False
    with keep [OF assms] show ?thesis by (simp add: join_primary_def)
  next
    case True
    obtain old gw where d: "registry_ok (sim_binder s)" "mc_device_pr m = Some old" "mc_device_gw m = Some gw"
        "cd_device_type gw = GATEWAY_DEVICE"
        "distinct (map b_id_cluster (mc_broadcasts_received m))" "distinct (map p_name (mc_publishers m))"
      using assms by (rule mc_okE)
    define s0 where "s0 = s\<lparr>sim_binder := ClusterDevice_remove (ClusterDevice_disconnect old) (sim_binder s)\<rparr>"
    obtain pr s1 where c: "MembershipControl_createInitClusterDevice env MEMBER_DEVICE PRIMARY_INTERFACE c s0 = Inr (pr, s1)"
        "cd_device_type pr = MEMBER_DEVICE" "id_list_convoys (sim_binder s1) = id_list_convoys (sim_binder s0)"
        "cluster_map (sim_binder s1) = cluster_map (sim_binder s0)"
      using create_ue [of MEMBER_DEVICE env PRIMARY_INTERFACE c s0] by auto
    have "registry_ok (sim_binder s0)" using d(1) by (simp add: s0_def remove_ok)
    then have "registry_ok (sim_binder s1)" using c(3,4) by (rule registry_ok_transfer)
    then have join: "\<exists>m'. MembershipControl_joinNewCluster env c k PRIMARY_INTERFACE
        (heard_rssi k m) (m\<lparr>mc_device_pr := Some pr\<rparr>) = Inr m' \<and> mc_ok (m', s1)"
      using d c(2) by (auto simp: MembershipControl_joinNewCluster_def mc_ok_def Let_def)
    have "heard_rssi k (m\<lparr>mc_device_pr := Some pr\<rparr>) = heard_rssi k m" by (simp add: heard_rssi_def)
    with True d(2) c(1) join show ?thesis
      by (auto simp: join_primary_def Let_def s0_def [symmetric])
  qed
qed

lemma changeClusterMembership_ok:
  assumes "mc_ok (m, s)"
  shows "\<exists>m' s'. MembershipControl_changeClusterMembership env role c k kg (m, s) = Inr (m', s') \<and> mc_ok (m', s')"
proof (cases "role = MANAGER")
  case True
  with createNewCluster_ok [OF assms, of env c] show ?thesis
    by (auto simp: MembershipControl_changeClusterMembership_def Let_def)
next
  case False
  have "\<exists>m1. (if role = GATEWAY then join_gateway env c kg m else Inr m) = Inr m1 \<and> mc_ok (m1, s)"
    using assms joinNewCluster_ok [OF assms, of env c kg GATEWAY_INTERFACE "heard_rssi kg m"]
    by (auto simp: join_gateway_def)
  then obtain m1 where "(if role = GATEWAY then join_gateway env c kg m else Inr m) = Inr m1" "mc_ok (m1, s)"
    by blast
  with False join_primary_ok [of m1 s env "mc_role m" c k] show ?thesis
    by (auto simp: MembershipControl_changeClusterMembership_def Let_def)
qed

lemma enforce_membership_ok:
  assumes "mc_ok (m, s)"
  shows "\<exists>m' s'. enforce_membership env msg (m, s) = Inr (m', s') \<and> mc_ok (m', s')"
proof -
  let ?change = "MembershipControl_changeClusterMembership env (cc_cluster_role msg) (cc_convoy_id msg)
      (cc_cluster_id msg) (cc_cluster_id_gw msg)"
  obtain pr gw where d: "mc_device_pr m = Some pr" "mc_device_gw m = Some gw"
    using assms by (rule mc_okE)
  obtain m1 where m1: "detach_devices m = Inr m1" "mc_ok (m1, s)"
    using detach_devices_ok [OF assms] by blast
  have conv: "\<exists>m2 s2. (if getMaxIdConvoy (sim_binder s) < cc_convoy_id msg
      then MembershipControl_createNewConvoy env (m1, s) else Inr (m1, s)) = Inr (m2, s2) \<and> mc_ok (m2, s2)"
    using createNewConvoy_ok [OF m1(2), of env] m1(2) by auto
  have fin: "\<exists>m' s'. ?change (m0, s0) = Inr (m', s') \<and> mc_ok (m', s')" if "mc_ok (m0, s0)" for m0 s0
    using changeClusterMembership_ok [OF that] .
  show ?thesis
    using conv fin [OF assms] fin [OF m1(2)] fin assms
    by (auto simp: enforce_membership_def d m1(1) Let_def split: if_splits)
qed

lemma handleOrchestrationMessage_ok:
  assumes "mc_ok (m, s)"
  shows "\<exists>m' s'. MembershipControl_handleOrchestrationMessage env msg (m, s) = Inr (m', s') \<and> mc_ok (m', s')"
proof -
  obtain m1 s1 where e: "enforce_membership env msg (m, s) = Inr (m1, s1)" "mc_ok (m1, s1)"
    using enforce_membership_ok [OF assms] by blast
  from e(2) show ?thesis
    by (auto simp: MembershipControl_handleOrchestrationMessage_def e(1) mc_ok_def)
qed

text \<open>The candidate of a scan: the first non-full convoy of the sorted qualified broadcasts.\<close>

definition scan_candidate ::
  "(Broadcast list \<Rightarrow> Broadcast list) \<Rightarrow> mc_par \<Rightarrow> Broadcast list \<Rightarrow> Broadcast option" where
  "scan_candidate srt par received =
     (if qualified_broadcasts par received \<noteq> []
      then find (\<lambda>c. \<not> b_full_convoy c) (srt (qualified_broadcasts par received)) else None)"

lemma choose_cluster_eq:
  "choose_cluster srt env (m, s) =
     (case scan_candidate srt (env_par env) (mc_broadcasts_received m) of
        None \<Rightarrow> MembershipControl_createNewConvoy env (m, s)
      | Some c \<Rightarrow>
          if \<not> b_full_cluster c
          then rbind (MembershipControl_joinNewCluster env (b_id_convoy c) (b_id_cluster c)
                 PRIMARY_INTERFACE (b_rssi c) m) (\<lambda>m. Inr (m, s))
          else MembershipControl_createNewCluster env (b_id_convoy c) (m, s))"
  by (simp add: choose_cluster_def scan_candidate_def Let_def qualified_broadcasts_def)

lemma choose_cluster_ok:
  assumes "mc_ok (m, s)"
  shows "\<exists>m' s'. choose_cluster srt env (m, s) = Inr (m', s') \<and> mc_ok (m', s') \<and>
    mc_role m' \<noteq> UNDEFINED \<and> mc_control_state m' = INITIALIZED \<and> mc_queue m' = mc_queue m"
proof (cases "scan_candidate srt (env_par env) (mc_broadcasts_received m)")
  case None
  with createNewConvoy_ok [OF assms, of env] show ?thesis by (auto simp: choose_cluster_eq)
next
  case (Some c)
  with createNewCluster_ok [OF assms, of env "b_id_convoy c"]
    joinNewCluster_ok [OF assms, of env "b_id_convoy c" "b_id_cluster c" PRIMARY_INTERFACE "b_rssi c"]
  show ?thesis by (auto simp: choose_cluster_eq split: if_splits)
qed

lemma handleBroadcastScanEvent_ok:
  assumes "mc_ok (m, s)"
  shows "\<exists>m' s'. MembershipControl_handleBroadcastScanEvent srt env (m, s) = Inr (m', s') \<and> mc_ok (m', s') \<and>
    mc_role m' \<noteq> UNDEFINED \<and> mc_control_state m' = INITIALIZED"
proof -
  obtain m1 s1 where e: "choose_cluster srt env (m, s) = Inr (m1, s1)" "mc_ok (m1, s1)"
      "mc_role m1 \<noteq> UNDEFINED" "mc_control_state m1 = INITIALIZED"
    using choose_cluster_ok [OF assms] by blast
  then show ?thesis
    by (auto simp: MembershipControl_handleBroadcastScanEvent_def Let_def mc_ok_def)
qed

lemma handleMessage_ok:
  assumes "mc_ok (m, s)"
  shows "MembershipControl_handleMessage srt env msg (m, s) = Inl CastError \<or>
    (\<exists>m' s' out. MembershipControl_handleMessage srt env msg (m, s) = Inr ((m', s'), out) \<and> mc_ok (m', s'))"
proof (cases msg)
  case (SelfMsg ev)
  obtain pr gw where d: "mc_device_pr m = Some pr" "mc_device_gw m = Some gw"
    using assms by (rule mc_okE)
  obtain pubs where pubs: "MembershipControl_updatePublishers env m = Inr (m\<lparr>mc_publishers := pubs,
        mc_device_pr := Some (ClusterDevice_updateBroadcastInfo_publishers pubs pr),
        mc_device_gw := Some (ClusterDevice_updateBroadcastInfo_publishers pubs gw)\<rparr>)"
      "distinct (map p_name (mc_publishers m)) \<longrightarrow> distinct (map p_name pubs)"
    using updatePublishers_effect [OF d] by blast
  obtain out where report: "MembershipControl_sendMemberReport env m = Inr out"
    by (simp add: MembershipControl_sendMemberReport_def d Let_def)
  consider "ev = ''EventScanBroadcast''" | "ev = ''EventPublisherUpdate''" | "ev = ''EventMemberReport''"
    | "ev \<notin> {''EventScanBroadcast'', ''EventPublisherUpdate'', ''EventMemberReport''}" by blast
  then show ?thesis
  proof cases
    case 1
    with handleBroadcastScanEvent_ok [OF assms, of srt env] show ?thesis
      by (auto simp: MembershipControl_handleMessage_def Let_def SelfMsg)
  next
    case 2
    with assms pubs show ?thesis
      by (simp add: MembershipControl_handleMessage_def Let_def SelfMsg mc_ok_def d)
  next
    case 3
    with assms report show ?thesis
      by (simp add: MembershipControl_handleMessage_def Let_def SelfMsg mc_ok_def d)
  next
    case 4
    with assms show ?thesis by (simp add: MembershipControl_handleMessage_def Let_def SelfMsg)
  qed
next
  case (ExtMsg gate p)
  obtain name payload where p: "p = (name, payload)" by (cases p)
  show ?thesis
  proof (cases payload)
    case (MConvoyControlService c)
    with ExtMsg p handleOrchestrationMessage_ok [OF assms, of env c] assms show ?thesis
      by (auto simp: MembershipControl_handleMessage_def Let_def)
  qed (use ExtMsg p assms in \<open>auto simp: MembershipControl_handleMessage_def Let_def\<close>)
qed

lemma put_announced_distinct:
  "put_announced b msg is pubs = Inr pubs' \<Longrightarrow> distinct (map p_name pubs) \<Longrightarrow> distinct (map p_name pubs')"
  by (induction b msg "is" pubs rule: put_announced.induct)
     (auto simp: rbind_Inr_iff intro: put_publisher_distinct)

lemma receiveSignal_ok:
  assumes "mc_ok (m, s)" and "MembershipControl_receiveSignal env b sig m = Inr m'"
  shows "mc_ok (m', s)"
  using assms put_broadcast_distinct put_announced_distinct
  by (cases sig) (fastforce simp: MembershipControl_receiveSignal_def mc_ok_def Let_def rbind_Inr_iff
      split: if_splits)+

lemma initialize_ok:
  assumes "registry_ok (sim_binder s)"
  shows "\<exists>m s'. MembershipControl_initialize env q s = Inr (m, s') \<and> mc_ok (m, s') \<and>
    mc_role m = UNDEFINED \<and> mc_control_state m = INITIALIZING"
proof -
  obtain pr s1 where pr: "MembershipControl_createInitClusterDevice env MEMBER_DEVICE PRIMARY_INTERFACE 0 s = Inr (pr, s1)"
      "cd_device_type pr = MEMBER_DEVICE" "id_list_convoys (sim_binder s1) = id_list_convoys (sim_binder s)"
      "cluster_map (sim_binder s1) = cluster_map (sim_binder s)"
    using create_ue [of MEMBER_DEVICE env PRIMARY_INTERFACE 0 s] by auto
  obtain gw s2 where gw: "MembershipControl_createInitClusterDevice env GATEWAY_DEVICE GATEWAY_INTERFACE 0 s1 = Inr (gw, s2)"
      "cd_device_type gw = GATEWAY_DEVICE" "id_list_convoys (sim_binder s2) = id_list_convoys (sim_binder s1)"
      "cluster_map (sim_binder s2) = cluster_map (sim_binder s1)"
    using create_ue [of GATEWAY_DEVICE env GATEWAY_INTERFACE 0 s1] by auto
  have "registry_ok (sim_binder s2)"
    using assms by (rule registry_ok_transfer) (simp_all add: pr gw)
  with pr gw show ?thesis
    by (auto simp: MembershipControl_initialize_def Let_def mc_ok_def)
qed

text \<open>
  The life of an agent: messages and timers, signals, and changes that other nodes make to the
  shared simulation as long as they leave a well-formed registry.
\<close>

inductive mc_step ::
  "(Broadcast list \<Rightarrow> Broadcast list) \<Rightarrow> 'q MembershipControl \<times> sim \<Rightarrow> 'q MembershipControl \<times> sim \<Rightarrow> bool"
  for srt where
  message: "MembershipControl_handleMessage srt env msg (m, s) = Inr ((m', s'), out) \<Longrightarrow>
    mc_step srt (m, s) (m', s')"
| sig: "MembershipControl_receiveSignal env (sim_binder s) sg m = Inr m' \<Longrightarrow> mc_step srt (m, s) (m', s)"
| others: "registry_ok (sim_binder s') \<Longrightarrow> mc_step srt (m, s) (m, s')"

lemma mc_step_ok: "mc_step srt x y \<Longrightarrow> mc_ok x \<Longrightarrow> mc_ok y"
proof (induction rule: mc_step.induct)
  case (message env msg m s m' s' out)
  then show ?case using handleMessage_ok [OF message.prems, of srt env msg] by auto
next
  case (sig env s sg m m')
  then show ?case by (auto intro: receiveSignal_ok)
next
  case (others s' m s)
  then show ?case by (auto simp: mc_ok_def)
qed

lemma mc_reachable_ok: "(mc_step srt)\<^sup>*\<^sup>* x y \<Longrightarrow> mc_ok x \<Longrightarrow> mc_ok y"
  by (induction rule: rtranclp_induct) (auto intro: mc_step_ok)

interpretation scan: std_sort rssi_before "sort_key (\<lambda>bc. - b_rssi bc)"
proof unfold_locales
  fix xs :: "Broadcast list"
  show "mset (sort_key (\<lambda>bc. - b_rssi bc) xs) = mset xs" by simp
  have "sorted (map (\<lambda>bc. - b_rssi bc) (sort_key (\<lambda>bc. - b_rssi bc) xs))" by (rule sorted_sort_key)
  then show "sorted_wrt (\<lambda>x y. \<not> rssi_before y x) (sort_key (\<lambda>bc. - b_rssi bc) xs)"
    by (simp add: sorted_map rssi_before_def not_less)
qed

lemma scan_candidate_best:
  assumes "std_sort rssi_before srt"
  shows "case scan_candidate srt par received of
     Some c \<Rightarrow> c \<in> set (qualified_broadcasts par received) \<and> \<not> b_full_convoy c \<and>
       (\<forall>c' \<in> set (qualified_broadcasts par received). \<not> b_full_convoy c' \<longrightarrow> b_rssi c' \<le> b_rssi c)
   | None \<Rightarrow> \<forall>c' \<in> set (qualified_broadcasts par received). b_full_convoy c'"
proof (cases "scan_candidate srt par received")
  case None
  then show ?thesis
    using std_sort.sort_set [OF assms, of "qualified_broadcasts par received"]
    by (auto simp: scan_candidate_def find_None_iff split: if_splits)
next
  case (Some c)
  then have f: "find (\<lambda>c. \<not> b_full_convoy c) (srt (qualified_broadcasts par received)) = Some c"
    by (simp add: scan_candidate_def split: if_splits)
  have "c \<in> set (srt (qualified_broadcasts par received))" "\<not> b_full_convoy c"
    using f by (auto simp: find_Some_iff)
  moreover have "b_rssi c' \<le> b_rssi c" if "c' \<in> set (qualified_broadcasts par received)" "\<not> b_full_convoy c'" for c'
    using std_sort.find_sorted_best [OF assms f that] by (simp add: rssi_before_def)
  ultimately show ?thesis
    using Some std_sort.sort_set [OF assms, of "qualified_broadcasts par received"] by auto
qed

text \<open>After founding a cluster the Binder lists its manager under the convoy.\<close>

lemma createNewCluster_listed:
  assumes "mc_ok (m, s)"
  shows "\<exists>m' s' pr. MembershipControl_createNewCluster env c (m, s) = Inr (m', s') \<and>
    mc_role m' = MANAGER \<and> mc_control_state m' = INITIALIZED \<and> mc_queue m' = mc_queue m \<and>
    mc_device_pr m' = Some pr \<and> cd_device_type pr = MASTER_DEVICE \<and> cd_address_convoy pr = c \<and>
    cd_address_manager pr = cd_address pr \<and>
    b_id_convoy (ph_broadcast_for_transmission (cd_phy pr)) = c \<and>
    b_id_cluster (ph_broadcast_for_transmission (cd_phy pr)) = cd_address pr \<and>
    word_of_int (cd_address pr) \<in> set (clusters_of c (sim_binder s')) \<and>
    id_list_convoys (sim_binder s') = id_list_convoys (sim_binder s)"
proof -
  obtain old gw where d: "registry_ok (sim_binder s)" "mc_device_pr m = Some old" "mc_device_gw m = Some gw"
    using assms by (rule mc_okE)
  from createNewCluster_effect [OF d(2,3), of env c s]
  obtain m' s' pr where e: "MembershipControl_createNewCluster env c (m, s) = Inr (m', s')"
      "mc_role m' = MANAGER" "mc_control_state m' = INITIALIZED" "mc_queue m' = mc_queue m"
      "mc_device_pr m' = Some pr" "cd_device_type pr = MASTER_DEVICE"
      "cd_address pr = uint (macNodeIdCounter0 (sim_binder s))" "cd_address_manager pr = cd_address pr"
      "cd_address_convoy pr = c" "b_id_convoy (ph_broadcast_for_transmission (cd_phy pr)) = c"
      "b_id_cluster (ph_broadcast_for_transmission (cd_phy pr)) = cd_address pr"
      "id_list_convoys (sim_binder s') = id_list_convoys (sim_binder s)"
      "cluster_map (sim_binder s') =
        cluster_map (registerCluster c (cd_address pr) (ClusterDevice_remove old (sim_binder s)))"
    by blast
  let ?b = "ClusterDevice_remove old (sim_binder s)"
  have "smap_ok (cluster_map ?b)" using remove_ok [OF d(1)] by (rule registry_ok_smap)
  then have "word_of_int (cd_address pr) \<in> set (clusters_of c (registerCluster c (cd_address pr) ?b))"
    by (auto simp: registerCluster_clusters e(7) dest!: word_uint_eqI)
  moreover have "clusters_of c (sim_binder s') = clusters_of c (registerCluster c (cd_address pr) ?b)"
    by (simp add: clusters_of_def e(13))
  ultimately show ?thesis using e by auto
qed

section \<open>Properties\<close>

text \<open>A concrete station, agent and simulation for the examples below.\<close>

definition sample_ini :: "(string \<rightharpoonup> simtime) phy_ini" where
  "sample_ini = \<lparr>ini_ueTxPower = 26, ini_eNodeBTxPower = 40, ini_microTxPower = 30, ini_micro = False,
     ini_carrierFrequency = 2, ini_position = \<lparr>cx = 0, cy = 0, cz = 0\<rparr>, ini_queue = Map.empty\<rparr>"

definition sample_env :: "(string \<rightharpoonup> simtime) mc_env" where
  "sample_env = \<lparr>env_kernel = fes_kernel, env_phy_par = sample_phy_par, env_phy_ini = sample_ini,
     env_par = \<lparr>broadcastScanDuration = 3, broadcastScanInterval = 1, minRSSIClusterManager = 5,
       convoyDirection = TOP, publisherUpdateInterval = 1, memberReportStartTime = 75,
       memberReportUpdateRate = 1\<rparr>,
     env_base = \<lparr>bn_fullName = ''d1rsu[0]'', bn_stationType = RSU,
       bn_location = \<lparr>cx = 100, cy = 50, cz = 0\<rparr>, bn_detectorFovLimitRange = 80\<rparr>,
     env_now = 3\<rparr>"

definition sample_sim :: sim where
  "sample_sim = \<lparr>sim_binder = new_Binder, sim_vectors = [], sim_next_module = 10\<rparr>"

definition sample_broadcast :: "int \<Rightarrow> real \<Rightarrow> Broadcast" where
  "sample_broadcast k rssi = \<lparr>b_id_convoy = 1, b_id_cluster = k, b_full_convoy = False,
     b_full_cluster = False, b_direction = TOP, b_rssi = rssi\<rparr>"

definition sample_device :: "ClusterDeviceType \<Rightarrow> (string \<rightharpoonup> simtime) ClusterDevice" where
  "sample_device ty = (new_ClusterDevice 5 sample_ini)\<lparr>cd_device_type := ty, cd_nrMacNodeId := 2049\<rparr>"

definition sample_agent :: "Broadcast list \<Rightarrow> (string \<rightharpoonup> simtime) MembershipControl" where
  "sample_agent heard = \<lparr>mc_control_state = INITIALIZING, mc_broadcasts_received = heard,
     mc_publishers = [], mc_device_pr = Some (sample_device MEMBER_DEVICE),
     mc_device_gw = Some (sample_device GATEWAY_DEVICE), mc_role = UNDEFINED, mc_queue = Map.empty\<rparr>"

lemma sample_agent_ok:
  "distinct (map b_id_cluster heard) \<Longrightarrow> mc_ok (sample_agent heard, sample_sim)"
  by (simp add: mc_ok_def sample_agent_def sample_sim_def registry_ok_new sample_device_def)



text \<open>
  C24. A scan that heard a fitting cluster (same direction, strong enough, convoy not full) goes
  to the strongest of these: the station joins it as a member with that cluster as manager, or,
  when the cluster is full, founds a new cluster in the same convoy and registers it.
\<close>

theorem scan_joins_strongest:
  assumes "std_sort rssi_before srt" and "mc_ok (m, s)" and "mc_role m = UNDEFINED"
    and "mc_device_pr m = Some pr" and "cd_device_type pr = MEMBER_DEVICE"
    and "c0 \<in> set (qualified_broadcasts (env_par env) (mc_broadcasts_received m))" and "\<not> b_full_convoy c0"
  shows "\<exists>c m' s' pr'. MembershipControl_handleBroadcastScanEvent srt env (m, s) = Inr (m', s') \<and>
     c \<in> set (qualified_broadcasts (env_par env) (mc_broadcasts_received m)) \<and> \<not> b_full_convoy c \<and>
     (\<forall>c' \<in> set (qualified_broadcasts (env_par env) (mc_broadcasts_received m)).
        \<not> b_full_convoy c' \<longrightarrow> b_rssi c' \<le> b_rssi c) \<and>
     mc_control_state m' = INITIALIZED \<and> mc_device_pr m' = Some pr' \<and>
     cd_address_convoy pr' = b_id_convoy c \<and>
     (if b_full_cluster c
      then mc_role m' = MANAGER \<and> word_of_int (cd_address pr') \<in> set (clusters_of (b_id_convoy c) (sim_binder s'))
      else mc_role m' = MEMBER \<and> cd_address_manager pr' = b_id_cluster c \<and> s' = s)"
proof -
  let ?cand = "scan_candidate srt (env_par env) (mc_broadcasts_received m)"
  obtain c where c: "?cand = Some c"
      "c \<in> set (qualified_broadcasts (env_par env) (mc_broadcasts_received m))" "\<not> b_full_convoy c"
      "\<forall>c' \<in> set (qualified_broadcasts (env_par env) (mc_broadcasts_received m)).
         \<not> b_full_convoy c' \<longrightarrow> b_rssi c' \<le> b_rssi c"
    using scan_candidate_best [OF assms(1), of "env_par env" "mc_broadcasts_received m"] assms(6,7)
    by (cases ?cand) auto
  have "\<exists>m' s' pr'. choose_cluster srt env (m, s) = Inr (m', s') \<and>
      mc_control_state m' = INITIALIZED \<and> mc_device_pr m' = Some pr' \<and> cd_address_convoy pr' = b_id_convoy c \<and>
      (if b_full_cluster c
       then mc_role m' = MANAGER \<and> word_of_int (cd_address pr') \<in> set (clusters_of (b_id_convoy c) (sim_binder s'))
       else mc_role m' = MEMBER \<and> cd_address_manager pr' = b_id_cluster c \<and> s' = s)"
  proof (cases "b_full_cluster c")
    case True
    with createNewCluster_listed [OF assms(2), of env "b_id_convoy c"] c(1) show ?thesis
      by (auto simp: choose_cluster_eq)
  next
    case False
    with c(1) assms(3-5) show ?thesis
      by (auto simp: choose_cluster_eq MembershipControl_joinNewCluster_def
          ClusterDevice_joinNewCluster_def Let_def)
  qed
  then obtain m1 s1 pr1 where r: "choose_cluster srt env (m, s) = Inr (m1, s1)"
      "mc_control_state m1 = INITIALIZED" "mc_device_pr m1 = Some pr1" "cd_address_convoy pr1 = b_id_convoy c"
      "if b_full_cluster c
       then mc_role m1 = MANAGER \<and> word_of_int (cd_address pr1) \<in> set (clusters_of (b_id_convoy c) (sim_binder s1))
       else mc_role m1 = MEMBER \<and> cd_address_manager pr1 = b_id_cluster c \<and> s1 = s"
    by blast
  then obtain q where "MembershipControl_handleBroadcastScanEvent srt env (m, s) = Inr (m1\<lparr>mc_queue := q\<rparr>, s1)"
    by (simp add: MembershipControl_handleBroadcastScanEvent_def Let_def)
  with r c show ?thesis
    by (intro exI [of _ c] exI [of _ "m1\<lparr>mc_queue := q\<rparr>"] exI [of _ s1] exI [of _ pr1]) simp
qed

theorem scan_joins_strongest_witness:
  "\<exists>m' s' pr'. MembershipControl_handleBroadcastScanEvent (sort_key (\<lambda>bc. - b_rssi bc)) sample_env
      (sample_agent [sample_broadcast 7 10, sample_broadcast 8 20], sample_sim) = Inr (m', s') \<and>
     mc_role m' = MEMBER \<and> mc_device_pr m' = Some pr' \<and> cd_address_manager pr' = 8"
proof -
  let ?m = "sample_agent [sample_broadcast 7 10, sample_broadcast 8 20]"
  have q: "qualified_broadcasts (env_par sample_env) (mc_broadcasts_received ?m) =
      [sample_broadcast 7 10, sample_broadcast 8 20]"
    by (simp add: qualified_broadcasts_def sample_agent_def sample_env_def sample_broadcast_def)
  have "mc_ok (?m, sample_sim)" by (rule sample_agent_ok) (simp add: sample_broadcast_def)
  moreover have "mc_role ?m = UNDEFINED" "mc_device_pr ?m = Some (sample_device MEMBER_DEVICE)"
      "cd_device_type (sample_device MEMBER_DEVICE) = MEMBER_DEVICE"
      "\<not> b_full_convoy (sample_broadcast 7 10)"
    by (simp_all add: sample_agent_def sample_device_def sample_broadcast_def)
  ultimately obtain c m' s' pr' where r:
      "MembershipControl_handleBroadcastScanEvent (sort_key (\<lambda>bc. - b_rssi bc)) sample_env (?m, sample_sim) = Inr (m', s')"
      "c \<in> {sample_broadcast 7 10, sample_broadcast 8 20}" "mc_device_pr m' = Some pr'"
      "\<forall>c' \<in> {sample_broadcast 7 10, sample_broadcast 8 20}. \<not> b_full_convoy c' \<longrightarrow> b_rssi c' \<le> b_rssi c"
      "if b_full_cluster c
       then mc_role m' = MANAGER \<and> word_of_int (cd_address pr') \<in> set (clusters_of (b_id_convoy c) (sim_binder s'))
       else mc_role m' = MEMBER \<and> cd_address_manager pr' = b_id_cluster c \<and> s' = sample_sim"
    using scan_joins_strongest [OF scan.std_sort_axioms, of ?m sample_sim "sample_device MEMBER_DEVICE"
        "sample_broadcast 7 10" sample_env] q by fastforce
  from r(2,4) have "c = sample_broadcast 8 20" by (auto simp: sample_broadcast_def)
  with r show ?thesis by (auto simp: sample_broadcast_def)
qed

text \<open>
  C25. A scan that heard no fitting cluster founds a convoy whose id no convoy had before: the
  station becomes manager, the Binder lists the convoy and, in it, the station's cluster, and
  the cluster's broadcasts announce exactly these ids.
\<close>

theorem scan_founds_convoy:
  assumes "std_sort rssi_before srt" and "mc_ok (m, s)"
    and "\<forall>c \<in> set (qualified_broadcasts (env_par env) (mc_broadcasts_received m)). b_full_convoy c"
  shows "\<exists>m' s' pr'. MembershipControl_handleBroadcastScanEvent srt env (m, s) = Inr (m', s') \<and>
     mc_role m' = MANAGER \<and> mc_control_state m' = INITIALIZED \<and> mc_device_pr m' = Some pr' \<and>
     (let id = getMaxIdConvoy (sim_binder s) + 1
      in id \<notin> set (id_list_convoys (sim_binder s)) \<and> id \<in> set (id_list_convoys (sim_binder s')) \<and>
         cd_address_convoy pr' = id \<and>
         word_of_int (cd_address pr') \<in> set (clusters_of id (sim_binder s')) \<and>
         b_id_convoy (ph_broadcast_for_transmission (cd_phy pr')) = id \<and>
         b_id_cluster (ph_broadcast_for_transmission (cd_phy pr')) = cd_address pr')"
proof -
  let ?id = "getMaxIdConvoy (sim_binder s) + 1"
  let ?s = "s\<lparr>sim_binder := registerConvoy ?id (sim_binder s)\<rparr>"
  have none: "scan_candidate srt (env_par env) (mc_broadcasts_received m) = None"
    using scan_candidate_best [OF assms(1), of "env_par env" "mc_broadcasts_received m"] assms(3)
    by (auto split: option.splits)
  have "mc_ok (m, ?s)" using assms(2) registerConvoy_ok by (auto simp: mc_ok_def)
  from createNewCluster_listed [OF this, of env ?id] none
  obtain m1 s1 pr1 where r: "choose_cluster srt env (m, s) = Inr (m1, s1)" "mc_role m1 = MANAGER"
      "mc_control_state m1 = INITIALIZED" "mc_device_pr m1 = Some pr1" "cd_address_convoy pr1 = ?id"
      "b_id_convoy (ph_broadcast_for_transmission (cd_phy pr1)) = ?id"
      "b_id_cluster (ph_broadcast_for_transmission (cd_phy pr1)) = cd_address pr1"
      "word_of_int (cd_address pr1) \<in> set (clusters_of ?id (sim_binder s1))"
      "id_list_convoys (sim_binder s1) = id_list_convoys (sim_binder ?s)"
    by (auto simp: choose_cluster_eq MembershipControl_createNewConvoy_def Let_def)
  have "?id \<in> set (id_list_convoys (sim_binder ?s))"
    by (simp add: registerConvoy_def insert_clusters_def)
  moreover obtain q where "MembershipControl_handleBroadcastScanEvent srt env (m, s) = Inr (m1\<lparr>mc_queue := q\<rparr>, s1)"
    using r(1) by (simp add: MembershipControl_handleBroadcastScanEvent_def Let_def)
  ultimately show ?thesis
    using r getMaxIdConvoy_fresh [of "sim_binder s"]
    by (intro exI [of _ "m1\<lparr>mc_queue := q\<rparr>"] exI [of _ s1] exI [of _ pr1]) (simp add: Let_def)
qed

theorem scan_founds_convoy_witness:
  "\<exists>m' s' pr'. MembershipControl_handleBroadcastScanEvent (sort_key (\<lambda>bc. - b_rssi bc)) sample_env
      (sample_agent [], sample_sim) = Inr (m', s') \<and> mc_role m' = MANAGER \<and>
     1 \<in> set (id_list_convoys (sim_binder s')) \<and> mc_device_pr m' = Some pr' \<and> cd_address_convoy pr' = 1"
proof -
  have "mc_ok (sample_agent [], sample_sim)" by (rule sample_agent_ok) simp
  moreover have "\<forall>c \<in> set (qualified_broadcasts (env_par sample_env)
      (mc_broadcasts_received (sample_agent []))). b_full_convoy c"
    by (simp add: qualified_broadcasts_def sample_agent_def)
  moreover have "getMaxIdConvoy (sim_binder sample_sim) + 1 = 1"
    by (simp add: getMaxIdConvoy_def sample_sim_def new_Binder_def)
  ultimately show ?thesis
    using scan_founds_convoy [OF scan.std_sort_axioms, of "sample_agent []" sample_sim sample_env]
    by (auto simp: Let_def)
qed

section \<open>Orders\<close>

lemma detach_devices_eq:
  "mc_device_pr m = Some pr \<Longrightarrow> mc_device_gw m = Some gw \<Longrightarrow>
   detach_devices m = Inr (m\<lparr>mc_device_pr := Some (ClusterDevice_detachFromCluster pr),
      mc_device_gw := Some (ClusterDevice_detachFromCluster gw)\<rparr>)"
  by (simp add: detach_devices_def)

lemma remove_detached:
  "ClusterDevice_remove (ClusterDevice_disconnect (ClusterDevice_detachFromCluster d)) b =
     (if cd_device_type d = MASTER_DEVICE then deRegisterCluster 0 0 b else b)"
  by (simp add: ClusterDevice_remove_def ClusterDevice_disconnect_def ClusterDevice_detachFromCluster_def)

text \<open>
  A manager that is ordered to become a member of another cluster of its convoy obeys, but
  its own cluster stays in the Binder's registry: the device is detached, which forgets its ids,
  before it is removed, so the removal deregisters cluster 0 of convoy 0 instead.
\<close>

theorem order_to_member_leaves_cluster_registered:
  assumes "mc_ok (m, s)" and "mc_role m = MANAGER" and "mc_device_pr m = Some pr"
    and "cd_address_convoy pr = cc_convoy_id msg" and "cc_cluster_role msg = MEMBER"
    and "w \<in> set (clusters_of (cc_convoy_id msg) (sim_binder s))" and "w \<noteq> 0"
  shows "\<exists>m' s' pr'. MembershipControl_handleOrchestrationMessage env msg (m, s) = Inr (m', s') \<and>
     mc_role m' = MEMBER \<and> mc_device_pr m' = Some pr' \<and> cd_device_type pr' = MEMBER_DEVICE \<and>
     cd_address_manager pr' = cc_cluster_id msg \<and>
     w \<in> set (clusters_of (cc_convoy_id msg) (sim_binder s'))"
proof -
  obtain gw where d: "registry_ok (sim_binder s)" "mc_device_gw m = Some gw"
      "cd_device_type pr = MASTER_DEVICE"
    using assms(1-3) by (auto simp: mc_ok_def)
  let ?s0 = "s\<lparr>sim_binder := deRegisterCluster 0 0 (sim_binder s)\<rparr>"
  obtain d1 s1 where c: "MembershipControl_createInitClusterDevice env MEMBER_DEVICE PRIMARY_INTERFACE
        (cc_convoy_id msg) ?s0 = Inr (d1, s1)" "cd_device_type d1 = MEMBER_DEVICE"
      "cluster_map (sim_binder s1) = cluster_map (sim_binder ?s0)"
    using create_ue [of MEMBER_DEVICE env PRIMARY_INTERFACE "cc_convoy_id msg" ?s0] by auto
  have "uint w \<noteq> 0" using assms(7) by (simp add: word_uint_eq_iff)
  then have "w \<in> set (clusters_of (cc_convoy_id msg) (sim_binder ?s0))"
    using assms(6) by (auto simp: deRegisterCluster_clusters [OF registry_ok_smap [OF d(1)]])
  then have "w \<in> set (clusters_of (cc_convoy_id msg) (sim_binder s1))"
    by (simp add: clusters_of_def c(3))
  with assms(2-5) d c show ?thesis
    by (simp add: MembershipControl_handleOrchestrationMessage_def enforce_membership_def Let_def
        detach_devices_eq MembershipControl_changeClusterMembership_def join_primary_def
        remove_detached MembershipControl_joinNewCluster_def ClusterDevice_joinNewCluster_def
        ClusterDevice_setTxp_def)
qed

theorem order_to_member_leaves_cluster_registered_witness:
  "let m = (sample_agent [])\<lparr>mc_role := MANAGER, mc_device_pr := Some ((sample_device MASTER_DEVICE)\<lparr>
              cd_address := 5, cd_address_manager := 5, cd_address_convoy := 1\<rparr>)\<rparr>;
       s = sample_sim\<lparr>sim_binder := registerCluster 1 5 (registerConvoy 1 new_Binder)\<rparr>
   in \<exists>m' s'. MembershipControl_handleOrchestrationMessage sample_env
        (new_ConvoyControlService\<lparr>cc_cluster_role := MEMBER, cc_convoy_id := 1, cc_cluster_id := 6\<rparr>) (m, s)
        = Inr (m', s') \<and> mc_role m' = MEMBER \<and> 5 \<in> set (clusters_of 1 (sim_binder s'))"
proof -
  let ?pr = "(sample_device MASTER_DEVICE)\<lparr>cd_address := 5, cd_address_manager := 5, cd_address_convoy := 1\<rparr>"
  let ?m = "(sample_agent [])\<lparr>mc_role := MANAGER, mc_device_pr := Some ?pr\<rparr>"
  let ?b = "registerCluster 1 5 (registerConvoy 1 new_Binder)"
  let ?s = "sample_sim\<lparr>sim_binder := ?b\<rparr>"
  let ?msg = "new_ConvoyControlService\<lparr>cc_cluster_role := MEMBER, cc_convoy_id := 1, cc_cluster_id := 6\<rparr>"
  have reg: "registry_ok ?b"
    by (intro registerCluster_ok registerConvoy_ok registry_ok_new) (simp add: mac_range_def)
  then have "mc_ok (?m, ?s)"
    by (simp add: mc_ok_def sample_agent_def sample_device_def)
  moreover have "5 \<in> set (clusters_of 1 ?b)"
    by (simp add: registerCluster_clusters registry_ok_smap registerConvoy_ok registry_ok_new)
       (simp add: registerConvoy_def insert_clusters_def clusters_of_alt new_Binder_def)
  ultimately show ?thesis
    using order_to_member_leaves_cluster_registered [of ?m ?s ?pr ?msg 5 sample_env]
    by (auto simp: Let_def)
qed

text \<open>
  A gateway that is ordered to be a plain member of its convoy stays in the gateway role: the
  order detaches its gateway device but never resets the role.
\<close>

theorem order_to_member_keeps_gateway_role:
  assumes "mc_ok (m, s)" and "mc_role m = GATEWAY" and "mc_device_pr m = Some pr"
    and "cd_address_convoy pr = cc_convoy_id msg" and "cc_cluster_role msg = MEMBER"
  shows "\<exists>m' s'. MembershipControl_handleOrchestrationMessage env msg (m, s) = Inr (m', s') \<and>
     mc_role m' = GATEWAY \<and> getAddressOfManagerForGatewayDevice m' = 0"
proof -
  obtain gw where "mc_device_gw m = Some gw" using assms(1) by (rule mc_okE)
  with assms(2-5) show ?thesis
    by (simp add: MembershipControl_handleOrchestrationMessage_def enforce_membership_def Let_def
        detach_devices_eq MembershipControl_changeClusterMembership_def join_primary_def
        MembershipControl_joinNewCluster_def getAddressOfManagerForGatewayDevice_def
        ClusterDevice_setTxp_def ClusterDevice_detachFromCluster_def)
qed

theorem order_to_member_keeps_gateway_role_witness:
  "\<exists>m' s'. MembershipControl_handleOrchestrationMessage sample_env
      (new_ConvoyControlService\<lparr>cc_cluster_role := MEMBER, cc_cluster_id := 6\<rparr>)
      ((sample_agent [])\<lparr>mc_role := GATEWAY\<rparr>, sample_sim) = Inr (m', s') \<and> mc_role m' = GATEWAY"
proof -
  have "mc_ok ((sample_agent [])\<lparr>mc_role := GATEWAY\<rparr>, sample_sim)"
    using sample_agent_ok [of "[]"] by (auto simp: mc_ok_def)
  moreover have "cd_address_convoy (sample_device MEMBER_DEVICE) = 0"
    by (simp add: sample_device_def new_ClusterDevice_def)
  ultimately show ?thesis
    using order_to_member_keeps_gateway_role [of "(sample_agent [])\<lparr>mc_role := GATEWAY\<rparr>" sample_sim
        "sample_device MEMBER_DEVICE" "new_ConvoyControlService\<lparr>cc_cluster_role := MEMBER, cc_cluster_id := 6\<rparr>" sample_env]
    by (auto simp: sample_agent_def new_ConvoyControlService_def)
qed

section \<open>Broadcasts over the air\<close>

lemma put_announced_all:
  assumes "\<forall>i \<in> set is. announced_publisher b msg i = Inr (f i)"
  shows "put_announced b msg is pubs = Inr (fold (\<lambda>i. put_publisher (f i)) is pubs)"
  using assms by (induction "is" arbitrary: pubs) auto

text \<open>The publication a receiver reconstructs: height 0, cluster from its own Binder lookup.\<close>

definition relayed :: "MacNodeId \<Rightarrow> Publication \<Rightarrow> Publication" where
  "relayed hop p = p\<lparr>p_position := (p_position p)\<lparr>cz := 0\<rparr>, p_cluster := uint hop\<rparr>"

text \<open>
  What a manager broadcasts is what the receiving agent records: convoy, cluster, fill state
  and direction as transmitted, the signal strength as measured, and, for a strong enough signal,
  every announced publisher with its name, address, position in the plane, range and direction.
\<close>

theorem broadcast_roundtrip:
  assumes "minRSSIClusterManager (env_par env) \<le> rssi"
    and "\<forall>p \<in> set (ph_publishers_for_transmission phy). getNextHop (word_of_int (p_id p)) b = Inr (hop p)"
  shows "MembershipControl_receiveSignal env b
      (ClusterBroadcastReceived ((af_info (createConvoyBroadcastMessage phy))\<lparr>uc_rssi := rssi\<rparr>)) m =
    Inr (m\<lparr>mc_broadcasts_received := put_broadcast ((ph_broadcast_for_transmission phy)\<lparr>b_rssi := rssi\<rparr>)
             (mc_broadcasts_received m),
           mc_publishers := fold (\<lambda>p. put_publisher (relayed (hop p) p))
             (ph_publishers_for_transmission phy) (mc_publishers m)\<rparr>)"
proof -
  let ?pubs = "ph_publishers_for_transmission phy"
  let ?msg = "(af_info (createConvoyBroadcastMessage phy))\<lparr>uc_rssi := rssi\<rparr>"
  have "announced_publisher b ?msg i = Inr (relayed (hop (?pubs ! i)) (?pubs ! i))" if "i < length ?pubs" for i
    using that assms(2)
    by (simp add: announced_publisher_def createConvoyBroadcastMessage_def Let_def vec_at_def relayed_def)
  then have "put_announced b ?msg [0..<length ?pubs] ps =
      Inr (fold (\<lambda>i. put_publisher (relayed (hop (?pubs ! i)) (?pubs ! i))) [0..<length ?pubs] ps)" for ps
    by (intro put_announced_all) simp
  moreover have "fold (\<lambda>i. put_publisher (relayed (hop (?pubs ! i)) (?pubs ! i))) [0..<length ?pubs] ps =
      fold (\<lambda>p. put_publisher (relayed (hop p) p)) ?pubs ps" for ps
    using fold_map [of "\<lambda>p. put_publisher (relayed (hop p) p)" "\<lambda>i. ?pubs ! i" "[0..<length ?pubs]"]
    by (simp add: map_nth comp_def)
  moreover have "broadcast_of ?msg = (ph_broadcast_for_transmission phy)\<lparr>b_rssi := rssi\<rparr>"
    by (simp add: broadcast_of_def createConvoyBroadcastMessage_def Let_def)
  moreover have "length (uc_publisherNodeID ?msg) = length ?pubs" "uc_rssi ?msg = rssi"
    by (simp_all add: createConvoyBroadcastMessage_def Let_def)
  ultimately show ?thesis
    using assms(1) by (simp add: MembershipControl_receiveSignal_def Let_def)
qed

theorem broadcast_roundtrip_witness:
  "\<exists>m'. MembershipControl_receiveSignal sample_env sample_binder (ClusterBroadcastReceived
      ((af_info (createConvoyBroadcastMessage ((sample_phy 1)\<lparr>ph_publishers_for_transmission :=
         [\<lparr>p_name = ''d1rsu[0]'', p_id = 1025, p_position = \<lparr>cx = 1, cy = 2, cz = 3\<rparr>, p_fov = 80,
           p_direction = TOP, p_cluster = 1\<rparr>]\<rparr>)))\<lparr>uc_rssi := 9\<rparr>)) (sample_agent []) = Inr m' \<and>
    map p_name (mc_publishers m') = [''d1rsu[0]'']"
proof -
  let ?phy = "(sample_phy 1)\<lparr>ph_publishers_for_transmission :=
         [\<lparr>p_name = ''d1rsu[0]'', p_id = 1025, p_position = \<lparr>cx = 1, cy = 2, cz = 3\<rparr>, p_fov = 80,
           p_direction = TOP, p_cluster = 1\<rparr>]\<rparr>"
  have "minRSSIClusterManager (env_par sample_env) \<le> 9" by (simp add: sample_env_def)
  moreover have "\<forall>p \<in> set (ph_publishers_for_transmission ?phy).
      getNextHop (word_of_int (p_id p)) sample_binder = Inr ((\<lambda>_. 0) p)"
    by (simp add: sample_binder_facts)
  ultimately show ?thesis
    using broadcast_roundtrip [of sample_env 9 ?phy sample_binder "\<lambda>_. 0" "sample_agent []"]
    by (simp add: put_publisher_def upsert_def relayed_def sample_agent_def)
qed

end
