(* ===== verification/Dtwin_Store.thy ===== *)
theory Dtwin_Store
  imports Convoy_Defs Event_Kernel Std_Containers
begin

text \<open>
  \<^verbatim>\<open>stores/DtwinStore\<close>, the digital-twin store: a set of object ids and seven maps keyed by
  id.  Reads go through \<^verbatim>\<open>operator[]\<close> and therefore return a new store next to the value.
  Array accesses of an \<^verbatim>\<open>ObjectList\<close> are checked, as in the generated message classes.
\<close>

section \<open>State and operations\<close>

record 'q dtwin_store =
  dt_n_objects :: int
  dt_object_id :: "string sset"
  dt_object_type :: "(string, string) smap"
  dt_object_address :: "(string, int) smap"
  dt_object_position_x :: "(string, real) smap"
  dt_object_position_y :: "(string, real) smap"
  dt_object_position_z :: "(string, real) smap"
  dt_object_heading :: "(string, real) smap"
  dt_object_timestamp :: "(string, u64) smap"
  dt_object_max_age :: simtime
  dt_object_expiry_check_interval :: simtime
  dt_queue :: 'q

record dtwin_par =
  dTwinMaxAge :: simtime
  dTwinExpiryCheckInterval :: simtime

text \<open>What the module reads from its station: full name, \<^verbatim>\<open>detectorStationType\<close>, position.\<close>

record station =
  st_fullName :: string
  st_detectorStationType :: string
  st_position :: Coord

definition DtwinStore_initialize ::
  "'q kernel \<Rightarrow> dtwin_par \<Rightarrow> simtime \<Rightarrow> 'q \<Rightarrow> 'q dtwin_store" where
  "DtwinStore_initialize K par now q =
     \<lparr>dt_n_objects = 0, dt_object_id = [], dt_object_type = [], dt_object_address = [],
      dt_object_position_x = [], dt_object_position_y = [], dt_object_position_z = [],
      dt_object_heading = [], dt_object_timestamp = [], dt_object_max_age = dTwinMaxAge par,
      dt_object_expiry_check_interval = dTwinExpiryCheckInterval par,
      dt_queue = k_scheduleAt K (now + dTwinExpiryCheckInterval par) ''objectExpiryCheck'' q\<rparr>"

definition erase_object :: "string \<Rightarrow> 'q dtwin_store \<Rightarrow> 'q dtwin_store" where
  "erase_object k st = st\<lparr>
     dt_object_type := smap_del k (dt_object_type st),
     dt_object_position_x := smap_del k (dt_object_position_x st),
     dt_object_position_y := smap_del k (dt_object_position_y st),
     dt_object_position_z := smap_del k (dt_object_position_z st),
     dt_object_heading := smap_del k (dt_object_heading st),
     dt_object_timestamp := smap_del k (dt_object_timestamp st)\<rparr>"

text \<open>The iteration over \<^verbatim>\<open>_object_timestamp\<close>, whose current element may be erased.\<close>

fun expire_entries ::
  "u64 \<Rightarrow> u64 \<Rightarrow> (string \<times> u64) list \<Rightarrow> 'q dtwin_store \<Rightarrow> 'q dtwin_store" where
  "expire_entries now age [] st = st"
| "expire_entries now age (it # its) st =
     expire_entries now age its
       (if expired now age (snd it) then erase_object (fst it) st else st)"

definition DtwinStore_checkObjectExpiry :: "simtime \<Rightarrow> 'q dtwin_store \<Rightarrow> 'q dtwin_store" where
  "DtwinStore_checkObjectExpiry now st =
     (if 0 < dt_n_objects st
      then (let st' = expire_entries (to_u64 now) (to_u64 (dt_object_max_age st))
                        (dt_object_timestamp st) st
            in st'\<lparr>dt_n_objects := int (length (dt_object_timestamp st'))\<rparr>)
      else st)"

text \<open>One round of the loop of \<open>updateObjects\<close>: first the freshness test, then the writes.\<close>

definition update_enabled :: "u64 \<Rightarrow> string \<Rightarrow> 'q dtwin_store \<Rightarrow> bool \<times> 'q dtwin_store" where
  "update_enabled ts k st =
     (if k \<in> set (dt_object_id st)
      then (let (old, m) = smap_index 0 k (dt_object_timestamp st)
            in (\<not> ts < old, st\<lparr>dt_object_timestamp := m\<rparr>))
      else (True, st))"

definition write_address ::
  "ObjectList \<Rightarrow> nat \<Rightarrow> string \<Rightarrow> 'q dtwin_store \<Rightarrow> 'q dtwin_store res" where
  "write_address ol i k st =
     rbind (vec_at (ol_object_address ol) i) (\<lambda>address.
       if 0 \<le> address
       then rbind (vec_at (ol_object_type ol) i) (\<lambda>ty.
              Inr (st\<lparr>dt_object_address := smap_upd k address (dt_object_address st),
                      dt_object_type := smap_upd k ty (dt_object_type st)\<rparr>))
       else Inr st)"

definition write_object ::
  "ObjectList \<Rightarrow> nat \<Rightarrow> string \<Rightarrow> 'q dtwin_store \<Rightarrow> 'q dtwin_store res" where
  "write_object ol i k st =
     rbind (write_address ol i k (st\<lparr>dt_object_id := sset_ins k (dt_object_id st)\<rparr>)) (\<lambda>st.
     rbind (vec_at (ol_object_position_x ol) i) (\<lambda>x.
     rbind (vec_at (ol_object_position_y ol) i) (\<lambda>y.
     rbind (vec_at (ol_object_position_z ol) i) (\<lambda>z.
     rbind (vec_at (ol_object_heading ol) i) (\<lambda>h.
       Inr (st\<lparr>dt_object_timestamp := smap_upd k (ol_timestamp ol) (dt_object_timestamp st),
               dt_object_position_x := smap_upd k x (dt_object_position_x st),
               dt_object_position_y := smap_upd k y (dt_object_position_y st),
               dt_object_position_z := smap_upd k z (dt_object_position_z st),
               dt_object_heading := smap_upd k h (dt_object_heading st)\<rparr>))))))"

definition update_object :: "ObjectList \<Rightarrow> nat \<Rightarrow> 'q dtwin_store \<Rightarrow> 'q dtwin_store res" where
  "update_object ol i st =
     rbind (vec_at (ol_object_id ol) i) (\<lambda>k.
       let (enabled, st') = update_enabled (ol_timestamp ol) k st
       in if enabled then write_object ol i k st' else Inr st')"

fun update_loop :: "ObjectList \<Rightarrow> nat list \<Rightarrow> 'q dtwin_store \<Rightarrow> 'q dtwin_store res" where
  "update_loop ol [] st = Inr st"
| "update_loop ol (i # is) st = rbind (update_object ol i st) (update_loop ol is)"

definition DtwinStore_updateObjects ::
  "simtime \<Rightarrow> ObjectList \<Rightarrow> 'q dtwin_store \<Rightarrow> 'q dtwin_store res" where
  "DtwinStore_updateObjects now ol st =
     rbind (if \<not> expired (to_u64 now) (to_u64 (dt_object_max_age st)) (ol_timestamp ol)
            then update_loop ol [0..<nat (ol_n_objects ol)] st
            else Inr st)
       (\<lambda>st'. Inr (st'\<lparr>dt_n_objects := int (length (dt_object_id st'))\<rparr>))"

text \<open>Reads: each creates the entry it does not find.\<close>

definition DtwinStore_readIDs :: "'q dtwin_store \<Rightarrow> string sset" where
  "DtwinStore_readIDs st = dt_object_id st"

definition DtwinStore_readType :: "string \<Rightarrow> 'q dtwin_store \<Rightarrow> string \<times> 'q dtwin_store" where
  "DtwinStore_readType k st =
     (let (v, m) = smap_index '''' k (dt_object_type st) in (v, st\<lparr>dt_object_type := m\<rparr>))"

definition DtwinStore_readPositionX :: "string \<Rightarrow> 'q dtwin_store \<Rightarrow> real \<times> 'q dtwin_store" where
  "DtwinStore_readPositionX k st =
     (let (v, m) = smap_index 0 k (dt_object_position_x st) in (v, st\<lparr>dt_object_position_x := m\<rparr>))"

definition DtwinStore_readPositionY :: "string \<Rightarrow> 'q dtwin_store \<Rightarrow> real \<times> 'q dtwin_store" where
  "DtwinStore_readPositionY k st =
     (let (v, m) = smap_index 0 k (dt_object_position_y st) in (v, st\<lparr>dt_object_position_y := m\<rparr>))"

definition DtwinStore_readPositionZ :: "string \<Rightarrow> 'q dtwin_store \<Rightarrow> real \<times> 'q dtwin_store" where
  "DtwinStore_readPositionZ k st =
     (let (v, m) = smap_index 0 k (dt_object_position_z st) in (v, st\<lparr>dt_object_position_z := m\<rparr>))"

definition DtwinStore_readHeading :: "string \<Rightarrow> 'q dtwin_store \<Rightarrow> real \<times> 'q dtwin_store" where
  "DtwinStore_readHeading k st =
     (let (v, m) = smap_index 0 k (dt_object_heading st) in (v, st\<lparr>dt_object_heading := m\<rparr>))"

definition DtwinStore_readTimestamp :: "string \<Rightarrow> 'q dtwin_store \<Rightarrow> u64 \<times> 'q dtwin_store" where
  "DtwinStore_readTimestamp k st =
     (let (v, m) = smap_index 0 k (dt_object_timestamp st) in (v, st\<lparr>dt_object_timestamp := m\<rparr>))"

definition object_address_index :: "string \<Rightarrow> 'q dtwin_store \<Rightarrow> int \<times> 'q dtwin_store" where
  "object_address_index k st =
     (let (v, m) = smap_index 0 k (dt_object_address st) in (v, st\<lparr>dt_object_address := m\<rparr>))"

text \<open>One round of the loop of \<open>readFromStore\<close>: append the seven attributes of an id.\<close>

definition read_object ::
  "string \<Rightarrow> ObjectList \<times> 'q dtwin_store \<Rightarrow> ObjectList \<times> 'q dtwin_store" where
  "read_object k = (\<lambda>(ol, st).
     let (ty, st) = DtwinStore_readType k st;
         (address, st) = object_address_index k st;
         (x, st) = DtwinStore_readPositionX k st;
         (y, st) = DtwinStore_readPositionY k st;
         (z, st) = DtwinStore_readPositionZ k st;
         (h, st) = DtwinStore_readHeading k st;
         (ts, st) = DtwinStore_readTimestamp k st
     in (ol\<lparr>ol_object_id := ol_object_id ol @ [k], ol_object_type := ol_object_type ol @ [ty],
            ol_object_address := ol_object_address ol @ [address],
            ol_object_position_x := ol_object_position_x ol @ [x],
            ol_object_position_y := ol_object_position_y ol @ [y],
            ol_object_position_z := ol_object_position_z ol @ [z],
            ol_object_heading := ol_object_heading ol @ [h],
            ol_object_timestamp := ol_object_timestamp ol @ [ts]\<rparr>, st))"

definition DtwinStore_readFromStore ::
  "station \<Rightarrow> simtime \<Rightarrow> 'q dtwin_store \<Rightarrow> ObjectList \<times> 'q dtwin_store" where
  "DtwinStore_readFromStore stn now st =
     fold read_object (dt_object_id st)
       (new_ObjectList\<lparr>ol_timestamp := to_u64 now, ol_station_id := st_fullName stn,
          ol_station_type := st_detectorStationType stn,
          ol_station_position_x := cx (st_position stn),
          ol_station_position_y := cy (st_position stn), ol_n_objects := dt_n_objects st\<rparr>, st)"

definition DtwinStore_updateObjectTypeAndAddress ::
  "string \<Rightarrow> string \<Rightarrow> int \<Rightarrow> 'q dtwin_store \<Rightarrow> 'q dtwin_store" where
  "DtwinStore_updateObjectTypeAndAddress k ty address st =
     (if k \<in> set (dt_object_id st)
      then st\<lparr>dt_object_type := smap_upd k ty (dt_object_type st),
              dt_object_address := smap_upd k address (dt_object_address st)\<rparr>
      else st)"

definition DtwinStore_handleMessage ::
  "'q kernel \<Rightarrow> simtime \<Rightarrow> app_msg in_msg \<Rightarrow> 'q dtwin_store \<Rightarrow> 'q dtwin_store res" where
  "DtwinStore_handleMessage K now msg st =
     (case msg of
        SelfMsg ev \<Rightarrow>
          (if ev = ''objectExpiryCheck''
           then (let st' = DtwinStore_checkObjectExpiry now st
                 in Inr (st'\<lparr>dt_queue := k_scheduleAt K (now + dt_object_expiry_check_interval st')
                          ''objectExpiryCheck'' (dt_queue st')\<rparr>))
           else Inr st)
      | ExtMsg gate m \<Rightarrow>
          (if gate = ''in''
           then (case m of MObjectList ol \<Rightarrow> DtwinStore_updateObjects now ol st | _ \<Rightarrow> Inl CastError)
           else Inr st))"

section \<open>Well-formedness and the view of an object\<close>

definition DtwinStore_ok :: "'q dtwin_store \<Rightarrow> bool" where
  "DtwinStore_ok st \<longleftrightarrow> sset_ok (dt_object_id st) \<and> smap_ok (dt_object_type st) \<and>
     smap_ok (dt_object_address st) \<and> smap_ok (dt_object_position_x st) \<and>
     smap_ok (dt_object_position_y st) \<and> smap_ok (dt_object_position_z st) \<and>
     smap_ok (dt_object_heading st) \<and> smap_ok (dt_object_timestamp st)"

text \<open>The kinematic state the store holds for an id: timestamp, position and heading.\<close>

definition dt_kin ::
  "'q dtwin_store \<Rightarrow> string \<Rightarrow>
     u64 option \<times> real option \<times> real option \<times> real option \<times> real option" where
  "dt_kin st k = (map_of (dt_object_timestamp st) k, map_of (dt_object_position_x st) k,
     map_of (dt_object_position_y st) k, map_of (dt_object_position_z st) k,
     map_of (dt_object_heading st) k)"

text \<open>The kinematic state an object list reports at an index.\<close>

definition ol_kin ::
  "ObjectList \<Rightarrow> nat \<Rightarrow>
     u64 option \<times> real option \<times> real option \<times> real option \<times> real option" where
  "ol_kin ol i = (Some (ol_timestamp ol), Some (ol_object_position_x ol ! i),
     Some (ol_object_position_y ol ! i), Some (ol_object_position_z ol ! i),
     Some (ol_object_heading ol ! i))"

text \<open>Every array of the list has an entry for each of the \<open>ol_n_objects\<close> objects.\<close>

definition ol_wf :: "ObjectList \<Rightarrow> bool" where
  "ol_wf ol \<longleftrightarrow> (\<forall>n \<in> {length (ol_object_id ol), length (ol_object_address ol),
     length (ol_object_type ol), length (ol_object_position_x ol),
     length (ol_object_position_y ol), length (ol_object_position_z ol),
     length (ol_object_heading ol)}. ol_n_objects ol \<le> int n)"

text \<open>An update stamped \<open>ts\<close> is taken for unknown ids and for entries that are not younger.\<close>

definition accepts :: "u64 \<Rightarrow> 'q dtwin_store \<Rightarrow> string \<Rightarrow> bool" where
  "accepts ts st k \<longleftrightarrow> k \<notin> set (dt_object_id st) \<or>
     (case map_of (dt_object_timestamp st) k of None \<Rightarrow> True | Some old \<Rightarrow> old \<le> ts)"

lemma accepts_cong:
  "dt_kin st' k = dt_kin st k \<Longrightarrow> k \<in> set (dt_object_id st') \<longleftrightarrow> k \<in> set (dt_object_id st) \<Longrightarrow>
     accepts ts st' k = accepts ts st k"
  by (simp add: accepts_def dt_kin_def)

lemma accepts_same_stamp: "dt_kin st k = ol_kin ol i \<Longrightarrow> accepts (ol_timestamp ol) st k"
  by (simp add: accepts_def dt_kin_def ol_kin_def)

lemma vec_at_wf:
  assumes "ol_wf ol" and "i < nat (ol_n_objects ol)"
  shows "vec_at (ol_object_id ol) i = Inr (ol_object_id ol ! i)"
    "vec_at (ol_object_address ol) i = Inr (ol_object_address ol ! i)"
    "vec_at (ol_object_type ol) i = Inr (ol_object_type ol ! i)"
    "vec_at (ol_object_position_x ol) i = Inr (ol_object_position_x ol ! i)"
    "vec_at (ol_object_position_y ol) i = Inr (ol_object_position_y ol ! i)"
    "vec_at (ol_object_position_z ol) i = Inr (ol_object_position_z ol ! i)"
    "vec_at (ol_object_heading ol) i = Inr (ol_object_heading ol ! i)"
  using assms by (auto simp: vec_at_def ol_wf_def zless_nat_eq_int_zless)

lemma update_enabled_accepts:
  "fst (update_enabled ts k st) = accepts ts st k"
  by (auto simp: update_enabled_def accepts_def Let_def split_def smap_index_value
      split: option.splits)

lemma update_enabled_state:
  assumes "DtwinStore_ok st"
  shows "\<exists>m. smap_ok m \<and> snd (update_enabled ts k st) = st\<lparr>dt_object_timestamp := m\<rparr> \<and>
     (\<forall>k'. k' \<noteq> k \<longrightarrow> map_of m k' = map_of (dt_object_timestamp st) k') \<and>
     (\<not> accepts ts st k \<longrightarrow> m = dt_object_timestamp st)"
proof (cases "k \<in> set (dt_object_id st)")
  case False
  with assms show ?thesis
    by (auto simp: update_enabled_def accepts_def DtwinStore_ok_def
        intro!: exI [of _ "dt_object_timestamp st"])
next
  case True
  let ?m = "snd (smap_index 0 k (dt_object_timestamp st))"
  have "smap_ok ?m" using assms by (simp add: DtwinStore_ok_def smap_ok_index)
  moreover have "\<not> accepts ts st k \<longrightarrow> ?m = dt_object_timestamp st"
    using True by (simp add: accepts_def smap_index_def split: option.splits)
  ultimately show ?thesis
    using True assms
    by (auto simp: update_enabled_def Let_def split_def DtwinStore_ok_def smap_index_map
        intro!: exI [of _ ?m])
qed

lemma write_object_effect:
  assumes "DtwinStore_ok st" and "ol_wf ol" and "i < nat (ol_n_objects ol)"
  shows "\<exists>st'. write_object ol i k st = Inr st' \<and> DtwinStore_ok st' \<and>
     set (dt_object_id st') = insert k (set (dt_object_id st)) \<and>
     dt_kin st' = (dt_kin st)(k := ol_kin ol i)"
proof -
  define ad where "ad = (if 0 \<le> ol_object_address ol ! i
    then smap_upd k (ol_object_address ol ! i) (dt_object_address st) else dt_object_address st)"
  define ty where "ty = (if 0 \<le> ol_object_address ol ! i
    then smap_upd k (ol_object_type ol ! i) (dt_object_type st) else dt_object_type st)"
  have "write_object ol i k st = Inr (st\<lparr>dt_object_id := sset_ins k (dt_object_id st),
      dt_object_address := ad, dt_object_type := ty,
      dt_object_timestamp := smap_upd k (ol_timestamp ol) (dt_object_timestamp st),
      dt_object_position_x := smap_upd k (ol_object_position_x ol ! i) (dt_object_position_x st),
      dt_object_position_y := smap_upd k (ol_object_position_y ol ! i) (dt_object_position_y st),
      dt_object_position_z := smap_upd k (ol_object_position_z ol ! i) (dt_object_position_z st),
      dt_object_heading := smap_upd k (ol_object_heading ol ! i) (dt_object_heading st)\<rparr>)"
    by (simp add: write_object_def write_address_def vec_at_wf [OF assms(2,3)] ad_def ty_def)
  moreover have "smap_ok ad" "smap_ok ty"
    using assms(1) by (simp_all add: ad_def ty_def DtwinStore_ok_def smap_ok_upd)
  ultimately show ?thesis
    using assms(1)
    by (auto simp: DtwinStore_ok_def smap_ok_upd sset_ok_ins dt_kin_def ol_kin_def
        map_of_smap_upd fun_eq_iff)
qed

lemma update_object_effect:
  assumes "DtwinStore_ok st" and "ol_wf ol" and "i < nat (ol_n_objects ol)"
  shows "\<exists>st'. update_object ol i st = Inr st' \<and> DtwinStore_ok st' \<and>
     set (dt_object_id st') = insert (ol_object_id ol ! i) (set (dt_object_id st)) \<and>
     dt_kin st' = (if accepts (ol_timestamp ol) st (ol_object_id ol ! i)
        then (dt_kin st)(ol_object_id ol ! i := ol_kin ol i) else dt_kin st)"
proof -
  let ?k = "ol_object_id ol ! i"
  obtain m where m: "smap_ok m"
      "snd (update_enabled (ol_timestamp ol) ?k st) = st\<lparr>dt_object_timestamp := m\<rparr>"
      "\<forall>k'. k' \<noteq> ?k \<longrightarrow> map_of m k' = map_of (dt_object_timestamp st) k'"
      "\<not> accepts (ol_timestamp ol) st ?k \<longrightarrow> m = dt_object_timestamp st"
    using update_enabled_state [OF assms(1)] by blast
  let ?st = "st\<lparr>dt_object_timestamp := m\<rparr>"
  have ok: "DtwinStore_ok ?st" using assms(1) m(1) by (simp add: DtwinStore_ok_def)
  have step: "update_object ol i st =
      (if accepts (ol_timestamp ol) st ?k then write_object ol i ?k ?st else Inr ?st)"
    by (simp add: update_object_def vec_at_wf [OF assms(2,3)] split_def update_enabled_accepts m(2))
  show ?thesis
  proof (cases "accepts (ol_timestamp ol) st ?k")
    case True
    have "(dt_kin ?st)(?k := x) = (dt_kin st)(?k := x)" for x
      using m(3) by (auto simp: dt_kin_def fun_eq_iff)
    with True write_object_effect [OF ok assms(2,3), of ?k] show ?thesis by (auto simp: step)
  next
    case False
    with m(4) have "?st = st" by simp
    with False assms(1) show ?thesis by (auto simp: step accepts_def)
  qed
qed

lemma update_loop_append:
  "update_loop ol (is @ js) st = rbind (update_loop ol is st) (update_loop ol js)"
  by (induction "is" arbitrary: st) (auto simp: rbind_def split: sum.splits)

lemma accepts_after:
  assumes "set (dt_object_id st') = set (dt_object_id st) \<union> (\<lambda>i. ol_object_id ol ! i) ` set is"
    and "dt_kin st' k = (case find (\<lambda>i. ol_object_id ol ! i = k) (rev is) of
        Some i \<Rightarrow> if accepts (ol_timestamp ol) st k then ol_kin ol i else dt_kin st k
      | None \<Rightarrow> dt_kin st k)"
  shows "accepts (ol_timestamp ol) st' k = accepts (ol_timestamp ol) st k"
proof (cases "find (\<lambda>i. ol_object_id ol ! i = k) (rev is)")
  case None
  then have "k \<notin> (\<lambda>i. ol_object_id ol ! i) ` set is" by (auto simp: find_None_iff)
  with None assms show ?thesis by (intro accepts_cong) auto
next
  case (Some j)
  then have kin: "dt_kin st' k = (if accepts (ol_timestamp ol) st k then ol_kin ol j else dt_kin st k)"
    by (simp add: assms(2))
  show ?thesis
  proof (cases "accepts (ol_timestamp ol) st k")
    case True
    with kin show ?thesis by (auto intro: accepts_same_stamp)
  next
    case False
    with kin assms(1) show ?thesis by (auto simp: accepts_def dt_kin_def)
  qed
qed

text \<open>The whole loop: the last index that carries an id determines its entry, if accepted.\<close>

lemma update_loop_effect:
  assumes "DtwinStore_ok st" and "ol_wf ol" and "\<forall>i \<in> set is. i < nat (ol_n_objects ol)"
  shows "\<exists>st'. update_loop ol is st = Inr st' \<and> DtwinStore_ok st' \<and>
     set (dt_object_id st') = set (dt_object_id st) \<union> (\<lambda>i. ol_object_id ol ! i) ` set is \<and>
     (\<forall>k. dt_kin st' k = (case find (\<lambda>i. ol_object_id ol ! i = k) (rev is) of
        Some i \<Rightarrow> if accepts (ol_timestamp ol) st k then ol_kin ol i else dt_kin st k
      | None \<Rightarrow> dt_kin st k))"
  using assms(3)
proof (induction "is" rule: rev_induct)
  case Nil
  then show ?case using assms(1) by simp
next
  case (snoc i "is")
  let ?ts = "ol_timestamp ol" and ?k = "ol_object_id ol ! i"
  obtain st1 where st1: "update_loop ol is st = Inr st1" "DtwinStore_ok st1"
      "set (dt_object_id st1) = set (dt_object_id st) \<union> (\<lambda>i. ol_object_id ol ! i) ` set is"
      "\<And>k. dt_kin st1 k = (case find (\<lambda>i. ol_object_id ol ! i = k) (rev is) of
        Some i \<Rightarrow> if accepts ?ts st k then ol_kin ol i else dt_kin st k
      | None \<Rightarrow> dt_kin st k)"
    using snoc by auto
  obtain st2 where st2: "update_object ol i st1 = Inr st2" "DtwinStore_ok st2"
      "set (dt_object_id st2) = insert ?k (set (dt_object_id st1))"
      "dt_kin st2 = (if accepts ?ts st1 ?k then (dt_kin st1)(?k := ol_kin ol i) else dt_kin st1)"
    using update_object_effect [OF st1(2) assms(2), of i] snoc.prems by auto
  have acc: "accepts ?ts st1 ?k = accepts ?ts st ?k"
    by (rule accepts_after [OF st1(3,4)])
  have "dt_kin st2 k = (case find (\<lambda>i. ol_object_id ol ! i = k) (rev (is @ [i])) of
        Some i \<Rightarrow> if accepts ?ts st k then ol_kin ol i else dt_kin st k
      | None \<Rightarrow> dt_kin st k)" for k
    using st2(4) st1(4) [of k] acc by (auto split: option.splits)
  with st1 st2 show ?case by (auto simp: update_loop_append)
qed

section \<open>Expiry and reads\<close>

lemma expire_entries_frame [simp]:
  "dt_object_id (expire_entries now age es st) = dt_object_id st"
  "dt_object_address (expire_entries now age es st) = dt_object_address st"
  "dt_object_max_age (expire_entries now age es st) = dt_object_max_age st"
  "dt_object_expiry_check_interval (expire_entries now age es st) = dt_object_expiry_check_interval st"
  "dt_queue (expire_entries now age es st) = dt_queue st"
  by (induction es arbitrary: st) (simp_all add: erase_object_def)

definition expired_keys :: "u64 \<Rightarrow> u64 \<Rightarrow> (string, u64) smap \<Rightarrow> string list" where
  "expired_keys now age es = map fst (filter (\<lambda>e. expired now age (snd e)) es)"

lemma expire_entries_maps:
  "dt_object_type (expire_entries now age es st) = fold smap_del (expired_keys now age es) (dt_object_type st)"
  "dt_object_position_x (expire_entries now age es st) =
     fold smap_del (expired_keys now age es) (dt_object_position_x st)"
  "dt_object_position_y (expire_entries now age es st) =
     fold smap_del (expired_keys now age es) (dt_object_position_y st)"
  "dt_object_position_z (expire_entries now age es st) =
     fold smap_del (expired_keys now age es) (dt_object_position_z st)"
  "dt_object_heading (expire_entries now age es st) =
     fold smap_del (expired_keys now age es) (dt_object_heading st)"
  "dt_object_timestamp (expire_entries now age es st) =
     fold smap_del (expired_keys now age es) (dt_object_timestamp st)"
  by (induction es arbitrary: st) (simp_all add: erase_object_def expired_keys_def)

lemma expired_keys_iff:
  "smap_ok m \<Longrightarrow> k \<in> set (expired_keys now age m) \<longleftrightarrow>
     (\<exists>ts. map_of m k = Some ts \<and> expired now age ts)"
  by (force simp: expired_keys_def dest: smap_distinct map_of_SomeD intro: map_of_is_SomeI)

lemma DtwinStore_ok_expire: "DtwinStore_ok st \<Longrightarrow> DtwinStore_ok (expire_entries now age es st)"
  by (simp add: DtwinStore_ok_def expire_entries_maps sm.ok_erases)

lemma DtwinStore_checkObjectExpiry_ok:
  "DtwinStore_ok st \<Longrightarrow> DtwinStore_ok (DtwinStore_checkObjectExpiry now st)"
  using DtwinStore_ok_expire
  by (fastforce simp: DtwinStore_checkObjectExpiry_def Let_def DtwinStore_ok_def)

lemma DtwinStore_checkObjectExpiry_ids [simp]:
  "dt_object_id (DtwinStore_checkObjectExpiry now st) = dt_object_id st"
  by (simp add: DtwinStore_checkObjectExpiry_def Let_def)

lemma expire_entries_kin:
  assumes "DtwinStore_ok st"
  shows "dt_kin (expire_entries now age (dt_object_timestamp st) st) k =
     (if \<exists>ts. map_of (dt_object_timestamp st) k = Some ts \<and> expired now age ts
      then (None, None, None, None, None) else dt_kin st k)"
  using assms
  by (auto simp: dt_kin_def expire_entries_maps DtwinStore_ok_def sm.lookup_erases expired_keys_iff)

lemma checkObjectExpiry_gone:
  assumes "DtwinStore_ok st" and "0 < dt_n_objects st" and "map_of (dt_object_timestamp st) k = Some ts"
    and "expired (to_u64 now) (to_u64 (dt_object_max_age st)) ts"
  shows "dt_kin (DtwinStore_checkObjectExpiry now st) k = (None, None, None, None, None)"
proof -
  have "dt_kin (st'\<lparr>dt_n_objects := n\<rparr>) k = dt_kin st' k" for st' :: "'a dtwin_store" and n
    by (simp add: dt_kin_def)
  with assms show ?thesis
    by (simp add: DtwinStore_checkObjectExpiry_def Let_def expire_entries_kin)
qed

text \<open>Reading through \<^verbatim>\<open>operator[]\<close>: the value, or the default of the type.\<close>

definition dflt :: "'v \<Rightarrow> ('k::linorder, 'v) smap \<Rightarrow> 'k \<Rightarrow> 'v" where
  "dflt d m k = (case map_of m k of Some v \<Rightarrow> v | None \<Rightarrow> d)"

lemma dflt_index [simp]:
  "smap_ok m \<Longrightarrow> dflt d (snd (smap_index d k m)) = dflt d m"
  by (auto simp: dflt_def smap_index_map fun_eq_iff split: option.splits)

lemma fst_index [simp]: "fst (smap_index d k m) = dflt d m k"
  by (simp add: dflt_def smap_index_value)

lemmas read_defs = DtwinStore_readType_def object_address_index_def DtwinStore_readPositionX_def
  DtwinStore_readPositionY_def DtwinStore_readPositionZ_def DtwinStore_readHeading_def
  DtwinStore_readTimestamp_def

lemma read_object_state:
  assumes "DtwinStore_ok st"
  shows "DtwinStore_ok (snd (read_object k (ol, st)))"
    and "dflt '''' (dt_object_type (snd (read_object k (ol, st)))) = dflt '''' (dt_object_type st)"
    and "dflt 0 (dt_object_timestamp (snd (read_object k (ol, st)))) = dflt 0 (dt_object_timestamp st)"
    and "dflt 0 (dt_object_position_x (snd (read_object k (ol, st)))) = dflt 0 (dt_object_position_x st)"
    and "dflt 0 (dt_object_position_y (snd (read_object k (ol, st)))) = dflt 0 (dt_object_position_y st)"
    and "dflt 0 (dt_object_position_z (snd (read_object k (ol, st)))) = dflt 0 (dt_object_position_z st)"
    and "dflt 0 (dt_object_heading (snd (read_object k (ol, st)))) = dflt 0 (dt_object_heading st)"
    and "dflt 0 (dt_object_address (snd (read_object k (ol, st)))) = dflt 0 (dt_object_address st)"
    and "dt_object_id (snd (read_object k (ol, st))) = dt_object_id st"
    and "dt_n_objects (snd (read_object k (ol, st))) = dt_n_objects st"
  using assms
  by (simp_all add: read_object_def read_defs Let_def split_def DtwinStore_ok_def smap_ok_index)

lemma read_object_list:
  "ol_object_id (fst (read_object k (ol, st))) = ol_object_id ol @ [k]"
  "ol_object_type (fst (read_object k (ol, st))) = ol_object_type ol @ [dflt '''' (dt_object_type st) k]"
  "ol_object_address (fst (read_object k (ol, st))) = ol_object_address ol @ [dflt 0 (dt_object_address st) k]"
  "ol_object_timestamp (fst (read_object k (ol, st))) = ol_object_timestamp ol @ [dflt 0 (dt_object_timestamp st) k]"
  "ol_object_position_x (fst (read_object k (ol, st))) =
     ol_object_position_x ol @ [dflt 0 (dt_object_position_x st) k]"
  "ol_object_position_y (fst (read_object k (ol, st))) =
     ol_object_position_y ol @ [dflt 0 (dt_object_position_y st) k]"
  "ol_object_position_z (fst (read_object k (ol, st))) =
     ol_object_position_z ol @ [dflt 0 (dt_object_position_z st) k]"
  "ol_object_heading (fst (read_object k (ol, st))) =
     ol_object_heading ol @ [dflt 0 (dt_object_heading st) k]"
  "ol_n_objects (fst (read_object k (ol, st))) = ol_n_objects ol"
  "ol_timestamp (fst (read_object k (ol, st))) = ol_timestamp ol"
  by (simp_all add: read_object_def read_defs Let_def split_def)

lemma fold_read_object:
  assumes "DtwinStore_ok st" and "fold read_object ks (ol, st) = (ol', st')"
  shows "DtwinStore_ok st' \<and> dt_object_id st' = dt_object_id st \<and> dt_n_objects st' = dt_n_objects st \<and>
     ol_n_objects ol' = ol_n_objects ol \<and> ol_timestamp ol' = ol_timestamp ol \<and>
     ol_object_id ol' = ol_object_id ol @ ks \<and>
     ol_object_type ol' = ol_object_type ol @ map (dflt '''' (dt_object_type st)) ks \<and>
     ol_object_address ol' = ol_object_address ol @ map (dflt 0 (dt_object_address st)) ks \<and>
     ol_object_timestamp ol' = ol_object_timestamp ol @ map (dflt 0 (dt_object_timestamp st)) ks \<and>
     ol_object_position_x ol' = ol_object_position_x ol @ map (dflt 0 (dt_object_position_x st)) ks \<and>
     ol_object_position_y ol' = ol_object_position_y ol @ map (dflt 0 (dt_object_position_y st)) ks \<and>
     ol_object_position_z ol' = ol_object_position_z ol @ map (dflt 0 (dt_object_position_z st)) ks \<and>
     ol_object_heading ol' = ol_object_heading ol @ map (dflt 0 (dt_object_heading st)) ks"
  using assms
proof (induction ks arbitrary: ol st)
  case Nil
  then show ?case by simp
next
  case (Cons k ks)
  obtain ol1 st1 where r: "read_object k (ol, st) = (ol1, st1)" by (cases "read_object k (ol, st)")
  from Cons.prems(2) r have "fold read_object ks (ol1, st1) = (ol', st')" by simp
  from Cons.IH [OF _ this] read_object_state [OF Cons.prems(1), of k ol]
    read_object_list [of k ol st]
  show ?case by (simp add: r)
qed

lemma readFromStore_list:
  assumes "DtwinStore_ok st" and "DtwinStore_readFromStore stn now st = (ol, st')"
    and "dt_n_objects st \<le> int (length (dt_object_id st))"
  shows "ol_wf ol \<and> ol_n_objects ol = dt_n_objects st \<and> ol_timestamp ol = to_u64 now \<and> DtwinStore_ok st' \<and>
     (\<forall>i < length (dt_object_id st). let k = dt_object_id st ! i
        in ol_object_id ol ! i = k \<and> ol_object_type ol ! i = dflt '''' (dt_object_type st) k \<and>
           ol_object_address ol ! i = dflt 0 (dt_object_address st) k \<and>
           ol_object_position_x ol ! i = dflt 0 (dt_object_position_x st) k \<and>
           ol_object_position_y ol ! i = dflt 0 (dt_object_position_y st) k \<and>
           ol_object_position_z ol ! i = dflt 0 (dt_object_position_z st) k \<and>
           ol_object_heading ol ! i = dflt 0 (dt_object_heading st) k)"
  using fold_read_object [OF assms(1) assms(2) [unfolded DtwinStore_readFromStore_def]] assms(3)
  by (simp add: new_ObjectList_def ol_wf_def Let_def)

section \<open>Every use of the store, as a step relation\<close>

lemma write_object_ok:
  assumes "DtwinStore_ok st" and "write_object ol i k st = Inr st'"
  shows "DtwinStore_ok st' \<and> set (dt_object_id st') = insert k (set (dt_object_id st))"
  using assms
  by (auto simp: write_object_def write_address_def rbind_Inr_iff DtwinStore_ok_def smap_ok_upd
      sset_ok_ins split: if_splits)

lemma update_object_ok:
  assumes "DtwinStore_ok st" and "update_object ol i st = Inr st'"
  shows "DtwinStore_ok st' \<and> set (dt_object_id st) \<subseteq> set (dt_object_id st')"
proof -
  obtain k where upd: "(if fst (update_enabled (ol_timestamp ol) k st)
      then write_object ol i k (snd (update_enabled (ol_timestamp ol) k st))
      else Inr (snd (update_enabled (ol_timestamp ol) k st))) = Inr st'"
    using assms(2) by (auto simp: update_object_def rbind_Inr_iff split_def Let_def)
  obtain m where m: "smap_ok m"
      "snd (update_enabled (ol_timestamp ol) k st) = st\<lparr>dt_object_timestamp := m\<rparr>"
    using update_enabled_state [OF assms(1)] by blast
  from m(1) assms(1) have ok: "DtwinStore_ok (st\<lparr>dt_object_timestamp := m\<rparr>)"
    by (simp add: DtwinStore_ok_def)
  show ?thesis
    using upd [unfolded m(2)] ok write_object_ok [OF ok, of ol i k st'] by (auto split: if_splits)
qed

lemma update_loop_ok:
  "update_loop ol is st = Inr st' \<Longrightarrow> DtwinStore_ok st \<Longrightarrow>
     DtwinStore_ok st' \<and> set (dt_object_id st) \<subseteq> set (dt_object_id st')"
  by (induction ol "is" st rule: update_loop.induct)
     (fastforce simp: rbind_Inr_iff dest: update_object_ok)+

lemma DtwinStore_updateObjects_ok:
  assumes "DtwinStore_ok st" and "DtwinStore_updateObjects now ol st = Inr st'"
  shows "DtwinStore_ok st' \<and> set (dt_object_id st) \<subseteq> set (dt_object_id st')"
  using assms update_loop_ok [OF _ assms(1), of ol]
  by (fastforce simp: DtwinStore_updateObjects_def rbind_Inr_iff DtwinStore_ok_def split: if_splits)

text \<open>
  The ways the other modules and the kernel use the store: a message, the expiry timer, a full
  read (\<^verbatim>\<open>Publisher\<close>, \<^verbatim>\<open>Maneuver\<close>, \<^verbatim>\<open>ConvoyOrchestration\<close>), the single reads of
  \<^verbatim>\<open>Localizer\<close>, and the address update of \<^verbatim>\<open>SubscriberStore\<close>.
\<close>

inductive dtwin_step :: "'q kernel \<Rightarrow> 'q dtwin_store \<Rightarrow> 'q dtwin_store \<Rightarrow> bool" for K where
  message: "DtwinStore_handleMessage K now msg st = Inr st' \<Longrightarrow> dtwin_step K st st'"
| read_all: "DtwinStore_readFromStore stn now st = (ol, st') \<Longrightarrow> dtwin_step K st st'"
| read_type: "DtwinStore_readType k st = (v, st') \<Longrightarrow> dtwin_step K st st'"
| read_x: "DtwinStore_readPositionX k st = (x, st') \<Longrightarrow> dtwin_step K st st'"
| read_y: "DtwinStore_readPositionY k st = (x, st') \<Longrightarrow> dtwin_step K st st'"
| read_z: "DtwinStore_readPositionZ k st = (x, st') \<Longrightarrow> dtwin_step K st st'"
| read_heading: "DtwinStore_readHeading k st = (x, st') \<Longrightarrow> dtwin_step K st st'"
| read_timestamp: "DtwinStore_readTimestamp k st = (ts, st') \<Longrightarrow> dtwin_step K st st'"
| address: "dtwin_step K st (DtwinStore_updateObjectTypeAndAddress k ty a st)"

lemma DtwinStore_handleMessage_ok:
  "DtwinStore_ok st \<Longrightarrow> DtwinStore_handleMessage K now msg st = Inr st' \<Longrightarrow>
     DtwinStore_ok st' \<and> set (dt_object_id st) \<subseteq> set (dt_object_id st')"
  using DtwinStore_checkObjectExpiry_ok [of st now]
  by (auto simp: DtwinStore_handleMessage_def Let_def DtwinStore_updateObjects_ok DtwinStore_ok_def
      split: in_msg.splits if_splits app_msg.splits
      dest: DtwinStore_updateObjects_ok [unfolded DtwinStore_ok_def, rotated])

lemma dtwin_step_ok:
  "dtwin_step K st st' \<Longrightarrow> DtwinStore_ok st \<Longrightarrow>
     DtwinStore_ok st' \<and> set (dt_object_id st) \<subseteq> set (dt_object_id st')"
proof (induction rule: dtwin_step.induct)
  case (message now msg st st')
  then show ?case by (metis DtwinStore_handleMessage_ok)
next
  case (read_all stn now st ol st')
  then show ?case by (auto simp: DtwinStore_readFromStore_def dest!: fold_read_object [rotated])
next
  case (address st k ty a)
  then show ?case by (auto simp: DtwinStore_updateObjectTypeAndAddress_def DtwinStore_ok_def smap_ok_upd)
qed (auto simp: read_defs Let_def split_def DtwinStore_ok_def smap_ok_index)

lemma dtwin_steps_ok:
  "(dtwin_step K)\<^sup>*\<^sup>* st st' \<Longrightarrow> DtwinStore_ok st \<Longrightarrow>
     DtwinStore_ok st' \<and> set (dt_object_id st) \<subseteq> set (dt_object_id st')"
  by (induction rule: rtranclp_induct) (auto dest: dtwin_step_ok)

lemma DtwinStore_initialize_ok: "DtwinStore_ok (DtwinStore_initialize K par now q)"
  by (simp add: DtwinStore_initialize_def DtwinStore_ok_def)

lemma updateObjects_effect:
  assumes "DtwinStore_ok st" and "ol_wf ol"
    and "\<not> expired (to_u64 now) (to_u64 (dt_object_max_age st)) (ol_timestamp ol)"
  shows "\<exists>st'. DtwinStore_updateObjects now ol st = Inr st' \<and> DtwinStore_ok st' \<and>
     set (dt_object_id st') =
       set (dt_object_id st) \<union> set (take (nat (ol_n_objects ol)) (ol_object_id ol)) \<and>
     dt_n_objects st' = int (card (set (dt_object_id st'))) \<and>
     (\<forall>k. dt_kin st' k =
        (case find (\<lambda>i. ol_object_id ol ! i = k) (rev [0..<nat (ol_n_objects ol)]) of
           Some i \<Rightarrow> if accepts (ol_timestamp ol) st k then ol_kin ol i else dt_kin st k
         | None \<Rightarrow> dt_kin st k))"
proof -
  let ?n = "nat (ol_n_objects ol)"
  obtain st1 where st1: "update_loop ol [0..<?n] st = Inr st1" "DtwinStore_ok st1"
      "set (dt_object_id st1) = set (dt_object_id st) \<union> (\<lambda>i. ol_object_id ol ! i) ` set [0..<?n]"
      "\<forall>k. dt_kin st1 k = (case find (\<lambda>i. ol_object_id ol ! i = k) (rev [0..<?n]) of
         Some i \<Rightarrow> if accepts (ol_timestamp ol) st k then ol_kin ol i else dt_kin st k
       | None \<Rightarrow> dt_kin st k)"
    using update_loop_effect [OF assms(1,2), of "[0..<?n]"] by auto
  let ?st' = "st1\<lparr>dt_n_objects := int (length (dt_object_id st1))\<rparr>"
  have "DtwinStore_updateObjects now ol st = Inr ?st'"
    using assms(3) st1(1) by (simp add: DtwinStore_updateObjects_def)
  moreover have "(\<lambda>i. ol_object_id ol ! i) ` set [0..<?n] = set (take ?n (ol_object_id ol))"
    using assms(2) nth_image [of ?n "ol_object_id ol"]
    by (auto simp: ol_wf_def atLeast0LessThan nat_le_iff)
  moreover have "DtwinStore_ok ?st'" "dt_kin ?st' = dt_kin st1"
    using st1(2) by (simp_all add: DtwinStore_ok_def dt_kin_def fun_eq_iff)
  moreover have "length (dt_object_id st1) = card (set (dt_object_id st1))"
    using st1(2) by (simp add: DtwinStore_ok_def sset_size)
  ultimately show ?thesis using st1(3,4) by auto
qed

section \<open>Properties\<close>

text \<open>
  C6. An object list that is young enough and whose arrays cover its object count is always
  taken without error: the ids of the store become the old ids and the listed ones, the object
  counter is their number, and each listed id gets the position, heading and timestamp of its
  last occurrence in the list unless the store already holds a strictly younger entry; every
  other id keeps its state.
\<close>

theorem DtwinStore_update_exact:
  assumes "DtwinStore_ok st" and "ol_wf ol"
    and "\<not> expired (to_u64 now) (to_u64 (dt_object_max_age st)) (ol_timestamp ol)"
  shows "\<exists>st'. DtwinStore_updateObjects now ol st = Inr st' \<and> DtwinStore_ok st' \<and>
     set (dt_object_id st') =
       set (dt_object_id st) \<union> set (take (nat (ol_n_objects ol)) (ol_object_id ol)) \<and>
     dt_n_objects st' = int (card (set (dt_object_id st'))) \<and>
     (\<forall>k. dt_kin st' k =
        (case find (\<lambda>i. ol_object_id ol ! i = k) (rev [0..<nat (ol_n_objects ol)]) of
           Some i \<Rightarrow> if accepts (ol_timestamp ol) st k then ol_kin ol i else dt_kin st k
         | None \<Rightarrow> dt_kin st k))"
  by (rule updateObjects_effect) fact+

definition sample_list :: ObjectList where
  "sample_list = new_ObjectList\<lparr>ol_timestamp := 6, ol_n_objects := 1, ol_object_id := [''car''],
     ol_object_address := [7], ol_object_type := [''v2v''], ol_object_position_x := [10],
     ol_object_position_y := [20], ol_object_position_z := [0], ol_object_heading := [1]\<rparr>"

definition sample_store :: "(string \<rightharpoonup> simtime) dtwin_store" where
  "sample_store = DtwinStore_initialize fes_kernel
     \<lparr>dTwinMaxAge = 5, dTwinExpiryCheckInterval = 1\<rparr> 0 Map.empty"

lemma sample_store_simps:
  "DtwinStore_ok sample_store" "dt_object_max_age sample_store = 5"
  "dt_object_id sample_store = []" "ol_wf sample_list" "ol_n_objects sample_list = 1"
  "ol_object_id sample_list = [''car'']" "ol_timestamp sample_list = 6"
  by (simp_all add: sample_store_def sample_list_def ol_wf_def DtwinStore_ok_def
      DtwinStore_initialize_def)

theorem DtwinStore_update_exact_witness:
  "\<exists>st'. DtwinStore_updateObjects 8 sample_list sample_store = Inr st' \<and>
     set (dt_object_id st') = {''car''} \<and> dt_n_objects st' = 1 \<and>
     dt_kin st' ''car'' = ol_kin sample_list 0"
proof -
  have "\<not> expired (to_u64 8) (to_u64 (dt_object_max_age sample_store)) (ol_timestamp sample_list)"
    by (simp add: sample_store_simps expired_def to_u64_def)
  from DtwinStore_update_exact [OF sample_store_simps(1,4) this]
  obtain st' where st': "DtwinStore_updateObjects 8 sample_list sample_store = Inr st'"
      "set (dt_object_id st') = {''car''}" "dt_n_objects st' = int (card (set (dt_object_id st')))"
      "\<forall>k. dt_kin st' k = (case find (\<lambda>i. ol_object_id sample_list ! i = k) (rev [0..<1]) of
           Some i \<Rightarrow> if accepts (ol_timestamp sample_list) sample_store k
                     then ol_kin sample_list i else dt_kin sample_store k
         | None \<Rightarrow> dt_kin sample_store k)"
    unfolding sample_store_simps by (elim exE conjE) simp
  from st'(2,3) have "dt_n_objects st' = 1" by simp
  moreover from st'(4) have "dt_kin st' ''car'' = ol_kin sample_list 0"
    by (simp add: sample_store_simps accepts_def)
  ultimately show ?thesis using st'(1,2) by blast
qed

text \<open>
  The expiry check removes the timestamp, type, position and heading of exactly the objects
  whose entry is too old, and counts the entries that remain; it touches neither the set of ids
  nor the addresses.
\<close>

theorem DtwinStore_expiry_exact:
  assumes "DtwinStore_ok st" and "0 < dt_n_objects st"
  shows "dt_kin (DtwinStore_checkObjectExpiry now st) k =
       (if \<exists>ts. map_of (dt_object_timestamp st) k = Some ts \<and>
              expired (to_u64 now) (to_u64 (dt_object_max_age st)) ts
        then (None, None, None, None, None) else dt_kin st k) \<and>
     dt_n_objects (DtwinStore_checkObjectExpiry now st) = int (card {k. \<exists>ts.
       map_of (dt_object_timestamp st) k = Some ts \<and>
       \<not> expired (to_u64 now) (to_u64 (dt_object_max_age st)) ts}) \<and>
     dt_object_id (DtwinStore_checkObjectExpiry now st) = dt_object_id st \<and>
     dt_object_address (DtwinStore_checkObjectExpiry now st) = dt_object_address st"
proof -
  let ?now = "to_u64 now" and ?age = "to_u64 (dt_object_max_age st)"
  define st1 where "st1 = expire_entries ?now ?age (dt_object_timestamp st) st"
  have chk: "DtwinStore_checkObjectExpiry now st =
      st1\<lparr>dt_n_objects := int (length (dt_object_timestamp st1))\<rparr>"
    using assms(2) by (simp add: DtwinStore_checkObjectExpiry_def Let_def st1_def)
  have dom: "dom (map_of (dt_object_timestamp st1)) =
      {k. \<exists>ts. map_of (dt_object_timestamp st) k = Some ts \<and> \<not> expired ?now ?age ts}"
    using assms(1)
    by (auto simp: st1_def expire_entries_maps sm.lookup_erases DtwinStore_ok_def expired_keys_iff
        split: if_splits)
  have "length (dt_object_timestamp st1) = card (dom (map_of (dt_object_timestamp st1)))"
    using DtwinStore_ok_expire [OF assms(1)] by (intro smap_size) (simp add: st1_def DtwinStore_ok_def)
  moreover have "dt_kin (DtwinStore_checkObjectExpiry now st) k = dt_kin st1 k"
    by (simp add: chk dt_kin_def)
  moreover note expire_entries_kin [OF assms(1), of ?now ?age k, folded st1_def]
  moreover have "dt_object_id st1 = dt_object_id st" "dt_object_address st1 = dt_object_address st"
    by (simp_all add: st1_def)
  ultimately show ?thesis by (simp only: chk dom) simp
qed

definition aged_store :: "unit dtwin_store" where
  "aged_store = \<lparr>dt_n_objects = 2, dt_object_id = [''a'', ''b''],
     dt_object_type = [(''a'', ''v2v''), (''b'', ''v2v'')], dt_object_address = [(''a'', 5), (''b'', 6)],
     dt_object_position_x = [(''a'', 1), (''b'', 2)], dt_object_position_y = [(''a'', 3), (''b'', 4)],
     dt_object_position_z = [(''a'', 0), (''b'', 0)], dt_object_heading = [(''a'', 0), (''b'', 0)],
     dt_object_timestamp = [(''a'', 2), (''b'', 8)], dt_object_max_age = 5,
     dt_object_expiry_check_interval = 1, dt_queue = ()\<rparr>"

lemma aged_store_ok: "DtwinStore_ok aged_store"
  by (simp add: aged_store_def DtwinStore_ok_def sset_ok_def smap_ok_def)

theorem DtwinStore_expiry_exact_witness:
  "dt_kin (DtwinStore_checkObjectExpiry 10 aged_store) ''a'' = (None, None, None, None, None) \<and>
   dt_kin (DtwinStore_checkObjectExpiry 10 aged_store) ''b'' = dt_kin aged_store ''b''"
  using DtwinStore_expiry_exact [OF aged_store_ok, of 10 "''a''"]
    DtwinStore_expiry_exact [OF aged_store_ok, of 10 "''b''"]
  by (simp add: aged_store_def expired_def to_u64_def)

lemma initialize_accepts [simp]:
  "dt_object_id (DtwinStore_initialize K par t0 q) = []"
  "accepts ts (DtwinStore_initialize K par t0 q) k"
  by (simp_all add: DtwinStore_initialize_def accepts_def)



text \<open>
  An object whose entry has just expired is still listed by \<open>readFromStore\<close>: its id is in
  the list, with an empty type and with timestamp and position 0, while the object count of the
  list counts unexpired entries only.
\<close>

theorem DtwinStore_expired_object_still_listed:
  assumes "DtwinStore_ok st" and "0 < dt_n_objects st" and "k \<in> set (dt_object_id st)"
    and "map_of (dt_object_timestamp st) k = Some ts"
    and "expired (to_u64 now) (to_u64 (dt_object_max_age st)) ts"
  shows "\<exists>i < length (dt_object_id st).
     (let out = fst (DtwinStore_readFromStore stn now (DtwinStore_checkObjectExpiry now st))
      in ol_object_id out ! i = k \<and> ol_object_type out ! i = '''' \<and>
         ol_object_timestamp out ! i = 0 \<and> ol_object_position_x out ! i = 0 \<and>
         ol_object_position_y out ! i = 0 \<and>
         ol_n_objects out = int (length (dt_object_timestamp (DtwinStore_checkObjectExpiry now st))))"
proof -
  let ?st = "DtwinStore_checkObjectExpiry now st"
  have ok: "DtwinStore_ok ?st" using assms(1) by (rule DtwinStore_checkObjectExpiry_ok)
  obtain i where i: "i < length (dt_object_id st)" "dt_object_id st ! i = k"
    using assms(3) by (auto simp: in_set_conv_nth)
  have gone: "map_of (dt_object_type ?st) k = None \<and> map_of (dt_object_timestamp ?st) k = None \<and>
      map_of (dt_object_position_x ?st) k = None \<and> map_of (dt_object_position_y ?st) k = None"
    using assms by (auto simp: DtwinStore_checkObjectExpiry_def Let_def expire_entries_maps
        sm.lookup_erases expired_keys_iff DtwinStore_ok_def)
  obtain out st2 where rd: "DtwinStore_readFromStore stn now ?st = (out, st2)"
    by (cases "DtwinStore_readFromStore stn now ?st")
  have "dt_n_objects ?st = int (length (dt_object_timestamp ?st))"
    using assms(2) by (simp add: DtwinStore_checkObjectExpiry_def Let_def)
  then show ?thesis
    using fold_read_object [OF ok rd [unfolded DtwinStore_readFromStore_def]] i gone
    by (auto simp: rd new_ObjectList_def dflt_def intro!: exI [of _ i])
qed

theorem DtwinStore_expired_object_still_listed_witness:
  "\<exists>i < 2. ol_object_id (fst (DtwinStore_readFromStore
       \<lparr>st_fullName = ''rsu'', st_detectorStationType = ''rsu'', st_position = \<lparr>cx = 0, cy = 0, cz = 0\<rparr>\<rparr> 10
       (DtwinStore_checkObjectExpiry 10 aged_store))) ! i = ''a''"
proof -
  have "0 < dt_n_objects aged_store" "''a'' \<in> set (dt_object_id aged_store)"
      "map_of (dt_object_timestamp aged_store) ''a'' = Some 2"
      "expired (to_u64 10) (to_u64 (dt_object_max_age aged_store)) 2"
      "length (dt_object_id aged_store) = 2"
    by (simp_all add: aged_store_def expired_def to_u64_def)
  from DtwinStore_expired_object_still_listed [OF aged_store_ok this(1-4)] this(5)
  show ?thesis by (auto simp: Let_def)
qed

text \<open>
  Whatever sequence of messages, expiry checks, reads and address updates the store goes
  through, its containers stay well-formed and no object id ever leaves it.
\<close>

theorem DtwinStore_ids_never_removed:
  assumes "(dtwin_step K)\<^sup>*\<^sup>* (DtwinStore_initialize K par now q) st" and "(dtwin_step K)\<^sup>*\<^sup>* st st'"
  shows "DtwinStore_ok st' \<and> set (DtwinStore_readIDs st) \<subseteq> set (DtwinStore_readIDs st')"
  using dtwin_steps_ok [OF assms(1) DtwinStore_initialize_ok] dtwin_steps_ok [OF assms(2)]
  by (simp add: DtwinStore_readIDs_def)

theorem DtwinStore_ids_never_removed_witness:
  "DtwinStore_ok (DtwinStore_updateObjectTypeAndAddress ''x'' ''v2v'' 3 sample_store) \<and>
   set (DtwinStore_readIDs sample_store) \<subseteq>
   set (DtwinStore_readIDs (DtwinStore_updateObjectTypeAndAddress ''x'' ''v2v'' 3 sample_store))"
  unfolding sample_store_def
  by (rule DtwinStore_ids_never_removed
      [OF rtranclp.rtrancl_refl [where r = "dtwin_step fes_kernel"] r_into_rtranclp [where r = "dtwin_step fes_kernel", OF dtwin_step.address]])

end
