(* ===== verification/Subscriber_Store.thy ===== *)
theory Subscriber_Store
  imports Dtwin_Store
begin

text \<open>
  \<^verbatim>\<open>stores/SubscriberStore\<close>: the subscriptions a station knows, at most one per
  subscriber, replaced by strictly younger ones and expired periodically.  An update first
  writes the subscriber's type and address into the station's digital-twin store, so the
  operations act on the pair of the two stores.
\<close>

section \<open>State and operations\<close>

record 'q subscriber_store =
  subscriber_record :: "Subscription list"
  sst_queue :: 'q

record subscriber_store_par =
  subscriberCheckInterval :: simtime
  subscriberMaxAge :: simtime

definition SubscriberStore_initialize ::
  "'q kernel \<Rightarrow> subscriber_store_par \<Rightarrow> simtime \<Rightarrow> 'q \<Rightarrow> 'q subscriber_store" where
  "SubscriberStore_initialize K par now q =
     \<lparr>subscriber_record = [],
      sst_queue = k_scheduleAt K (now + subscriberCheckInterval par) ''subscriberExpiryCheck'' q\<rparr>"

definition subscription_of :: "DtwinSub \<Rightarrow> Subscription" where
  "subscription_of msg = \<lparr>s_name = ds_subscriber_id msg, s_id = ds_subscriber_address msg,
     s_roi = ds_roi_tag msg, s_qos = ds_qos_tag msg, s_timestamp = ds_timestamp msg\<rparr>"

definition put_subscription :: "Subscription \<Rightarrow> Subscription list \<Rightarrow> Subscription list" where
  "put_subscription subscriber rec =
     upsert (\<lambda>val. s_name val = s_name subscriber)
       (\<lambda>it. if s_timestamp it < s_timestamp subscriber then subscriber else it) subscriber rec"

definition SubscriberStore_updateSubscriberList ::
  "DtwinSub \<Rightarrow> 'q subscriber_store \<times> 'q dtwin_store \<Rightarrow> 'q subscriber_store \<times> 'q dtwin_store" where
  "SubscriberStore_updateSubscriberList msg = (\<lambda>(st, dtwin).
     let dtwin = DtwinStore_updateObjectTypeAndAddress (ds_subscriber_id msg)
                   (ds_subscriber_type msg) (ds_subscriber_address msg) dtwin
     in (st\<lparr>subscriber_record := put_subscription (subscription_of msg) (subscriber_record st)\<rparr>,
         dtwin))"

definition SubscriberStore_checkSubscriberExpiry ::
  "subscriber_store_par \<Rightarrow> simtime \<Rightarrow> 'q subscriber_store \<Rightarrow> 'q subscriber_store" where
  "SubscriberStore_checkSubscriberExpiry par now st =
     st\<lparr>subscriber_record :=
        erase_if (\<lambda>val. expired (to_u64 now) (to_u64 (subscriberMaxAge par)) (s_timestamp val))
          (subscriber_record st)\<rparr>"

definition SubscriberStore_readSubscriptions :: "'q subscriber_store \<Rightarrow> Subscription list" where
  "SubscriberStore_readSubscriptions st = subscriber_record st"

definition SubscriberStore_handleMessage ::
  "'q kernel \<Rightarrow> subscriber_store_par \<Rightarrow> simtime \<Rightarrow> app_msg in_msg
    \<Rightarrow> 'q subscriber_store \<times> 'q dtwin_store \<Rightarrow> ('q subscriber_store \<times> 'q dtwin_store) res" where
  "SubscriberStore_handleMessage K par now msg = (\<lambda>(st, dtwin).
     case msg of
        SelfMsg ev \<Rightarrow>
          (if ev = ''subscriberExpiryCheck''
           then (let st' = SubscriberStore_checkSubscriberExpiry par now st
                 in Inr (st'\<lparr>sst_queue := k_scheduleAt K (now + subscriberCheckInterval par)
                           ''subscriberExpiryCheck'' (sst_queue st')\<rparr>, dtwin))
           else Inr (st, dtwin))
      | ExtMsg gate m \<Rightarrow>
          (if gate = ''in''
           then (case m of MDtwinSub s \<Rightarrow> Inr (SubscriberStore_updateSubscriberList s (st, dtwin))
                 | _ \<Rightarrow> Inl CastError)
           else Inr (st, dtwin)))"

section \<open>The store keeps the freshest subscription per subscriber\<close>

interpretation sstore: freshness_store s_name s_timestamp put_subscription "\<lambda>rec. rec"
proof unfold_locales
  fix rec :: "Subscription list" and e :: Subscription and k :: string
  show "distinct (map s_name rec) \<Longrightarrow> distinct (map s_name (put_subscription e rec))"
    unfolding put_subscription_def by (rule distinct_upsert) simp_all
  show "lookup_by s_name k (put_subscription e rec) =
      (if k = s_name e then fresher s_timestamp e (lookup_by s_name k rec)
       else lookup_by s_name k rec)"
    unfolding put_subscription_def
    by (subst lookup_upsert) (auto simp: fresher_def split: option.splits)
qed

lemma subscriber_updates_record:
  "subscriber_record (fst (fold SubscriberStore_updateSubscriberList msgs (st, dtwin))) =
     fold put_subscription (map subscription_of msgs) (subscriber_record st)"
  by (induction msgs arbitrary: st dtwin) (simp_all add: SubscriberStore_updateSubscriberList_def)

lemma subscriber_updates_dtwin:
  "snd (fold SubscriberStore_updateSubscriberList msgs (st, dtwin)) =
     fold (\<lambda>m. DtwinStore_updateObjectTypeAndAddress (ds_subscriber_id m) (ds_subscriber_type m)
            (ds_subscriber_address m)) msgs dtwin"
  by (induction msgs arbitrary: st dtwin) (simp_all add: SubscriberStore_updateSubscriberList_def)

lemma address_updates_ids [simp]:
  "dt_object_id (DtwinStore_updateObjectTypeAndAddress k ty a dtwin) = dt_object_id dtwin"
  by (simp add: DtwinStore_updateObjectTypeAndAddress_def)

lemma address_updates_map:
  assumes "smap_ok (dt_object_address dtwin)"
  shows "smap_ok (dt_object_address (DtwinStore_updateObjectTypeAndAddress k ty a dtwin)) \<and>
    map_of (dt_object_address (DtwinStore_updateObjectTypeAndAddress k ty a dtwin)) =
      (if k \<in> set (dt_object_id dtwin) then (map_of (dt_object_address dtwin))(k \<mapsto> a)
       else map_of (dt_object_address dtwin))"
  using assms by (simp add: DtwinStore_updateObjectTypeAndAddress_def smap_ok_upd map_of_smap_upd)

text \<open>
  The twin store is written on arrival, whatever the timestamps: the address of a known object
  is that of the last subscription to arrive.
\<close>

lemma address_updates_last:
  "smap_ok (dt_object_address dtwin) \<Longrightarrow> k \<in> set (dt_object_id dtwin) \<Longrightarrow>
   map_of (dt_object_address (fold (\<lambda>m. DtwinStore_updateObjectTypeAndAddress (ds_subscriber_id m)
       (ds_subscriber_type m) (ds_subscriber_address m)) msgs dtwin)) k =
     (case find (\<lambda>m. ds_subscriber_id m = k) (rev msgs) of
        Some m \<Rightarrow> Some (ds_subscriber_address m) | None \<Rightarrow> map_of (dt_object_address dtwin) k)"
proof (induction msgs arbitrary: dtwin)
  case (Cons m msgs)
  let ?d = "DtwinStore_updateObjectTypeAndAddress (ds_subscriber_id m) (ds_subscriber_type m)
      (ds_subscriber_address m) dtwin"
  note address_updates_map [OF Cons.prems(1), of "ds_subscriber_id m" "ds_subscriber_type m"
      "ds_subscriber_address m"]
  then show ?case
    using Cons.prems Cons.IH [of ?d] by (auto simp: find_append split: option.splits)
qed simp

section \<open>Properties\<close>

text \<open>
  After any interleaving of subscription messages, the store holds for each subscriber the
  first of its messages with the largest timestamp, and none for a station that never
  subscribed.
\<close>

theorem SubscriberStore_keeps_freshest:
  "lookup_by s_name k (SubscriberStore_readSubscriptions
     (fst (fold SubscriberStore_updateSubscriberList msgs
        (SubscriberStore_initialize K par now q, dtwin)))) =
   freshest s_name s_timestamp k (map subscription_of msgs)"
  by (simp add: SubscriberStore_readSubscriptions_def subscriber_updates_record
      SubscriberStore_initialize_def sstore.puts_from_empty)

text \<open>
  The address a station's digital-twin store holds for a known object is that of the last
  subscription to arrive from it, even when an earlier one carried the larger timestamp: on
  out-of-order delivery the two stores disagree.
\<close>

theorem SubscriberStore_twin_address_last_arrival:
  assumes "DtwinStore_ok dtwin" and "k \<in> set (dt_object_id dtwin)"
  shows "map_of (dt_object_address
       (snd (fold SubscriberStore_updateSubscriberList msgs (st, dtwin)))) k =
     (case find (\<lambda>m. ds_subscriber_id m = k) (rev msgs) of
        Some m \<Rightarrow> Some (ds_subscriber_address m) | None \<Rightarrow> map_of (dt_object_address dtwin) k)"
  using assms by (simp add: subscriber_updates_dtwin address_updates_last DtwinStore_ok_def)

theorem SubscriberStore_twin_address_last_arrival_witness:
  "let msgs = [new_DtwinSub\<lparr>ds_subscriber_id := ''a'', ds_subscriber_address := 9, ds_timestamp := 8\<rparr>,
               new_DtwinSub\<lparr>ds_subscriber_id := ''a'', ds_subscriber_address := 4, ds_timestamp := 7\<rparr>];
       (subs, dtwin) = fold SubscriberStore_updateSubscriberList msgs
         (\<lparr>subscriber_record = [], sst_queue = ()\<rparr>, aged_store)
   in map_of (dt_object_address dtwin) ''a'' = Some 4 \<and>
      map_option s_id (lookup_by s_name ''a'' (subscriber_record subs)) = Some 9"
  using SubscriberStore_twin_address_last_arrival [OF aged_store_ok, of "''a''"
      "[new_DtwinSub\<lparr>ds_subscriber_id := ''a'', ds_subscriber_address := 9, ds_timestamp := 8\<rparr>,
        new_DtwinSub\<lparr>ds_subscriber_id := ''a'', ds_subscriber_address := 4, ds_timestamp := 7\<rparr>]"
      "\<lparr>subscriber_record = [], sst_queue = ()\<rparr>"]
  by (simp add: split_def subscriber_updates_record put_subscription_def upsert_def
      subscription_of_def) (simp add: aged_store_def)

end
