(* ===== verification/Publish_Subscribe.thy ===== *)
theory Publish_Subscribe
  imports Subscriber_Store
begin

text \<open>
  \<^verbatim>\<open>apps/Publisher\<close> and \<^verbatim>\<open>apps/Subscriber\<close>: the applications that hand the digital twin to the
  routing control and ask for the twins of others.  A publisher's update reads the
  \<^verbatim>\<open>DtwinStore\<close>, which its handler therefore threads.
\<close>

section \<open>Publisher\<close>

record 'q Publisher =
  pu_queue :: 'q

definition Publisher_initialize :: "'q kernel \<Rightarrow> app_times \<Rightarrow> simtime \<Rightarrow> 'q \<Rightarrow> 'q Publisher" where
  "Publisher_initialize K tm now q =
     \<lparr>pu_queue = schedule_start K now (at_start tm) (at_stop tm) q\<rparr>"

definition Publisher_readDtwin ::
  "station \<Rightarrow> simtime \<Rightarrow> 'q dtwin_store \<Rightarrow> ObjectList \<times> 'q dtwin_store" where
  "Publisher_readDtwin stn now st = DtwinStore_readFromStore stn now st"

definition Publisher_sendDtwinMessage :: "ObjectList \<Rightarrow> out_msg list" where
  "Publisher_sendDtwinMessage dtwin_message =
     (if 0 < ol_n_objects dtwin_message then [(MObjectList dtwin_message, ''out'')] else [])"

definition Publisher_handleMessage ::
  "'q kernel \<Rightarrow> app_times \<Rightarrow> station \<Rightarrow> simtime \<Rightarrow> app_msg in_msg \<Rightarrow> 'q Publisher \<times> 'q dtwin_store
    \<Rightarrow> ('q Publisher \<times> 'q dtwin_store) \<times> out_msg list" where
  "Publisher_handleMessage K tm stn now msg = (\<lambda>(pu, st).
     let ((pu, st), out) =
           (case msg of
              SelfMsg ev \<Rightarrow>
                (let (st, out) =
                       (if ev = ''startEvent'' then (st, [])
                        else if ev = ''updateEvent''
                        then (let (dtwin_message, st) = Publisher_readDtwin stn now st
                              in (st, Publisher_sendDtwinMessage dtwin_message))
                        else (st, []))
                 in ((pu\<lparr>pu_queue := schedule_update K now (at_rate tm) (pu_queue pu)\<rparr>, st), out))
            | ExtMsg gate m \<Rightarrow>
                ((pu, st), if gate = ''in'' then [(m, ''outSubscriberStore'')] else []))
     in ((pu\<lparr>pu_queue := stop_check K now (at_stop tm) (pu_queue pu)\<rparr>, st), out))"

definition Publisher_tick ::
  "'q kernel \<Rightarrow> app_times \<Rightarrow> station \<Rightarrow> simtime \<Rightarrow> 'q Publisher \<times> 'q dtwin_store
    \<Rightarrow> ('q Publisher \<times> 'q dtwin_store) \<times> out_msg list" where
  "Publisher_tick K tm stn now = (\<lambda>(pu, st). Publisher_handleMessage K tm stn now (SelfMsg ''updateEvent'')
     (pu\<lparr>pu_queue := k_deliver K ''updateEvent'' (pu_queue pu)\<rparr>, st))"

section \<open>Subscriber\<close>

record 'q Subscriber =
  su_subscriber_id :: string
  su_roi_tag :: string
  su_qos_tag :: string
  su_subscriber_type :: string
  su_queue :: 'q

record subscriber_par =
  sp_subscriberID :: string
  sp_roiTag :: string
  sp_qosTag :: string
  sp_subscriberType :: string
  sp_times :: app_times

definition Subscriber_initialize ::
  "'q kernel \<Rightarrow> subscriber_par \<Rightarrow> simtime \<Rightarrow> 'q \<Rightarrow> 'q Subscriber" where
  "Subscriber_initialize K par now q =
     \<lparr>su_subscriber_id = sp_subscriberID par, su_roi_tag = sp_roiTag par, su_qos_tag = sp_qosTag par,
      su_subscriber_type = sp_subscriberType par,
      su_queue = schedule_start K now (at_start (sp_times par)) (at_stop (sp_times par)) q\<rparr>"

definition Subscriber_updateSubscriberID :: "string \<Rightarrow> 'q Subscriber \<Rightarrow> 'q Subscriber" where
  "Subscriber_updateSubscriberID subscriber_id su = su\<lparr>su_subscriber_id := subscriber_id\<rparr>"

definition Subscriber_updateROI :: "string \<Rightarrow> 'q Subscriber \<Rightarrow> 'q Subscriber" where
  "Subscriber_updateROI roi_tag su = su\<lparr>su_roi_tag := roi_tag\<rparr>"

definition Subscriber_updateQOS :: "string \<Rightarrow> 'q Subscriber \<Rightarrow> 'q Subscriber" where
  "Subscriber_updateQOS qos_tag su = su\<lparr>su_qos_tag := qos_tag\<rparr>"

definition Subscriber_sendDtwinSubscriptionMessage :: "simtime \<Rightarrow> 'q Subscriber \<Rightarrow> out_msg" where
  "Subscriber_sendDtwinSubscriptionMessage now su =
     (MDtwinSub (new_DtwinSub\<lparr>ds_timestamp := to_u64 now, ds_subscriber_id := su_subscriber_id su,
        ds_roi_tag := su_roi_tag su, ds_qos_tag := su_qos_tag su,
        ds_subscriber_type := su_subscriber_type su\<rparr>), ''out_sub'')"

definition Subscriber_receiveDtwinMessage :: "ObjectList \<Rightarrow> out_msg" where
  "Subscriber_receiveDtwinMessage dtwin_message = (MObjectList dtwin_message, ''out_dtwin'')"

definition Subscriber_handleMessage ::
  "'q kernel \<Rightarrow> app_times \<Rightarrow> station \<Rightarrow> simtime \<Rightarrow> app_msg in_msg \<Rightarrow> 'q Subscriber
    \<Rightarrow> ('q Subscriber \<times> out_msg list) res" where
  "Subscriber_handleMessage K tm stn now msg su =
     (let su = Subscriber_updateSubscriberID (st_fullName stn) su
      in rbind (case msg of
             SelfMsg ev \<Rightarrow>
               (let out = (if ev = ''startEvent'' then []
                           else if ev = ''updateEvent''
                           then [Subscriber_sendDtwinSubscriptionMessage now su] else [])
                in Inr (su\<lparr>su_queue := schedule_update K now (at_rate tm) (su_queue su)\<rparr>, out))
           | ExtMsg gate m \<Rightarrow>
               (case m of
                  MObjectList dtwin_message \<Rightarrow> Inr (su, [Subscriber_receiveDtwinMessage dtwin_message])
                | _ \<Rightarrow> Inl CastError))
         (\<lambda>(su, out). Inr (su\<lparr>su_queue := stop_check K now (at_stop tm) (su_queue su)\<rparr>, out)))"

definition Subscriber_tick ::
  "'q kernel \<Rightarrow> app_times \<Rightarrow> station \<Rightarrow> simtime \<Rightarrow> 'q Subscriber \<Rightarrow> ('q Subscriber \<times> out_msg list) res" where
  "Subscriber_tick K tm stn now su = Subscriber_handleMessage K tm stn now (SelfMsg ''updateEvent'')
     (su\<lparr>su_queue := k_deliver K ''updateEvent'' (su_queue su)\<rparr>)"

section \<open>Updates\<close>

lemma Publisher_tick_eq:
  "Publisher_tick K tm stn now (pu, st) =
     (let (ol, st') = DtwinStore_readFromStore stn now st
      in ((pu\<lparr>pu_queue := stop_check K now (at_stop tm) (schedule_update K now (at_rate tm)
             (k_deliver K ''updateEvent'' (pu_queue pu)))\<rparr>, st'),
          if 0 < ol_n_objects ol then [(MObjectList ol, ''out'')] else []))"
  by (simp add: Publisher_tick_def Publisher_handleMessage_def Publisher_readDtwin_def
      Publisher_sendDtwinMessage_def Let_def split_def)

lemma Subscriber_tick_eq:
  "Subscriber_tick K tm stn now su =
     Inr (su\<lparr>su_subscriber_id := st_fullName stn, su_queue := stop_check K now (at_stop tm)
            (schedule_update K now (at_rate tm) (k_deliver K ''updateEvent'' (su_queue su)))\<rparr>,
          [(MDtwinSub (new_DtwinSub\<lparr>ds_timestamp := to_u64 now, ds_subscriber_id := st_fullName stn,
              ds_roi_tag := su_roi_tag su, ds_qos_tag := su_qos_tag su,
              ds_subscriber_type := su_subscriber_type su\<rparr>), ''out_sub'')])"
  by (simp add: Subscriber_tick_def Subscriber_handleMessage_def Subscriber_updateSubscriberID_def
      Subscriber_sendDtwinSubscriptionMessage_def Let_def)

interpretation publisher: periodic_app fes_kernel
    "\<lambda>now s. fst (Publisher_tick fes_kernel tm stn now s)" "\<lambda>s. pu_queue (fst s)"
    "at_rate tm" "at_stop tm" for tm stn
  by unfold_locales (auto simp: Publisher_tick_eq Let_def split_def)

interpretation subscriber: periodic_app fes_kernel
    "\<lambda>now su. fst (projr (Subscriber_tick fes_kernel tm stn now su))" su_queue
    "at_rate tm" "at_stop tm" for tm stn
  by unfold_locales (simp add: Subscriber_tick_eq)

end
