(* ===== verification/Localizer_App.thy ===== *)
theory Localizer_App
  imports Dtwin_Store
begin

text \<open>
  \<^verbatim>\<open>apps/Localizer\<close>: the state machine \<open>STATE_INIT\<close>, \<open>STATE_LOCALIZING\<close>,
  \<open>STATE_LOCALIZED\<close> by which a station finds itself in the digital twin.  Its reads of the
  \<^verbatim>\<open>DtwinStore\<close> create missing entries, so every operation acts on the pair of localizer
  and store.
\<close>

datatype LocalizationState = STATE_INIT | STATE_LOCALIZING | STATE_LOCALIZED

datatype LocalizationStrategy = STRATEGY_VISUAL_CUES

record 'q Localizer =
  lz_init_time :: simtime
  lz_min_duration_localization :: real
  lz_localization_strategy :: LocalizationStrategy
  lz_state :: LocalizationState
  lz_ego_id :: string
  lz_ego_type :: string
  lz_ego_timestamp :: u64
  lz_ego_position_x :: real
  lz_ego_position_y :: real
  lz_ego_position_z :: real
  lz_ego_heading :: real
  lz_queue :: 'q

text \<open>
  Parameters.  The start, stop and update times, which \<open>initialize\<close> copies into members that
  nothing changes, stay parameters.  \<^verbatim>\<open>strategyLocalization\<close> has one legal value.
\<close>

record localizer_par =
  lp_stationType :: string
  lp_times :: app_times
  lp_minDurationLocalization :: real

definition Localizer_initialize ::
  "'q kernel \<Rightarrow> localizer_par \<Rightarrow> simtime \<Rightarrow> 'q \<Rightarrow> 'q Localizer" where
  "Localizer_initialize K par now q =
     \<lparr>lz_init_time = 0,
      lz_min_duration_localization = lp_minDurationLocalization par,
      lz_localization_strategy = STRATEGY_VISUAL_CUES, lz_state = STATE_INIT,
      lz_ego_id = '''', lz_ego_type = '''', lz_ego_timestamp = 0, lz_ego_position_x = 0,
      lz_ego_position_y = 0, lz_ego_position_z = 0, lz_ego_heading = 0,
      lz_queue = schedule_start K now (at_start (lp_times par)) (at_stop (lp_times par)) q\<rparr>"

definition Localizer_isLocalized :: "'q Localizer \<Rightarrow> bool" where
  "Localizer_isLocalized lz \<longleftrightarrow> lz_state lz = STATE_LOCALIZED"

text \<open>Taking over the ego state: a vehicle from the twin, any other station from its mobility.\<close>

definition Localizer_readCurrentLocation ::
  "localizer_par \<Rightarrow> station \<Rightarrow> simtime \<Rightarrow> 'q Localizer \<times> 'q dtwin_store
    \<Rightarrow> 'q Localizer \<times> 'q dtwin_store" where
  "Localizer_readCurrentLocation par stn now = (\<lambda>(lz, st).
     if lp_stationType par = ''vehicle''
     then (let (ty, st) = DtwinStore_readType (lz_ego_id lz) st;
               (x, st) = DtwinStore_readPositionX (lz_ego_id lz) st;
               (y, st) = DtwinStore_readPositionY (lz_ego_id lz) st;
               (z, st) = DtwinStore_readPositionZ (lz_ego_id lz) st;
               (h, st) = DtwinStore_readHeading (lz_ego_id lz) st;
               (ts, st) = DtwinStore_readTimestamp (lz_ego_id lz) st
           in (lz\<lparr>lz_ego_type := ty, lz_ego_position_x := x, lz_ego_position_y := y,
                  lz_ego_position_z := z, lz_ego_heading := h, lz_ego_timestamp := ts\<rparr>, st))
     else (lz\<lparr>lz_ego_type := ''rsu'', lz_ego_position_x := cx (st_position stn),
              lz_ego_position_y := cy (st_position stn), lz_ego_position_z := cz (st_position stn),
              lz_ego_heading := 0, lz_ego_timestamp := to_u64 now\<rparr>, st))"

definition localizationStrategyVisualCues :: "station \<Rightarrow> string sset \<Rightarrow> string" where
  "localizationStrategyVisualCues stn object_ids = st_fullName stn"

definition executeLocalizationStrategy ::
  "station \<Rightarrow> 'q Localizer \<times> 'q dtwin_store \<Rightarrow> 'q Localizer \<times> 'q dtwin_store" where
  "executeLocalizationStrategy stn = (\<lambda>(lz, st).
     case lz_localization_strategy lz of
       STRATEGY_VISUAL_CUES \<Rightarrow>
         (lz\<lparr>lz_ego_id := localizationStrategyVisualCues stn (DtwinStore_readIDs st)\<rparr>, st))"

definition Localizer_egoStateUpdate ::
  "localizer_par \<Rightarrow> station \<Rightarrow> simtime \<Rightarrow> 'q Localizer \<times> 'q dtwin_store
    \<Rightarrow> 'q Localizer \<times> 'q dtwin_store" where
  "Localizer_egoStateUpdate par stn now = (\<lambda>(lz, st).
     case lz_state lz of
       STATE_INIT \<Rightarrow> (lz, st)
     | STATE_LOCALIZING \<Rightarrow> (lz, st)
     | STATE_LOCALIZED \<Rightarrow> Localizer_readCurrentLocation par stn now (lz, st))"

definition Localizer_localizationStateUpdate ::
  "localizer_par \<Rightarrow> station \<Rightarrow> simtime \<Rightarrow> 'q Localizer \<times> 'q dtwin_store
    \<Rightarrow> 'q Localizer \<times> 'q dtwin_store" where
  "Localizer_localizationStateUpdate par stn now = (\<lambda>(lz, st).
     case lz_state lz of
       STATE_INIT \<Rightarrow> (lz\<lparr>lz_state := STATE_LOCALIZING\<rparr>, st)
     | STATE_LOCALIZING \<Rightarrow>
         (let (lz, st) = executeLocalizationStrategy stn (lz, st)
          in if lz_min_duration_localization lz \<le> dbl (now - lz_init_time lz) \<and> lz_ego_id lz \<noteq> ''NULL''
             then (let (lz, st) = Localizer_readCurrentLocation par stn now (lz, st)
                   in (lz\<lparr>lz_state := STATE_LOCALIZED\<rparr>, st))
             else (lz, st))
     | STATE_LOCALIZED \<Rightarrow> (lz, st))"

definition Localizer_handleMessage ::
  "'q kernel \<Rightarrow> localizer_par \<Rightarrow> station \<Rightarrow> simtime \<Rightarrow> app_msg in_msg \<Rightarrow> 'q Localizer \<times> 'q dtwin_store
    \<Rightarrow> 'q Localizer \<times> 'q dtwin_store" where
  "Localizer_handleMessage K par stn now msg = (\<lambda>(lz, st).
     let (lz, st) =
           (case msg of
              SelfMsg ev \<Rightarrow>
                (let (lz, st) = (if ev = ''startEvent'' then (lz\<lparr>lz_init_time := now\<rparr>, st)
                                 else if ev = ''updateEvent''
                                 then Localizer_egoStateUpdate par stn now (lz, st)
                                 else (lz, st));
                     (lz, st) = Localizer_localizationStateUpdate par stn now (lz, st)
                 in (lz\<lparr>lz_queue := schedule_update K now (at_rate (lp_times par)) (lz_queue lz)\<rparr>, st))
            | ExtMsg gate m \<Rightarrow> (lz, st))
     in (lz\<lparr>lz_queue := stop_check K now (at_stop (lp_times par)) (lz_queue lz)\<rparr>, st))"

text \<open>The kernel delivers the update event: it leaves the event set, then the handler runs.\<close>

definition Localizer_tick ::
  "'q kernel \<Rightarrow> localizer_par \<Rightarrow> station \<Rightarrow> simtime \<Rightarrow> 'q Localizer \<times> 'q dtwin_store
    \<Rightarrow> 'q Localizer \<times> 'q dtwin_store" where
  "Localizer_tick K par stn now = (\<lambda>(lz, st). Localizer_handleMessage K par stn now (SelfMsg ''updateEvent'')
     (lz\<lparr>lz_queue := k_deliver K ''updateEvent'' (lz_queue lz)\<rparr>, st))"


section \<open>Timing\<close>

lemma readCurrentLocation_frame [simp]:
  "lz_queue (fst (Localizer_readCurrentLocation par stn now s)) = lz_queue (fst s)"
  "lz_state (fst (Localizer_readCurrentLocation par stn now s)) = lz_state (fst s)"
  "lz_init_time (fst (Localizer_readCurrentLocation par stn now s)) = lz_init_time (fst s)"
  "lz_min_duration_localization (fst (Localizer_readCurrentLocation par stn now s)) =
     lz_min_duration_localization (fst s)"
  by (simp_all add: Localizer_readCurrentLocation_def Let_def split_def)

lemma executeLocalizationStrategy_eq [simp]:
  "executeLocalizationStrategy stn (lz, st) = (lz\<lparr>lz_ego_id := st_fullName stn\<rparr>, st)"
  by (simp add: executeLocalizationStrategy_def localizationStrategyVisualCues_def
      split: LocalizationStrategy.splits)

lemma egoStateUpdate_frame [simp]:
  "lz_queue (fst (Localizer_egoStateUpdate par stn now s)) = lz_queue (fst s)"
  "lz_state (fst (Localizer_egoStateUpdate par stn now s)) = lz_state (fst s)"
  "lz_init_time (fst (Localizer_egoStateUpdate par stn now s)) = lz_init_time (fst s)"
  "lz_min_duration_localization (fst (Localizer_egoStateUpdate par stn now s)) =
     lz_min_duration_localization (fst s)"
  by (cases s; simp add: Localizer_egoStateUpdate_def split: LocalizationState.splits)+

lemma localizationStateUpdate_frame [simp]:
  "lz_queue (fst (Localizer_localizationStateUpdate par stn now s)) = lz_queue (fst s)"
  "lz_init_time (fst (Localizer_localizationStateUpdate par stn now s)) = lz_init_time (fst s)"
  "lz_min_duration_localization (fst (Localizer_localizationStateUpdate par stn now s)) =
     lz_min_duration_localization (fst s)"
  by (cases s; simp add: Localizer_localizationStateUpdate_def Let_def split_def
      split: LocalizationState.splits)+

text \<open>The transition function of the state machine.\<close>

definition next_state :: "bool \<Rightarrow> LocalizationState \<Rightarrow> LocalizationState" where
  "next_state due s = (case s of STATE_INIT \<Rightarrow> STATE_LOCALIZING
     | STATE_LOCALIZING \<Rightarrow> if due then STATE_LOCALIZED else STATE_LOCALIZING
     | STATE_LOCALIZED \<Rightarrow> STATE_LOCALIZED)"

definition localization_due :: "station \<Rightarrow> simtime \<Rightarrow> 'q Localizer \<Rightarrow> bool" where
  "localization_due stn now lz \<longleftrightarrow>
     lz_min_duration_localization lz \<le> dbl (now - lz_init_time lz) \<and> st_fullName stn \<noteq> ''NULL''"

lemma localizationStateUpdate_state:
  "lz_state (fst (Localizer_localizationStateUpdate par stn now s)) =
     next_state (localization_due stn now (fst s)) (lz_state (fst s))"
  by (cases s) (simp add: Localizer_localizationStateUpdate_def Let_def split_def next_state_def
      localization_due_def split: LocalizationState.splits)

lemma tick_frame [simp]:
  "lz_init_time (fst (Localizer_tick K par stn now s)) = lz_init_time (fst s)"
  "lz_min_duration_localization (fst (Localizer_tick K par stn now s)) =
     lz_min_duration_localization (fst s)"
  "lz_queue (fst (Localizer_tick K par stn now s)) = stop_check K now (at_stop (lp_times par))
     (schedule_update K now (at_rate (lp_times par)) (k_deliver K ''updateEvent'' (lz_queue (fst s))))"
  by (simp_all add: Localizer_tick_def Localizer_handleMessage_def Let_def split_def)

lemma localization_due_queue [simp]:
  "localization_due stn now (lz\<lparr>lz_queue := q\<rparr>) = localization_due stn now lz"
  by (simp add: localization_due_def)

lemma localization_due_cong:
  "lz_init_time lz' = lz_init_time lz \<Longrightarrow>
   lz_min_duration_localization lz' = lz_min_duration_localization lz \<Longrightarrow>
   localization_due stn now lz' = localization_due stn now lz"
  by (simp add: localization_due_def)

lemma tick_due [simp]:
  "localization_due stn' t (fst (Localizer_tick K par stn now s)) = localization_due stn' t (fst s)"
  by (rule localization_due_cong) simp_all

lemma tick_state:
  "lz_state (fst (Localizer_tick K par stn now s)) =
     next_state (localization_due stn now (fst s)) (lz_state (fst s))"
  by (simp add: Localizer_tick_def Localizer_handleMessage_def Let_def split_def
      localizationStateUpdate_state localization_due_def)

interpretation localizer: periodic_app fes_kernel "Localizer_tick fes_kernel par stn" "\<lambda>s. lz_queue (fst s)"
    "at_rate (lp_times par)" "at_stop (lp_times par)" for par stn
  by unfold_locales simp

lemma localizer_periodic:
  "event_kernel K \<Longrightarrow> periodic_app K (Localizer_tick K par stn) (\<lambda>s. lz_queue (fst s))
     (at_rate (lp_times par)) (at_stop (lp_times par))"
  by (simp add: periodic_app_def periodic_app_axioms_def)

section \<open>When and where a station is localised\<close>

lemma next_state_localized [simp]: "next_state due STATE_LOCALIZED = STATE_LOCALIZED"
  by (simp add: next_state_def)

lemma ticks_stay_localized:
  "lz_state (fst s) = STATE_LOCALIZED \<Longrightarrow>
     lz_state (fst (fold (Localizer_tick K par stn) ts s)) = STATE_LOCALIZED"
  by (induction ts arbitrary: s) (simp_all add: tick_state)

lemma ticks_localize:
  assumes "lz_state (fst s) = STATE_LOCALIZING"
  shows "Localizer_isLocalized (fst (fold (Localizer_tick K par stn) ts s)) \<longleftrightarrow>
     (\<exists>t \<in> set ts. localization_due stn t (fst s))"
  using assms
proof (induction ts arbitrary: s)
  case Nil
  then show ?case by (simp add: Localizer_isLocalized_def)
next
  case (Cons t ts)
  let ?s = "Localizer_tick K par stn t s"
  show ?case
  proof (cases "localization_due stn t (fst s)")
    case True
    then have "lz_state (fst ?s) = STATE_LOCALIZED"
      using Cons.prems by (simp add: tick_state next_state_def)
    then show ?thesis using True by (simp add: Localizer_isLocalized_def ticks_stay_localized)
  next
    case False
    then have "lz_state (fst ?s) = STATE_LOCALIZING"
      using Cons.prems by (simp add: tick_state next_state_def)
    then show ?thesis
      using False Cons.IH [of ?s] by simp
  qed
qed

lemma start_event:
  fixes stn :: station and now :: simtime and q0 :: 'q and st :: "'q dtwin_store"
  assumes "event_kernel K" and "k_arrival K q ''updateEvent'' = None" and "t0 < at_stop (lp_times par)"
  defines "s \<equiv> Localizer_handleMessage K par stn t0 (SelfMsg ''startEvent'')
     ((Localizer_initialize K par now q0)\<lparr>lz_queue := q\<rparr>, st)"
  shows "lz_state (fst s) = STATE_LOCALIZING" "lz_init_time (fst s) = t0" "snd s = st"
    "lz_min_duration_localization (fst s) = lp_minDurationLocalization par"
    "k_arrival K (lz_queue (fst s)) ''updateEvent'' = Some (t0 + at_rate (lp_times par))"
  using assms event_kernel.arrival_schedule [OF assms(1,2)]
  by (simp_all add: s_def Localizer_handleMessage_def Localizer_initialize_def Let_def split_def
      Localizer_localizationStateUpdate_def stop_check_def schedule_update_def k_isScheduled_def)


definition sample_localizer_par :: localizer_par where
  "sample_localizer_par = \<lparr>lp_stationType = ''vehicle'',
     lp_times = \<lparr>at_start = 2, at_stop = 10, at_rate = 3\<rparr>, lp_minDurationLocalization = 0\<rparr>"

definition sample_station :: station where
  "sample_station = \<lparr>st_fullName = ''car[0]'', st_detectorStationType = ''vehicle'',
     st_position = \<lparr>cx = 50, cy = 7, cz = 0\<rparr>\<rparr>"

lemma sample_localizer_simps [simp]:
  "at_rate (lp_times sample_localizer_par) = 3" "at_stop (lp_times sample_localizer_par) = 10"
  "lp_minDurationLocalization sample_localizer_par = 0" "lp_stationType sample_localizer_par = ''vehicle''"
  "st_fullName sample_station = ''car[0]''"
  by (simp_all add: sample_localizer_par_def sample_station_def)


text \<open>
  Localisation does not depend on the twin: a vehicle whose own name the twin does not know
  becomes localised as well, at position 0, heading 0, with time stamp 0 and an empty type.
\<close>

theorem Localizer_localises_without_twin:
  assumes "lz_state lz = STATE_LOCALIZING" and "localization_due stn now lz"
    and "lp_stationType par = ''vehicle''" and "DtwinStore_ok st"
    and "dt_kin st (st_fullName stn) = (None, None, None, None, None)"
    and "map_of (dt_object_type st) (st_fullName stn) = None"
  shows "let lz' = fst (Localizer_tick K par stn now (lz, st))
         in Localizer_isLocalized lz' \<and> lz_ego_id lz' = st_fullName stn \<and> lz_ego_type lz' = '''' \<and>
            lz_ego_position_x lz' = 0 \<and> lz_ego_position_y lz' = 0 \<and> lz_ego_position_z lz' = 0 \<and>
            lz_ego_heading lz' = 0 \<and> lz_ego_timestamp lz' = 0"
  using assms
  by (simp add: Localizer_tick_def Localizer_handleMessage_def Localizer_egoStateUpdate_def
      Localizer_localizationStateUpdate_def Localizer_readCurrentLocation_def read_defs Let_def split_def
      localization_due_def Localizer_isLocalized_def dt_kin_def dflt_def)

theorem Localizer_localises_without_twin_witness:
  "lz_ego_position_x (fst (Localizer_tick fes_kernel sample_localizer_par sample_station 9
     ((Localizer_initialize fes_kernel sample_localizer_par 0 Map.empty)\<lparr>lz_state := STATE_LOCALIZING\<rparr>, sample_store))) = 0"
proof -
  have "localization_due sample_station 9
      ((Localizer_initialize fes_kernel sample_localizer_par 0 Map.empty)\<lparr>lz_state := STATE_LOCALIZING\<rparr>)"
    by (simp add: localization_due_def Localizer_initialize_def sample_localizer_par_def dbl_def sample_station_def)
  moreover have "DtwinStore_ok sample_store" unfolding sample_store_def by (rule DtwinStore_initialize_ok)
  moreover have "dt_kin sample_store (st_fullName sample_station) = (None, None, None, None, None)"
      "map_of (dt_object_type sample_store) (st_fullName sample_station) = None"
    by (simp_all add: dt_kin_def sample_store_def DtwinStore_initialize_def)
  ultimately show ?thesis
    using Localizer_localises_without_twin [of "(Localizer_initialize fes_kernel sample_localizer_par 0
        Map.empty)\<lparr>lz_state := STATE_LOCALIZING\<rparr>" sample_station 9 sample_localizer_par sample_store fes_kernel]
    by (simp add: Let_def sample_localizer_par_def)
qed

end
