(* ===== verification/Maneuver_App.thy ===== *)
theory Maneuver_App
  imports Localizer_App
begin

text \<open>
  \<^verbatim>\<open>apps/Maneuver\<close>: a localised vehicle looks for partners of a cooperative maneuver in its
  digital twin and sends each one a message.
\<close>

record 'q Maneuver =
  ma_ego_id :: string
  ma_roi_tag :: string
  ma_qos_tag :: string
  ma_partner_id :: "string list"
  ma_partner_address :: "int list"
  ma_limit_roi_distance :: real
  ma_queue :: 'q

record maneuver_par =
  mp_egoID :: string
  mp_roiTag :: string
  mp_qosTag :: string
  mp_times :: app_times
  mp_limitROINeighborhood :: real
  mp_limitROIDefault :: real
  mp_limitROIHorizon :: real

definition Maneuver_initialize ::
  "'q kernel \<Rightarrow> maneuver_par \<Rightarrow> simtime \<Rightarrow> 'q \<Rightarrow> 'q Maneuver" where
  "Maneuver_initialize K par now q =
     \<lparr>ma_ego_id = mp_egoID par, ma_roi_tag = mp_roiTag par, ma_qos_tag = mp_qosTag par,
      ma_partner_id = [], ma_partner_address = [],
      ma_limit_roi_distance =
        (if mp_roiTag par = ''neighborhood'' then mp_limitROINeighborhood par
         else if mp_roiTag par = ''horizon'' then mp_limitROIHorizon par
         else mp_limitROIDefault par),
      ma_queue = schedule_start K now (at_start (mp_times par)) (at_stop (mp_times par)) q\<rparr>"

definition Maneuver_updateEgoID :: "string \<Rightarrow> 'q Maneuver \<Rightarrow> 'q Maneuver" where
  "Maneuver_updateEgoID ego_id ma = ma\<lparr>ma_ego_id := ego_id\<rparr>"

definition Maneuver_updateROI :: "string \<Rightarrow> 'q Maneuver \<Rightarrow> 'q Maneuver" where
  "Maneuver_updateROI roi_tag ma = ma\<lparr>ma_roi_tag := roi_tag\<rparr>"

definition Maneuver_updateQOS :: "string \<Rightarrow> 'q Maneuver \<Rightarrow> 'q Maneuver" where
  "Maneuver_updateQOS qos_tag ma = ma\<lparr>ma_qos_tag := qos_tag\<rparr>"

text \<open>The test on a candidate: heading, distance, and the type that stands for V2V capability.\<close>

definition is_partner :: "real \<Rightarrow> 'q Localizer \<Rightarrow> string \<Rightarrow> real \<Rightarrow> real \<Rightarrow> real \<Rightarrow> real \<Rightarrow> bool" where
  "is_partner limit lz ty x y z heading \<longleftrightarrow>
     (let distance_x = \<bar>lz_ego_position_x lz - x\<bar>;
          distance_y = \<bar>lz_ego_position_y lz - y\<bar>;
          distance_z = \<bar>lz_ego_position_z lz - z\<bar>;
          distance = sqrt (distance_x\<^sup>2 + distance_y\<^sup>2 + distance_z\<^sup>2)
      in \<bar>lz_ego_heading lz - heading\<bar> < 1.57 \<and> distance \<le> limit \<and> ty = ''v2v'')"

text \<open>One round of the loop over the twin list; the array getters are checked.\<close>

definition consider_candidate ::
  "'q Localizer \<Rightarrow> ObjectList \<Rightarrow> nat \<Rightarrow> 'q Maneuver \<Rightarrow> 'q Maneuver res" where
  "consider_candidate lz ol i ma =
     rbind (vec_at (ol_object_id ol) i) (\<lambda>candidate_id.
       if candidate_id \<noteq> ma_ego_id ma
       then rbind (vec_at (ol_object_type ol) i) (\<lambda>candidate_type.
            rbind (vec_at (ol_object_address ol) i) (\<lambda>candidate_address.
            rbind (vec_at (ol_object_position_x ol) i) (\<lambda>x.
            rbind (vec_at (ol_object_position_y ol) i) (\<lambda>y.
            rbind (vec_at (ol_object_position_z ol) i) (\<lambda>z.
            rbind (vec_at (ol_object_heading ol) i) (\<lambda>heading.
              Inr (if is_partner (ma_limit_roi_distance ma) lz candidate_type x y z heading
                   then ma\<lparr>ma_partner_id := ma_partner_id ma @ [candidate_id],
                           ma_partner_address := ma_partner_address ma @ [candidate_address]\<rparr>
                   else ma)))))))
       else Inr ma)"

fun consider_candidates ::
  "'q Localizer \<Rightarrow> ObjectList \<Rightarrow> nat list \<Rightarrow> 'q Maneuver \<Rightarrow> 'q Maneuver res" where
  "consider_candidates lz ol [] ma = Inr ma"
| "consider_candidates lz ol (i # is) ma =
     rbind (consider_candidate lz ol i ma) (consider_candidates lz ol is)"

definition Maneuver_findCoopManeuverPartner ::
  "station \<Rightarrow> simtime \<Rightarrow> 'q Localizer \<Rightarrow> 'q Maneuver \<times> 'q dtwin_store
    \<Rightarrow> ('q Maneuver \<times> 'q dtwin_store) res" where
  "Maneuver_findCoopManeuverPartner stn now lz = (\<lambda>(ma, st).
     let ma = ma\<lparr>ma_partner_id := [], ma_partner_address := []\<rparr>;
         (dtwin_list, st) = DtwinStore_readFromStore stn now st;
         ma = ma\<lparr>ma_ego_id := lz_ego_id lz\<rparr>
     in rbind (consider_candidates lz dtwin_list [0..<nat (ol_n_objects dtwin_list)] ma)
          (\<lambda>ma. Inr (ma, st)))"

definition coop_message :: "simtime \<Rightarrow> 'q Maneuver \<Rightarrow> nat \<Rightarrow> CoopManeuver res" where
  "coop_message now ma i =
     rbind (vec_at (ma_partner_id ma) i) (\<lambda>partner_id.
     rbind (vec_at (ma_partner_address ma) i) (\<lambda>partner_address.
       Inr (new_CoopManeuver\<lparr>cm_timestamp := to_u64 now, cm_ego_id := ma_ego_id ma,
              cm_partner_id := partner_id, cm_partner_address := partner_address\<rparr>)))"

fun coop_messages :: "simtime \<Rightarrow> 'q Maneuver \<Rightarrow> nat list \<Rightarrow> CoopManeuver list res" where
  "coop_messages now ma [] = Inr []"
| "coop_messages now ma (i # is) =
     rbind (coop_message now ma i) (\<lambda>m. rbind (coop_messages now ma is) (\<lambda>ms. Inr (m # ms)))"

definition Maneuver_createCoopManeuverMessage :: "simtime \<Rightarrow> 'q Maneuver \<Rightarrow> CoopManeuver list res" where
  "Maneuver_createCoopManeuverMessage now ma = coop_messages now ma [0..<length (ma_partner_id ma)]"

definition Maneuver_sendCoopManeuverMessage :: "CoopManeuver list \<Rightarrow> out_msg list" where
  "Maneuver_sendCoopManeuverMessage ms = map (\<lambda>m. (MCoopManeuver m, ''out'')) ms"

definition maneuver_update ::
  "station \<Rightarrow> simtime \<Rightarrow> 'q Localizer \<Rightarrow> 'q Maneuver \<times> 'q dtwin_store
    \<Rightarrow> (('q Maneuver \<times> 'q dtwin_store) \<times> out_msg list) res" where
  "maneuver_update stn now lz s =
     (if Localizer_isLocalized lz
      then rbind (Maneuver_findCoopManeuverPartner stn now lz s) (\<lambda>s.
             rbind (Maneuver_createCoopManeuverMessage now (fst s)) (\<lambda>ms.
               Inr (s, Maneuver_sendCoopManeuverMessage ms)))
      else Inr (s, []))"

definition Maneuver_handleMessage ::
  "'q kernel \<Rightarrow> app_times \<Rightarrow> station \<Rightarrow> simtime \<Rightarrow> 'q Localizer \<Rightarrow> app_msg in_msg
    \<Rightarrow> 'q Maneuver \<times> 'q dtwin_store \<Rightarrow> (('q Maneuver \<times> 'q dtwin_store) \<times> out_msg list) res" where
  "Maneuver_handleMessage K tm stn now lz msg s =
     rbind (case msg of
         SelfMsg ev \<Rightarrow>
           rbind (if ev = ''startEvent'' then Inr (s, [])
                  else if ev = ''updateEvent'' then maneuver_update stn now lz s
                  else Inr (s, []))
             (\<lambda>((ma, st), out).
               Inr ((ma\<lparr>ma_queue := schedule_update K now (at_rate tm) (ma_queue ma)\<rparr>, st), out))
       | ExtMsg gate m \<Rightarrow>
           (if gate = ''in''
            then (case m of MCoopManeuver _ \<Rightarrow> Inr (s, []) | _ \<Rightarrow> Inl CastError)
            else Inr (s, [])))
       (\<lambda>((ma, st), out).
         Inr ((ma\<lparr>ma_queue := stop_check K now (at_stop tm) (ma_queue ma)\<rparr>, st), out))"

definition Maneuver_tick ::
  "'q kernel \<Rightarrow> app_times \<Rightarrow> station \<Rightarrow> simtime \<Rightarrow> 'q Localizer \<Rightarrow> 'q Maneuver \<times> 'q dtwin_store
    \<Rightarrow> (('q Maneuver \<times> 'q dtwin_store) \<times> out_msg list) res" where
  "Maneuver_tick K tm stn now lz = (\<lambda>(ma, st). Maneuver_handleMessage K tm stn now lz (SelfMsg ''updateEvent'')
     (ma\<lparr>ma_queue := k_deliver K ''updateEvent'' (ma_queue ma)\<rparr>, st))"

section \<open>The partners found\<close>

definition partner_at :: "real \<Rightarrow> string \<Rightarrow> 'q Localizer \<Rightarrow> ObjectList \<Rightarrow> nat \<Rightarrow> bool" where
  "partner_at limit ego lz ol i \<longleftrightarrow> ol_object_id ol ! i \<noteq> ego \<and>
     is_partner limit lz (ol_object_type ol ! i) (ol_object_position_x ol ! i)
       (ol_object_position_y ol ! i) (ol_object_position_z ol ! i) (ol_object_heading ol ! i)"

definition add_partners :: "ObjectList \<Rightarrow> nat list \<Rightarrow> 'q Maneuver \<Rightarrow> 'q Maneuver" where
  "add_partners ol is ma =
     ma\<lparr>ma_partner_id := ma_partner_id ma @ map (\<lambda>i. ol_object_id ol ! i) is,
        ma_partner_address := ma_partner_address ma @ map (\<lambda>i. ol_object_address ol ! i) is\<rparr>"

lemma add_partners_simps [simp]:
  "add_partners ol [] ma = ma"
  "add_partners ol js (add_partners ol is ma) = add_partners ol (is @ js) ma"
  "ma_ego_id (add_partners ol is ma) = ma_ego_id ma"
  "ma_limit_roi_distance (add_partners ol is ma) = ma_limit_roi_distance ma"
  by (simp_all add: add_partners_def)

lemma consider_candidate_eq:
  assumes "ol_wf ol" and "i < nat (ol_n_objects ol)"
  shows "consider_candidate lz ol i ma =
     Inr (add_partners ol (if partner_at (ma_limit_roi_distance ma) (ma_ego_id ma) lz ol i then [i] else []) ma)"
  by (simp add: consider_candidate_def vec_at_wf [OF assms] partner_at_def add_partners_def)

lemma consider_candidates_eq:
  assumes "ol_wf ol" and "\<forall>i \<in> set is. i < nat (ol_n_objects ol)"
  shows "consider_candidates lz ol is ma =
     Inr (add_partners ol (filter (partner_at (ma_limit_roi_distance ma) (ma_ego_id ma) lz ol) is) ma)"
  using assms(2)
  by (induction "is" arbitrary: ma) (simp_all add: consider_candidate_eq [OF assms(1)])

lemma coop_messages_eq:
  assumes "\<forall>i \<in> set is. i < length (ma_partner_id ma)"
    and "length (ma_partner_address ma) = length (ma_partner_id ma)"
  shows "coop_messages now ma is = Inr (map (\<lambda>i. new_CoopManeuver\<lparr>cm_timestamp := to_u64 now,
     cm_ego_id := ma_ego_id ma, cm_partner_id := ma_partner_id ma ! i,
     cm_partner_address := ma_partner_address ma ! i\<rparr>) is)"
  using assms by (induction "is") (simp_all add: coop_message_def vec_at_def)

lemma createCoopManeuverMessage_add_partners:
  assumes "ma_partner_id ma = []" and "ma_partner_address ma = []"
  shows "Maneuver_createCoopManeuverMessage now (add_partners ol is ma) =
     Inr (map (\<lambda>i. new_CoopManeuver\<lparr>cm_timestamp := to_u64 now, cm_ego_id := ma_ego_id ma,
        cm_partner_id := ol_object_id ol ! i, cm_partner_address := ol_object_address ol ! i\<rparr>) is)"
proof -
  let ?ma = "add_partners ol is ma"
  have len: "length (ma_partner_id ?ma) = length is" "length (ma_partner_address ?ma) = length is"
    using assms by (simp_all add: add_partners_def)
  have "ma_partner_id ?ma ! i = ol_object_id ol ! (is ! i)"
      "ma_partner_address ?ma ! i = ol_object_address ol ! (is ! i)" if "i < length is" for i
    using assms that by (simp_all add: add_partners_def)
  then show ?thesis
    using len by (simp add: Maneuver_createCoopManeuverMessage_def coop_messages_eq)
      (auto intro: nth_equalityI)
qed

text \<open>What the twin store says of an object, as a candidate.\<close>

definition store_partner :: "'q Maneuver \<Rightarrow> 'q Localizer \<Rightarrow> 'q dtwin_store \<Rightarrow> string \<Rightarrow> bool" where
  "store_partner ma lz st k \<longleftrightarrow> k \<noteq> lz_ego_id lz \<and>
     is_partner (ma_limit_roi_distance ma) lz (dflt '''' (dt_object_type st) k)
       (dflt 0 (dt_object_position_x st) k) (dflt 0 (dt_object_position_y st) k)
       (dflt 0 (dt_object_position_z st) k) (dflt 0 (dt_object_heading st) k)"

lemma map_filter_nth:
  "n \<le> length ks \<Longrightarrow>
   map (\<lambda>i. f (ks ! i)) (filter (\<lambda>i. P (ks ! i)) [0..<n]) = map f (filter P (take n ks))"
  by (induction n) (auto simp: take_Suc_conv_app_nth)

text \<open>
  At an update, a localised vehicle sends exactly one maneuver message to each partner: each
  object among the first \<open>dt_n_objects\<close> of the twin, other than itself, that is of type v2v, heads
  the same way and lies within the region of interest; the message carries the object's id and
  address and the current time.
\<close>

theorem Maneuver_partners_exact:
  assumes "DtwinStore_ok st" and "Localizer_isLocalized lz"
    and "dt_n_objects st \<le> int (length (dt_object_id st))"
  shows "\<exists>s'. Maneuver_tick K tm stn now lz (ma, st) = Inr (s',
     map (\<lambda>k. (MCoopManeuver (new_CoopManeuver\<lparr>cm_timestamp := to_u64 now, cm_ego_id := lz_ego_id lz,
             cm_partner_id := k, cm_partner_address := dflt 0 (dt_object_address st) k\<rparr>), ''out''))
       (filter (store_partner ma lz st) (take (nat (dt_n_objects st)) (dt_object_id st))))"
proof -
  let ?ks = "dt_object_id st" and ?n = "nat (dt_n_objects st)"
  let ?limit = "ma_limit_roi_distance ma" and ?ego = "lz_ego_id lz"
  let ?msg = "\<lambda>k. new_CoopManeuver\<lparr>cm_timestamp := to_u64 now, cm_ego_id := ?ego,
      cm_partner_id := k, cm_partner_address := dflt 0 (dt_object_address st) k\<rparr>"
  obtain ol st' where rd: "DtwinStore_readFromStore stn now st = (ol, st')"
    by (cases "DtwinStore_readFromStore stn now st")
  note ol = readFromStore_list [OF assms(1) rd assms(3)]
  have n: "?n \<le> length ?ks" using assms(3) by simp
  have at: "partner_at ?limit ?ego lz ol i = store_partner ma lz st (?ks ! i)"
      "ol_object_id ol ! i = ?ks ! i" "ol_object_address ol ! i = dflt 0 (dt_object_address st) (?ks ! i)"
    if "i < ?n" for i
    using ol n that by (simp_all add: partner_at_def store_partner_def Let_def)
  let ?is = "filter (partner_at ?limit ?ego lz ol) [0..<?n]"
  have "?is = filter (\<lambda>i. store_partner ma lz st (?ks ! i)) [0..<?n]"
    by (rule filter_cong) (simp_all add: at)
  then have "map (\<lambda>i. ?msg (?ks ! i)) ?is = map ?msg (filter (store_partner ma lz st) (take ?n ?ks))"
    using map_filter_nth [OF n, of ?msg "store_partner ma lz st"] by simp
  moreover have "map (\<lambda>i. new_CoopManeuver\<lparr>cm_timestamp := to_u64 now, cm_ego_id := ?ego,
      cm_partner_id := ol_object_id ol ! i, cm_partner_address := ol_object_address ol ! i\<rparr>) ?is =
      map (\<lambda>i. ?msg (?ks ! i)) ?is"
    by (rule map_cong) (auto simp: at)
  ultimately show ?thesis
    using assms(2) ol
    by (simp add: Maneuver_tick_def Maneuver_handleMessage_def maneuver_update_def rd
        Maneuver_findCoopManeuverPartner_def consider_candidates_eq
        createCoopManeuverMessage_add_partners Maneuver_sendCoopManeuverMessage_def split_def)
qed

definition sample_localizer :: "(string \<rightharpoonup> simtime) Localizer" where
  "sample_localizer = (Localizer_initialize fes_kernel sample_localizer_par 0 Map.empty)\<lparr>
     lz_state := STATE_LOCALIZED, lz_ego_id := ''car[0]'', lz_ego_position_x := 10\<rparr>"

definition sample_maneuver :: "(string \<rightharpoonup> simtime) Maneuver" where
  "sample_maneuver = \<lparr>ma_ego_id = '''', ma_roi_tag = ''neighborhood'', ma_qos_tag = '''',
     ma_partner_id = [], ma_partner_address = [], ma_limit_roi_distance = 100, ma_queue = Map.empty\<rparr>"

definition platoon_store :: "(string \<rightharpoonup> simtime) dtwin_store" where
  "platoon_store = sample_store\<lparr>dt_n_objects := 2, dt_object_id := [''car[0]'', ''car[1]''],
     dt_object_type := [(''car[1]'', ''v2v'')], dt_object_address := [(''car[1]'', 1027)]\<rparr>"

theorem Maneuver_partners_exact_witness:
  "\<exists>s'. Maneuver_tick fes_kernel \<lparr>at_start = 0, at_stop = 9, at_rate = 3\<rparr> sample_station 5
      sample_localizer (sample_maneuver, platoon_store) = Inr (s',
        [(MCoopManeuver \<lparr>cm_timestamp = 5, cm_ego_id = ''car[0]'', cm_partner_id = ''car[1]'',
            cm_partner_address = 1027\<rparr>, ''out'')])"
proof -
  have store: "dt_object_id platoon_store = [''car[0]'', ''car[1]'']" "dt_n_objects platoon_store = 2"
    by (simp_all add: platoon_store_def)
  have "DtwinStore_ok platoon_store"
    by (simp add: platoon_store_def DtwinStore_ok_def smap_ok_def sset_ok_def sample_store_def
        DtwinStore_initialize_def)
  moreover have ego: "Localizer_isLocalized sample_localizer" "lz_ego_id sample_localizer = ''car[0]''"
    by (simp_all add: sample_localizer_def Localizer_isLocalized_def)
  moreover have "store_partner sample_maneuver sample_localizer platoon_store ''car[1]''"
      "\<not> store_partner sample_maneuver sample_localizer platoon_store ''car[0]''"
    by (simp_all add: store_partner_def is_partner_def dflt_def platoon_store_def sample_localizer_def
        sample_maneuver_def sample_store_def DtwinStore_initialize_def Localizer_initialize_def Let_def)
  ultimately show ?thesis
    using Maneuver_partners_exact [of platoon_store sample_localizer fes_kernel
        "\<lparr>at_start = 0, at_stop = 9, at_rate = 3\<rparr>" sample_station 5 sample_maneuver]
    by (simp add: store new_CoopManeuver_def dflt_def to_u64_def)
       (simp add: platoon_store_def)
qed

lemma Maneuver_tick_queue:
  assumes "Maneuver_tick K tm stn now lz (ma, st) = Inr ((ma', st'), out)"
  shows "ma_queue ma' = stop_check K now (at_stop tm) (schedule_update K now (at_rate tm)
     (k_deliver K ''updateEvent'' (ma_queue ma)))"
proof -
  have frame: "ma_queue ma2 = ma_queue ma1" if "consider_candidates lz ol is ma1 = Inr ma2" for ol "is" ma1 ma2
    using that
    by (induction "is" arbitrary: ma1) (auto simp: rbind_Inr_iff consider_candidate_def split: if_splits)
  have upd: "ma_queue (fst s2) = ma_queue (fst s1)" if "maneuver_update stn now lz s1 = Inr (s2, out)" for s1 s2 out
    using that
    by (auto simp: maneuver_update_def Maneuver_findCoopManeuverPartner_def rbind_Inr_iff Let_def
        split: if_splits prod.splits dest!: frame)
  show ?thesis
    using assms by (auto simp: Maneuver_tick_def Maneuver_handleMessage_def rbind_Inr_iff split_def dest!: upd)
qed

end
