(* ===== verification/Routing_Control.thy ===== *)
theory Routing_Control
  imports Membership_Control Publish_Subscribe Maneuver_App
begin

text \<open>
  \<^verbatim>\<open>controls/RoutingControl\<close>: the switch between a station's applications, its network
  interfaces and the backend.  It keeps no state of its own; what it reads of its siblings
  (\<^verbatim>\<open>membershipControl\<close>, \<^verbatim>\<open>appLocalizer\<close>, \<^verbatim>\<open>subscriberStore\<close>, each possibly absent), of the
  Binder and of the simulation's module table is the context \<open>rc_ctx\<close>.  A handler returns the
  messages it sends; a transport packet that is deleted leaves no message.
\<close>

section \<open>Context\<close>

record rc_par =
  rp_stationType :: StationType
  rp_convoyDirection :: ConvoyDirection
  rp_roiHorizon :: real
  rp_roiNearby :: real
  rp_sizeSubscriberMsg :: int
  rp_sizeManeuverMsg :: int
  rp_sizeMemberReportMsg :: int
  rp_sizeOrchestrationMsg :: int
  rp_destPortPublisher :: int
  rp_destPortSubscriber :: int
  rp_destPortManeuver :: int
  rp_destPortOrchestration :: int
  rp_destPortMemberReport :: int

record 'q rc_ctx =
  rc_par :: rc_par
  rc_membershipControl :: "'q MembershipControl option"
  rc_appLocalizer :: "'q Localizer option"
  rc_subscriberStore :: "'q subscriber_store option"
  rc_binder :: Binder
  rc_getModule :: "int \<Rightarrow> string option"

text \<open>\<^verbatim>\<open>check_and_cast\<close> of a submodule pointer: the kernel throws on a null pointer.\<close>

definition cast_module :: "'a option \<Rightarrow> 'a res" where
  "cast_module x = (case x of None \<Rightarrow> Inl CastError | Some m \<Rightarrow> Inr m)"

lemma cast_module_simps [simp]:
  "cast_module None = Inl CastError"
  "cast_module (Some m) = Inr m"
  by (simp_all add: cast_module_def)

text \<open>\<^verbatim>\<open>std::for_each\<close> with a body that may throw; the outputs accumulate.\<close>

fun for_each :: "('a \<Rightarrow> 'b list res) \<Rightarrow> 'a list \<Rightarrow> 'b list res" where
  "for_each f [] = Inr []"
| "for_each f (x # xs) = rbind (f x) (\<lambda>ys. rbind (for_each f xs) (\<lambda>zs. Inr (ys @ zs)))"

section \<open>To the network\<close>

definition packet_name :: "MessageType \<Rightarrow> string" where
  "packet_name ty = (case ty of SUBSCRIPTION \<Rightarrow> ''Subscription'' | PUBLICATION \<Rightarrow> ''Publication''
     | MANEUVER \<Rightarrow> ''Maneuver'' | MEMBER_STATUS \<Rightarrow> ''MemberReport''
     | ORCHESTRATION \<Rightarrow> ''Orchestration'' | UNKNOWN \<Rightarrow> '''')"

definition out_gate :: "MessageType \<Rightarrow> string" where
  "out_gate ty = (case ty of SUBSCRIPTION \<Rightarrow> ''outLlSubscriber'' | PUBLICATION \<Rightarrow> ''outLlPublisher''
     | MANEUVER \<Rightarrow> ''outLlManeuver'' | MEMBER_STATUS \<Rightarrow> ''outLlMemberReport''
     | ORCHESTRATION \<Rightarrow> ''outLlMemberControl'' | UNKNOWN \<Rightarrow> '''')"

text \<open>\<^verbatim>\<open>par("")\<close>, which an unknown type would ask for, does not exist.\<close>

definition dest_port :: "rc_par \<Rightarrow> MessageType \<Rightarrow> int res" where
  "dest_port par ty = (case ty of SUBSCRIPTION \<Rightarrow> Inr (rp_destPortSubscriber par)
     | PUBLICATION \<Rightarrow> Inr (rp_destPortPublisher par) | MANEUVER \<Rightarrow> Inr (rp_destPortManeuver par)
     | MEMBER_STATUS \<Rightarrow> Inr (rp_destPortMemberReport par)
     | ORCHESTRATION \<Rightarrow> Inr (rp_destPortOrchestration par)
     | UNKNOWN \<Rightarrow> Inl (RuntimeError ''unknown parameter''))"

text \<open>
  The next hop: the destination itself in a cluster this station manages, the manager of the
  device that is in the destination's cluster otherwise.  Without a route the packet is deleted
  and then still read.
\<close>

definition find_next_hop :: "'q rc_ctx \<Rightarrow> TransportPacket \<Rightarrow> TransportPacket res" where
  "find_next_hop ctx tp =
     rbind (cast_module (rc_membershipControl ctx)) (\<lambda>mc.
     rbind (getNextHop (word_of_int (tp_dst_mac_id tp)) (rc_binder ctx)) (\<lambda>hop.
       let destination_cluster = uint hop;
           tp = tp\<lparr>tp_dst_cluster := destination_cluster\<rparr>
       in case MembershipControl_clusterMatch destination_cluster mc of
            MASTER_DEVICE \<Rightarrow> Inr (tp\<lparr>tp_hop_cluster := destination_cluster,
                                  tp_hop_mac_id := tp_dst_mac_id tp\<rparr>)
          | MEMBER_DEVICE \<Rightarrow> Inr (tp\<lparr>tp_hop_cluster := destination_cluster,
                                  tp_hop_mac_id := getAddressOfManagerForPrimaryDevice mc\<rparr>)
          | GATEWAY_DEVICE \<Rightarrow> Inr (tp\<lparr>tp_hop_cluster := destination_cluster,
                                   tp_hop_mac_id := getAddressOfManagerForGatewayDevice mc\<rparr>)
          | UNKNOWN_DEVICE \<Rightarrow> Inl UseAfterFree))"

definition RoutingControl_forwardToNetwork ::
  "'q rc_ctx \<Rightarrow> TransportPacket \<Rightarrow> MessageType \<Rightarrow> out_msg list res" where
  "RoutingControl_forwardToNetwork ctx tp ty =
     rbind (if rp_stationType (rc_par ctx) \<noteq> BACKEND then find_next_hop ctx tp else Inr tp) (\<lambda>tp.
       case rc_getModule ctx (getOmnetId (word_of_int (tp_hop_mac_id tp)) (rc_binder ctx)) of
         None \<Rightarrow> Inl NullDeref
       | Some destination \<Rightarrow> rbind (dest_port (rc_par ctx) ty) (\<lambda>port.
           Inr [(MPacket \<lparr>np_name = packet_name ty, np_front = tp, np_dest = destination, np_port = port\<rparr>,
                 out_gate ty)]))"

section \<open>To the backend\<close>

definition RoutingControl_forwardToBackend ::
  "rc_par \<Rightarrow> TransportPacket \<Rightarrow> MessageType \<Rightarrow> out_msg list" where
  "RoutingControl_forwardToBackend par tp ty =
     (let destination = (case rp_convoyDirection par of
            TOP \<Rightarrow> ''backendTop'' | DOWN \<Rightarrow> ''backendBot'' | DIR_UNDEFINED \<Rightarrow> '''');
          (name, gate_name, port) = (case ty of
            PUBLICATION \<Rightarrow> (''dtwin_publication'', ''outBkndPublisher'', rp_destPortPublisher par)
          | MEMBER_STATUS \<Rightarrow> (''member_report'', ''outBkndMemberReport'', rp_destPortMemberReport par)
          | _ \<Rightarrow> ('''', '''', 0))
      in if destination \<noteq> '''' \<and> gate_name \<noteq> ''''
         then [(MPacket \<lparr>np_name = name, np_front = tp, np_dest = destination, np_port = port\<rparr>, gate_name)]
         else [])"

section \<open>From the network\<close>

definition own_address :: "'q MembershipControl \<Rightarrow> int \<Rightarrow> bool" where
  "own_address mc a \<longleftrightarrow> addressMatchesPrimaryDevice a mc \<or> addressMatchesGatewayDevice a mc"

definition deliver_up :: "TransportPacket \<Rightarrow> MessageType \<Rightarrow> out_msg list" where
  "deliver_up tp ty = (case ty of
       SUBSCRIPTION \<Rightarrow> [(MDtwinSub (tp_msg_subscriber tp), ''outUlPublisher'')]
     | PUBLICATION \<Rightarrow> [(MObjectList (tp_msg_publisher tp), ''outUlSubscriber'')]
     | MANEUVER \<Rightarrow> [(MCoopManeuver (tp_msg_maneuver tp), ''outUlManeuver'')]
     | MEMBER_STATUS \<Rightarrow> [(MMemberStatus (tp_msg_member_status tp), ''outUlMemberControl'')]
     | ORCHESTRATION \<Rightarrow> [(MOrchestration (tp_msg_orchestration tp), ''outUlMemberControl'')]
     | UNKNOWN \<Rightarrow> [])"

definition RoutingControl_receiveFromNetwork ::
  "'q rc_ctx \<Rightarrow> TransportPacket \<Rightarrow> MessageType \<Rightarrow> out_msg list res" where
  "RoutingControl_receiveFromNetwork ctx tp ty =
     (if rp_stationType (rc_par ctx) = BACKEND
      then Inr (if ty = PUBLICATION then [(MObjectList (tp_msg_publisher tp), ''outUlSubscriber'')]
                else if ty = MEMBER_STATUS
                then [(MMemberStatus (tp_msg_member_status tp), ''outUlMemberControl'')]
                else [])
      else rbind (cast_module (rc_membershipControl ctx)) (\<lambda>mc.
        if own_address mc (tp_dst_mac_id tp) then Inr (deliver_up tp ty)
        else RoutingControl_forwardToNetwork ctx tp ty))"

text \<open>A packet from a lower-layer gate: its type is read from the packet itself.\<close>

definition receive_packet :: "'q rc_ctx \<Rightarrow> app_msg \<Rightarrow> out_msg list res" where
  "receive_packet ctx msg = (case msg of
       MPacket np \<Rightarrow> RoutingControl_receiveFromNetwork ctx (np_front np) (tp_msg_type (np_front np))
     | _ \<Rightarrow> Inl CastError)"

section \<open>Handlers\<close>

definition same_direction :: "rc_par \<Rightarrow> Publication list \<Rightarrow> Publication list" where
  "same_direction par pubs = filter (\<lambda>p. p_direction p = rp_convoyDirection par) pubs"

text \<open>The test on a publisher's field of view: one end of the ego region lies inside it.\<close>

definition fov_match :: "real \<Rightarrow> real \<Rightarrow> Publication \<Rightarrow> bool" where
  "fov_match ego_x ego_fov p \<longleftrightarrow>
     (let border_ego_min = ego_x - ego_fov; border_ego_max = ego_x + ego_fov;
          border_rsu_min = cx (p_position p) - p_fov p; border_rsu_max = cx (p_position p) + p_fov p
      in border_rsu_min \<le> border_ego_min \<and> border_ego_min \<le> border_rsu_max \<or>
         border_rsu_min \<le> border_ego_max \<and> border_ego_max \<le> border_rsu_max)"

definition subscription_targets ::
  "'q rc_ctx \<Rightarrow> 'q MembershipControl \<Rightarrow> 'q Localizer \<Rightarrow> app_msg \<Rightarrow> Publication list res" where
  "subscription_targets ctx mc lz msg =
     (let publishers = same_direction (rc_par ctx) (MembershipControl_readPublishers mc)
      in if \<not> Localizer_isLocalized lz
         then Inr (filter (\<lambda>p. p_cluster p = getAddressOfManagerForPrimaryDevice mc) publishers)
         else (case msg of
           MDtwinSub sub \<Rightarrow>
             (let ego_fov = (if ds_roi_tag sub = ''horizon'' then rp_roiHorizon (rc_par ctx)
                             else rp_roiNearby (rc_par ctx))
              in Inr (filter (fov_match (lz_ego_position_x lz) ego_fov) publishers))
         | _ \<Rightarrow> Inl CastError))"

definition send_subscription ::
  "'q rc_ctx \<Rightarrow> 'q MembershipControl \<Rightarrow> app_msg \<Rightarrow> Publication \<Rightarrow> out_msg list res" where
  "send_subscription ctx mc msg p = (case msg of
       MDtwinSub sub \<Rightarrow>
         (let sub = sub\<lparr>ds_subscriber_address := getAddressOfPrimaryDevice mc\<rparr>
          in RoutingControl_forwardToNetwork ctx
               (new_TransportPacket\<lparr>tp_timestamp := ds_timestamp sub, tp_msg_subscriber := sub,
                  tp_chunk_length := rp_sizeSubscriberMsg (rc_par ctx), tp_dst_mac_id := p_id p,
                  tp_msg_type := SUBSCRIPTION\<rparr>) SUBSCRIPTION)
     | _ \<Rightarrow> Inl CastError)"

definition RoutingControl_msgHandlerSubscriber ::
  "'q rc_ctx \<Rightarrow> string \<Rightarrow> app_msg \<Rightarrow> out_msg list res" where
  "RoutingControl_msgHandlerSubscriber ctx arrival_gate msg =
     (if arrival_gate = ''inUlSubscriber''
      then (case rc_membershipControl ctx of
              None \<Rightarrow> Inr []
            | Some mc \<Rightarrow>
                if MembershipControl_isInitialized mc
                then rbind (cast_module (rc_appLocalizer ctx)) (\<lambda>lz.
                     rbind (subscription_targets ctx mc lz msg) (\<lambda>publishers.
                       for_each (send_subscription ctx mc msg) publishers))
                else Inr [])
      else receive_packet ctx msg)"

definition publication_packet :: "ObjectList \<Rightarrow> TransportPacket" where
  "publication_packet ol = new_TransportPacket\<lparr>tp_timestamp := ol_timestamp ol,
     tp_chunk_length := ol_obj_byte_size ol * ol_n_objects ol, tp_msg_publisher := ol,
     tp_msg_type := PUBLICATION\<rparr>"

definition RoutingControl_msghandlerPublisher ::
  "'q rc_ctx \<Rightarrow> string \<Rightarrow> app_msg \<Rightarrow> out_msg list res" where
  "RoutingControl_msghandlerPublisher ctx arrival_gate msg =
     (if arrival_gate = ''inUlPublisher''
      then (case rc_membershipControl ctx of
              None \<Rightarrow> Inr []
            | Some mc \<Rightarrow>
                if MembershipControl_isInitialized mc
                then (case msg of
                  MObjectList ol \<Rightarrow>
                    rbind (cast_module (rc_subscriberStore ctx)) (\<lambda>store.
                    rbind (for_each (\<lambda>s. RoutingControl_forwardToNetwork ctx
                               ((publication_packet ol)\<lparr>tp_dst_mac_id := s_id s\<rparr>) PUBLICATION)
                             (SubscriberStore_readSubscriptions store)) (\<lambda>out.
                      Inr (out @ (if rp_stationType (rc_par ctx) = RSU
                                  then RoutingControl_forwardToBackend (rc_par ctx) (publication_packet ol) PUBLICATION
                                  else []))))
                | _ \<Rightarrow> Inl CastError)
                else Inr [])
      else receive_packet ctx msg)"

definition RoutingControl_msgHandlerManeuver ::
  "'q rc_ctx \<Rightarrow> string \<Rightarrow> app_msg \<Rightarrow> out_msg list res" where
  "RoutingControl_msgHandlerManeuver ctx arrival_gate msg =
     (if arrival_gate = ''inUlManeuver''
      then (case rc_membershipControl ctx of
              None \<Rightarrow> Inr []
            | Some mc \<Rightarrow>
                if MembershipControl_isInitialized mc
                then (case msg of
                  MCoopManeuver cm \<Rightarrow>
                    RoutingControl_forwardToNetwork ctx
                      (new_TransportPacket\<lparr>tp_timestamp := cm_timestamp cm,
                         tp_chunk_length := rp_sizeManeuverMsg (rc_par ctx), tp_msg_maneuver := cm,
                         tp_dst_mac_id := cm_partner_address cm, tp_msg_type := MANEUVER\<rparr>) MANEUVER
                | _ \<Rightarrow> Inl CastError)
                else Inr [])
      else receive_packet ctx msg)"

definition report_packet :: "rc_par \<Rightarrow> MemberStatus \<Rightarrow> TransportPacket" where
  "report_packet par ms = new_TransportPacket\<lparr>tp_timestamp := ms_timestamp ms,
     tp_chunk_length := rp_sizeMemberReportMsg par, tp_msg_member_status := ms,
     tp_msg_type := MEMBER_STATUS\<rparr>"

text \<open>
  \<open>part\<close> is \<^verbatim>\<open>std::partition\<close>: the two ranges it leaves before and after the returned iterator.
\<close>

definition report_targets ::
  "((Publication \<Rightarrow> bool) \<Rightarrow> Publication list \<Rightarrow> Publication list \<times> Publication list) \<Rightarrow> rc_par
    \<Rightarrow> 'q MembershipControl \<Rightarrow> Publication list" where
  "report_targets part par mc =
     (let cluster = getAddressOfManagerForPrimaryDevice mc;
          (front, back) = part (\<lambda>p. p_cluster p = cluster)
            (same_direction par (MembershipControl_readPublishers mc))
      in if front = [] then front @ back else front)"

definition RoutingControl_msgHandlerMemberReport ::
  "((Publication \<Rightarrow> bool) \<Rightarrow> Publication list \<Rightarrow> Publication list \<times> Publication list) \<Rightarrow> 'q rc_ctx
    \<Rightarrow> string \<Rightarrow> app_msg \<Rightarrow> out_msg list res" where
  "RoutingControl_msgHandlerMemberReport part ctx arrival_gate msg =
     (if arrival_gate = ''inUlMemberReport''
      then (if rp_stationType (rc_par ctx) = RSU
            then (case msg of
                    MMemberStatus ms \<Rightarrow> Inr (RoutingControl_forwardToBackend (rc_par ctx)
                      (report_packet (rc_par ctx) ms) MEMBER_STATUS)
                  | _ \<Rightarrow> Inl CastError)
            else rbind (cast_module (rc_membershipControl ctx)) (\<lambda>mc.
                   for_each (\<lambda>p. case msg of
                       MMemberStatus ms \<Rightarrow> RoutingControl_forwardToNetwork ctx
                         ((report_packet (rc_par ctx) ms)\<lparr>tp_dst_mac_id := p_id p\<rparr>) MEMBER_STATUS
                     | _ \<Rightarrow> Inl CastError)
                     (report_targets part (rc_par ctx) mc)))
      else (if rp_stationType (rc_par ctx) = RSU
            then (case msg of
                    MPacket np \<Rightarrow> Inr (RoutingControl_forwardToBackend (rc_par ctx) (np_front np) MEMBER_STATUS)
                  | _ \<Rightarrow> Inl CastError)
            else receive_packet ctx msg))"

definition RoutingControl_msgHandlerOrchestration ::
  "'q rc_ctx \<Rightarrow> string \<Rightarrow> app_msg \<Rightarrow> out_msg list res" where
  "RoutingControl_msgHandlerOrchestration ctx arrival_gate msg =
     (if arrival_gate = ''inUlMemberControl''
      then (case msg of
              MOrchestration orc \<Rightarrow>
                RoutingControl_forwardToNetwork ctx
                  (new_TransportPacket\<lparr>tp_timestamp := or_timestamp orc,
                     tp_chunk_length := rp_sizeOrchestrationMsg (rc_par ctx), tp_msg_orchestration := orc,
                     tp_dst_mac_id := or_node_address orc, tp_hop_mac_id := or_hop_address orc,
                     tp_msg_type := ORCHESTRATION\<rparr>) ORCHESTRATION
            | _ \<Rightarrow> Inl CastError)
      else if arrival_gate = ''inBkndMemberControl''
      then rbind (cast_module (rc_membershipControl ctx)) (\<lambda>mc.
             case msg of
               MTransport tp \<Rightarrow>
                 if own_address mc (tp_dst_mac_id tp)
                 then Inr [(MOrchestration (tp_msg_orchestration tp), ''outUlMemberControl'')]
                 else RoutingControl_forwardToNetwork ctx tp ORCHESTRATION
             | _ \<Rightarrow> Inl CastError)
      else receive_packet ctx msg)"

definition RoutingControl_handleMessage ::
  "((Publication \<Rightarrow> bool) \<Rightarrow> Publication list \<Rightarrow> Publication list \<times> Publication list) \<Rightarrow> 'q rc_ctx
    \<Rightarrow> string \<Rightarrow> app_msg \<Rightarrow> out_msg list res" where
  "RoutingControl_handleMessage part ctx gate msg =
     (if gate \<in> {''inUlSubscriber'', ''inLlSubscriber'', ''inLlSubscriberGw''}
      then RoutingControl_msgHandlerSubscriber ctx gate msg
      else if gate \<in> {''inUlPublisher'', ''inLlPublisher'', ''inLlPublisherGw''}
      then RoutingControl_msghandlerPublisher ctx gate msg
      else if gate \<in> {''inUlManeuver'', ''inLlManeuver'', ''inLlManeuverGw''}
      then RoutingControl_msgHandlerManeuver ctx gate msg
      else if gate \<in> {''inUlMemberReport'', ''inLlMemberReport'', ''inLlMemberReportGw''}
      then RoutingControl_msgHandlerMemberReport part ctx gate msg
      else if gate \<in> {''inUlMemberControl'', ''inLlMemberControl'', ''inLlMemberControlGw'', ''inBkndMemberControl''}
      then RoutingControl_msgHandlerOrchestration ctx gate msg
      else Inr [])"

section \<open>Interfaces\<close>

text \<open>What \<^verbatim>\<open>std::partition\<close> promises; the order inside the two ranges is unspecified.\<close>

locale std_partition =
  fixes part :: "('a \<Rightarrow> bool) \<Rightarrow> 'a list \<Rightarrow> 'a list \<times> 'a list"
  assumes part_mset: "mset (fst (part P xs)) + mset (snd (part P xs)) = mset xs"
    and part_front: "\<forall>x \<in> set (fst (part P xs)). P x"
    and part_back: "\<forall>x \<in> set (snd (part P xs)). \<not> P x"
begin

lemma part_set: "set (fst (part P xs)) \<union> set (snd (part P xs)) = set xs"
  using part_mset [of P xs] by (metis set_mset_mset set_mset_union)

lemma front_set: "set (fst (part P xs)) = {x \<in> set xs. P x}"
  using part_set [of P xs] part_front [of P xs] part_back [of P xs] by blast

lemma front_Nil_iff: "fst (part P xs) = [] \<longleftrightarrow> (\<forall>x \<in> set xs. \<not> P x)"
  using front_set [of P xs] by (metis (no_types, lifting) empty_Collect_eq set_empty)

lemma front_mset: "mset (fst (part P xs)) = mset (filter P xs)"
proof -
  have "mset (filter P xs) = filter_mset P (mset (fst (part P xs)) + mset (snd (part P xs)))"
    by (simp add: part_mset)
  moreover have "filter_mset P (mset (fst (part P xs))) = mset (fst (part P xs))"
      "filter_mset P (mset (snd (part P xs))) = {#}"
    using part_front [of P xs] part_back [of P xs]
    by (simp_all add: filter_id_conv [THEN iffD2] flip: mset_filter)
  ultimately show ?thesis by simp
qed

lemma targets_single:
  "(if fst (part P [x]) = [] then fst (part P [x]) @ snd (part P [x]) else fst (part P [x])) = [x]"
  using part_mset [of P "[x]"] front_mset [of P "[x]"] by (cases "P x") (auto simp: mset_single_iff)

end

definition stable_partition :: "('a \<Rightarrow> bool) \<Rightarrow> 'a list \<Rightarrow> 'a list \<times> 'a list" where
  "stable_partition P xs = (filter P xs, filter (\<lambda>x. \<not> P x) xs)"

interpretation stable: std_partition stable_partition
  by unfold_locales (auto simp: stable_partition_def mset_filter)

text \<open>
  What the routing relies on in the membership agent: which of its devices is in a cluster, and
  that a device's manager is the cluster it is in.
\<close>

locale cluster_view =
  fixes ok :: "'m \<Rightarrow> bool"
    and clusterMatch :: "int \<Rightarrow> 'm \<Rightarrow> ClusterDeviceType"
    and manager_pr :: "'m \<Rightarrow> int"
    and manager_gw :: "'m \<Rightarrow> int"
  assumes match_primary: "ok m \<Longrightarrow> c = manager_pr m \<Longrightarrow> clusterMatch c m \<in> {MASTER_DEVICE, MEMBER_DEVICE}"
    and match_gateway: "ok m \<Longrightarrow> c \<noteq> manager_pr m \<Longrightarrow> c = manager_gw m \<Longrightarrow> clusterMatch c m = GATEWAY_DEVICE"
    and match_none: "ok m \<Longrightarrow> c \<noteq> manager_pr m \<Longrightarrow> c \<noteq> manager_gw m \<Longrightarrow> clusterMatch c m = UNKNOWN_DEVICE"
begin

lemma no_route_iff: "ok m \<Longrightarrow> clusterMatch c m = UNKNOWN_DEVICE \<longleftrightarrow> c \<noteq> manager_pr m \<and> c \<noteq> manager_gw m"
  using match_primary [of m c] match_gateway [of m c] match_none [of m c] by fastforce

lemma member_hop: "ok m \<Longrightarrow> clusterMatch c m = MEMBER_DEVICE \<Longrightarrow> manager_pr m = c"
  using match_gateway [of m c] match_none [of m c] by fastforce

lemma master_hop: "ok m \<Longrightarrow> clusterMatch c m = MASTER_DEVICE \<Longrightarrow> manager_pr m = c"
  using match_gateway [of m c] match_none [of m c] by fastforce

lemma gateway_hop: "ok m \<Longrightarrow> clusterMatch c m = GATEWAY_DEVICE \<Longrightarrow> manager_gw m = c"
  using match_primary [of m c] match_none [of m c] by fastforce

end

definition devices_ok :: "'q MembershipControl \<Rightarrow> bool" where
  "devices_ok m \<longleftrightarrow> (case (mc_device_pr m, mc_device_gw m) of
     (Some pr, Some gw) \<Rightarrow> cd_device_type gw = GATEWAY_DEVICE \<and> cd_device_type pr \<in> {MASTER_DEVICE, MEMBER_DEVICE}
   | _ \<Rightarrow> False)"

lemma mc_ok_devices: "mc_ok (m, s) \<Longrightarrow> devices_ok m"
  by (auto simp: mc_ok_def devices_ok_def)

lemma devices_okE:
  assumes "devices_ok m"
  obtains pr gw where "mc_device_pr m = Some pr" "mc_device_gw m = Some gw"
    "cd_device_type gw = GATEWAY_DEVICE" "cd_device_type pr \<in> {MASTER_DEVICE, MEMBER_DEVICE}"
  using assms by (auto simp: devices_ok_def split: option.splits)

interpretation membership: cluster_view devices_ok MembershipControl_clusterMatch
    getAddressOfManagerForPrimaryDevice getAddressOfManagerForGatewayDevice
  by unfold_locales
     (auto simp: devices_ok_def MembershipControl_clusterMatch_def getAddressOfManagerForPrimaryDevice_def
       getAddressOfManagerForGatewayDevice_def split: option.splits)

section \<open>Routing decisions\<close>

text \<open>The address of the next hop for a destination whose cluster is \<open>c\<close>.\<close>

definition hop_address :: "'q MembershipControl \<Rightarrow> int \<Rightarrow> int \<Rightarrow> int" where
  "hop_address mc dst c = (if MembershipControl_clusterMatch c mc = MASTER_DEVICE then dst else c)"

lemma find_next_hop_eq:
  assumes "rc_membershipControl ctx = Some mc" and "devices_ok mc"
    and "getNextHop (word_of_int (tp_dst_mac_id tp)) (rc_binder ctx) = Inr hop"
  shows "find_next_hop ctx tp =
     (if uint hop \<noteq> getAddressOfManagerForPrimaryDevice mc \<and> uint hop \<noteq> getAddressOfManagerForGatewayDevice mc
      then Inl UseAfterFree
      else Inr (tp\<lparr>tp_dst_cluster := uint hop, tp_hop_cluster := uint hop,
             tp_hop_mac_id := hop_address mc (tp_dst_mac_id tp) (uint hop)\<rparr>))"
  using assms membership.no_route_iff [OF assms(2), of "uint hop"]
    membership.member_hop [OF assms(2), of "uint hop"] membership.gateway_hop [OF assms(2), of "uint hop"]
  by (cases "MembershipControl_clusterMatch (uint hop) mc")
     (auto simp: find_next_hop_def Let_def hop_address_def)

lemma dest_port_known: "ty \<noteq> UNKNOWN \<Longrightarrow> \<exists>port. dest_port par ty = Inr port"
  by (cases ty) (simp_all add: dest_port_def)

lemma forwardToNetwork_eq:
  assumes "rc_membershipControl ctx = Some mc" and "devices_ok mc" and "ty \<noteq> UNKNOWN"
    and "rp_stationType (rc_par ctx) \<noteq> BACKEND"
    and "getNextHop (word_of_int (tp_dst_mac_id tp)) (rc_binder ctx) = Inr hop"
  shows "RoutingControl_forwardToNetwork ctx tp ty =
     (let c = uint hop; h = hop_address mc (tp_dst_mac_id tp) c
      in if c \<noteq> getAddressOfManagerForPrimaryDevice mc \<and> c \<noteq> getAddressOfManagerForGatewayDevice mc
         then Inl UseAfterFree
         else case rc_getModule ctx (getOmnetId (word_of_int h) (rc_binder ctx)) of
                None \<Rightarrow> Inl NullDeref
              | Some dest \<Rightarrow> Inr [(MPacket \<lparr>np_name = packet_name ty,
                  np_front = tp\<lparr>tp_dst_cluster := c, tp_hop_cluster := c, tp_hop_mac_id := h\<rparr>,
                  np_dest = dest, np_port = projr (dest_port (rc_par ctx) ty)\<rparr>, out_gate ty)])"
  using assms(4) dest_port_known [OF assms(3), of "rc_par ctx"] find_next_hop_eq [OF assms(1,2,5)]
  by (auto simp: RoutingControl_forwardToNetwork_def Let_def split: option.splits)

text \<open>
  C35. A station that is not the backend hands every packet of a known type either to exactly one
  network packet or to an error.  With a route, the packet goes to the destination itself when
  the station manages the destination's cluster and to that cluster's manager otherwise, with
  destination and hop cluster filled in and the payload untouched; without a route (the
  destination's cluster is neither that of the primary nor that of the gateway device) the
  packet is read after it was deleted.
\<close>

theorem forwardToNetwork_single_hop:
  assumes "rc_membershipControl ctx = Some mc" and "devices_ok mc" and "ty \<noteq> UNKNOWN"
    and "rp_stationType (rc_par ctx) \<noteq> BACKEND"
    and "getNextHop (word_of_int (tp_dst_mac_id tp)) (rc_binder ctx) = Inr hop"
  shows "RoutingControl_forwardToNetwork ctx tp ty =
     (let c = uint hop; h = hop_address mc (tp_dst_mac_id tp) c
      in if c \<noteq> getAddressOfManagerForPrimaryDevice mc \<and> c \<noteq> getAddressOfManagerForGatewayDevice mc
         then Inl UseAfterFree
         else case rc_getModule ctx (getOmnetId (word_of_int h) (rc_binder ctx)) of
                None \<Rightarrow> Inl NullDeref
              | Some dest \<Rightarrow> Inr [(MPacket \<lparr>np_name = packet_name ty,
                  np_front = tp\<lparr>tp_dst_cluster := c, tp_hop_cluster := c, tp_hop_mac_id := h\<rparr>,
                  np_dest = dest, np_port = projr (dest_port (rc_par ctx) ty)\<rparr>, out_gate ty)])"
  by (rule forwardToNetwork_eq) fact+

definition sample_rc_par :: "StationType \<Rightarrow> rc_par" where
  "sample_rc_par ty = \<lparr>rp_stationType = ty, rp_convoyDirection = TOP, rp_roiHorizon = 1000, rp_roiNearby = 300,
     rp_sizeSubscriberMsg = 10, rp_sizeManeuverMsg = 20, rp_sizeMemberReportMsg = 10,
     rp_sizeOrchestrationMsg = 10, rp_destPortPublisher = 21001, rp_destPortSubscriber = 21002,
     rp_destPortManeuver = 21003, rp_destPortOrchestration = 21004, rp_destPortMemberReport = 21005\<rparr>"

text \<open>Cluster 3, managed by the station with address 3; vehicles 5 and 7 are members of it.\<close>

definition cluster_binder :: Binder where
  "cluster_binder = new_Binder\<lparr>nextHop := [0, 0, 0, 3, 0, 3, 0, 3], nodeIds := [(3, 30), (5, 50), (7, 70)]\<rparr>"

definition cluster_modules :: "int \<Rightarrow> string option" where
  "cluster_modules = [30 \<mapsto> ''master[0]'', 50 \<mapsto> ''member[0]'', 70 \<mapsto> ''member[1]'']"

definition cluster_agent :: "ClusterDeviceType \<Rightarrow> int \<Rightarrow> (string \<rightharpoonup> simtime) MembershipControl" where
  "cluster_agent ty a = (sample_agent [])\<lparr>mc_control_state := INITIALIZED, mc_device_pr := Some ((sample_device ty)\<lparr>
     cd_address := a, cd_address_manager := 3\<rparr>), mc_device_gw := Some (sample_device GATEWAY_DEVICE)\<rparr>"

definition cluster_ctx :: "ClusterDeviceType \<Rightarrow> int \<Rightarrow> (string \<rightharpoonup> simtime) rc_ctx" where
  "cluster_ctx ty a = \<lparr>rc_par = sample_rc_par VEHICLE, rc_membershipControl = Some (cluster_agent ty a),
     rc_appLocalizer = Some sample_localizer, rc_subscriberStore = Some \<lparr>subscriber_record = [], sst_queue = Map.empty\<rparr>,
     rc_binder = cluster_binder, rc_getModule = cluster_modules\<rparr>"

lemma cluster_ctx_simps [simp]:
  "rc_par (cluster_ctx ty a) = sample_rc_par VEHICLE" "rc_membershipControl (cluster_ctx ty a) = Some (cluster_agent ty a)"
  "rc_binder (cluster_ctx ty a) = cluster_binder" "rc_getModule (cluster_ctx ty a) = cluster_modules"
  "rc_appLocalizer (cluster_ctx ty a) = Some sample_localizer"
  "rp_stationType (sample_rc_par st) = st" "rp_convoyDirection (sample_rc_par st) = TOP"
  by (simp_all add: cluster_ctx_def sample_rc_par_def)

lemma cluster_agent_simps [simp]:
  "getAddressOfManagerForPrimaryDevice (cluster_agent ty a) = 3"
  "getAddressOfManagerForGatewayDevice (cluster_agent ty a) = 0"
  "MembershipControl_clusterMatch 3 (cluster_agent ty a) = ty"
  "own_address (cluster_agent ty a) d \<longleftrightarrow> d = a \<or> d = 0"
  "MembershipControl_isInitialized (cluster_agent ty a)"
  "devices_ok (cluster_agent ty a) \<longleftrightarrow> ty \<in> {MASTER_DEVICE, MEMBER_DEVICE}"
  by (auto simp: cluster_agent_def sample_agent_def sample_device_def new_ClusterDevice_def
      getAddressOfManagerForPrimaryDevice_def getAddressOfManagerForGatewayDevice_def
      MembershipControl_clusterMatch_def own_address_def addressMatchesPrimaryDevice_def
      addressMatchesGatewayDevice_def MembershipControl_isInitialized_def devices_ok_def)

lemma cluster_binder_simps [simp]:
  "getNextHop 5 cluster_binder = Inr 3" "getNextHop 7 cluster_binder = Inr 3"
  "getNextHop 4 cluster_binder = Inr 0"
  "cluster_modules (getOmnetId 3 cluster_binder) = Some ''master[0]''"
  "cluster_modules (getOmnetId 5 cluster_binder) = Some ''member[0]''"
  "cluster_modules (getOmnetId 7 cluster_binder) = Some ''member[1]''"
  by (simp_all add: cluster_binder_def getNextHop_def getOmnetId_def cluster_modules_def)

theorem forwardToNetwork_single_hop_witness:
  "\<exists>np. RoutingControl_forwardToNetwork (cluster_ctx MEMBER_DEVICE 5)
      (new_TransportPacket\<lparr>tp_dst_mac_id := 7, tp_msg_type := MANEUVER\<rparr>) MANEUVER = Inr [(MPacket np, ''outLlManeuver'')] \<and>
     np_dest np = ''master[0]'' \<and> tp_hop_mac_id (np_front np) = 3"
  using forwardToNetwork_single_hop [of "cluster_ctx MEMBER_DEVICE 5" "cluster_agent MEMBER_DEVICE 5" MANEUVER
      "new_TransportPacket\<lparr>tp_dst_mac_id := 7, tp_msg_type := MANEUVER\<rparr>" 3]
  by (simp add: Let_def hop_address_def out_gate_def)

section \<open>Delivery inside a cluster\<close>

lemma deliver_up_cong [simp]:
  "deliver_up (tp\<lparr>tp_dst_cluster := a, tp_hop_cluster := b, tp_hop_mac_id := c\<rparr>) ty = deliver_up tp ty"
  by (simp add: deliver_up_def split: MessageType.splits)

text \<open>
  A packet between two members of a cluster: the sender's station hands it to the manager, the
  manager's station to the receiver, whose station delivers the payload.
\<close>

lemma cluster_relay:
  fixes A M B :: "'q rc_ctx"
  assumes stations: "rp_stationType (rc_par A) \<noteq> BACKEND" "rp_stationType (rc_par M) \<noteq> BACKEND"
      "rp_stationType (rc_par B) \<noteq> BACKEND"
    and agents: "rc_membershipControl A = Some ma" "rc_membershipControl M = Some mm" "rc_membershipControl B = Some mb"
      "devices_ok ma" "devices_ok mm"
    and sender: "MembershipControl_clusterMatch (uint hop) ma = MEMBER_DEVICE"
    and manager: "MembershipControl_clusterMatch (uint hop) mm = MASTER_DEVICE" "\<not> own_address mm (tp_dst_mac_id tp)"
    and receiver: "own_address mb (tp_dst_mac_id tp)"
    and shared: "rc_binder M = rc_binder A" "getNextHop (word_of_int (tp_dst_mac_id tp)) (rc_binder A) = Inr hop"
      "rc_getModule A (getOmnetId hop (rc_binder A)) = Some nameM"
      "rc_getModule M (getOmnetId (word_of_int (tp_dst_mac_id tp)) (rc_binder A)) = Some nameB"
    and ty: "tp_msg_type tp \<noteq> UNKNOWN"
  shows "\<exists>np np'. RoutingControl_forwardToNetwork A tp (tp_msg_type tp) = Inr [(MPacket np, out_gate (tp_msg_type tp))] \<and>
     np_dest np = nameM \<and> receive_packet M (MPacket np) = Inr [(MPacket np', out_gate (tp_msg_type tp))] \<and>
     np_dest np' = nameB \<and> receive_packet B (MPacket np') = Inr (deliver_up tp (tp_msg_type tp))"
proof -
  let ?c = "uint hop" and ?ty = "tp_msg_type tp"
  let ?np = "\<lparr>np_name = packet_name ?ty, np_front = tp\<lparr>tp_dst_cluster := ?c, tp_hop_cluster := ?c,
      tp_hop_mac_id := ?c\<rparr>, np_dest = nameM, np_port = projr (dest_port (rc_par A) ?ty)\<rparr>"
  let ?np' = "\<lparr>np_name = packet_name ?ty, np_front = tp\<lparr>tp_dst_cluster := ?c, tp_hop_cluster := ?c,
      tp_hop_mac_id := tp_dst_mac_id tp\<rparr>, np_dest = nameB, np_port = projr (dest_port (rc_par M) ?ty)\<rparr>"
  have "RoutingControl_forwardToNetwork A tp ?ty = Inr [(MPacket ?np, out_gate ?ty)]"
    using forwardToNetwork_eq [OF agents(1,4) ty stations(1) shared(2)] shared sender
      membership.member_hop [OF agents(4) sender]
    by (simp add: Let_def hop_address_def)
  moreover have "receive_packet M (MPacket ?np) = Inr [(MPacket ?np', out_gate ?ty)]"
    using forwardToNetwork_eq [OF agents(2,5) ty stations(2), of "np_front ?np" hop] shared manager agents(2)
      membership.master_hop [OF agents(5) manager(1)] stations(2)
    by (simp add: Let_def hop_address_def receive_packet_def RoutingControl_receiveFromNetwork_def)
  moreover have "receive_packet B (MPacket ?np') = Inr (deliver_up tp ?ty)"
    using stations(3) agents(3) receiver
    by (simp add: receive_packet_def RoutingControl_receiveFromNetwork_def)
  ultimately show ?thesis by (intro exI [of _ ?np] exI [of _ ?np']) simp
qed

text \<open>
  C7. A maneuver message reaches its partner: in a cluster with manager \<open>M\<close>, a message of member
  \<open>A\<close> for member \<open>B\<close> leaves \<open>A\<close> as one packet for \<open>M\<close>'s module, leaves \<open>M\<close> as one packet for
  \<open>B\<close>'s module, and is handed to \<open>B\<close>'s maneuver application unchanged.
\<close>

theorem maneuver_delivered_in_cluster:
  fixes A M B :: "'q rc_ctx"
  assumes stations: "rp_stationType (rc_par A) \<noteq> BACKEND" "rp_stationType (rc_par M) \<noteq> BACKEND"
      "rp_stationType (rc_par B) \<noteq> BACKEND"
    and agents: "rc_membershipControl A = Some ma" "rc_membershipControl M = Some mm" "rc_membershipControl B = Some mb"
      "MembershipControl_isInitialized ma" "devices_ok ma" "devices_ok mm"
    and sender: "MembershipControl_clusterMatch (uint hop) ma = MEMBER_DEVICE"
    and manager: "MembershipControl_clusterMatch (uint hop) mm = MASTER_DEVICE" "\<not> own_address mm (cm_partner_address cm)"
    and receiver: "own_address mb (cm_partner_address cm)"
    and shared: "rc_binder M = rc_binder A" "getNextHop (word_of_int (cm_partner_address cm)) (rc_binder A) = Inr hop"
      "rc_getModule A (getOmnetId hop (rc_binder A)) = Some nameM"
      "rc_getModule M (getOmnetId (word_of_int (cm_partner_address cm)) (rc_binder A)) = Some nameB"
  shows "\<exists>np np'.
     RoutingControl_handleMessage part A ''inUlManeuver'' (MCoopManeuver cm) = Inr [(MPacket np, ''outLlManeuver'')] \<and>
     np_dest np = nameM \<and>
     RoutingControl_handleMessage part M ''inLlManeuver'' (MPacket np) = Inr [(MPacket np', ''outLlManeuver'')] \<and>
     np_dest np' = nameB \<and>
     RoutingControl_handleMessage part B ''inLlManeuver'' (MPacket np') = Inr [(MCoopManeuver cm, ''outUlManeuver'')]"
proof -
  let ?tp = "new_TransportPacket\<lparr>tp_timestamp := cm_timestamp cm,
      tp_chunk_length := rp_sizeManeuverMsg (rc_par A), tp_msg_maneuver := cm,
      tp_dst_mac_id := cm_partner_address cm, tp_msg_type := MANEUVER\<rparr>"
  have gate: "RoutingControl_handleMessage part ctx ''inLlManeuver'' msg = receive_packet ctx msg"
    for ctx :: "'q rc_ctx" and msg
    by (simp add: RoutingControl_handleMessage_def RoutingControl_msgHandlerManeuver_def)
  have send: "RoutingControl_handleMessage part A ''inUlManeuver'' (MCoopManeuver cm) =
      RoutingControl_forwardToNetwork A ?tp MANEUVER"
    using agents(1,4) by (simp add: RoutingControl_handleMessage_def RoutingControl_msgHandlerManeuver_def)
  show ?thesis
    using cluster_relay [of A M B ma mm mb hop ?tp nameM nameB] assms
    by (simp add: gate send out_gate_def deliver_up_def)
qed

theorem maneuver_delivered_in_cluster_witness:
  "\<exists>np np'. RoutingControl_handleMessage stable_partition (cluster_ctx MEMBER_DEVICE 5) ''inUlManeuver''
       (MCoopManeuver (new_CoopManeuver\<lparr>cm_partner_address := 7\<rparr>)) = Inr [(MPacket np, ''outLlManeuver'')] \<and>
     RoutingControl_handleMessage stable_partition (cluster_ctx MASTER_DEVICE 3) ''inLlManeuver'' (MPacket np) =
       Inr [(MPacket np', ''outLlManeuver'')] \<and> np_dest np' = ''member[1]'' \<and>
     RoutingControl_handleMessage stable_partition (cluster_ctx MEMBER_DEVICE 7) ''inLlManeuver'' (MPacket np') =
       Inr [(MCoopManeuver (new_CoopManeuver\<lparr>cm_partner_address := 7\<rparr>), ''outUlManeuver'')]"
  using maneuver_delivered_in_cluster [of "cluster_ctx MEMBER_DEVICE 5" "cluster_ctx MASTER_DEVICE 3"
      "cluster_ctx MEMBER_DEVICE 7" "cluster_agent MEMBER_DEVICE 5" "cluster_agent MASTER_DEVICE 3"
      "cluster_agent MEMBER_DEVICE 7" 3 "new_CoopManeuver\<lparr>cm_partner_address := 7\<rparr>" "''master[0]''" "''member[1]''"
      stable_partition]
  by auto

section \<open>Who is asked and told\<close>

lemma for_each_map:
  "\<forall>x \<in> set xs. f x = Inr [g x] \<Longrightarrow> for_each f xs = Inr (map g xs)"
  by (induction xs) simp_all

text \<open>
  C37. Once localised, a station subscribes with exactly those publishers of its direction whose
  field of view overlaps its region of interest without lying strictly inside it: a publisher
  in the middle of the region is not asked.
\<close>

theorem subscription_targets_exact:
  assumes "Localizer_isLocalized lz" and "0 \<le> ego_fov" and "\<forall>p \<in> set (MembershipControl_readPublishers mc). 0 \<le> p_fov p"
    and "ego_fov = (if ds_roi_tag sub = ''horizon'' then rp_roiHorizon (rc_par ctx) else rp_roiNearby (rc_par ctx))"
  shows "\<exists>ps. subscription_targets ctx mc lz (MDtwinSub sub) = Inr ps \<and>
     (\<forall>p. p \<in> set ps \<longleftrightarrow> p \<in> set (MembershipControl_readPublishers mc) \<and>
        p_direction p = rp_convoyDirection (rc_par ctx) \<and>
        (let lo = lz_ego_position_x lz - ego_fov; hi = lz_ego_position_x lz + ego_fov;
             rlo = cx (p_position p) - p_fov p; rhi = cx (p_position p) + p_fov p
         in lo \<le> rhi \<and> rlo \<le> hi \<and> \<not> (lo < rlo \<and> rhi < hi)))"
proof -
  have "fov_match x ego_fov p \<longleftrightarrow> x - ego_fov \<le> cx (p_position p) + p_fov p \<and>
      cx (p_position p) - p_fov p \<le> x + ego_fov \<and>
      \<not> (x - ego_fov < cx (p_position p) - p_fov p \<and> cx (p_position p) + p_fov p < x + ego_fov)"
    if "0 \<le> p_fov p" for x p
    unfolding fov_match_def Let_def using that assms(2) by linarith
  with assms(1,3,4) show ?thesis
    by (auto simp: subscription_targets_def Let_def same_direction_def)
qed

theorem subscription_targets_exact_witness:
  "subscription_targets (cluster_ctx MEMBER_DEVICE 5) ((cluster_agent MEMBER_DEVICE 5)\<lparr>mc_publishers :=
       [\<lparr>p_name = ''d1rsu[0]'', p_id = 7, p_position = \<lparr>cx = 10, cy = 0, cz = 0\<rparr>, p_fov = 100,
         p_direction = TOP, p_cluster = 3\<rparr>]\<rparr>) sample_localizer (MDtwinSub new_DtwinSub) = Inr []"
proof -
  let ?p = "\<lparr>p_name = ''d1rsu[0]'', p_id = 7, p_position = \<lparr>cx = 10, cy = 0, cz = 0\<rparr>, p_fov = 100,
      p_direction = TOP, p_cluster = 3\<rparr>"
  let ?mc = "(cluster_agent MEMBER_DEVICE 5)\<lparr>mc_publishers := [?p]\<rparr>"
  have lz: "Localizer_isLocalized sample_localizer" "lz_ego_position_x sample_localizer = 10"
    by (simp_all add: sample_localizer_def Localizer_isLocalized_def)
  have pubs: "MembershipControl_readPublishers ?mc = [?p]" by (simp add: MembershipControl_readPublishers_def)
  have fov: "(300::real) = (if ds_roi_tag new_DtwinSub = ''horizon'' then rp_roiHorizon (rc_par (cluster_ctx MEMBER_DEVICE 5))
      else rp_roiNearby (rc_par (cluster_ctx MEMBER_DEVICE 5)))"
    by (simp add: new_DtwinSub_def sample_rc_par_def)
  obtain ps where ps: "subscription_targets (cluster_ctx MEMBER_DEVICE 5) ?mc sample_localizer (MDtwinSub new_DtwinSub) = Inr ps"
      "\<And>p. p \<in> set ps \<Longrightarrow> p = ?p \<and> \<not> (lz_ego_position_x sample_localizer - 300 < cx (p_position p) - p_fov p \<and>
         cx (p_position p) + p_fov p < lz_ego_position_x sample_localizer + 300)"
    using subscription_targets_exact [OF lz(1) _ _ fov, of ?mc] unfolding pubs Let_def by auto
  have "ps = []" using ps(2) lz(2) by (cases ps) force+
  with ps(1) show ?thesis by simp
qed

text \<open>A destination the station can send to, with the module of the next hop.\<close>

definition reachable_from :: "'q rc_ctx \<Rightarrow> 'q MembershipControl \<Rightarrow> int \<Rightarrow> bool" where
  "reachable_from ctx mc dst \<longleftrightarrow>
     (case getNextHop (word_of_int dst) (rc_binder ctx) of
        Inl _ \<Rightarrow> False
      | Inr hop \<Rightarrow> uint hop \<in> {getAddressOfManagerForPrimaryDevice mc, getAddressOfManagerForGatewayDevice mc} \<and>
          rc_getModule ctx (getOmnetId (word_of_int (hop_address mc dst (uint hop))) (rc_binder ctx)) \<noteq> None)"

definition sent_to :: "out_msg list \<Rightarrow> int list" where
  "sent_to out = map (\<lambda>(m, gate). case m of MPacket np \<Rightarrow> tp_dst_mac_id (np_front np) | _ \<Rightarrow> 0) out"

lemma forward_reachable:
  assumes "rc_membershipControl ctx = Some mc" and "devices_ok mc" and "ty \<noteq> UNKNOWN"
    and "rp_stationType (rc_par ctx) \<noteq> BACKEND" and "reachable_from ctx mc (tp_dst_mac_id tp)"
  shows "\<exists>np. RoutingControl_forwardToNetwork ctx tp ty = Inr [(MPacket np, out_gate ty)] \<and>
     tp_dst_mac_id (np_front np) = tp_dst_mac_id tp"
proof -
  obtain hop dest where "getNextHop (word_of_int (tp_dst_mac_id tp)) (rc_binder ctx) = Inr hop"
      "uint hop \<in> {getAddressOfManagerForPrimaryDevice mc, getAddressOfManagerForGatewayDevice mc}"
      "rc_getModule ctx (getOmnetId (word_of_int (hop_address mc (tp_dst_mac_id tp) (uint hop))) (rc_binder ctx)) = Some dest"
    using assms(5) by (auto simp: reachable_from_def split: sum.splits)
  with forwardToNetwork_eq [OF assms(1-4)] show ?thesis by (auto simp: Let_def)
qed

lemma for_each_sent_to:
  assumes "\<forall>x \<in> set xs. \<exists>np. f x = Inr [(MPacket np, g)] \<and> tp_dst_mac_id (np_front np) = dst x"
  shows "\<exists>out. for_each f xs = Inr out \<and> sent_to out = map dst xs"
  using assms by (induction xs) (auto simp: sent_to_def)

text \<open>
  A vehicle sends its member report once to every publisher of its own cluster that serves
  its direction, and, if there is none, once to every publisher of its direction.
\<close>

theorem member_report_targets:
  assumes "std_partition part" and "rc_membershipControl ctx = Some mc" and "devices_ok mc"
    and "rp_stationType (rc_par ctx) = VEHICLE"
    and "\<forall>p \<in> set (same_direction (rc_par ctx) (MembershipControl_readPublishers mc)). reachable_from ctx mc (p_id p)"
  shows "\<exists>out. RoutingControl_handleMessage part ctx ''inUlMemberReport'' (MMemberStatus ms) = Inr out \<and>
     (let all = same_direction (rc_par ctx) (MembershipControl_readPublishers mc);
          own = filter (\<lambda>p. p_cluster p = getAddressOfManagerForPrimaryDevice mc) all
      in mset (sent_to out) = mset (map p_id (if own = [] then all else own)))"
proof -
  let ?all = "same_direction (rc_par ctx) (MembershipControl_readPublishers mc)"
  let ?P = "\<lambda>p. p_cluster p = getAddressOfManagerForPrimaryDevice mc"
  let ?targets = "report_targets part (rc_par ctx) mc"
  obtain fs bs where fb: "part ?P ?all = (fs, bs)" by (cases "part ?P ?all")
  have ranges: "mset fs = mset (filter ?P ?all)" "mset fs + mset bs = mset ?all"
    using std_partition.front_mset [OF assms(1), of ?P ?all] std_partition.part_mset [OF assms(1), of ?P ?all] fb
    by simp_all
  have "fs = [] \<longleftrightarrow> filter ?P ?all = []"
    using ranges(1) by (metis mset_zero_iff)
  moreover have "?targets = (if fs = [] then fs @ bs else fs)"
    using fb by (simp add: report_targets_def)
  ultimately have targets: "mset ?targets = mset (if filter ?P ?all = [] then ?all else filter ?P ?all)"
    using ranges by (cases "fs = []") simp_all
  have "set ?targets \<subseteq> set ?all" using mset_eq_setD [OF targets] by (simp split: if_splits)
  let ?send = "\<lambda>p. RoutingControl_forwardToNetwork ctx
      ((report_packet (rc_par ctx) ms)\<lparr>tp_dst_mac_id := p_id p\<rparr>) MEMBER_STATUS"
  have "\<forall>p \<in> set ?targets. \<exists>np. ?send p = Inr [(MPacket np, out_gate MEMBER_STATUS)] \<and> tp_dst_mac_id (np_front np) = p_id p"
    using forward_reachable [OF assms(2,3), of MEMBER_STATUS "(report_packet (rc_par ctx) ms)\<lparr>tp_dst_mac_id := p_id p\<rparr>" for p]
      assms(4,5) \<open>set ?targets \<subseteq> set ?all\<close> by auto
  from for_each_sent_to [OF this] obtain out
    where "for_each ?send ?targets = Inr out" "sent_to out = map p_id ?targets" by blast
  with targets assms(2,4) show ?thesis
    by (auto simp: RoutingControl_handleMessage_def RoutingControl_msgHandlerMemberReport_def Let_def)
qed

lemma cluster_reachable: "reachable_from (cluster_ctx ty a) (cluster_agent ty a) 7"
  by (simp add: reachable_from_def hop_address_def)

theorem member_report_targets_witness:
  "\<exists>out. RoutingControl_handleMessage stable_partition
      ((cluster_ctx MEMBER_DEVICE 5)\<lparr>rc_membershipControl := Some ((cluster_agent MEMBER_DEVICE 5)\<lparr>mc_publishers :=
         [\<lparr>p_name = ''d1rsu[0]'', p_id = 7, p_position = \<lparr>cx = 10, cy = 0, cz = 0\<rparr>, p_fov = 100,
           p_direction = TOP, p_cluster = 3\<rparr>]\<rparr>)\<rparr>) ''inUlMemberReport'' (MMemberStatus new_MemberStatus) = Inr out \<and>
    sent_to out = [7]"
proof -
  let ?p = "\<lparr>p_name = ''d1rsu[0]'', p_id = 7, p_position = \<lparr>cx = 10, cy = 0, cz = 0\<rparr>, p_fov = 100,
      p_direction = TOP, p_cluster = 3\<rparr>"
  let ?mc = "(cluster_agent MEMBER_DEVICE 5)\<lparr>mc_publishers := [?p]\<rparr>"
  let ?ctx = "(cluster_ctx MEMBER_DEVICE 5)\<lparr>rc_membershipControl := Some ?mc\<rparr>"
  have pubs: "same_direction (rc_par ?ctx) (MembershipControl_readPublishers ?mc) = [?p]"
    by (simp add: same_direction_def MembershipControl_readPublishers_def)
  have mc: "getAddressOfManagerForPrimaryDevice ?mc = 3" "devices_ok ?mc" "reachable_from ?ctx ?mc 7"
    using cluster_agent_simps(1,6) [of MEMBER_DEVICE 5] cluster_reachable [of MEMBER_DEVICE 5]
    by (simp_all add: getAddressOfManagerForPrimaryDevice_def getAddressOfManagerForGatewayDevice_def devices_ok_def
        reachable_from_def hop_address_def MembershipControl_clusterMatch_def)
  show ?thesis
    using member_report_targets [OF stable.std_partition_axioms, of ?ctx ?mc new_MemberStatus] mc
    unfolding pubs Let_def by auto
qed

section \<open>The path of a member report\<close>

lemma rsu_relays_report:
  assumes "rp_stationType (rc_par R) = RSU" and "rp_convoyDirection (rc_par R) = TOP"
  shows "RoutingControl_handleMessage part R ''inLlMemberReport'' (MPacket np) =
     Inr [(MPacket \<lparr>np_name = ''member_report'', np_front = np_front np, np_dest = ''backendTop'',
       np_port = rp_destPortMemberReport (rc_par R)\<rparr>, ''outBkndMemberReport'')]"
  using assms by (simp add: RoutingControl_handleMessage_def RoutingControl_msgHandlerMemberReport_def
      RoutingControl_forwardToBackend_def Let_def)

lemma backend_delivers_report:
  assumes "rp_stationType (rc_par B) = BACKEND" and "tp_msg_type (np_front np) = MEMBER_STATUS"
  shows "RoutingControl_handleMessage part B ''inLlMemberReport'' (MPacket np) =
     Inr [(MMemberStatus (tp_msg_member_status (np_front np)), ''outUlMemberControl'')]"
  using assms by (simp add: RoutingControl_handleMessage_def RoutingControl_msgHandlerMemberReport_def
      receive_packet_def RoutingControl_receiveFromNetwork_def)

lemma member_sends_report:
  assumes "std_partition part" and "rp_stationType (rc_par V) = VEHICLE" and "rc_membershipControl V = Some mc"
    and "devices_ok mc" and "MembershipControl_clusterMatch (uint hop) mc = MEMBER_DEVICE"
    and "same_direction (rc_par V) (MembershipControl_readPublishers mc) = [rsu]"
    and "getNextHop (word_of_int (p_id rsu)) (rc_binder V) = Inr hop"
    and "rc_getModule V (getOmnetId hop (rc_binder V)) = Some name"
  shows "\<exists>np. RoutingControl_handleMessage part V ''inUlMemberReport'' (MMemberStatus ms) =
       Inr [(MPacket np, ''outLlMemberReport'')] \<and> np_dest np = name \<and>
     tp_msg_member_status (np_front np) = ms \<and> tp_msg_type (np_front np) = MEMBER_STATUS"
proof -
  let ?tp = "(report_packet (rc_par V) ms)\<lparr>tp_dst_mac_id := p_id rsu\<rparr>"
  have "report_targets part (rc_par V) mc = [rsu]"
    using std_partition.targets_single [OF assms(1)] assms(6) by (simp add: report_targets_def Let_def split_def)
  then have "RoutingControl_handleMessage part V ''inUlMemberReport'' (MMemberStatus ms) =
      RoutingControl_forwardToNetwork V ?tp MEMBER_STATUS"
    using assms(2,3) by (cases "RoutingControl_forwardToNetwork V ?tp MEMBER_STATUS")
      (simp_all add: RoutingControl_handleMessage_def RoutingControl_msgHandlerMemberReport_def)
  then show ?thesis
    using forwardToNetwork_eq [OF assms(3,4), of MEMBER_STATUS ?tp hop] assms(2,5,7,8)
      membership.member_hop [OF assms(4,5)]
    by (simp add: Let_def hop_address_def report_packet_def out_gate_def)
qed

end
