(* ===== verification/Perception.thy ===== *)
theory Perception
  imports Dtwin_Store
begin

text \<open>
  \<^verbatim>\<open>apps/Detector\<close> and \<^verbatim>\<open>apps/Tracker\<close>: a station's sensor, which lists the traffic objects in
  its field of view at every update, and the tracker that hands each list on.  The modules of the
  simulated traffic (their name, position and rotation angle) are the argument \<open>world\<close>.
\<close>

section \<open>Detector\<close>

text \<open>A traffic object: \<open>wo_angle\<close> is \<^verbatim>\<open>getCurrentAngularPosition().getRotationAngle()\<close>.\<close>

record world_object =
  wo_fullName :: string
  wo_detectorStationType :: string
  wo_position :: Coord
  wo_angle :: real

text \<open>The submodule vectors of the system module; an element may be missing.\<close>

type_synonym world = "string \<Rightarrow> world_object option list option"

record 'q Detector =
  de_fov_limit_range :: real
  de_fov_limit_angle_min :: real
  de_fov_limit_angle_max :: real
  de_detected_objects :: ObjectList
  de_detected_object_classes :: "string list"
  de_queue :: 'q

record detector_par =
  dp_fovLimitRange :: real
  dp_fovLimitAngleMin :: real
  dp_fovLimitAngleMax :: real
  dp_times :: app_times
  dp_detectedClasses :: string

text \<open>Reading the class list with \<^verbatim>\<open>std::getline(..., ',')\<close> while the stream is good.\<close>

fun split_classes :: "string \<Rightarrow> string list" where
  "split_classes [] = [[]]"
| "split_classes (c # cs) =
     (if c = CHR 0x2C then [] # split_classes cs
      else (case split_classes cs of [] \<Rightarrow> [[c]] | w # ws \<Rightarrow> (c # w) # ws))"

definition Detector_initialize ::
  "'q kernel \<Rightarrow> detector_par \<Rightarrow> simtime \<Rightarrow> 'q \<Rightarrow> 'q Detector" where
  "Detector_initialize K par now q =
     \<lparr>de_fov_limit_range = dp_fovLimitRange par, de_fov_limit_angle_min = dp_fovLimitAngleMin par,
      de_fov_limit_angle_max = dp_fovLimitAngleMax par, de_detected_objects = new_ObjectList,
      de_detected_object_classes = split_classes (dp_detectedClasses par),
      de_queue = schedule_start K now (at_start (dp_times par)) (at_stop (dp_times par)) q\<rparr>"

text \<open>\<^verbatim>\<open>inet::Coord::distance\<close>.\<close>

definition coord_distance :: "Coord \<Rightarrow> Coord \<Rightarrow> real" where
  "coord_distance a b = sqrt ((cx a - cx b)\<^sup>2 + (cy a - cy b)\<^sup>2 + (cz a - cz b)\<^sup>2)"

definition in_fov :: "'q Detector \<Rightarrow> station \<Rightarrow> world_object \<Rightarrow> bool" where
  "in_fov de stn obj \<longleftrightarrow> \<bar>coord_distance (wo_position obj) (st_position stn)\<bar> \<le> de_fov_limit_range de \<and>
     de_fov_limit_angle_min de \<le> wo_angle obj \<and> wo_angle obj < de_fov_limit_angle_max de"

definition append_detection :: "simtime \<Rightarrow> world_object \<Rightarrow> ObjectList \<Rightarrow> ObjectList" where
  "append_detection now obj ol =
     ol\<lparr>ol_object_id := ol_object_id ol @ [wo_fullName obj],
        ol_object_type := ol_object_type ol @ [wo_detectorStationType obj],
        ol_object_position_x := ol_object_position_x ol @ [cx (wo_position obj)],
        ol_object_position_y := ol_object_position_y ol @ [cy (wo_position obj)],
        ol_object_position_z := ol_object_position_z ol @ [0],
        ol_object_heading := ol_object_heading ol @ [wo_angle obj],
        ol_object_timestamp := ol_object_timestamp ol @ [to_u64 now],
        ol_object_address := ol_object_address ol @ [- 1],
        ol_n_objects := ol_n_objects ol + 1\<rparr>"

definition detect_object ::
  "'q Detector \<Rightarrow> station \<Rightarrow> simtime \<Rightarrow> world_object option \<Rightarrow> ObjectList \<Rightarrow> ObjectList" where
  "detect_object de stn now x ol =
     (case x of None \<Rightarrow> ol
      | Some obj \<Rightarrow> if in_fov de stn obj then append_detection now obj ol else ol)"

text \<open>All elements of the vector of a class, in order; nothing for a class without a vector.\<close>

definition class_objects :: "world \<Rightarrow> string \<Rightarrow> world_object option list" where
  "class_objects world c = (case world c of None \<Rightarrow> [] | Some objs \<Rightarrow> objs)"

definition Detector_gatherDetectedObjects ::
  "station \<Rightarrow> world \<Rightarrow> simtime \<Rightarrow> 'q Detector \<Rightarrow> 'q Detector" where
  "Detector_gatherDetectedObjects stn world now de =
     (let ol = (de_detected_objects de)\<lparr>ol_n_objects := 0, ol_object_id := [], ol_object_type := [],
                 ol_object_address := [], ol_object_timestamp := [], ol_object_position_x := [],
                 ol_object_position_y := [], ol_object_position_z := [], ol_object_heading := []\<rparr>;
          ol = ol\<lparr>ol_timestamp := to_u64 now, ol_station_id := st_fullName stn,
                  ol_station_type := st_detectorStationType stn,
                  ol_station_position_x := cx (st_position stn),
                  ol_station_position_y := cy (st_position stn)\<rparr>;
          ol = fold (\<lambda>c. fold (detect_object de stn now) (class_objects world c))
                 (de_detected_object_classes de) ol
      in de\<lparr>de_detected_objects := ol\<rparr>)"

definition Detector_updateDetections ::
  "station \<Rightarrow> world \<Rightarrow> simtime \<Rightarrow> 'q Detector \<Rightarrow> 'q Detector" where
  "Detector_updateDetections stn world now de = Detector_gatherDetectedObjects stn world now de"

definition Detector_publishDetectedObjects :: "'q Detector \<Rightarrow> out_msg" where
  "Detector_publishDetectedObjects de = (MObjectList (de_detected_objects de), ''detectionsEgo'')"

definition Detector_handleMessage ::
  "'q kernel \<Rightarrow> detector_par \<Rightarrow> station \<Rightarrow> world \<Rightarrow> simtime \<Rightarrow> app_msg in_msg \<Rightarrow> 'q Detector
    \<Rightarrow> 'q Detector \<times> out_msg list" where
  "Detector_handleMessage K par stn world now msg de =
     (let (de, out) =
            (case msg of
               SelfMsg ev \<Rightarrow>
                 (let (de, out) =
                        (if ev = ''startEvent'' then (de, [])
                         else if ev = ''updateEvent''
                         then (let de = Detector_updateDetections stn world now de
                               in (de, [Detector_publishDetectedObjects de]))
                         else (de, []))
                  in (de\<lparr>de_queue := schedule_update K now (at_rate (dp_times par)) (de_queue de)\<rparr>, out))
             | ExtMsg gate m \<Rightarrow> (de, []))
      in (de\<lparr>de_queue := stop_check K now (at_stop (dp_times par)) (de_queue de)\<rparr>, out))"

definition Detector_tick ::
  "'q kernel \<Rightarrow> detector_par \<Rightarrow> station \<Rightarrow> world \<Rightarrow> simtime \<Rightarrow> 'q Detector \<Rightarrow> 'q Detector \<times> out_msg list" where
  "Detector_tick K par stn world now de = Detector_handleMessage K par stn world now (SelfMsg ''updateEvent'')
     (de\<lparr>de_queue := k_deliver K ''updateEvent'' (de_queue de)\<rparr>)"

section \<open>Tracker\<close>

record Tracker =
  tr_tracked_objects :: ObjectList

definition Tracker_initialize :: Tracker where
  "Tracker_initialize = \<lparr>tr_tracked_objects = new_ObjectList\<rparr>"

definition Tracker_updateTrackedObjects :: "ObjectList \<Rightarrow> Tracker \<Rightarrow> Tracker" where
  "Tracker_updateTrackedObjects detected_objects tr = tr\<lparr>tr_tracked_objects := detected_objects\<rparr>"

definition Tracker_publishTrackedObjects :: "Tracker \<Rightarrow> out_msg" where
  "Tracker_publishTrackedObjects tr = (MObjectList (tr_tracked_objects tr), ''dtwinCollective'')"

definition Tracker_handleMessage :: "app_msg in_msg \<Rightarrow> Tracker \<Rightarrow> (Tracker \<times> out_msg list) res" where
  "Tracker_handleMessage msg tr =
     (case msg of
        SelfMsg ev \<Rightarrow> Inr (tr, [])
      | ExtMsg gate m \<Rightarrow>
          (case m of
             MObjectList detected_objects \<Rightarrow>
               (let tr = Tracker_updateTrackedObjects detected_objects tr
                in Inr (tr, [Tracker_publishTrackedObjects tr]))
           | _ \<Rightarrow> Inl CastError))"

section \<open>What the detector lists\<close>

text \<open>The class list is read back from its comma-separated spelling.\<close>

fun join_classes :: "string list \<Rightarrow> string" where
  "join_classes [] = []"
| "join_classes [w] = w"
| "join_classes (w # ws) = w @ CHR 0x2C # join_classes ws"

lemma split_classes_not_Nil [simp]: "split_classes s \<noteq> []"
  by (induction s) (auto split: list.splits)

lemma split_classes_word: "CHR 0x2C \<notin> set w \<Longrightarrow> split_classes w = [w]"
  by (induction w) auto

lemma split_classes_append:
  "CHR 0x2C \<notin> set w \<Longrightarrow> split_classes (w @ CHR 0x2C # s) = w # split_classes s"
  by (induction w) auto

lemma split_join_classes:
  "ws \<noteq> [] \<Longrightarrow> \<forall>w \<in> set ws. CHR 0x2C \<notin> set w \<Longrightarrow> split_classes (join_classes ws) = ws"
  by (induction ws rule: join_classes.induct) (auto simp: split_classes_word split_classes_append)

text \<open>The objects a station sees: present, of a detected class, and in the field of view.\<close>

definition present :: "'a option list \<Rightarrow> 'a list" where
  "present xs = map the (filter (\<lambda>x. x \<noteq> None) xs)"

definition visible_objects :: "'q Detector \<Rightarrow> station \<Rightarrow> world \<Rightarrow> world_object list" where
  "visible_objects de stn world =
     filter (in_fov de stn) (present (concat (map (class_objects world) (de_detected_object_classes de))))"

lemma present_simps [simp]:
  "present [] = []"
  "present (None # xs) = present xs"
  "present (Some x # xs) = x # present xs"
  "present (xs @ ys) = present xs @ present ys"
  by (simp_all add: present_def)

definition append_detections :: "simtime \<Rightarrow> world_object list \<Rightarrow> ObjectList \<Rightarrow> ObjectList" where
  "append_detections now objs ol =
     ol\<lparr>ol_object_id := ol_object_id ol @ map wo_fullName objs,
        ol_object_type := ol_object_type ol @ map wo_detectorStationType objs,
        ol_object_position_x := ol_object_position_x ol @ map (\<lambda>obj. cx (wo_position obj)) objs,
        ol_object_position_y := ol_object_position_y ol @ map (\<lambda>obj. cy (wo_position obj)) objs,
        ol_object_position_z := ol_object_position_z ol @ map (\<lambda>_. 0) objs,
        ol_object_heading := ol_object_heading ol @ map wo_angle objs,
        ol_object_timestamp := ol_object_timestamp ol @ map (\<lambda>_. to_u64 now) objs,
        ol_object_address := ol_object_address ol @ map (\<lambda>_. - 1) objs,
        ol_n_objects := ol_n_objects ol + int (length objs)\<rparr>"

lemma append_detections_simps [simp]:
  "append_detections now [] ol = ol"
  "append_detections now ys (append_detections now xs ol) = append_detections now (xs @ ys) ol"
  "append_detections now xs (append_detection now x ol) = append_detections now (x # xs) ol"
  by (simp_all add: append_detections_def append_detection_def)

lemma fold_detect_object:
  "fold (detect_object de stn now) xs ol = append_detections now (filter (in_fov de stn) (present xs)) ol"
  by (induction xs arbitrary: ol) (auto simp: detect_object_def split: option.splits)

lemma fold_detect_classes:
  "fold (\<lambda>c. fold (detect_object de stn now) (class_objects world c)) cs ol =
     append_detections now (filter (in_fov de stn) (present (concat (map (class_objects world) cs)))) ol"
  by (induction cs arbitrary: ol) (simp_all add: fold_detect_object)

lemma gather_eq:
  "de_detected_objects (Detector_gatherDetectedObjects stn world now de) =
     append_detections now (visible_objects de stn world)
       (new_ObjectList\<lparr>ol_timestamp := to_u64 now, ol_station_id := st_fullName stn,
          ol_station_type := st_detectorStationType stn, ol_station_position_x := cx (st_position stn),
          ol_station_position_y := cy (st_position stn),
          ol_obj_byte_size := ol_obj_byte_size (de_detected_objects de)\<rparr>)"
  by (simp add: Detector_gatherDetectedObjects_def Let_def fold_detect_classes visible_objects_def
      append_detections_def new_ObjectList_def)

lemma ol_wf_append_detections: "ol_wf ol \<Longrightarrow> ol_wf (append_detections now objs ol)"
  by (simp add: ol_wf_def append_detections_def)

lemma Detector_tick_eq:
  "Detector_tick K par stn world now de =
     (let de' = Detector_gatherDetectedObjects stn world now de
      in (de'\<lparr>de_queue := stop_check K now (at_stop (dp_times par)) (schedule_update K now
            (at_rate (dp_times par)) (k_deliver K ''updateEvent'' (de_queue de)))\<rparr>,
          [(MObjectList (de_detected_objects de'), ''detectionsEgo'')]))"
proof -
  have "visible_objects (de\<lparr>de_queue := q\<rparr>) stn world = visible_objects de stn world" for q
    by (simp add: visible_objects_def in_fov_def [abs_def])
  then show ?thesis
    by (simp add: Detector_tick_def Detector_handleMessage_def Detector_updateDetections_def
        Detector_publishDetectedObjects_def Let_def)
       (simp add: Detector_gatherDetectedObjects_def Let_def fold_detect_classes visible_objects_def)
qed

interpretation detector: periodic_app fes_kernel "\<lambda>now de. fst (Detector_tick fes_kernel par stn world now de)"
    de_queue "at_rate (dp_times par)" "at_stop (dp_times par)" for par stn world
  by unfold_locales (simp add: Detector_tick_eq Let_def)

text \<open>
  C38. At every update the detector publishes exactly the traffic objects that are present, of a
  detected class and in its field of view, in the order of the classes, each with its name,
  type, plane position and rotation angle, stamped with the current time; the object count is
  their number and every array has an entry for each of them.
\<close>

theorem Detector_lists_visible_objects:
  "\<exists>de' ol. Detector_tick K par stn world now de = (de', [(MObjectList ol, ''detectionsEgo'')]) \<and>
     de_detected_objects de' = ol \<and> ol_wf ol \<and> ol_timestamp ol = to_u64 now \<and>
     (let vis = visible_objects de stn world
      in ol_n_objects ol = int (length vis) \<and> ol_object_id ol = map wo_fullName vis \<and>
         ol_object_type ol = map wo_detectorStationType vis \<and>
         ol_object_position_x ol = map (\<lambda>obj. cx (wo_position obj)) vis \<and>
         ol_object_position_y ol = map (\<lambda>obj. cy (wo_position obj)) vis \<and>
         ol_object_position_z ol = replicate (length vis) 0 \<and>
         ol_object_heading ol = map wo_angle vis \<and>
         ol_object_timestamp ol = replicate (length vis) (to_u64 now) \<and>
         ol_object_address ol = replicate (length vis) (- 1))"
  by (simp add: Detector_tick_eq Let_def gather_eq ol_wf_append_detections)
     (simp add: ol_wf_def append_detections_def new_ObjectList_def map_replicate_const)

end
