(* ===== verification/Highway_Scenario.thy ===== *)
theory Highway_Scenario
  imports Routing_Control Perception
begin

text \<open>
  \<^verbatim>\<open>nodes/BaseNode\<close> and \<^verbatim>\<open>scenarios/highway/HighwayScenario\<close>: the scenario places one roadside
  unit per direction at every round of its timer and connects it to the backend; every station
  finds out on which side of the road it stands and starts its membership control.  The position
  that the mobility module of a station reports is the argument \<open>loc\<close>.
\<close>

section \<open>Stations\<close>

record station_cfg =
  sc_stationID :: string
  sc_stationType :: StationType
  sc_convoyDirection :: ConvoyDirection
  sc_mobilityType :: string
  sc_detectorStationType :: string
  sc_detectorFovTag :: string
  sc_detectorFovLimitRange :: real
  sc_detectorFovLimitAngleMin :: real
  sc_detectorFovLimitAngleMax :: real
  sc_hasDtwinSub :: bool

text \<open>The defaults of \<^verbatim>\<open>BaseNode.ned\<close>.\<close>

definition default_cfg :: station_cfg where
  "default_cfg = \<lparr>sc_stationID = ''d1rsu[0]'', sc_stationType = VEHICLE, sc_convoyDirection = DIR_UNDEFINED,
     sc_mobilityType = ''VeinsInetMobility'', sc_detectorStationType = ''vehicle'', sc_detectorFovTag = ''down'',
     sc_detectorFovLimitRange = 100, sc_detectorFovLimitAngleMin = - 314 / 100,
     sc_detectorFovLimitAngleMax = 314 / 100, sc_hasDtwinSub = True\<rparr>"

text \<open>
  A station: \<open>bs_routing_direction\<close> is the parameter \<^verbatim>\<open>convoyDirection\<close> of its routing control,
  \<open>bs_gates\<close> the connections made at run time.
\<close>

record 'q BaseNode =
  bs_fullName :: string
  bs_cfg :: station_cfg
  bs_display :: "real \<times> real"
  bs_routing_direction :: ConvoyDirection
  bs_gates :: "(string \<times> string) list"
  bs_agent :: "'q MembershipControl option"
  bs_queue :: 'q

record scenario_par =
  n_stations :: int
  road_top_start_x :: real
  road_top_start_y :: real
  road_bot_start_x :: real
  road_bot_start_y :: real
  road_lx :: real
  road_ly :: real
  station_top_start_x :: real
  station_bot_start_x :: real
  station_top_start_y :: real
  station_bot_start_y :: real
  station_lx :: real
  station_ly :: real
  inter_station_distance :: real
  station_init_time_gap :: simtime
  station_fov_range :: real

definition BaseNode_initialize :: "'q kernel \<Rightarrow> simtime \<Rightarrow> 'q BaseNode \<Rightarrow> 'q BaseNode" where
  "BaseNode_initialize K now node =
     node\<lparr>bs_cfg := (bs_cfg node)\<lparr>sc_stationID := bs_fullName node\<rparr>,
          bs_queue := k_scheduleAt K now ''setupMembershipControl'' (bs_queue node)\<rparr>"

definition BaseNode_getStationType :: "'q BaseNode \<Rightarrow> StationType" where
  "BaseNode_getStationType node = sc_stationType (bs_cfg node)"

definition BaseNode_getDirection :: "scenario_par \<Rightarrow> Coord \<Rightarrow> ConvoyDirection" where
  "BaseNode_getDirection par loc =
     (let center_y = (road_top_start_y par + road_bot_start_y par) / 2
      in if cy loc \<le> center_y then TOP else DOWN)"

text \<open>What the new agent reads from its node: the parameters of the node at that moment.\<close>

definition agent_env :: "'q mc_env \<Rightarrow> Coord \<Rightarrow> simtime \<Rightarrow> 'q BaseNode \<Rightarrow> 'q mc_env" where
  "agent_env env loc now node = env\<lparr>
     env_par := (env_par env)\<lparr>convoyDirection := sc_convoyDirection (bs_cfg node)\<rparr>,
     env_base := \<lparr>bn_fullName = bs_fullName node, bn_stationType = BaseNode_getStationType node,
                  bn_location = loc, bn_detectorFovLimitRange = sc_detectorFovLimitRange (bs_cfg node)\<rparr>,
     env_now := now\<rparr>"

definition BaseNode_setupMembershipControl ::
  "'q mc_env \<Rightarrow> Coord \<Rightarrow> simtime \<Rightarrow> 'q \<Rightarrow> 'q BaseNode \<times> sim \<Rightarrow> ('q BaseNode \<times> sim) res" where
  "BaseNode_setupMembershipControl env loc now q = (\<lambda>(node, s).
     rbind (MembershipControl_initialize (agent_env env loc now node) q s) (\<lambda>(agent, s).
       Inr (node\<lparr>bs_agent := Some agent,
                 bs_gates := bs_gates node @
                   [(''routingControl.outUlMemberControl'', ''membershipControl.in''),
                    (''membershipControl.out'', ''routingControl.inUlMemberReport'')]\<rparr>, s)))"

definition BaseNode_handleMessage ::
  "scenario_par \<Rightarrow> 'q mc_env \<Rightarrow> Coord \<Rightarrow> simtime \<Rightarrow> 'q \<Rightarrow> 'm in_msg \<Rightarrow> 'q BaseNode \<times> sim
    \<Rightarrow> ('q BaseNode \<times> sim) res" where
  "BaseNode_handleMessage par env loc now q msg = (\<lambda>(node, s).
     case msg of
       SelfMsg name \<Rightarrow>
         if name = ''setupMembershipControl''
         then (let dir = BaseNode_getDirection par loc
               in BaseNode_setupMembershipControl env loc now q
                    (node\<lparr>bs_cfg := (bs_cfg node)\<lparr>sc_convoyDirection := dir\<rparr>,
                          bs_routing_direction := dir\<rparr>, s))
         else Inr (node, s)
     | ExtMsg _ _ \<Rightarrow> Inr (node, s))"

section \<open>The highway\<close>

text \<open>
  \<open>hs_vectors\<close> are the submodule vectors of the network with their sizes, \<open>hs_roads\<close> the two
  drawn road surfaces.
\<close>

record 'q HighwayScenario =
  hs_counter :: int
  hs_roads :: "(string \<times> real \<times> real \<times> real \<times> real) list"
  hs_rsus :: "'q BaseNode list"
  hs_vectors :: "(string, int) smap"
  hs_queue :: 'q

text \<open>\<^verbatim>\<open>std::to_string\<close> of a non-negative number.\<close>

fun to_string :: "nat \<Rightarrow> string" where
  "to_string n = (if n < 10 then [char_of (48 + n)] else to_string (n div 10) @ [char_of (48 + n mod 10)])"

declare to_string.simps [simp del]

definition direction_no :: "ConvoyDirection \<Rightarrow> nat" where
  "direction_no d = (case d of DIR_UNDEFINED \<Rightarrow> 0 | TOP \<Rightarrow> 1 | DOWN \<Rightarrow> 2)"

definition rsu_vector :: "ConvoyDirection \<Rightarrow> string" where
  "rsu_vector d = ''d'' @ to_string (direction_no d) @ ''rsu''"

definition element_name :: "string \<Rightarrow> int \<Rightarrow> string" where
  "element_name vector i = vector @ ''['' @ to_string (nat i) @ '']''"

definition HighwayScenario_drawRoad ::
  "string \<Rightarrow> real \<Rightarrow> real \<Rightarrow> real \<Rightarrow> real \<Rightarrow> 'q HighwayScenario \<Rightarrow> 'q HighwayScenario" where
  "HighwayScenario_drawRoad name x y lx ly hs = hs\<lparr>hs_roads := hs_roads hs @ [(name, x, y, lx, ly)]\<rparr>"

definition HighwayScenario_initialize ::
  "'q kernel \<Rightarrow> scenario_par \<Rightarrow> simtime \<Rightarrow> (string, int) smap \<Rightarrow> 'q \<Rightarrow> 'q HighwayScenario" where
  "HighwayScenario_initialize K par now vectors q =
     (let hs = \<lparr>hs_counter = 0, hs_roads = [], hs_rsus = [], hs_vectors = vectors, hs_queue = q\<rparr>;
          hs = HighwayScenario_drawRoad ''road_top'' (road_top_start_x par) (road_top_start_y par)
                 (road_lx par) (road_ly par) hs;
          hs = HighwayScenario_drawRoad ''road_bot'' (road_bot_start_x par) (road_bot_start_y par)
                 (road_lx par) (road_ly par) hs
      in hs\<lparr>hs_queue := k_scheduleAt K now ''setupRSU'' (hs_queue hs)\<rparr>)"

text \<open>The parameters that \<^verbatim>\<open>createInitRSU\<close> sets, and the backend interface it looks up.\<close>

definition rsu_cfg :: "scenario_par \<Rightarrow> string \<Rightarrow> ConvoyDirection \<Rightarrow> station_cfg" where
  "rsu_cfg par name direction =
     (let cfg = default_cfg\<lparr>sc_stationID := name\<rparr>;
          cfg = (if direction = DOWN
                 then cfg\<lparr>sc_detectorFovTag := ''down'', sc_detectorFovLimitAngleMin := 0,
                          sc_detectorFovLimitAngleMax := 313 / 100\<rparr>
                 else cfg\<lparr>sc_detectorFovTag := ''top'', sc_detectorFovLimitAngleMin := 314 / 100,
                          sc_detectorFovLimitAngleMax := 627 / 100\<rparr>)
      in cfg\<lparr>sc_stationType := RSU, sc_convoyDirection := direction, sc_mobilityType := ''StationaryMobility'',
             sc_detectorStationType := ''rsu'', sc_detectorFovLimitRange := station_fov_range par,
             sc_hasDtwinSub := False\<rparr>)"

definition backend_vector :: "ConvoyDirection \<Rightarrow> string" where
  "backend_vector direction = (if direction = DOWN then ''backendInterfaceBot'' else ''backendInterfaceTop'')"

text \<open>The connections to the backend interface.\<close>

definition backend_gates :: "string \<Rightarrow> (string \<times> string) list" where
  "backend_gates bi = [(''outBkndPublisher'', bi @ ''.inBkndPublisher''),
     (''outBkndMemberReport'', bi @ ''.inBkndMemberReport''), (bi @ ''.outBkndMemberControl'', ''inBkndMemberControl'')]"

text \<open>
  Creating an element outside its vector is an error of the kernel; a missing backend interface
  is a null pointer, dereferenced when its gates are connected.
\<close>

definition HighwayScenario_createInitRSU ::
  "'q kernel \<Rightarrow> scenario_par \<Rightarrow> simtime \<Rightarrow> 'q \<Rightarrow> int \<Rightarrow> real \<Rightarrow> real \<Rightarrow> ConvoyDirection
    \<Rightarrow> 'q HighwayScenario \<Rightarrow> 'q HighwayScenario res" where
  "HighwayScenario_createInitRSU K par now q0 station_id x y direction hs =
     (let vec = rsu_vector direction;
          vectors = (if map_of (hs_vectors hs) vec = None
                     then smap_upd vec (n_stations par) (hs_vectors hs) else hs_vectors hs);
          size = (case map_of vectors vec of Some n \<Rightarrow> n | None \<Rightarrow> 0);
          name = element_name vec station_id
      in if \<not> (0 \<le> station_id \<and> station_id < size) then Inl (RuntimeError ''submodule index out of range'')
         else (let node = BaseNode_initialize K now
                     \<lparr>bs_fullName = name, bs_cfg = rsu_cfg par name direction, bs_display = (x, y),
                      bs_routing_direction = direction, bs_gates = [], bs_agent = None, bs_queue = q0\<rparr>
               in case map_of vectors (backend_vector direction) of
                    None \<Rightarrow> Inl NullDeref
                  | Some n \<Rightarrow>
                      if station_id < n
                      then Inr (hs\<lparr>hs_vectors := vectors, hs_rsus := hs_rsus hs @ [node\<lparr>bs_gates := bs_gates node @
                             backend_gates (element_name (backend_vector direction) station_id)\<rparr>]\<rparr>)
                      else Inl NullDeref))"

definition HighwayScenario_setupRSU ::
  "'q kernel \<Rightarrow> scenario_par \<Rightarrow> simtime \<Rightarrow> 'q \<Rightarrow> ConvoyDirection \<Rightarrow> 'q HighwayScenario \<Rightarrow> 'q HighwayScenario res" where
  "HighwayScenario_setupRSU K par now q0 direction hs =
     (let n = real_of_int (hs_counter hs);
          (x, y) = (case direction of
              TOP \<Rightarrow> (station_top_start_x par + inter_station_distance par * n, station_top_start_y par)
            | DOWN \<Rightarrow> (station_bot_start_x par + inter_station_distance par * n, station_bot_start_y par)
            | DIR_UNDEFINED \<Rightarrow> (0, 0))
      in HighwayScenario_createInitRSU K par now q0 (hs_counter hs) (x + station_lx par / 2)
           (y + station_ly par / 2) direction hs)"

text \<open>The event \<open>setupRSU\<close> that arrives is the member \<^verbatim>\<open>_event\<close>, which has left the queue.\<close>

definition HighwayScenario_handleMessage ::
  "'q kernel \<Rightarrow> scenario_par \<Rightarrow> simtime \<Rightarrow> 'q \<Rightarrow> 'm in_msg \<Rightarrow> 'q HighwayScenario \<Rightarrow> 'q HighwayScenario res" where
  "HighwayScenario_handleMessage K par now q0 msg hs =
     (case msg of
        SelfMsg name \<Rightarrow>
          if name = ''setupRSU''
          then rbind (HighwayScenario_setupRSU K par now q0 TOP hs) (\<lambda>hs.
               rbind (HighwayScenario_setupRSU K par now q0 DOWN hs) (\<lambda>hs.
                 let hs = hs\<lparr>hs_counter := hs_counter hs + 1\<rparr>
                 in Inr (if hs_counter hs < n_stations par
                         then hs\<lparr>hs_queue := k_scheduleAt K (now + station_init_time_gap par) ''setupRSU'' (hs_queue hs)\<rparr>
                         else hs)))
          else Inr hs
      | ExtMsg _ _ \<Rightarrow> Inr hs)"

definition HighwayScenario_finish :: "'q kernel \<Rightarrow> 'q HighwayScenario \<Rightarrow> 'q HighwayScenario" where
  "HighwayScenario_finish K hs = hs\<lparr>hs_queue := k_cancelEvent K ''setupRSU'' (hs_queue hs),
     hs_vectors := fold (\<lambda>v vs. if map_of vs v \<noteq> None then smap_del v vs else vs)
       [rsu_vector TOP, rsu_vector DOWN, ''vehicle''] (hs_vectors hs)\<rparr>"

definition BaseNode_destroy :: "'q kernel \<Rightarrow> 'q BaseNode \<Rightarrow> 'q BaseNode" where
  "BaseNode_destroy K node = node\<lparr>bs_queue := k_cancelEvent K ''setupMembershipControl'' (bs_queue node)\<rparr>"

section \<open>The placement\<close>

text \<open>
  Delivering the timer of the scenario until it is no longer pending (at most \<open>k\<close> times): the
  times at which it fired and the state it left.
\<close>

fun setup_rounds ::
  "'q kernel \<Rightarrow> scenario_par \<Rightarrow> 'q \<Rightarrow> nat \<Rightarrow> 'q HighwayScenario \<Rightarrow> (simtime list \<times> 'q HighwayScenario) res" where
  "setup_rounds K par q0 0 hs = Inr ([], hs)"
| "setup_rounds K par q0 (Suc k) hs =
     (case k_arrival K (hs_queue hs) ''setupRSU'' of
        None \<Rightarrow> Inr ([], hs)
      | Some t \<Rightarrow> rbind (HighwayScenario_handleMessage K par t q0 (SelfMsg ''setupRSU'' :: unit in_msg)
                         (hs\<lparr>hs_queue := k_deliver K ''setupRSU'' (hs_queue hs)\<rparr>)) (\<lambda>hs.
                   rbind (setup_rounds K par q0 k hs) (\<lambda>(ts, hs). Inr (t # ts, hs))))"

text \<open>The roadside unit that round \<open>i\<close>, run at time \<open>t\<close>, is to place in a direction.\<close>

definition station_x :: "scenario_par \<Rightarrow> ConvoyDirection \<Rightarrow> int \<Rightarrow> real" where
  "station_x par d i = (if d = TOP then station_top_start_x par else station_bot_start_x par)
     + inter_station_distance par * real_of_int i + station_lx par / 2"

definition station_y :: "scenario_par \<Rightarrow> ConvoyDirection \<Rightarrow> real" where
  "station_y par d = (if d = TOP then station_top_start_y par else station_bot_start_y par) + station_ly par / 2"

definition placed_rsu ::
  "'q kernel \<Rightarrow> scenario_par \<Rightarrow> 'q \<Rightarrow> simtime \<Rightarrow> ConvoyDirection \<Rightarrow> int \<Rightarrow> 'q BaseNode" where
  "placed_rsu K par q0 t d i =
     \<lparr>bs_fullName = element_name (rsu_vector d) i, bs_cfg = rsu_cfg par (element_name (rsu_vector d) i) d,
      bs_display = (station_x par d i, station_y par d), bs_routing_direction = d,
      bs_gates = backend_gates (element_name (backend_vector d) i), bs_agent = None,
      bs_queue = k_scheduleAt K t ''setupMembershipControl'' q0\<rparr>"

lemma rsu_vectors [simp]: "rsu_vector TOP = ''d1rsu''" "rsu_vector DOWN = ''d2rsu''"
  by code_simp+

lemma backend_vectors [simp]:
  "backend_vector TOP = ''backendInterfaceTop''" "backend_vector DOWN = ''backendInterfaceBot''"
  by (simp_all add: backend_vector_def)

text \<open>What the rounds rely on: room in the vectors of stations and of backend interfaces.\<close>

definition rooms_ok :: "scenario_par \<Rightarrow> (string, int) smap \<Rightarrow> bool" where
  "rooms_ok par vs \<longleftrightarrow> smap_ok vs \<and>
     (\<forall>d \<in> {TOP, DOWN}. map_of vs (rsu_vector d) \<in> {None, Some (n_stations par)} \<and>
        (\<exists>m \<ge> n_stations par. map_of vs (backend_vector d) = Some m))"

lemma setupRSU_places:
  assumes "rooms_ok par (hs_vectors hs)" and "d \<noteq> DIR_UNDEFINED"
    and "0 \<le> hs_counter hs" and "hs_counter hs < n_stations par"
  shows "\<exists>vs. rooms_ok par vs \<and> HighwayScenario_setupRSU K par t q0 d hs =
     Inr (hs\<lparr>hs_vectors := vs, hs_rsus := hs_rsus hs @ [placed_rsu K par q0 t d (hs_counter hs)]\<rparr>)"
proof -
  have d: "d \<in> {TOP, DOWN}" using assms(2) by (cases d) auto
  let ?vs = "if map_of (hs_vectors hs) (rsu_vector d) = None
    then smap_upd (rsu_vector d) (n_stations par) (hs_vectors hs) else hs_vectors hs"
  have ok: "rooms_ok par ?vs"
    using assms(1) d by (auto simp: rooms_ok_def smap_rules)
  have size: "map_of ?vs (rsu_vector d) = Some (n_stations par)"
    using assms(1) d by (auto simp: rooms_ok_def smap_rules)
  obtain m where m: "n_stations par \<le> m" "map_of ?vs (backend_vector d) = Some m"
    using ok d by (auto simp: rooms_ok_def)
  have "HighwayScenario_createInitRSU K par t q0 (hs_counter hs) (station_x par d (hs_counter hs))
      (station_y par d) d hs =
    Inr (hs\<lparr>hs_vectors := ?vs, hs_rsus := hs_rsus hs @ [placed_rsu K par q0 t d (hs_counter hs)]\<rparr>)"
    using m size assms(3,4)
    by (simp add: HighwayScenario_createInitRSU_def Let_def BaseNode_initialize_def placed_rsu_def rsu_cfg_def
        del: map_of_eq_None_iff)
  with ok d show ?thesis
    by (intro exI [of _ ?vs]) (auto simp: HighwayScenario_setupRSU_def station_x_def station_y_def)
qed

lemma setup_round:
  assumes "rooms_ok par (hs_vectors hs)" and "0 \<le> hs_counter hs" and "hs_counter hs < n_stations par"
  shows "\<exists>vs. rooms_ok par vs \<and>
     HighwayScenario_handleMessage K par t q0 (SelfMsg ''setupRSU'' :: 'm in_msg) hs =
     Inr (hs\<lparr>hs_vectors := vs, hs_counter := hs_counter hs + 1,
        hs_rsus := hs_rsus hs @ [placed_rsu K par q0 t TOP (hs_counter hs), placed_rsu K par q0 t DOWN (hs_counter hs)],
        hs_queue := (if hs_counter hs + 1 < n_stations par
           then k_scheduleAt K (t + station_init_time_gap par) ''setupRSU'' (hs_queue hs) else hs_queue hs)\<rparr>)"
proof -
  obtain vs where top: "rooms_ok par vs" "HighwayScenario_setupRSU K par t q0 TOP hs =
      Inr (hs\<lparr>hs_vectors := vs, hs_rsus := hs_rsus hs @ [placed_rsu K par q0 t TOP (hs_counter hs)]\<rparr>)"
    using setupRSU_places [of par hs TOP K t q0] assms by auto
  let ?hs = "hs\<lparr>hs_vectors := vs, hs_rsus := hs_rsus hs @ [placed_rsu K par q0 t TOP (hs_counter hs)]\<rparr>"
  obtain vs' where "rooms_ok par vs'" "HighwayScenario_setupRSU K par t q0 DOWN ?hs =
      Inr (?hs\<lparr>hs_vectors := vs', hs_rsus := hs_rsus ?hs @ [placed_rsu K par q0 t DOWN (hs_counter hs)]\<rparr>)"
    using setupRSU_places [of par ?hs DOWN K t q0] assms top by auto
  with top show ?thesis
    by (intro exI [of _ vs']) (simp add: HighwayScenario_handleMessage_def Let_def)
qed

text \<open>The stations of \<open>m\<close> rounds, the first of them round \<open>c\<close> at time \<open>t\<close>.\<close>

definition placed_rounds ::
  "'q kernel \<Rightarrow> scenario_par \<Rightarrow> 'q \<Rightarrow> simtime \<Rightarrow> int \<Rightarrow> nat \<Rightarrow> 'q BaseNode list" where
  "placed_rounds K par q0 t c m = concat (map (\<lambda>i.
     let t' = t + int i * station_init_time_gap par
     in [placed_rsu K par q0 t' TOP (c + int i), placed_rsu K par q0 t' DOWN (c + int i)]) [0..<m])"

lemma placed_rounds_Suc:
  "placed_rounds K par q0 t c (Suc m) =
     [placed_rsu K par q0 t TOP c, placed_rsu K par q0 t DOWN c] @
     placed_rounds K par q0 (t + station_init_time_gap par) (c + 1) m"
proof -
  have "[0..<Suc m] = 0 # map Suc [0..<m]" by (simp add: map_Suc_upt upt_conv_Cons del: upt_Suc)
  then show ?thesis
    by (simp add: placed_rounds_def Let_def o_def algebra_simps del: upt_Suc)
qed

lemma round_times_Suc:
  "map (\<lambda>i. t + int i * g) [0..<Suc m] = t # map (\<lambda>i. t + g + int i * g) [0..<m]"
proof -
  have "[0..<Suc m] = 0 # map Suc [0..<m]" by (simp add: map_Suc_upt upt_conv_Cons del: upt_Suc)
  then show ?thesis by (simp add: o_def algebra_simps del: upt_Suc)
qed

lemma setup_rounds_exact:
  assumes "event_kernel K" and "rooms_ok par (hs_vectors hs)" and "0 \<le> hs_counter hs"
    and "k_arrival K (hs_queue hs) ''setupRSU'' = Some t" and "hs_counter hs + int m = n_stations par"
    and "0 < m" and "m \<le> k"
  shows "\<exists>hs'. setup_rounds K par q0 k hs = Inr (map (\<lambda>i. t + int i * station_init_time_gap par) [0..<m], hs') \<and>
     hs_rsus hs' = hs_rsus hs @ placed_rounds K par q0 t (hs_counter hs) m \<and>
     hs_counter hs' = n_stations par \<and> k_arrival K (hs_queue hs') ''setupRSU'' = None"
  using assms(2-)
proof (induction k arbitrary: hs t m)
  case (Suc k)
  obtain m' where m: "m = Suc m'" using Suc.prems by (cases m) auto
  let ?hs = "hs\<lparr>hs_queue := k_deliver K ''setupRSU'' (hs_queue hs)\<rparr>"
  obtain vs where vs: "rooms_ok par vs"
    and step: "HighwayScenario_handleMessage K par t q0 (SelfMsg ''setupRSU'' :: unit in_msg) ?hs =
     Inr (?hs\<lparr>hs_vectors := vs, hs_counter := hs_counter hs + 1,
        hs_rsus := hs_rsus hs @ [placed_rsu K par q0 t TOP (hs_counter hs), placed_rsu K par q0 t DOWN (hs_counter hs)],
        hs_queue := (if hs_counter hs + 1 < n_stations par
           then k_scheduleAt K (t + station_init_time_gap par) ''setupRSU'' (hs_queue ?hs) else hs_queue ?hs)\<rparr>)"
    (is "_ = Inr ?hs'")
    using setup_round [of par ?hs K t q0] Suc.prems m by fastforce
  have gone: "k_arrival K (k_deliver K ''setupRSU'' (hs_queue hs)) ''setupRSU'' = None"
    by (simp add: event_kernel.arrival_deliver [OF assms(1)])
  show ?case
  proof (cases m')
    case 0
    then have "setup_rounds K par q0 k ?hs' = Inr ([], ?hs')" using Suc.prems m gone by (cases k) simp_all
    then show ?thesis using 0 m step Suc.prems gone
      by (simp add: placed_rounds_Suc placed_rounds_def [where m = 0])
  next
    case (Suc m'')
    have arr: "k_arrival K (hs_queue ?hs') ''setupRSU'' = Some (t + station_init_time_gap par)"
      using Suc.prems m Suc gone by (simp add: event_kernel.arrival_schedule [OF assms(1)])
    obtain hs2 where "setup_rounds K par q0 k ?hs' =
        Inr (map (\<lambda>i. t + station_init_time_gap par + int i * station_init_time_gap par) [0..<m'], hs2)"
      "hs_rsus hs2 = hs_rsus ?hs' @ placed_rounds K par q0 (t + station_init_time_gap par) (hs_counter hs + 1) m'"
      "hs_counter hs2 = n_stations par" "k_arrival K (hs_queue hs2) ''setupRSU'' = None"
      using Suc.IH [of ?hs' "t + station_init_time_gap par" m'] vs arr Suc.prems m Suc by fastforce
    then show ?thesis using step Suc.prems m
      by (simp add: placed_rounds_Suc round_times_Suc del: upt_Suc)
  qed
qed simp

text \<open>
  C32. The highway is built in finitely many steps: from the start of the scenario at \<open>now\<close>, its timer
  fires exactly once per station pair, at \<open>now\<close>, \<open>now + gap\<close>, ..., and never fails while there is
  a backend interface for each station; then the timer is silent and the network has, for each
  round, the station of each direction at its place, with its parameters, its backend connections
  and its pending set-up.
\<close>

theorem highway_built:
  assumes "event_kernel K" and "rooms_ok par vectors" and "0 < n_stations par"
    and "k_arrival K q ''setupRSU'' = None" and "nat (n_stations par) \<le> k"
  shows "\<exists>hs. setup_rounds K par q0 k (HighwayScenario_initialize K par now vectors q) =
       Inr (map (\<lambda>i. now + int i * station_init_time_gap par) [0..<nat (n_stations par)], hs) \<and>
     hs_rsus hs = placed_rounds K par q0 now 0 (nat (n_stations par)) \<and>
     hs_counter hs = n_stations par \<and> k_arrival K (hs_queue hs) ''setupRSU'' = None"
  using setup_rounds_exact [OF assms(1), of par "HighwayScenario_initialize K par now vectors q" now
      "nat (n_stations par)" k q0] assms
  by (simp add: HighwayScenario_initialize_def HighwayScenario_drawRoad_def Let_def event_kernel.arrival_schedule)

definition sample_scenario :: scenario_par where
  "sample_scenario = \<lparr>n_stations = 2, road_top_start_x = 10, road_top_start_y = 200, road_bot_start_x = 10,
     road_bot_start_y = 220, road_lx = 4980, road_ly = 13, station_top_start_x = 400, station_bot_start_x = 400,
     station_top_start_y = 180, station_bot_start_y = 240, station_lx = 10, station_ly = 7,
     inter_station_distance = 300, station_init_time_gap = 2, station_fov_range = 300\<rparr>"

theorem highway_built_witness:
  "\<exists>hs. setup_rounds fes_kernel sample_scenario Map.empty 5 (HighwayScenario_initialize fes_kernel sample_scenario 0
       [(''backendInterfaceBot'', 2), (''backendInterfaceTop'', 2)] Map.empty) = Inr ([0, 2], hs) \<and>
     map bs_fullName (hs_rsus hs) = [''d1rsu[0]'', ''d2rsu[0]'', ''d1rsu[1]'', ''d2rsu[1]''] \<and>
     map bs_display (hs_rsus hs) = [(405, 367 / 2), (405, 487 / 2), (705, 367 / 2), (705, 487 / 2)]"
proof -
  have "rooms_ok sample_scenario [(''backendInterfaceBot'', 2), (''backendInterfaceTop'', 2)]"
    by (simp add: rooms_ok_def smap_ok_def sample_scenario_def)
  from highway_built [OF fes.event_kernel_axioms this, of Map.empty 5 Map.empty 0]
  obtain hs where hs: "setup_rounds fes_kernel sample_scenario Map.empty 5 (HighwayScenario_initialize fes_kernel sample_scenario 0
       [(''backendInterfaceBot'', 2), (''backendInterfaceTop'', 2)] Map.empty) = Inr ([0, 2], hs)"
     "hs_rsus hs = placed_rounds fes_kernel sample_scenario Map.empty 0 0 2"
    by (auto simp: sample_scenario_def upt_rec)
  have names: "element_name ''d1rsu'' 0 = ''d1rsu[0]''" "element_name ''d2rsu'' 0 = ''d2rsu[0]''"
    "element_name ''d1rsu'' 1 = ''d1rsu[1]''" "element_name ''d2rsu'' 1 = ''d2rsu[1]''"
    by code_simp+
  show ?thesis using hs names
    by (simp add: placed_rounds_def placed_rsu_def Let_def upt_rec station_x_def station_y_def sample_scenario_def)
qed

section \<open>What the placement gives\<close>

text \<open>The detector parameters a station passes on, and the position of a placed station.\<close>

definition cfg_detector_par :: "station_cfg \<Rightarrow> app_times \<Rightarrow> string \<Rightarrow> detector_par" where
  "cfg_detector_par cfg tm classes =
     \<lparr>dp_fovLimitRange = sc_detectorFovLimitRange cfg, dp_fovLimitAngleMin = sc_detectorFovLimitAngleMin cfg,
      dp_fovLimitAngleMax = sc_detectorFovLimitAngleMax cfg, dp_times = tm, dp_detectedClasses = classes\<rparr>"

definition as_station :: "'q BaseNode \<Rightarrow> station" where
  "as_station node =
     \<lparr>st_fullName = bs_fullName node, st_detectorStationType = sc_detectorStationType (bs_cfg node),
      st_position = \<lparr>cx = fst (bs_display node), cy = snd (bs_display node), cz = 0\<rparr>\<rparr>"

lemma nearest_station:
  fixes x d :: real
  assumes "0 < d" and "x0 \<le> x" and "x \<le> x0 + d * real_of_int (n - 1)" and "0 < n"
  shows "\<exists>i. 0 \<le> i \<and> i < n \<and> \<bar>x - (x0 + d * real_of_int i)\<bar> \<le> d / 2"
proof -
  define i where "i = round ((x - x0) / d)"
  have q: "0 \<le> (x - x0) / d" "(x - x0) / d \<le> real_of_int (n - 1)"
    using assms(2,3) divide_right_mono [OF _ less_imp_le [OF assms(1)], of "x - x0" "d * real_of_int (n - 1)"] assms(1)
    by simp_all
  have "0 \<le> i" using round_mono [OF q(1)] by (simp add: i_def)
  have "i \<le> n - 1" using round_mono [OF q(2)] unfolding i_def round_of_int .
  have "\<bar>real_of_int i - (x - x0) / d\<bar> \<le> 1 / 2"
    unfolding i_def by (rule of_int_round_abs_le)
  then have "\<bar>d * (real_of_int i - (x - x0) / d)\<bar> \<le> d * (1 / 2)"
    using assms(1) by (simp add: abs_mult)
  moreover have "d * (real_of_int i - (x - x0) / d) = (x0 + d * real_of_int i) - x"
    using assms(1) by (simp add: field_simps)
  ultimately have "\<bar>x - (x0 + d * real_of_int i)\<bar> \<le> d / 2"
    by (simp add: abs_minus_commute)
  with \<open>0 \<le> i\<close> \<open>i \<le> n - 1\<close> show ?thesis by (intro exI [of _ i]) auto
qed





text \<open>
  The centre line is computed from the upper edges of the two roads, not from the gap between
  them: where the roads are closer to each other than one road is wide, the inner strip of the upper
  road is taken for the lower side: a vehicle there is set up for the opposite direction.
\<close>

theorem inner_lane_wrong_direction:
  assumes "road_top_start_y par + road_ly par \<le> road_bot_start_y par"
    and "road_bot_start_y par < road_top_start_y par + 2 * road_ly par"
  shows "\<exists>y. road_top_start_y par \<le> y \<and> y < road_top_start_y par + road_ly par \<and>
     (\<forall>loc. y < cy loc \<and> cy loc \<le> road_top_start_y par + road_ly par \<longrightarrow> BaseNode_getDirection par loc = DOWN)"
  using assms
  by (intro exI [of _ "(road_top_start_y par + road_bot_start_y par) / 2"])
     (auto simp: BaseNode_getDirection_def Let_def field_simps)

theorem inner_lane_wrong_direction_witness:
  "\<exists>y. 200 \<le> y \<and> y < 213 \<and> (\<forall>loc. y < cy loc \<and> cy loc \<le> 213 \<longrightarrow> BaseNode_getDirection sample_scenario loc = DOWN)"
  using inner_lane_wrong_direction [of sample_scenario] by (simp add: sample_scenario_def)

end
