(* ===== verification/Split_Bearers.thy ===== *)
theory Split_Bearers
  imports Convoy_Prelude
begin

text \<open>
  \<^verbatim>\<open>simu5G/src/stack/ip2nic/SplitBearersTable\<close>: the hash table with linear probing in which a node
  counts the packets of every connection that uses a split bearer.  Nothing is ever removed.  The
  two probing loops have no bound, so they are \<^theory_text>\<open>partial_function\<close>s: \<open>None\<close> is a loop that never
  ends.
\<close>

unbundle bit_operations_syntax

type_synonym flow_key = "u32 \<times> u32 \<times> 16 word"

record sb_entry =
  sb_present :: bool
  sb_srcAddr :: u32
  sb_dstAddr :: u32
  sb_typeOfService :: "16 word"
  sb_number :: int

definition TABLE_SIZE :: nat where
  "TABLE_SIZE = 2048"

definition SplitBearersTable :: "sb_entry list" where
  "SplitBearersTable = replicate TABLE_SIZE \<lparr>sb_present = False, sb_srcAddr = 0, sb_dstAddr = 0,
     sb_typeOfService = 0, sb_number = 0\<rparr>"

definition hash_func :: "flow_key \<Rightarrow> nat" where
  "hash_func = (\<lambda>(srcAddr, dstAddr, typeOfService).
     unat ((ucast typeOfService OR srcAddr OR dstAddr) mod (of_nat TABLE_SIZE :: u32)))"

definition sb_key :: "sb_entry \<Rightarrow> flow_key" where
  "sb_key e = (sb_srcAddr e, sb_dstAddr e, sb_typeOfService e)"

partial_function (option) find_loop :: "flow_key \<Rightarrow> sb_entry list \<Rightarrow> nat \<Rightarrow> (int \<times> sb_entry list) option" where
  "find_loop k ht hashIndex =
     (if \<not> sb_present (ht ! hashIndex) then Some (- 1, ht)
      else if sb_key (ht ! hashIndex) = k
      then (let number = sb_number (ht ! hashIndex) + 1
            in Some (number, ht[hashIndex := (ht ! hashIndex)\<lparr>sb_number := number\<rparr>]))
      else find_loop k ht ((hashIndex + 1) mod TABLE_SIZE))"

definition find_entry :: "flow_key \<Rightarrow> sb_entry list \<Rightarrow> (int \<times> sb_entry list) option" where
  "find_entry k ht = find_loop k ht (hash_func k)"

partial_function (option) free_loop :: "sb_entry list \<Rightarrow> nat \<Rightarrow> nat option" where
  "free_loop ht hashIndex =
     (if sb_present (ht ! hashIndex) then free_loop ht ((hashIndex + 1) mod TABLE_SIZE) else Some hashIndex)"

definition create_entry :: "flow_key \<Rightarrow> sb_entry list \<Rightarrow> (int \<times> sb_entry list) option" where
  "create_entry k ht =
     (case free_loop ht (hash_func k) of
        None \<Rightarrow> None
      | Some i \<Rightarrow> Some (0, ht[i := \<lparr>sb_present = True, sb_srcAddr = fst k, sb_dstAddr = fst (snd k),
                            sb_typeOfService = snd (snd k), sb_number = 0\<rparr>]))"

text \<open>How \<^verbatim>\<open>IP2Nic::markPacket\<close> uses the table: look up, and create what is not found.\<close>

definition sent_packets :: "flow_key \<Rightarrow> sb_entry list \<Rightarrow> (int \<times> sb_entry list) option" where
  "sent_packets k ht =
     (case find_entry k ht of
        None \<Rightarrow> None
      | Some (n, ht') \<Rightarrow> if n < 0 then create_entry k ht' else Some (n, ht'))"

section \<open>Probing\<close>

definition probe :: "flow_key \<Rightarrow> nat \<Rightarrow> nat" where
  "probe k m = (hash_func k + m) mod TABLE_SIZE"

lemma table_size_pos [simp]: "0 < TABLE_SIZE" by (simp add: TABLE_SIZE_def)

lemma hash_less: "hash_func k < TABLE_SIZE"
proof -
  have "(of_nat TABLE_SIZE :: u32) = 2048" by (simp add: TABLE_SIZE_def)
  moreover have "unat (w mod (2048 :: u32)) < 2048" for w :: u32
    by (simp add: unat_mod)
  ultimately show ?thesis by (simp add: hash_func_def TABLE_SIZE_def split_def)
qed

lemma probe_0 [simp]: "probe k 0 = hash_func k" by (simp add: probe_def hash_less)

lemma probe_less [simp]: "probe k m < TABLE_SIZE" by (simp add: probe_def)

lemma probe_Suc: "Suc (probe k m) mod TABLE_SIZE = probe k (Suc m)"
  by (simp add: probe_def mod_simps)

lemma probe_onto:
  assumes "j < TABLE_SIZE"
  shows "\<exists>m < TABLE_SIZE. probe k m = j"
proof -
  let ?m = "(j + (TABLE_SIZE - hash_func k)) mod TABLE_SIZE"
  have "probe k ?m = (hash_func k + (j + (TABLE_SIZE - hash_func k))) mod TABLE_SIZE"
    by (simp add: probe_def mod_simps)
  also have "hash_func k + (j + (TABLE_SIZE - hash_func k)) = j + TABLE_SIZE"
    using hash_less [of k] by simp
  finally have "probe k ?m = j" using assms by simp
  then show ?thesis by (intro exI [of _ ?m]) simp
qed

text \<open>The loops pass over occupied slots of other connections.\<close>

lemma find_loop_skip:
  "\<forall>i < m. sb_present (ht ! probe k i) \<and> sb_key (ht ! probe k i) \<noteq> k \<Longrightarrow>
   find_entry k ht = find_loop k ht (probe k m)"
proof (induction m)
  case (Suc m)
  then have "find_entry k ht = find_loop k ht (probe k m)" by simp
  also have "\<dots> = find_loop k ht (probe k (Suc m))"
    using Suc.prems by (subst find_loop.simps) (simp add: probe_Suc)
  finally show ?case .
qed (simp add: find_entry_def)

lemma free_loop_skip:
  "\<forall>i < m. sb_present (ht ! probe k i) \<Longrightarrow> free_loop ht (hash_func k) = free_loop ht (probe k m)"
proof (induction m)
  case (Suc m)
  then have "free_loop ht (hash_func k) = free_loop ht (probe k m)" by simp
  also have "\<dots> = free_loop ht (probe k (Suc m))"
    using Suc.prems by (subst free_loop.simps) (simp add: probe_Suc)
  finally show ?case .
qed simp

text \<open>The first free slot on the way.\<close>

lemma first_free:
  assumes "length ht = TABLE_SIZE" and "e \<in> set ht" and "\<not> sb_present e"
  obtains m where "m < TABLE_SIZE" "\<not> sb_present (ht ! probe k m)" "\<forall>i < m. sb_present (ht ! probe k i)"
proof -
  obtain j where "j < TABLE_SIZE" "\<not> sb_present (ht ! j)"
    using assms by (metis in_set_conv_nth)
  then obtain m0 where m0: "m0 < TABLE_SIZE" "\<not> sb_present (ht ! probe k m0)"
    using probe_onto by metis
  define m where "m = (LEAST m. \<not> sb_present (ht ! probe k m))"
  have "\<not> sb_present (ht ! probe k m)" unfolding m_def by (rule LeastI [of _ m0]) (rule m0(2))
  moreover have "m \<le> m0" unfolding m_def by (rule Least_le) (rule m0(2))
  moreover have "\<forall>i < m. sb_present (ht ! probe k i)" unfolding m_def using not_less_Least by blast
  ultimately show ?thesis using m0(1) by (intro that [of m]) auto
qed

section \<open>The table as a map\<close>

text \<open>
  Every occupied slot is reached from the hash of its connection over occupied slots of other
  connections.
\<close>

definition table_ok :: "sb_entry list \<Rightarrow> bool" where
  "table_ok ht \<longleftrightarrow> length ht = TABLE_SIZE \<and>
     (\<forall>j < TABLE_SIZE. sb_present (ht ! j) \<longrightarrow> 0 \<le> sb_number (ht ! j) \<and>
        (\<exists>m. probe (sb_key (ht ! j)) m = j \<and>
           (\<forall>i < m. sb_present (ht ! probe (sb_key (ht ! j)) i) \<and>
                    sb_key (ht ! probe (sb_key (ht ! j)) i) \<noteq> sb_key (ht ! j))))"

definition counts :: "sb_entry list \<Rightarrow> flow_key \<Rightarrow> int option" where
  "counts ht k = map_option sb_number (find (\<lambda>e. sb_present e \<and> sb_key e = k) ht)"

definition has_room :: "sb_entry list \<Rightarrow> bool" where
  "has_room ht \<longleftrightarrow> (\<exists>e \<in> set ht. \<not> sb_present e)"

lemma table_ok_length: "table_ok ht \<Longrightarrow> length ht = TABLE_SIZE" by (simp add: table_ok_def)

lemma table_okE:
  assumes "table_ok ht" and "j < TABLE_SIZE" and "sb_present (ht ! j)"
  obtains m where "0 \<le> sb_number (ht ! j)" "probe (sb_key (ht ! j)) m = j"
    "\<forall>i < m. sb_present (ht ! probe (sb_key (ht ! j)) i) \<and> sb_key (ht ! probe (sb_key (ht ! j)) i) \<noteq> sb_key (ht ! j)"
  using assms by (auto simp: table_ok_def)

lemma keys_unique:
  assumes "table_ok ht" and "i < TABLE_SIZE" "j < TABLE_SIZE" and "sb_present (ht ! i)" "sb_present (ht ! j)"
    and "sb_key (ht ! i) = sb_key (ht ! j)"
  shows "i = j"
proof -
  let ?k = "sb_key (ht ! j)"
  obtain m where m: "probe ?k m = i" "\<forall>l < m. sb_present (ht ! probe ?k l) \<and> sb_key (ht ! probe ?k l) \<noteq> ?k"
    using table_okE [OF assms(1,2,4), unfolded assms(6)] by blast
  obtain m' where m': "probe ?k m' = j" "\<forall>l < m'. sb_present (ht ! probe ?k l) \<and> sb_key (ht ! probe ?k l) \<noteq> ?k"
    using table_okE [OF assms(1,3,5)] by blast
  have "\<not> m < m'"
  proof
    assume "m < m'"
    with m'(2) have "sb_key (ht ! probe ?k m) \<noteq> ?k" by simp
    with m(1) assms(6) show False by simp
  qed
  moreover have "\<not> m' < m"
  proof
    assume "m' < m"
    with m(2) have "sb_key (ht ! probe ?k m') \<noteq> ?k" by simp
    with m'(1) show False by simp
  qed
  ultimately show ?thesis using m(1) m'(1) by (metis nat_neq_iff)
qed

lemma counts_at:
  assumes "table_ok ht" and "j < TABLE_SIZE" and "sb_present (ht ! j)"
  shows "counts ht (sb_key (ht ! j)) = Some (sb_number (ht ! j))"
proof -
  let ?P = "\<lambda>e. sb_present e \<and> sb_key e = sb_key (ht ! j)"
  have "ht ! j \<in> set ht" using assms by (simp add: table_ok_length)
  then have "find ?P ht \<noteq> None" using assms(3) by (auto simp: find_None_iff)
  then obtain i where i: "i < length ht" "?P (ht ! i)" "find ?P ht = Some (ht ! i)"
    by (auto simp: find_Some_iff)
  then have "i = j" using keys_unique [OF assms(1) _ assms(2) _ assms(3)] by (simp add: table_ok_length [OF assms(1)])
  with i show ?thesis by (simp add: counts_def)
qed

lemma counts_None_iff:
  "length ht = TABLE_SIZE \<Longrightarrow>
   counts ht k = None \<longleftrightarrow> (\<forall>j < TABLE_SIZE. sb_present (ht ! j) \<longrightarrow> sb_key (ht ! j) \<noteq> k)"
  unfolding counts_def by (auto simp: find_None_iff) (metis in_set_conv_nth)+

lemma counts_SomeE:
  assumes "table_ok ht" and "counts ht k = Some n"
  obtains j m where "j < TABLE_SIZE" "sb_present (ht ! j)" "sb_key (ht ! j) = k" "sb_number (ht ! j) = n" "0 \<le> n"
    "probe k m = j" "\<forall>i < m. sb_present (ht ! probe k i) \<and> sb_key (ht ! probe k i) \<noteq> k"
proof -
  obtain j where j: "j < TABLE_SIZE" "sb_present (ht ! j)" "sb_key (ht ! j) = k" "sb_number (ht ! j) = n"
    using assms by (auto simp: counts_def find_Some_iff table_ok_length)
  from table_okE [OF assms(1) j(1,2)] obtain m where "0 \<le> n" "probe k m = j"
      "\<forall>i < m. sb_present (ht ! probe k i) \<and> sb_key (ht ! probe k i) \<noteq> k"
    unfolding j(3,4) by blast
  with j show ?thesis by (intro that)
qed

text \<open>Changing a slot without freeing it or renaming another keeps every path intact.\<close>

lemma table_ok_update:
  assumes "table_ok ht" and "j < TABLE_SIZE" and "sb_present e" and "0 \<le> sb_number e"
    and "sb_present (ht ! j) \<Longrightarrow> sb_key (ht ! j) = sb_key e"
    and "probe (sb_key e) m = j" and "\<forall>i < m. sb_present (ht ! probe (sb_key e) i) \<and> sb_key (ht ! probe (sb_key e) i) \<noteq> sb_key e"
  shows "table_ok (ht[j := e])"
  unfolding table_ok_def
proof (intro conjI allI impI)
  have len: "length ht = TABLE_SIZE" using assms(1) by (rule table_ok_length)
  then show "length (ht[j := e]) = TABLE_SIZE" by simp
  have nth: "ht[j := e] ! i = (if i = j then e else ht ! i)" if "i < TABLE_SIZE" for i
    using that len by simp
  fix l assume l: "l < TABLE_SIZE" "sb_present (ht[j := e] ! l)"
  show "0 \<le> sb_number (ht[j := e] ! l)"
    using l assms(1,4) by (auto simp: nth table_ok_def)
  show "\<exists>m. probe (sb_key (ht[j := e] ! l)) m = l \<and>
      (\<forall>i < m. sb_present (ht[j := e] ! probe (sb_key (ht[j := e] ! l)) i) \<and>
         sb_key (ht[j := e] ! probe (sb_key (ht[j := e] ! l)) i) \<noteq> sb_key (ht[j := e] ! l))"
  proof (cases "l = j")
    case True
    have "probe (sb_key e) i \<noteq> j" if "i < m" for i
      using assms(5,7) that by metis
    with True l assms(3,6,7) show ?thesis by (intro exI [of _ m]) (simp add: nth)
  next
    case False
    then have p: "sb_present (ht ! l)" and e: "ht[j := e] ! l = ht ! l" using l by (simp_all add: nth)
    obtain m' where m': "probe (sb_key (ht ! l)) m' = l"
      "\<forall>i < m'. sb_present (ht ! probe (sb_key (ht ! l)) i) \<and> sb_key (ht ! probe (sb_key (ht ! l)) i) \<noteq> sb_key (ht ! l)"
      using table_okE [OF assms(1) l(1) p] by blast
    have "sb_key e \<noteq> sb_key (ht ! l)" if "i < m'" "probe (sb_key (ht ! l)) i = j" for i
      using that m'(2) assms(5) by metis
    with m' assms(3) show ?thesis unfolding e by (intro exI [of _ m']) (auto simp: nth)
  qed
qed

lemma counts_update:
  assumes "table_ok ht" and "table_ok (ht[j := e])" and "j < TABLE_SIZE" and "sb_present e"
    and "sb_present (ht ! j) \<Longrightarrow> sb_key (ht ! j) = sb_key e"
  shows "counts (ht[j := e]) = (counts ht)(sb_key e \<mapsto> sb_number e)"
proof
  fix k
  note len = table_ok_length [OF assms(1)] table_ok_length [OF assms(2)]
  show "counts (ht[j := e]) k = ((counts ht)(sb_key e \<mapsto> sb_number e)) k"
  proof (cases "k = sb_key e")
    case True
    with counts_at [OF assms(2,3)] assms(3,4) len show ?thesis by simp
  next
    case other: False
    show ?thesis
    proof (cases "counts ht k")
      case None
      then have "counts (ht[j := e]) k = None"
        using other assms(3) len by (auto simp: counts_None_iff nth_list_update)
      with None other show ?thesis by simp
    next
      case (Some n)
      from Some obtain i where i: "i < TABLE_SIZE" "sb_present (ht ! i)" "sb_key (ht ! i) = k" "sb_number (ht ! i) = n"
        by (rule counts_SomeE [OF assms(1)])
      then have "i \<noteq> j" using other assms(5) by auto
      with i counts_at [OF assms(2) i(1)] Some other len show ?thesis by simp
    qed
  qed
qed

section \<open>The operations on the map\<close>

lemma find_present:
  assumes "table_ok ht" and "counts ht k = Some n"
  shows "\<exists>ht'. find_entry k ht = Some (n + 1, ht') \<and> 0 \<le> n \<and> table_ok ht' \<and> counts ht' = (counts ht)(k \<mapsto> n + 1)"
proof -
  obtain j m where j: "j < TABLE_SIZE" "sb_present (ht ! j)" "sb_key (ht ! j) = k" "sb_number (ht ! j) = n" "0 \<le> n"
    and m: "probe k m = j" "\<forall>i < m. sb_present (ht ! probe k i) \<and> sb_key (ht ! probe k i) \<noteq> k"
    using counts_SomeE [OF assms] .
  let ?e = "(ht ! j)\<lparr>sb_number := n + 1\<rparr>"
  have e: "sb_key ?e = k" "sb_present ?e" "0 \<le> sb_number ?e" using j by (simp_all add: sb_key_def)
  have "find_entry k ht = find_loop k ht (probe k m)" using m(2) by (rule find_loop_skip)
  then have "find_entry k ht = Some (n + 1, ht[j := ?e])"
    unfolding m(1) using j by (simp add: find_loop.simps Let_def)
  moreover have ok: "table_ok (ht[j := ?e])"
    using assms(1) j m e by (intro table_ok_update [where m = m]) simp_all
  moreover have "counts (ht[j := ?e]) = (counts ht)(k \<mapsto> n + 1)"
    using counts_update [OF assms(1) ok j(1) e(2)] e(1) j(3) by simp
  ultimately show ?thesis using j(5) by blast
qed

lemma find_absent:
  assumes "table_ok ht" and "counts ht k = None" and "has_room ht"
  shows "find_entry k ht = Some (- 1, ht)"
proof -
  note len = table_ok_length [OF assms(1)]
  obtain m where m: "\<not> sb_present (ht ! probe k m)" "\<forall>i < m. sb_present (ht ! probe k i)"
    using first_free [OF len] assms(3) by (metis has_room_def)
  have "\<forall>i < m. sb_present (ht ! probe k i) \<and> sb_key (ht ! probe k i) \<noteq> k"
    using m(2) assms(2) by (simp add: counts_None_iff [OF len])
  then have "find_entry k ht = find_loop k ht (probe k m)" by (rule find_loop_skip)
  with m(1) show ?thesis by (simp add: find_loop.simps)
qed

lemma create_absent:
  assumes "table_ok ht" and "counts ht k = None" and "has_room ht"
  shows "\<exists>ht'. create_entry k ht = Some (0, ht') \<and> table_ok ht' \<and> counts ht' = (counts ht)(k \<mapsto> 0)"
proof -
  note len = table_ok_length [OF assms(1)]
  obtain m where m: "\<not> sb_present (ht ! probe k m)" "\<forall>i < m. sb_present (ht ! probe k i)"
    using first_free [OF len] assms(3) by (metis has_room_def)
  let ?e = "\<lparr>sb_present = True, sb_srcAddr = fst k, sb_dstAddr = fst (snd k), sb_typeOfService = snd (snd k), sb_number = 0\<rparr>"
  have e: "sb_key ?e = k" "sb_present ?e" "sb_number ?e = 0" by (simp_all add: sb_key_def)
  have "free_loop ht (hash_func k) = free_loop ht (probe k m)" using m(2) by (rule free_loop_skip)
  then have "create_entry k ht = Some (0, ht[probe k m := ?e])"
    using m(1) by (simp add: create_entry_def free_loop.simps)
  moreover have ok: "table_ok (ht[probe k m := ?e])"
    using m assms(2) by (intro table_ok_update [OF assms(1), where m = m])
      (auto simp: sb_key_def counts_None_iff [OF len])
  moreover have "counts (ht[probe k m := ?e]) = (counts ht)(k \<mapsto> 0)"
    using counts_update [OF assms(1) ok _ e(2)] m(1) e by simp
  ultimately show ?thesis by blast
qed

text \<open>One packet: the count of its connection goes up by one, from 0.\<close>

lemma sent_packets_counts:
  assumes "table_ok ht" and "counts ht k = None \<Longrightarrow> has_room ht"
  shows "\<exists>ht'. sent_packets k ht = Some (case counts ht k of None \<Rightarrow> 0 | Some n \<Rightarrow> n + 1, ht') \<and> table_ok ht' \<and>
     counts ht' = (counts ht)(k \<mapsto> (case counts ht k of None \<Rightarrow> 0 | Some n \<Rightarrow> n + 1))"
proof (cases "counts ht k")
  case None
  with create_absent [OF assms(1) None] find_absent [OF assms(1) None] assms(2) show ?thesis
    by (auto simp: sent_packets_def)
next
  case (Some n)
  with find_present [OF assms(1) Some] show ?thesis by (auto simp: sent_packets_def)
qed

lemma counts_empty: "counts SplitBearersTable = Map.empty"
  by (rule ext) (auto simp: counts_def SplitBearersTable_def find_None_iff)

lemma table_ok_empty: "table_ok SplitBearersTable"
  by (simp add: table_ok_def SplitBearersTable_def)

text \<open>The table is full only when it holds as many connections as slots.\<close>

lemma no_room_card:
  assumes "table_ok ht" and "\<not> has_room ht"
  shows "card (dom (counts ht)) = TABLE_SIZE"
proof -
  have p: "sb_present (ht ! j)" if "j < TABLE_SIZE" for j
    using that assms by (auto simp: has_room_def table_ok_length)
  have "dom (counts ht) = (\<lambda>j. sb_key (ht ! j)) ` {..<TABLE_SIZE}"
  proof (intro equalityI subsetI)
    fix k assume "k \<in> dom (counts ht)"
    then obtain n where "counts ht k = Some n" by blast
    then show "k \<in> (\<lambda>j. sb_key (ht ! j)) ` {..<TABLE_SIZE}" by (rule counts_SomeE [OF assms(1)]) auto
  qed (use counts_at [OF assms(1)] p in fastforce)
  moreover have "inj_on (\<lambda>j. sb_key (ht ! j)) {..<TABLE_SIZE}"
    using keys_unique [OF assms(1)] p by (auto simp: inj_on_def)
  ultimately show ?thesis by (simp add: card_image)
qed

text \<open>The packets of a node, one after the other.\<close>

fun send_all :: "flow_key list \<Rightarrow> sb_entry list \<Rightarrow> (int list \<times> sb_entry list) option" where
  "send_all [] ht = Some ([], ht)"
| "send_all (k # ks) ht =
     (case sent_packets k ht of
        None \<Rightarrow> None
      | Some (n, ht) \<Rightarrow> map_option (\<lambda>(ns, ht). (n # ns, ht)) (send_all ks ht))"

lemma send_all_counts:
  assumes "table_ok ht" and "dom (counts ht) = set past" and "\<forall>k \<in> set past. counts ht k = Some (int (count_list past k) - 1)"
    and "card (set (past @ ks)) \<le> TABLE_SIZE"
  shows "\<exists>ht'. table_ok ht' \<and>
     send_all ks ht = Some (map (\<lambda>i. int (count_list (past @ take i ks) (ks ! i))) [0..<length ks], ht')"
  using assms
proof (induction ks arbitrary: past ht)
  case (Cons k ks)
  let ?n = "case counts ht k of None \<Rightarrow> 0 | Some n \<Rightarrow> n + 1"
  have room: "has_room ht" if "counts ht k = None"
  proof (rule ccontr)
    assume "\<not> has_room ht"
    then have "card (set past) = TABLE_SIZE" using no_room_card [OF Cons.prems(1)] Cons.prems(2) by simp
    moreover have "k \<notin> set past" using that Cons.prems(2) by (metis domIff)
    ultimately have "TABLE_SIZE < card (insert k (set past))" by simp
    also have "\<dots> \<le> card (set (past @ k # ks))" by (intro card_mono) auto
    finally show False using Cons.prems(4) by simp
  qed
  obtain ht1 where ht1: "sent_packets k ht = Some (?n, ht1)" "table_ok ht1" "counts ht1 = (counts ht)(k \<mapsto> ?n)"
    using sent_packets_counts [OF Cons.prems(1) room] by blast
  have n: "?n = int (count_list past k)"
  proof (cases "k \<in> set past")
    case False
    with Cons.prems(2) show ?thesis by (auto simp: dom_def count_notin split: option.splits)
  next
    case True
    with Cons.prems(3) show ?thesis by simp
  qed
  have "\<exists>ht'. table_ok ht' \<and> send_all ks ht1 =
      Some (map (\<lambda>i. int (count_list ((past @ [k]) @ take i ks) (ks ! i))) [0..<length ks], ht')"
  proof (rule Cons.IH [OF ht1(2)])
    show "dom (counts ht1) = set (past @ [k])" using Cons.prems(2) by (simp add: ht1(3))
    show "\<forall>l \<in> set (past @ [k]). counts ht1 l = Some (int (count_list (past @ [k]) l) - 1)"
      using Cons.prems(3) n by (auto simp: ht1(3))
    show "card (set ((past @ [k]) @ ks)) \<le> TABLE_SIZE" using Cons.prems(4) by simp
  qed
  moreover have "[0..<length (k # ks)] = 0 # map Suc [0..<length ks]"
    by (simp add: map_Suc_upt upt_conv_Cons del: upt_Suc)
  ultimately show ?case by (auto simp: ht1(1) n o_def simp del: upt_Suc)
qed simp

lemma split_bearers_counts:
  assumes "card (set ks) \<le> TABLE_SIZE"
  shows "\<exists>ht. table_ok ht \<and> send_all ks SplitBearersTable =
     Some (map (\<lambda>i. int (count_list (take i ks) (ks ! i))) [0..<length ks], ht)"
  using send_all_counts [OF table_ok_empty, of "[]" ks] assms by (simp add: counts_empty)

text \<open>
  The split-bearer table counts correctly: from an empty table, for any sequence of packets of at most
  2048 different connections, every search ends and the number returned for a packet is the number of earlier
  packets of the same connection, whatever the hash values and the order.
\<close>

theorem split_bearers_count:
  assumes "card (set ks) \<le> TABLE_SIZE"
  shows "\<exists>ht. table_ok ht \<and> send_all ks SplitBearersTable =
     Some (map (\<lambda>i. int (count_list (take i ks) (ks ! i))) [0..<length ks], ht)"
  using split_bearers_counts [OF assms] .

theorem split_bearers_count_witness:
  "\<exists>ht. send_all [(1, 2, 20), (1, 2, 21), (1, 2, 20), (1, 2, 20)] SplitBearersTable = Some ([0, 0, 1, 2], ht)"
proof -
  have "card {(1 :: u32, 2 :: u32, 20 :: 16 word), (1, 2, 21)} \<le> TABLE_SIZE"
    by (simp add: TABLE_SIZE_def card_insert_if)
  with split_bearers_count [of "[(1, 2, 20), (1, 2, 21), (1, 2, 20), (1, 2, 20)]"]
  show ?thesis by (auto simp: upt_rec insert_commute)
qed

text \<open>
  The bound is sharp: once the table is full, looking up a connection that is not in it never ends.
\<close>

theorem full_table_diverges:
  assumes "length ht = TABLE_SIZE" and "\<not> has_room ht" and "counts ht k = None"
  shows "find_entry k ht = None"
proof (rule ccontr)
  have busy: "sb_present (ht ! i) \<and> sb_key (ht ! i) \<noteq> k" if "i < TABLE_SIZE" for i
    using that assms by (auto simp: has_room_def counts_None_iff)
  have loop: "k' = k \<longrightarrow> ht' = ht \<longrightarrow> \<not> i < TABLE_SIZE" if "find_loop k' ht' i = Some r" for k' ht' i r
  proof (rule find_loop.raw_induct [OF _ that])
    fix f :: "flow_key \<Rightarrow> sb_entry list \<Rightarrow> nat \<Rightarrow> (int \<times> sb_entry list) option" and k' ht' i r
    assume IH: "\<And>k' ht' i r. f k' ht' i = Some r \<Longrightarrow> k' = k \<longrightarrow> ht' = ht \<longrightarrow> \<not> i < TABLE_SIZE"
      and eq: "(if \<not> sb_present (ht' ! i) then Some (- 1, ht')
        else if sb_key (ht' ! i) = k'
        then let number = sb_number (ht' ! i) + 1 in Some (number, ht'[i := (ht' ! i)\<lparr>sb_number := number\<rparr>])
        else f k' ht' ((i + 1) mod TABLE_SIZE)) = Some r"
    show "k' = k \<longrightarrow> ht' = ht \<longrightarrow> \<not> i < TABLE_SIZE"
    proof (intro impI notI)
      assume "k' = k" "ht' = ht" "i < TABLE_SIZE"
      with busy eq have "f k ht ((i + 1) mod TABLE_SIZE) = Some r" by simp
      from IH [OF this] show False by simp
    qed
  qed
  assume "find_entry k ht \<noteq> None"
  then obtain r where "find_loop k ht (hash_func k) = Some r" unfolding find_entry_def by blast
  from loop [OF this] hash_less [of k] show False by simp
qed

end
