(* ===== verification/Ip_To_Nic.thy ===== *)
theory Ip_To_Nic
  imports Split_Bearers Binder_Radio
begin

text \<open>
  What happens to IP packets while a UE changes its base station:
  \<^verbatim>\<open>simu5G/src/stack/ip2nic/IP2Nic\<close> (the buffers of the UE, of the source and of the target),
  \<^verbatim>\<open>stack/handoverManager/LteHandoverManager\<close> (commands and forwarded data over X2) and
  \<^verbatim>\<open>x2/LteX2Manager\<close> (the X2 message switch).  \<open>None\<close> is a call that never returns (the unbounded
  search of the split-bearer table).
\<close>

section \<open>Data\<close>

text \<open>An IP packet: what the node reads of its headers; \<open>dg_id\<close> stands for the rest.\<close>

record datagram =
  dg_id :: nat
  dg_srcAddress :: Ipv4Address
  dg_destAddress :: Ipv4Address
  dg_typeOfService :: "16 word"
  dg_protocolId :: int
  dg_headerLength :: int
  dg_tcpHeaderLength :: int

record FlowControlInfo =
  fc_srcAddr :: Ipv4Address
  fc_dstAddr :: Ipv4Address
  fc_headerSize :: int
  fc_typeOfService :: "16 word"
  fc_useNR :: bool

datatype LteX2MessageType =
  X2_COMP_MSG | X2_HANDOVER_CONTROL_MSG | X2_HANDOVER_DATA_MSG | X2_DUALCONNECTIVITY_CONTROL_MSG
  | X2_DUALCONNECTIVITY_DATA_MSG | X2_UNKNOWN_MSG

text \<open>The messages of the handover managers: a command for a UE, or a forwarded packet.\<close>

datatype x2_content = X2HandoverControlMsg MacNodeId bool | X2HandoverDataMsg datagram

record x2_msg =
  x2_sourceId :: MacNodeId
  x2_destIdList :: "MacNodeId list"
  x2_content :: x2_content

definition x2_type :: "x2_content \<Rightarrow> LteX2MessageType" where
  "x2_type c = (case c of X2HandoverControlMsg _ _ \<Rightarrow> X2_HANDOVER_CONTROL_MSG | X2HandoverDataMsg _ \<Rightarrow> X2_HANDOVER_DATA_MSG)"

datatype nic_out = ToStack datagram FlowControlInfo | ToIp datagram | ToX2 x2_msg

record IP2Nic =
  nic_nodeType :: RanNodeType
  nic_nodeId :: MacNodeId
  nic_nrNodeId :: MacNodeId
  nic_masterId :: MacNodeId
  nic_nrMasterId :: MacNodeId
  nic_hoForwarding :: "(MacNodeId, MacNodeId) smap"
  nic_hoHolding :: "MacNodeId sset"
  nic_hoFromX2 :: "(MacNodeId, datagram list) smap"
  nic_hoFromIp :: "(MacNodeId, datagram list) smap"
  nic_ueHold :: bool
  nic_ueHoldFromIp :: "datagram list"
  nic_dualConnectivityEnabled :: bool
  nic_sbTable :: "sb_entry list"

section \<open>LteHandoverManager\<close>

definition sendHandoverCommand :: "MacNodeId \<Rightarrow> MacNodeId \<Rightarrow> MacNodeId \<Rightarrow> bool \<Rightarrow> x2_msg" where
  "sendHandoverCommand nodeId ueId enb startHo =
     \<lparr>x2_sourceId = nodeId, x2_destIdList = [enb], x2_content = X2HandoverControlMsg ueId startHo\<rparr>"

definition forwardDataToTargetEnb :: "MacNodeId \<Rightarrow> datagram \<Rightarrow> MacNodeId \<Rightarrow> x2_msg" where
  "forwardDataToTargetEnb nodeId dg targetEnb =
     \<lparr>x2_sourceId = nodeId, x2_destIdList = [targetEnb], x2_content = X2HandoverDataMsg dg\<rparr>"

section \<open>IP2Nic\<close>

text \<open>The header sizes that both \<^verbatim>\<open>toStackUe\<close> and \<^verbatim>\<open>toStackBs\<close> compute (TCP is 6, UDP is 17).\<close>

definition flow_info :: "datagram \<Rightarrow> FlowControlInfo" where
  "flow_info dg = \<lparr>fc_srcAddr = dg_srcAddress dg, fc_dstAddr = dg_destAddress dg,
     fc_headerSize = dg_headerLength dg + (if dg_protocolId dg = 6 then dg_tcpHeaderLength dg
       else if dg_protocolId dg = 17 then 8 else 0),
     fc_typeOfService = dg_typeOfService dg, fc_useNR = False\<rparr>"

definition split_bearer :: "FlowControlInfo \<Rightarrow> IP2Nic \<Rightarrow> (bool \<times> FlowControlInfo \<times> IP2Nic) run" where
  "split_bearer ci nic =
     (case sent_packets (fc_srcAddr ci, fc_dstAddr ci, fc_typeOfService ci) (nic_sbTable nic) of
        None \<Rightarrow> None
      | Some (sentPackets, ht) \<Rightarrow>
          Some (Inr (True, ci\<lparr>fc_useNR := sentPackets mod 2 \<noteq> 0\<rparr>, nic\<lparr>nic_sbTable := ht\<rparr>)))"

definition markPacket_bs :: "Binder \<Rightarrow> FlowControlInfo \<Rightarrow> IP2Nic \<Rightarrow> (bool \<times> FlowControlInfo \<times> IP2Nic) run" where
  "markPacket_bs b ci nic =
     run_bind (Some (getMacNodeId (fc_dstAddr ci) b)) (\<lambda>ueId.
     run_bind (Some (getNextHop ueId b)) (\<lambda>hop.
     run_bind (Some (getNextHop (getNrMacNodeId (fc_dstAddr ci) b) b)) (\<lambda>nrHop.
       let ueLteStack = hop > 0; ueNrStack = nrHop > 0
       in if nic_dualConnectivityEnabled nic \<and> ueLteStack \<and> ueNrStack \<and> fc_typeOfService ci \<ge> 20
          then split_bearer ci nic
          else if ueLteStack \<and> ueNrStack
          then Some (Inr (True, ci\<lparr>fc_useNR := fc_typeOfService ci \<ge> 10\<rparr>, nic))
          else if ueLteStack then Some (Inr (True, ci\<lparr>fc_useNR := False\<rparr>, nic))
          else if ueNrStack then Some (Inr (True, ci\<lparr>fc_useNR := True\<rparr>, nic))
          else Some (Inr (False, ci, nic)))))"

definition markPacket_ue :: "Binder \<Rightarrow> FlowControlInfo \<Rightarrow> IP2Nic \<Rightarrow> (bool \<times> FlowControlInfo \<times> IP2Nic) run" where
  "markPacket_ue b ci nic =
     run_bind (Some (getNextHop (nic_nodeId nic) b)) (\<lambda>hop.
     run_bind (Some (getNextHop (nic_nrNodeId nic) b)) (\<lambda>nrHop.
       let ueLteStack = hop > 0; ueNrStack = nrHop > 0
       in if nic_dualConnectivityEnabled nic \<and> ueLteStack \<and> ueNrStack \<and> fc_typeOfService ci \<ge> 20
          then split_bearer ci nic
          else if nic_masterId nic = 0 \<and> nic_nrMasterId nic \<noteq> 0
          then Some (Inr (True, ci\<lparr>fc_useNR := True\<rparr>, nic))
          else if nic_masterId nic \<noteq> 0 \<and> nic_nrMasterId nic = 0
          then Some (Inr (True, ci\<lparr>fc_useNR := False\<rparr>, nic))
          else Some (Inr (True, ci\<lparr>fc_useNR := fc_typeOfService ci \<ge> 10\<rparr>, nic))))"

definition markPacket :: "Binder \<Rightarrow> FlowControlInfo \<Rightarrow> IP2Nic \<Rightarrow> (bool \<times> FlowControlInfo \<times> IP2Nic) run" where
  "markPacket b ci nic =
     (if nic_nodeType nic = ENODEB \<or> nic_nodeType nic = GNODEB then markPacket_bs b ci nic
      else if nic_nodeType nic = UE then markPacket_ue b ci nic
      else Some (Inr (True, ci, nic)))"

text \<open>A UE that cannot mark a packet deletes it and sends it all the same.\<close>

definition toStackUe :: "Binder \<Rightarrow> datagram \<Rightarrow> IP2Nic \<Rightarrow> (IP2Nic \<times> nic_out list) run" where
  "toStackUe b dg nic = run_bind (markPacket b (flow_info dg) nic) (\<lambda>(marked, ci, nic).
     if \<not> marked then Some (Inl UseAfterFree) else Some (Inr (nic, [ToStack dg ci])))"

definition toStackBs :: "Binder \<Rightarrow> datagram \<Rightarrow> IP2Nic \<Rightarrow> (IP2Nic \<times> nic_out list) run" where
  "toStackBs b dg nic = run_bind (markPacket b (flow_info dg) nic) (\<lambda>(marked, ci, nic).
     if \<not> marked then Some (Inr (nic, [])) else Some (Inr (nic, [ToStack dg ci])))"

text \<open>Sending down a queue, front first.\<close>

fun send_queue :: "(datagram \<Rightarrow> IP2Nic \<Rightarrow> (IP2Nic \<times> nic_out list) run) \<Rightarrow> datagram list \<Rightarrow> IP2Nic
    \<Rightarrow> (IP2Nic \<times> nic_out list) run" where
  "send_queue f [] nic = Some (Inr (nic, []))"
| "send_queue f (dg # dgs) nic = run_bind (f dg nic) (\<lambda>(nic, out).
     run_bind (send_queue f dgs nic) (\<lambda>(nic, out'). Some (Inr (nic, out @ out'))))"

definition fromIpUe :: "Binder \<Rightarrow> datagram \<Rightarrow> IP2Nic \<Rightarrow> (IP2Nic \<times> nic_out list) run" where
  "fromIpUe b dg nic =
     (if nic_ueHold nic then Some (Inr (nic\<lparr>nic_ueHoldFromIp := nic_ueHoldFromIp nic @ [dg]\<rparr>, []))
      else if nic_masterId nic = 0 \<and> nic_nrMasterId nic = 0 then Some (Inr (nic, []))
      else toStackUe b dg nic)"

definition push_queue :: "MacNodeId \<Rightarrow> datagram \<Rightarrow> (MacNodeId, datagram list) smap \<Rightarrow> (MacNodeId, datagram list) smap" where
  "push_queue i dg m = (let (q, m) = smap_index [] i m in smap_upd i (q @ [dg]) m)"

definition fromIpBs :: "Binder \<Rightarrow> datagram \<Rightarrow> IP2Nic \<Rightarrow> (IP2Nic \<times> nic_out list) run" where
  "fromIpBs b dg nic =
     run_bind (Some (getMacNodeId (dg_destAddress dg) b)) (\<lambda>destId.
       case map_of (nic_hoForwarding nic) destId of
         Some targetEnb \<Rightarrow> Some (Inr (nic, [ToX2 (forwardDataToTargetEnb (nic_nodeId nic) dg targetEnb)]))
       | None \<Rightarrow>
           if destId \<in> set (nic_hoHolding nic)
           then Some (Inr (nic\<lparr>nic_hoFromIp := push_queue destId dg (nic_hoFromIp nic)\<rparr>, []))
           else toStackBs b dg nic)"

definition triggerHandoverSource :: "MacNodeId \<Rightarrow> MacNodeId \<Rightarrow> IP2Nic \<Rightarrow> IP2Nic \<times> nic_out list" where
  "triggerHandoverSource ueId targetEnb nic =
     (nic\<lparr>nic_hoForwarding := smap_upd ueId targetEnb (nic_hoForwarding nic)\<rparr>,
      if targetEnb \<noteq> 0 then [ToX2 (sendHandoverCommand (nic_nodeId nic) ueId targetEnb True)] else [])"

definition triggerHandoverTarget :: "MacNodeId \<Rightarrow> IP2Nic \<Rightarrow> IP2Nic" where
  "triggerHandoverTarget ueId nic = nic\<lparr>nic_hoHolding := sset_ins ueId (nic_hoHolding nic)\<rparr>"

definition receiveTunneledPacketOnHandover :: "Binder \<Rightarrow> datagram \<Rightarrow> IP2Nic \<Rightarrow> IP2Nic run" where
  "receiveTunneledPacketOnHandover b dg nic =
     run_bind (Some (getMacNodeId (dg_destAddress dg) b)) (\<lambda>destId.
       Some (Inr (nic\<lparr>nic_hoFromX2 := push_queue destId dg (nic_hoFromX2 nic)\<rparr>)))"

definition signalHandoverCompleteSource :: "MacNodeId \<Rightarrow> IP2Nic \<Rightarrow> IP2Nic" where
  "signalHandoverCompleteSource ueId nic = nic\<lparr>nic_hoForwarding := smap_del ueId (nic_hoForwarding nic)\<rparr>"

text \<open>The queue of a UE is emptied, if there is one.\<close>

definition clear_queue :: "MacNodeId \<Rightarrow> (MacNodeId, datagram list) smap \<Rightarrow> (MacNodeId, datagram list) smap" where
  "clear_queue i m = (if map_of m i = None then m else smap_upd i [] m)"

definition held :: "(MacNodeId, datagram list) smap \<Rightarrow> MacNodeId \<Rightarrow> datagram list" where
  "held m i = (case map_of m i of None \<Rightarrow> [] | Some q \<Rightarrow> q)"

definition signalHandoverCompleteTarget ::
  "Binder \<Rightarrow> MacNodeId \<Rightarrow> MacNodeId \<Rightarrow> IP2Nic \<Rightarrow> (IP2Nic \<times> nic_out list) run" where
  "signalHandoverCompleteTarget b ueId sourceEnb nic =
     (let command = ToX2 (sendHandoverCommand (nic_nodeId nic) ueId sourceEnb False)
      in run_bind (send_queue (toStackBs b) (held (nic_hoFromX2 nic) ueId)
           (nic\<lparr>nic_hoFromX2 := clear_queue ueId (nic_hoFromX2 nic)\<rparr>)) (\<lambda>(nic, out1).
         run_bind (send_queue (toStackBs b) (held (nic_hoFromIp nic) ueId)
           (nic\<lparr>nic_hoFromIp := clear_queue ueId (nic_hoFromIp nic)\<rparr>)) (\<lambda>(nic, out2).
         Some (Inr (nic\<lparr>nic_hoHolding := filter (\<lambda>i. i \<noteq> ueId) (nic_hoHolding nic)\<rparr>, command # out1 @ out2)))))"

definition triggerHandoverUe :: "MacNodeId \<Rightarrow> bool \<Rightarrow> IP2Nic \<Rightarrow> IP2Nic" where
  "triggerHandoverUe newMasterId isNr nic =
     (if newMasterId \<noteq> 0
      then (let nic = nic\<lparr>nic_ueHold := True\<rparr>
            in if isNr then nic\<lparr>nic_nrMasterId := newMasterId\<rparr> else nic\<lparr>nic_masterId := newMasterId\<rparr>)
      else if isNr then nic\<lparr>nic_nrMasterId := 0\<rparr> else nic\<lparr>nic_masterId := 0\<rparr>)"

definition signalHandoverCompleteUe :: "Binder \<Rightarrow> bool \<Rightarrow> IP2Nic \<Rightarrow> (IP2Nic \<times> nic_out list) run" where
  "signalHandoverCompleteUe b isNr nic =
     (if \<not> isNr \<and> nic_masterId nic \<noteq> 0 \<or> isNr \<and> nic_nrMasterId nic \<noteq> 0
      then run_bind (send_queue (toStackUe b) (nic_ueHoldFromIp nic) (nic\<lparr>nic_ueHoldFromIp := []\<rparr>)) (\<lambda>(nic, out).
             Some (Inr (nic\<lparr>nic_ueHold := False\<rparr>, out)))
      else Some (Inr (nic, [])))"

definition IP2Nic_handleMessage :: "Binder \<Rightarrow> string \<Rightarrow> datagram \<Rightarrow> IP2Nic \<Rightarrow> (IP2Nic \<times> nic_out list) run" where
  "IP2Nic_handleMessage b gate dg nic =
     (if nic_nodeType nic = ENODEB \<or> nic_nodeType nic = GNODEB
      then (if gate = ''upperLayerIn'' then fromIpBs b dg nic
            else if gate = ''stackNic$i'' then Some (Inr (nic, [ToIp dg])) else Some (Inr (nic, [])))
      else if nic_nodeType nic = UE
      then (if gate = ''upperLayerIn'' then fromIpUe b dg nic
            else if gate = ''stackNic$i'' then Some (Inr (nic, [ToIp dg])) else Some (Inr (nic, [])))
      else Some (Inr (nic, [])))"

definition IP2Nic_finish :: "bool \<Rightarrow> IP2Nic \<Rightarrow> Binder \<Rightarrow> Binder" where
  "IP2Nic_finish at_end nic b =
     (if at_end then b else unregisterNode (nic_nrNodeId nic) (unregisterNode (nic_nodeId nic) b))"

text \<open>What a handover manager does with an X2 message.\<close>

definition receiveHandoverCommand :: "MacNodeId \<Rightarrow> bool \<Rightarrow> IP2Nic \<Rightarrow> IP2Nic" where
  "receiveHandoverCommand ueId startHo nic =
     (if startHo then triggerHandoverTarget ueId nic else signalHandoverCompleteSource ueId nic)"

definition handleX2Message :: "Binder \<Rightarrow> x2_msg \<Rightarrow> IP2Nic \<Rightarrow> IP2Nic run" where
  "handleX2Message b msg nic =
     (case x2_content msg of
        X2HandoverDataMsg dg \<Rightarrow> receiveTunneledPacketOnHandover b dg nic
      | X2HandoverControlMsg ueId startHo \<Rightarrow> Some (Inr (receiveHandoverCommand ueId startHo nic)))"

section \<open>Marking\<close>

definition is_bs :: "IP2Nic \<Rightarrow> bool" where
  "is_bs nic \<longleftrightarrow> nic_nodeType nic = ENODEB \<or> nic_nodeType nic = GNODEB"

text \<open>A packet for a UE that the Binder knows and that is attached on at least one side.\<close>

definition deliverable :: "Binder \<Rightarrow> MacNodeId \<Rightarrow> datagram \<Rightarrow> bool" where
  "deliverable b ue dg \<longleftrightarrow> getMacNodeId (dg_destAddress dg) b = Inr ue \<and>
     (\<exists>hop nrHop. getNextHop ue b = Inr hop \<and> getNextHop (getNrMacNodeId (dg_destAddress dg) b) b = Inr nrHop \<and>
        (0 < hop \<or> 0 < nrHop))"

lemma toStackBs_delivers:
  assumes "deliverable b ue dg" and "is_bs nic" and "\<not> nic_dualConnectivityEnabled nic"
  shows "\<exists>ci. toStackBs b dg nic = Some (Inr (nic, [ToStack dg ci]))"
  using assms
  by (auto simp: toStackBs_def markPacket_def is_bs_def markPacket_bs_def deliverable_def flow_info_def Let_def)

lemma toStackUe_sends:
  assumes "nic_nodeType nic = UE" and "\<not> nic_dualConnectivityEnabled nic"
    and "getNextHop (nic_nodeId nic) b = Inr hop" and "getNextHop (nic_nrNodeId nic) b = Inr nrHop"
  shows "\<exists>ci. toStackUe b dg nic = Some (Inr (nic, [ToStack dg ci]))"
  using assms by (auto simp: toStackUe_def markPacket_def markPacket_ue_def Let_def)

text \<open>The packets that went down to the stack.\<close>

definition delivered :: "nic_out list \<Rightarrow> datagram list" where
  "delivered out = concat (map (\<lambda>x. case x of ToStack dg _ \<Rightarrow> [dg] | _ \<Rightarrow> []) out)"

lemma delivered_simps [simp]:
  "delivered [] = []" "delivered (ToStack dg ci # out) = dg # delivered out"
  "delivered (ToX2 m # out) = delivered out" "delivered (ToIp dg # out) = delivered out"
  "delivered (out @ out') = delivered out @ delivered out'"
  by (simp_all add: delivered_def)

definition to_x2 :: "nic_out list \<Rightarrow> x2_msg list" where
  "to_x2 out = concat (map (\<lambda>x. case x of ToX2 m \<Rightarrow> [m] | _ \<Rightarrow> []) out)"

lemma to_x2_simps [simp]:
  "to_x2 [] = []" "to_x2 (ToStack dg ci # out) = to_x2 out" "to_x2 (ToX2 m # out) = m # to_x2 out"
  "to_x2 (ToIp dg # out) = to_x2 out" "to_x2 (out @ out') = to_x2 out @ to_x2 out'"
  by (simp_all add: to_x2_def)

lemma send_queue_all:
  assumes "\<forall>dg \<in> set dgs. \<exists>ci. f dg nic = Some (Inr (nic, [ToStack dg ci]))"
  shows "\<exists>out. send_queue f dgs nic = Some (Inr (nic, out)) \<and> delivered out = dgs \<and> to_x2 out = []"
  using assms
proof (induction dgs)
  case (Cons dg dgs)
  then obtain ci out where "f dg nic = Some (Inr (nic, [ToStack dg ci]))"
    "send_queue f dgs nic = Some (Inr (nic, out))" "delivered out = dgs" "to_x2 out = []" by auto
  then show ?case by simp
qed simp

section \<open>The UE keeps its packets\<close>

lemma hold_queue:
  "nic_nodeType nic = UE \<Longrightarrow> nic_ueHold nic \<Longrightarrow>
   send_queue (IP2Nic_handleMessage b ''upperLayerIn'') ps nic =
     Some (Inr (nic\<lparr>nic_ueHoldFromIp := nic_ueHoldFromIp nic @ ps\<rparr>, []))"
proof (induction ps arbitrary: nic)
  case (Cons p ps)
  let ?nic = "nic\<lparr>nic_ueHoldFromIp := nic_ueHoldFromIp nic @ [p]\<rparr>"
  have "IP2Nic_handleMessage b ''upperLayerIn'' p nic = Some (Inr (?nic, []))"
    using Cons.prems by (simp add: IP2Nic_handleMessage_def fromIpUe_def)
  then show ?case using Cons.IH [of ?nic] Cons.prems by simp
qed simp

text \<open>
  C12. A UE loses and reorders nothing while it changes its base station: the packets of its applications that
  arrive between the start and the end of a handover are held, nothing goes down meanwhile, and at the end
  they go down in their order of arrival, after which the UE sends directly again.
\<close>

theorem ue_handover_keeps_packets:
  assumes "nic_nodeType nic = UE" and "\<not> nic_dualConnectivityEnabled nic" and "nic_ueHoldFromIp nic = []"
    and "getNextHop (nic_nodeId nic) b = Inr hop" and "getNextHop (nic_nrNodeId nic) b = Inr nrHop" and "master \<noteq> 0"
  shows "\<exists>nic1 nic2 out. send_queue (IP2Nic_handleMessage b ''upperLayerIn'') ps (triggerHandoverUe master isNr nic) =
       Some (Inr (nic1, [])) \<and>
     signalHandoverCompleteUe b isNr nic1 = Some (Inr (nic2, out)) \<and> delivered out = ps \<and>
     nic_ueHoldFromIp nic2 = [] \<and> \<not> nic_ueHold nic2 \<and>
     (\<forall>p. \<exists>ci. IP2Nic_handleMessage b ''upperLayerIn'' p nic2 = Some (Inr (nic2, [ToStack p ci])))"
proof -
  let ?t = "triggerHandoverUe master isNr nic"
  have t: "nic_nodeType ?t = UE" "nic_ueHold ?t" "nic_ueHoldFromIp ?t = []" "\<not> nic_dualConnectivityEnabled ?t"
    "nic_nodeId ?t = nic_nodeId nic" "nic_nrNodeId ?t = nic_nrNodeId nic"
    "(if isNr then nic_nrMasterId ?t else nic_masterId ?t) = master"
    using assms by (simp_all add: triggerHandoverUe_def Let_def)
  let ?nic1 = "?t\<lparr>nic_ueHoldFromIp := ps\<rparr>" and ?nic2 = "?t\<lparr>nic_ueHoldFromIp := []\<rparr>"
  have s: "\<exists>ci. toStackUe b p n = Some (Inr (n, [ToStack p ci]))"
    if "nic_nodeType n = UE" "\<not> nic_dualConnectivityEnabled n" "nic_nodeId n = nic_nodeId nic" "nic_nrNodeId n = nic_nrNodeId nic" for p n
    using toStackUe_sends [of n b hop nrHop p] that assms(4,5) by simp
  obtain out where out: "send_queue (toStackUe b) ps ?nic2 = Some (Inr (?nic2, out))" "delivered out = ps"
    using send_queue_all [of ps "toStackUe b" ?nic2] s [of ?nic2] t by auto
  have m: "\<not> isNr \<and> nic_masterId ?nic1 \<noteq> 0 \<or> isNr \<and> nic_nrMasterId ?nic1 \<noteq> 0"
    using t(7) assms(6) by (simp split: if_splits)
  then have "signalHandoverCompleteUe b isNr ?nic1 = Some (Inr (?nic2\<lparr>nic_ueHold := False\<rparr>, out))"
    using out(1) by (simp add: signalHandoverCompleteUe_def)
  moreover have "\<exists>ci. IP2Nic_handleMessage b ''upperLayerIn'' p (?nic2\<lparr>nic_ueHold := False\<rparr>) =
      Some (Inr (?nic2\<lparr>nic_ueHold := False\<rparr>, [ToStack p ci]))" for p
    using s [of "?nic2\<lparr>nic_ueHold := False\<rparr>" p] t m by (auto simp: IP2Nic_handleMessage_def fromIpUe_def)
  ultimately show ?thesis
    using hold_queue [OF t(1,2), of b ps] t(3) out(2)
    by (intro exI [of _ ?nic1] exI [of _ "?nic2\<lparr>nic_ueHold := False\<rparr>"] exI [of _ out]) simp
qed

definition new_nic :: "RanNodeType \<Rightarrow> MacNodeId \<Rightarrow> MacNodeId \<Rightarrow> IP2Nic" where
  "new_nic ty i nr = \<lparr>nic_nodeType = ty, nic_nodeId = i, nic_nrNodeId = nr, nic_masterId = 0, nic_nrMasterId = 0,
     nic_hoForwarding = [], nic_hoHolding = [], nic_hoFromX2 = [], nic_hoFromIp = [], nic_ueHold = False,
     nic_ueHoldFromIp = [], nic_dualConnectivityEnabled = False, nic_sbTable = SplitBearersTable\<rparr>"

definition sample_datagram :: "nat \<Rightarrow> datagram" where
  "sample_datagram i = \<lparr>dg_id = i, dg_srcAddress = 1, dg_destAddress = 7, dg_typeOfService = 0, dg_protocolId = 17,
     dg_headerLength = 20, dg_tcpHeaderLength = 0\<rparr>"

text \<open>A Binder that knows one UE, with LTE identifier 2, attached to node 1, at the address 7.\<close>

definition sample_nic_binder :: Binder where
  "sample_nic_binder = new_Binder\<lparr>nextHop := [0, 1, 1, 0], macNodeIdToIPAddress := [(7, 2)]\<rparr>"

theorem ue_handover_keeps_packets_witness:
  "\<exists>nic1 nic2 out. send_queue (IP2Nic_handleMessage sample_nic_binder ''upperLayerIn'') [sample_datagram 0, sample_datagram 1]
       (triggerHandoverUe 1 True (new_nic UE 2 3)) = Some (Inr (nic1, [])) \<and>
     signalHandoverCompleteUe sample_nic_binder True nic1 = Some (Inr (nic2, out)) \<and>
     delivered out = [sample_datagram 0, sample_datagram 1]"
proof -
  have "nic_nodeType (new_nic UE 2 3) = UE" "\<not> nic_dualConnectivityEnabled (new_nic UE 2 3)"
    "nic_ueHoldFromIp (new_nic UE 2 3) = []"
    "getNextHop (nic_nodeId (new_nic UE 2 3)) sample_nic_binder = Inr 1"
    "getNextHop (nic_nrNodeId (new_nic UE 2 3)) sample_nic_binder = Inr 0"
    by (simp_all add: new_nic_def sample_nic_binder_def getNextHop_def)
  from ue_handover_keeps_packets [OF this, of 1 "[sample_datagram 0, sample_datagram 1]" True]
  show ?thesis by auto
qed

section \<open>Source and target\<close>

text \<open>
  A handover of one UE between two base stations: the two nodes, the forwarded packets on their way (the
  GTP tunnel), the commands on their way in both directions (the X2 association), the packets that arrived from
  the IP network at either node, and those that each node has sent down to the UE.
\<close>

record ho_sys =
  ho_source :: IP2Nic
  ho_target :: IP2Nic
  ho_tunnel :: "x2_msg list"
  ho_to_target :: "x2_msg list"
  ho_to_source :: "x2_msg list"
  ho_arrived :: "datagram list"
  ho_sent_source :: "datagram list"
  ho_sent_target :: "datagram list"

inductive ho_step :: "Binder \<Rightarrow> MacNodeId \<Rightarrow> ho_sys \<Rightarrow> ho_sys \<Rightarrow> bool" for b ue where
  ip_source: "deliverable b ue dg \<Longrightarrow>
    IP2Nic_handleMessage b ''upperLayerIn'' dg (ho_source s) = Some (Inr (nic, out)) \<Longrightarrow>
    ho_step b ue s (s\<lparr>ho_source := nic, ho_arrived := ho_arrived s @ [dg],
      ho_sent_source := ho_sent_source s @ delivered out, ho_tunnel := ho_tunnel s @ to_x2 out\<rparr>)"
| ip_target: "deliverable b ue dg \<Longrightarrow>
    IP2Nic_handleMessage b ''upperLayerIn'' dg (ho_target s) = Some (Inr (nic, out)) \<Longrightarrow>
    ho_step b ue s (s\<lparr>ho_target := nic, ho_arrived := ho_arrived s @ [dg],
      ho_sent_target := ho_sent_target s @ delivered out\<rparr>)"
| start: "triggerHandoverSource ue (nic_nodeId (ho_target s)) (ho_source s) = (nic, out) \<Longrightarrow>
    ho_step b ue s (s\<lparr>ho_source := nic, ho_to_target := ho_to_target s @ to_x2 out\<rparr>)"
| tunnel: "ho_tunnel s = m # ms \<Longrightarrow> handleX2Message b m (ho_target s) = Some (Inr nic) \<Longrightarrow>
    ho_step b ue s (s\<lparr>ho_target := nic, ho_tunnel := ms\<rparr>)"
| at_target: "ho_to_target s = m # ms \<Longrightarrow> handleX2Message b m (ho_target s) = Some (Inr nic) \<Longrightarrow>
    ho_step b ue s (s\<lparr>ho_target := nic, ho_to_target := ms\<rparr>)"
| at_source: "ho_to_source s = m # ms \<Longrightarrow> handleX2Message b m (ho_source s) = Some (Inr nic) \<Longrightarrow>
    ho_step b ue s (s\<lparr>ho_source := nic, ho_to_source := ms\<rparr>)"
| complete: "signalHandoverCompleteTarget b ue (nic_nodeId (ho_source s)) (ho_target s) = Some (Inr (nic, out)) \<Longrightarrow>
    ho_step b ue s (s\<lparr>ho_target := nic, ho_sent_target := ho_sent_target s @ delivered out,
      ho_to_source := ho_to_source s @ to_x2 out\<rparr>)"

definition tunnelled :: "x2_msg list \<Rightarrow> datagram list" where
  "tunnelled ms = concat (map (\<lambda>m. case x2_content m of X2HandoverDataMsg dg \<Rightarrow> [dg] | _ \<Rightarrow> []) ms)"

lemma tunnelled_simps [simp]:
  "tunnelled [] = []" "tunnelled (m # ms) = (case x2_content m of X2HandoverDataMsg dg \<Rightarrow> [dg] | _ \<Rightarrow> []) @ tunnelled ms"
  "tunnelled (ms @ ms') = tunnelled ms @ tunnelled ms'"
  by (simp_all add: tunnelled_def)

text \<open>Where the packets are, and what travels on which path.\<close>

definition in_custody :: "MacNodeId \<Rightarrow> ho_sys \<Rightarrow> datagram multiset" where
  "in_custody ue s = mset (tunnelled (ho_tunnel s)) + mset (held (nic_hoFromX2 (ho_target s)) ue)
     + mset (held (nic_hoFromIp (ho_target s)) ue)"

definition ho_ok :: "Binder \<Rightarrow> MacNodeId \<Rightarrow> ho_sys \<Rightarrow> bool" where
  "ho_ok b ue s \<longleftrightarrow>
     is_bs (ho_source s) \<and> is_bs (ho_target s) \<and>
     \<not> nic_dualConnectivityEnabled (ho_source s) \<and> \<not> nic_dualConnectivityEnabled (ho_target s) \<and>
     ue \<notin> set (nic_hoHolding (ho_source s)) \<and> map_of (nic_hoForwarding (ho_target s)) ue = None \<and>
     smap_ok (nic_hoFromX2 (ho_target s)) \<and> smap_ok (nic_hoFromIp (ho_target s)) \<and>
     (\<forall>dg \<in> set (held (nic_hoFromX2 (ho_target s)) ue @ held (nic_hoFromIp (ho_target s)) ue). deliverable b ue dg) \<and>
     (\<forall>m \<in> set (ho_tunnel s). \<exists>dg. x2_content m = X2HandoverDataMsg dg \<and> deliverable b ue dg) \<and>
     (\<forall>m \<in> set (ho_to_target s). x2_content m = X2HandoverControlMsg ue True) \<and>
     (\<forall>m \<in> set (ho_to_source s). x2_content m = X2HandoverControlMsg ue False)"

lemma held_push: "smap_ok m \<Longrightarrow> held (push_queue i dg m) j = (if j = i then held m i @ [dg] else held m j)"
  by (auto simp: held_def push_queue_def split_def Let_def smap_rules split: option.splits)

lemma smap_ok_push: "smap_ok m \<Longrightarrow> smap_ok (push_queue i dg m)"
  by (simp add: push_queue_def split_def Let_def smap_rules)

lemma held_clear: "smap_ok m \<Longrightarrow> held (clear_queue i m) j = (if j = i then [] else held m j)"
  by (auto simp: held_def clear_queue_def smap_rules split: option.splits)

lemma smap_ok_clear: "smap_ok m \<Longrightarrow> smap_ok (clear_queue i m)"
  by (simp add: clear_queue_def smap_rules)

text \<open>What a base station does with a packet for the UE.\<close>

lemma fromIpBs_cases:
  assumes "deliverable b ue dg" and "is_bs nic" and "\<not> nic_dualConnectivityEnabled nic"
    and "IP2Nic_handleMessage b ''upperLayerIn'' dg nic = Some (Inr (nic', out))"
  shows "(\<exists>t. map_of (nic_hoForwarding nic) ue = Some t \<and> nic' = nic \<and>
       out = [ToX2 (forwardDataToTargetEnb (nic_nodeId nic) dg t)])
     \<or> (map_of (nic_hoForwarding nic) ue = None \<and> ue \<in> set (nic_hoHolding nic) \<and>
       nic' = nic\<lparr>nic_hoFromIp := push_queue ue dg (nic_hoFromIp nic)\<rparr> \<and> out = [])
     \<or> (map_of (nic_hoForwarding nic) ue = None \<and> ue \<notin> set (nic_hoHolding nic) \<and> nic' = nic \<and>
       (\<exists>ci. out = [ToStack dg ci]))"
proof -
  have dest: "getMacNodeId (dg_destAddress dg) b = Inr ue" using assms(1) by (simp add: deliverable_def)
  have "fromIpBs b dg nic = Some (Inr (nic', out))" using assms(2,4) by (simp add: IP2Nic_handleMessage_def is_bs_def)
  then show ?thesis
    using toStackBs_delivers [OF assms(1-3)] by (auto simp: fromIpBs_def dest split: option.splits if_splits)
qed

text \<open>The end of a handover: the forwarded packets first, then those that came directly.\<close>

lemma complete_effect:
  assumes "is_bs nic" and "\<not> nic_dualConnectivityEnabled nic"
    and "\<forall>dg \<in> set (held (nic_hoFromX2 nic) ue @ held (nic_hoFromIp nic) ue). deliverable b ue dg"
  shows "\<exists>out. signalHandoverCompleteTarget b ue src nic =
     Some (Inr (nic\<lparr>nic_hoFromX2 := clear_queue ue (nic_hoFromX2 nic), nic_hoFromIp := clear_queue ue (nic_hoFromIp nic),
                    nic_hoHolding := filter (\<lambda>i. i \<noteq> ue) (nic_hoHolding nic)\<rparr>, out)) \<and>
     delivered out = held (nic_hoFromX2 nic) ue @ held (nic_hoFromIp nic) ue \<and>
     to_x2 out = [sendHandoverCommand (nic_nodeId nic) ue src False]"
proof -
  let ?x = "held (nic_hoFromX2 nic) ue" and ?i = "held (nic_hoFromIp nic) ue"
  let ?n1 = "nic\<lparr>nic_hoFromX2 := clear_queue ue (nic_hoFromX2 nic)\<rparr>"
  let ?n2 = "?n1\<lparr>nic_hoFromIp := clear_queue ue (nic_hoFromIp nic)\<rparr>"
  have bs: "is_bs ?n1" "is_bs ?n2" "\<not> nic_dualConnectivityEnabled ?n1" "\<not> nic_dualConnectivityEnabled ?n2"
    using assms(1,2) by (simp_all add: is_bs_def)
  obtain out1 where o1: "send_queue (toStackBs b) ?x ?n1 = Some (Inr (?n1, out1))" "delivered out1 = ?x" "to_x2 out1 = []"
    using send_queue_all [of ?x "toStackBs b" ?n1] toStackBs_delivers [OF _ bs(1,3), of b ue] assms(3) by auto
  obtain out2 where o2: "send_queue (toStackBs b) ?i ?n2 = Some (Inr (?n2, out2))" "delivered out2 = ?i" "to_x2 out2 = []"
    using send_queue_all [of ?i "toStackBs b" ?n2] toStackBs_delivers [OF _ bs(2,4), of b ue] assms(3) by auto
  show ?thesis using o1 o2 by (simp add: signalHandoverCompleteTarget_def Let_def)
qed

definition conserved :: "MacNodeId \<Rightarrow> ho_sys \<Rightarrow> bool" where
  "conserved ue s \<longleftrightarrow> mset (ho_arrived s) = mset (ho_sent_source s) + mset (ho_sent_target s) + in_custody ue s"

lemma ho_ip_source:
  assumes "ho_ok b ue s" and "deliverable b ue dg"
    and "IP2Nic_handleMessage b ''upperLayerIn'' dg (ho_source s) = Some (Inr (nic, out))"
  shows "nic = ho_source s \<and> (delivered out = [dg] \<and> to_x2 out = [] \<or>
     delivered out = [] \<and> (\<exists>m. to_x2 out = [m] \<and> x2_content m = X2HandoverDataMsg dg))"
  using fromIpBs_cases [OF assms(2) _ _ assms(3)] assms(1)
  by (auto simp: ho_ok_def forwardDataToTargetEnb_def)

lemma ho_ip_target:
  assumes "ho_ok b ue s" and "deliverable b ue dg"
    and "IP2Nic_handleMessage b ''upperLayerIn'' dg (ho_target s) = Some (Inr (nic, out))"
  shows "nic = ho_target s \<and> delivered out = [dg] \<or>
     nic = (ho_target s)\<lparr>nic_hoFromIp := push_queue ue dg (nic_hoFromIp (ho_target s))\<rparr> \<and> delivered out = []"
  using fromIpBs_cases [OF assms(2) _ _ assms(3)] assms(1) by (auto simp: ho_ok_def)

lemma ho_tunnel_in:
  assumes "ho_ok b ue s" and "ho_tunnel s = m # ms" and "handleX2Message b m (ho_target s) = Some (Inr nic)"
  obtains dg where "x2_content m = X2HandoverDataMsg dg" "deliverable b ue dg"
    "nic = (ho_target s)\<lparr>nic_hoFromX2 := push_queue ue dg (nic_hoFromX2 (ho_target s))\<rparr>"
  using assms
  by (auto simp: ho_ok_def handleX2Message_def receiveTunneledPacketOnHandover_def deliverable_def)

lemma ho_step_ok:
  assumes "ho_step b ue s s'" and "ho_ok b ue s"
  shows "ho_ok b ue s'"
  using assms(1)
proof (cases rule: ho_step.cases)
  case (ip_source dg nic out)
  with ho_ip_source [OF assms(2) ip_source(2,3)] assms(2) show ?thesis by (auto simp: ho_ok_def)
next
  case (ip_target dg nic out)
  with ho_ip_target [OF assms(2) ip_target(2,3)] assms(2) show ?thesis
    by (auto simp: ho_ok_def is_bs_def held_push smap_ok_push)
next
  case (start nic out)
  with assms(2) show ?thesis
    by (auto simp: ho_ok_def is_bs_def triggerHandoverSource_def sendHandoverCommand_def split: if_splits)
next
  case (tunnel m ms nic)
  obtain dg where "deliverable b ue dg" "nic = (ho_target s)\<lparr>nic_hoFromX2 := push_queue ue dg (nic_hoFromX2 (ho_target s))\<rparr>"
    using ho_tunnel_in [OF assms(2) tunnel(2,3)] .
  with assms(2) tunnel(1,2) show ?thesis by (auto simp: ho_ok_def is_bs_def held_push smap_ok_push)
next
  case (at_target m ms nic)
  with assms(2) show ?thesis
    by (auto simp: ho_ok_def is_bs_def handleX2Message_def receiveHandoverCommand_def triggerHandoverTarget_def)
next
  case (at_source m ms nic)
  with assms(2) show ?thesis
    by (auto simp: ho_ok_def is_bs_def handleX2Message_def receiveHandoverCommand_def signalHandoverCompleteSource_def)
next
  case (complete nic out)
  with assms(2) complete_effect [of "ho_target s" ue b "nic_nodeId (ho_source s)"] show ?thesis
    by (auto simp: ho_ok_def is_bs_def held_clear smap_ok_clear sendHandoverCommand_def)
qed

lemma ho_step_conserves:
  assumes "ho_step b ue s s'" and "ho_ok b ue s" and "conserved ue s"
  shows "conserved ue s'"
proof -
  have ok: "smap_ok (nic_hoFromX2 (ho_target s))" "smap_ok (nic_hoFromIp (ho_target s))"
    using assms(2) by (simp_all add: ho_ok_def)
  note [simp] = conserved_def in_custody_def held_push [OF ok(1)] held_push [OF ok(2)] held_clear [OF ok(1)] held_clear [OF ok(2)]
  show ?thesis
    using assms(1)
  proof (cases rule: ho_step.cases)
    case (ip_source dg nic out)
    with ho_ip_source [OF assms(2) ip_source(2,3)] assms(3) show ?thesis by auto
  next
    case (ip_target dg nic out)
    with ho_ip_target [OF assms(2) ip_target(2,3)] assms(3) show ?thesis by auto
  next
    case (start nic out)
    with assms(3) show ?thesis by simp
  next
    case (tunnel m ms nic)
    obtain dg where "x2_content m = X2HandoverDataMsg dg"
        "nic = (ho_target s)\<lparr>nic_hoFromX2 := push_queue ue dg (nic_hoFromX2 (ho_target s))\<rparr>"
      using ho_tunnel_in [OF assms(2) tunnel(2,3)] .
    with assms(3) tunnel(1,2) show ?thesis by simp
  next
    case (at_target m ms nic)
    then have "nic = triggerHandoverTarget ue (ho_target s)"
      using assms(2) by (simp add: ho_ok_def handleX2Message_def receiveHandoverCommand_def)
    with at_target(1) assms(3) show ?thesis by (simp add: triggerHandoverTarget_def)
  next
    case (at_source m ms nic)
    with assms(3) show ?thesis by simp
  next
    case (complete nic out)
    with assms(2,3) complete_effect [of "ho_target s" ue b "nic_nodeId (ho_source s)"] show ?thesis
      by (auto simp: ho_ok_def)
  qed
qed

lemma ho_reachable:
  "(ho_step b ue)\<^sup>*\<^sup>* s s' \<Longrightarrow> ho_ok b ue s \<Longrightarrow> conserved ue s \<Longrightarrow> ho_ok b ue s' \<and> conserved ue s'"
  by (induction rule: rtranclp_induct) (auto intro: ho_step_ok ho_step_conserves)

text \<open>
  C10. A handover loses and duplicates no packet: however the packets from the IP network, the
  forwarded packets, the commands and the signals of the UE interleave, every packet that arrived at the
  source or the target has been sent down exactly once or is exactly once on its way: in the tunnel, or held
  at the target.
\<close>

theorem handover_conserves_packets:
  assumes "(ho_step b ue)\<^sup>*\<^sup>* s s'" and "ho_ok b ue s" and "ho_arrived s = []" and "ho_sent_source s = []"
    and "ho_sent_target s = []" and "ho_tunnel s = []" and "held (nic_hoFromX2 (ho_target s)) ue = []"
    and "held (nic_hoFromIp (ho_target s)) ue = []"
  shows "mset (ho_arrived s') = mset (ho_sent_source s') + mset (ho_sent_target s') + mset (tunnelled (ho_tunnel s'))
     + mset (held (nic_hoFromX2 (ho_target s')) ue) + mset (held (nic_hoFromIp (ho_target s')) ue)"
proof -
  have "conserved ue s" using assms(3-) by (simp add: conserved_def in_custody_def)
  from ho_reachable [OF assms(1,2) this] show ?thesis by (simp add: conserved_def in_custody_def add.assoc)
qed

definition sample_handover :: ho_sys where
  "sample_handover = \<lparr>ho_source = new_nic GNODEB 1 0, ho_target = new_nic GNODEB 4 0, ho_tunnel = [], ho_to_target = [],
     ho_to_source = [], ho_arrived = [], ho_sent_source = [], ho_sent_target = []\<rparr>"

lemma sample_handover_ok: "ho_ok sample_nic_binder 2 sample_handover"
  by (simp add: ho_ok_def sample_handover_def new_nic_def is_bs_def held_def)

lemma sample_deliverable: "deliverable sample_nic_binder 2 (sample_datagram i)"
  by (simp add: deliverable_def sample_datagram_def sample_nic_binder_def getMacNodeId_def getNrMacNodeId_def
      getNextHop_def new_Binder_def)

text \<open>The sample handover after its start, and after one packet has been forwarded.\<close>

definition sample_started :: ho_sys where
  "sample_started = sample_handover\<lparr>ho_source := (new_nic GNODEB 1 0)\<lparr>nic_hoForwarding := [(2, 4)]\<rparr>,
     ho_to_target := [sendHandoverCommand 1 2 4 True]\<rparr>"

definition sample_forwarded :: ho_sys where
  "sample_forwarded = sample_started\<lparr>ho_arrived := [sample_datagram 0],
     ho_tunnel := [forwardDataToTargetEnb 1 (sample_datagram 0) 4]\<rparr>"

lemma sample_forwarded_reachable: "(ho_step sample_nic_binder 2)\<^sup>*\<^sup>* sample_handover sample_forwarded"
proof -
  let ?src = "(new_nic GNODEB 1 0)\<lparr>nic_hoForwarding := [(2, 4)]\<rparr>"
  have "triggerHandoverSource 2 (nic_nodeId (ho_target sample_handover)) (ho_source sample_handover) =
      (?src, [ToX2 (sendHandoverCommand 1 2 4 True)])"
    by (simp add: triggerHandoverSource_def sample_handover_def new_nic_def)
  from ho_step.start [OF this] have 1: "ho_step sample_nic_binder 2 sample_handover sample_started"
    by (simp add: sample_started_def sample_handover_def)
  have "fromIpBs sample_nic_binder (sample_datagram 0) ?src =
      Some (Inr (?src, [ToX2 (forwardDataToTargetEnb 1 (sample_datagram 0) 4)]))"
    using sample_deliverable [of 0] by (simp add: fromIpBs_def deliverable_def new_nic_def)
  then have "IP2Nic_handleMessage sample_nic_binder ''upperLayerIn'' (sample_datagram 0) (ho_source sample_started) =
      Some (Inr (?src, [ToX2 (forwardDataToTargetEnb 1 (sample_datagram 0) 4)]))"
    by (simp add: IP2Nic_handleMessage_def sample_started_def new_nic_def)
  from ho_step.ip_source [OF sample_deliverable this]
  have 2: "ho_step sample_nic_binder 2 sample_started sample_forwarded"
    by (simp add: sample_forwarded_def sample_started_def sample_handover_def)
  from 1 2 show ?thesis by auto
qed

theorem handover_conserves_packets_witness:
  "(ho_step sample_nic_binder 2)\<^sup>*\<^sup>* sample_handover sample_forwarded \<and>
   mset (ho_arrived sample_forwarded) = mset (tunnelled (ho_tunnel sample_forwarded))"
  using handover_conserves_packets [OF sample_forwarded_reachable sample_handover_ok] sample_forwarded_reachable
  by (simp add: sample_handover_def sample_forwarded_def sample_started_def new_nic_def held_def)


definition sample_tunnelled :: ho_sys where
  "sample_tunnelled = sample_forwarded\<lparr>ho_target := (new_nic GNODEB 4 0)\<lparr>nic_hoFromX2 := [(2, [sample_datagram 0])]\<rparr>,
     ho_tunnel := []\<rparr>"

lemma sample_tunnelled_reachable: "(ho_step sample_nic_binder 2)\<^sup>*\<^sup>* sample_handover sample_tunnelled"
proof -
  let ?m = "forwardDataToTargetEnb 1 (sample_datagram 0) 4"
  let ?tgt = "(new_nic GNODEB 4 0)\<lparr>nic_hoFromX2 := [(2, [sample_datagram 0])]\<rparr>"
  have "handleX2Message sample_nic_binder ?m (ho_target sample_forwarded) = Some (Inr ?tgt)"
    using sample_deliverable [of 0]
    by (simp add: handleX2Message_def forwardDataToTargetEnb_def receiveTunneledPacketOnHandover_def deliverable_def
        push_queue_def smap_index_def sample_forwarded_def sample_started_def sample_handover_def new_nic_def)
  from ho_step.tunnel [of sample_forwarded ?m "[]" sample_nic_binder, OF _ this, of 2]
  have "ho_step sample_nic_binder 2 sample_forwarded sample_tunnelled"
    by (simp add: sample_tunnelled_def) (simp add: sample_forwarded_def)
  with sample_forwarded_reachable show ?thesis by auto
qed


section \<open>LteX2Manager\<close>

instantiation LteX2MessageType :: linorder
begin

definition x2_rank :: "LteX2MessageType \<Rightarrow> nat" where
  "x2_rank t = (case t of X2_COMP_MSG \<Rightarrow> 0 | X2_HANDOVER_CONTROL_MSG \<Rightarrow> 1 | X2_HANDOVER_DATA_MSG \<Rightarrow> 2
     | X2_DUALCONNECTIVITY_CONTROL_MSG \<Rightarrow> 3 | X2_DUALCONNECTIVITY_DATA_MSG \<Rightarrow> 4 | X2_UNKNOWN_MSG \<Rightarrow> 5)"

definition less_eq_LteX2MessageType :: "LteX2MessageType \<Rightarrow> LteX2MessageType \<Rightarrow> bool" where
  "less_eq_LteX2MessageType s t \<longleftrightarrow> x2_rank s \<le> x2_rank t"

definition less_LteX2MessageType :: "LteX2MessageType \<Rightarrow> LteX2MessageType \<Rightarrow> bool" where
  "less_LteX2MessageType s t \<longleftrightarrow> x2_rank s < x2_rank t"

instance
proof
  fix s t :: LteX2MessageType
  assume "s \<le> t" "t \<le> s"
  then have "x2_rank s = x2_rank t" by (simp add: less_eq_LteX2MessageType_def)
  then show "s = t" by (cases s; cases t) (simp_all add: x2_rank_def)
qed (auto simp: less_eq_LteX2MessageType_def less_LteX2MessageType_def)

end

record LteX2Manager =
  x2m_nodeId :: MacNodeId
  x2m_dataInterfaceTable :: "(LteX2MessageType, int) smap"
  x2m_x2InterfaceTable :: "(MacNodeId, int) smap"

text \<open>A message on X2, with the type that the switch looks at.\<close>

record 'b x2_frame =
  xf_type :: LteX2MessageType
  xf_sourceId :: MacNodeId
  xf_destinationId :: MacNodeId
  xf_body :: 'b

text \<open>What a user module of X2 sends down: its registration, or a message for a list of nodes.\<close>

datatype 'b x2_request = X2Init LteX2MessageType | X2Send LteX2MessageType "MacNodeId list" 'b

definition x2_out_gate :: "LteX2MessageType \<Rightarrow> MacNodeId \<Rightarrow> LteX2Manager \<Rightarrow> (string \<times> int) \<times> LteX2Manager" where
  "x2_out_gate ty dest x =
     (if ty = X2_HANDOVER_DATA_MSG \<or> ty = X2_DUALCONNECTIVITY_DATA_MSG then ((''x2Gtp$o'', 0), x)
      else (let (i, m) = smap_index 0 dest (x2m_x2InterfaceTable x)
            in ((''x2$o'', i), x\<lparr>x2m_x2InterfaceTable := m\<rparr>)))"

fun x2_send_all :: "LteX2MessageType \<Rightarrow> 'b \<Rightarrow> MacNodeId list \<Rightarrow> LteX2Manager
    \<Rightarrow> LteX2Manager \<times> ('b x2_frame \<times> (string \<times> int)) list" where
  "x2_send_all ty body [] x = (x, [])"
| "x2_send_all ty body (dest # dests) x =
     (let (gate, x1) = x2_out_gate ty dest x;
          (x2, out) = x2_send_all ty body dests x1
      in (x2, (\<lparr>xf_type = ty, xf_sourceId = x2m_nodeId x, xf_destinationId = dest, xf_body = body\<rparr>, gate) # out))"

definition LteX2Manager_fromStack ::
  "int \<Rightarrow> 'b x2_request \<Rightarrow> LteX2Manager \<Rightarrow> LteX2Manager \<times> ('b x2_frame \<times> (string \<times> int)) list" where
  "LteX2Manager_fromStack gateIndex req x =
     (case req of
        X2Init ty \<Rightarrow> (x\<lparr>x2m_dataInterfaceTable := smap_upd ty gateIndex (x2m_dataInterfaceTable x)\<rparr>, [])
      | X2Send ty dests body \<Rightarrow> x2_send_all ty body dests x)"

definition LteX2Manager_fromX2 ::
  "'b x2_frame \<Rightarrow> LteX2Manager \<Rightarrow> LteX2Manager \<times> ('b x2_frame \<times> (string \<times> int)) list" where
  "LteX2Manager_fromX2 f x =
     (if xf_type f = X2_UNKNOWN_MSG then (x, [])
      else (let (i, m) = smap_index 0 (xf_type f) (x2m_dataInterfaceTable x)
            in (x\<lparr>x2m_dataInterfaceTable := m\<rparr>, [(f, (''dataPort$o'', i))])))"

datatype 'b x2_in = FromDataPort int "'b x2_request" | FromX2Gtp "'b x2_frame" | FromX2 "'b x2_frame" | FromOther

definition LteX2Manager_handleMessage ::
  "'b x2_in \<Rightarrow> LteX2Manager \<Rightarrow> (LteX2Manager \<times> ('b x2_frame \<times> (string \<times> int)) list) res" where
  "LteX2Manager_handleMessage msg x =
     (case msg of
        FromDataPort i req \<Rightarrow> Inr (LteX2Manager_fromStack i req x)
      | FromX2Gtp f \<Rightarrow> Inr (LteX2Manager_fromX2 f x)
      | FromX2 f \<Rightarrow> Inr (LteX2Manager_fromX2 f x)
      | FromOther \<Rightarrow> Inl (RuntimeError ''LteX2Manager::handleMessage: invalid incoming gate''))"

text \<open>The handover manager registers for its commands.\<close>

definition LteHandoverManager_initialize :: "'b x2_request" where
  "LteHandoverManager_initialize = X2Init X2_HANDOVER_CONTROL_MSG"

text \<open>
  The registrations of the user modules, in order: the CoMP manager on gate 0, if there is one, and
  the handover manager on the next.  The handover commands reach the handover manager; the packets forwarded
  during a handover go to gate 0, because nobody registers for them.
\<close>

theorem handover_data_goes_to_gate_0:
  fixes x :: LteX2Manager and f :: "'b x2_frame"
  assumes "smap_ok (x2m_dataInterfaceTable x)" and "map_of (x2m_dataInterfaceTable x) X2_HANDOVER_DATA_MSG = None"
  shows "let x' = fst (LteX2Manager_fromStack gateIndex (LteHandoverManager_initialize :: 'b x2_request) x)
     in snd (LteX2Manager_fromX2 (f\<lparr>xf_type := X2_HANDOVER_CONTROL_MSG\<rparr>) x') =
          [(f\<lparr>xf_type := X2_HANDOVER_CONTROL_MSG\<rparr>, (''dataPort$o'', gateIndex))] \<and>
        snd (LteX2Manager_fromX2 (f\<lparr>xf_type := X2_HANDOVER_DATA_MSG\<rparr>) x') =
          [(f\<lparr>xf_type := X2_HANDOVER_DATA_MSG\<rparr>, (''dataPort$o'', 0))]"
  using assms
  by (simp add: LteX2Manager_fromStack_def LteHandoverManager_initialize_def LteX2Manager_fromX2_def smap_rules
      smap_index_def Let_def del: map_of_eq_None_iff)

lemma x2_send_all_frames:
  "map (\<lambda>(f, g). (xf_destinationId f, xf_sourceId f, xf_type f, xf_body f)) (snd (x2_send_all ty body dests x)) =
   map (\<lambda>d. (d, x2m_nodeId x, ty, body)) dests"
proof (induction dests arbitrary: x)
  case (Cons d ds)
  have "x2m_nodeId (snd (x2_out_gate ty d x)) = x2m_nodeId x" by (simp add: x2_out_gate_def Let_def split_def)
  with Cons [of "snd (x2_out_gate ty d x)"] show ?case by (simp add: Let_def split_def)
qed simp

section \<open>Split bearers alternate\<close>

text \<open>The packets of a connection that uses a split bearer, marked one after the other.\<close>

fun mark_all :: "Binder \<Rightarrow> FlowControlInfo list \<Rightarrow> IP2Nic \<Rightarrow> (bool list \<times> IP2Nic) run" where
  "mark_all b [] nic = Some (Inr ([], nic))"
| "mark_all b (ci # flows) nic = run_bind (markPacket b ci nic) (\<lambda>(_, ci', nic).
     run_bind (mark_all b flows nic) (\<lambda>(nrs, nic). Some (Inr (fc_useNR ci' # nrs, nic))))"

definition fc_key :: "FlowControlInfo \<Rightarrow> flow_key" where
  "fc_key ci = (fc_srcAddr ci, fc_dstAddr ci, fc_typeOfService ci)"

lemma mark_all_split:
  assumes "nic_nodeType nic = UE" and "nic_dualConnectivityEnabled nic" and "\<forall>ci \<in> set flows. fc_typeOfService ci \<ge> 20"
    and "getNextHop (nic_nodeId nic) b = Inr hop" and "getNextHop (nic_nrNodeId nic) b = Inr nrHop"
    and "0 < hop" and "0 < nrHop" and "send_all (map fc_key flows) (nic_sbTable nic) = Some (ns, ht)"
  shows "mark_all b flows nic = Some (Inr (map odd ns, nic\<lparr>nic_sbTable := ht\<rparr>))"
  using assms
proof (induction flows arbitrary: nic ns)
  case (Cons ci flows)
  from Cons.prems(8) obtain n ht1 ns' where
    s: "sent_packets (fc_key ci) (nic_sbTable nic) = Some (n, ht1)" "send_all (map fc_key flows) ht1 = Some (ns', ht)" "ns = n # ns'"
    by (auto split: option.splits prod.splits)
  have "markPacket b ci nic = Some (Inr (True, ci\<lparr>fc_useNR := n mod 2 \<noteq> 0\<rparr>, nic\<lparr>nic_sbTable := ht1\<rparr>))"
    using Cons.prems s(1) by (simp add: markPacket_def markPacket_ue_def split_bearer_def fc_key_def)
  moreover have "mark_all b flows (nic\<lparr>nic_sbTable := ht1\<rparr>) = Some (Inr (map odd ns', nic\<lparr>nic_sbTable := ht\<rparr>))"
    using Cons.IH [of "nic\<lparr>nic_sbTable := ht1\<rparr>" ns'] Cons.prems s(2) by simp
  ultimately show ?case by (simp add: s(3) odd_iff_mod_2_eq_one)
qed simp



end
