(* ===== verification/Membership_Protocol.thy ===== *)
theory Membership_Protocol
  imports Membership_Control
begin

text \<open>
  What an agent promises, without its devices, the Binder, the radio and the timers: an abstract
  membership protocol on six fields, and the proof that \<^verbatim>\<open>MembershipControl\<close> refines it.  The
  addresses of new devices, which the Binder assigns, are the only thing the protocol leaves open.
\<close>

section \<open>Refinement by forward simulation\<close>

locale forward_simulation =
  fixes step :: "'c \<Rightarrow> 'c \<Rightarrow> bool"
    and spec :: "'a \<Rightarrow> 'a \<Rightarrow> bool"
    and abstr :: "'c \<Rightarrow> 'a"
    and inv :: "'c \<Rightarrow> bool"
  assumes inv_step: "step x y \<Longrightarrow> inv x \<Longrightarrow> inv y"
    and simulates: "step x y \<Longrightarrow> inv x \<Longrightarrow> spec (abstr x) (abstr y)"
begin

lemma run: "step\<^sup>*\<^sup>* x y \<Longrightarrow> inv x \<Longrightarrow> inv y \<and> spec\<^sup>*\<^sup>* (abstr x) (abstr y)"
  by (induction rule: rtranclp_induct) (auto intro: inv_step simulates rtranclp.rtrancl_into_rtrancl)

text \<open>An invariant of the specification holds of every state the implementation reaches.\<close>

lemma transfer:
  assumes "step\<^sup>*\<^sup>* x y" and "inv x" and "J (abstr x)"
    and "\<And>a b. spec a b \<Longrightarrow> J a \<Longrightarrow> J b"
  shows "J (abstr y)"
proof -
  have "spec\<^sup>*\<^sup>* (abstr x) (abstr y)" using run assms(1,2) by blast
  then show ?thesis by (induction rule: rtranclp_induct) (auto intro: assms(3,4))
qed

end

section \<open>The protocol\<close>

record membership =
  v_state :: MemberControlState
  v_role :: Role
  v_master :: bool
  v_convoy :: int
  v_manager :: int
  v_gateway :: int

definition found_v :: "int \<Rightarrow> int \<Rightarrow> membership \<Rightarrow> membership" where
  "found_v convoy a v = v\<lparr>v_state := INITIALIZED, v_role := MANAGER, v_master := True,
     v_convoy := convoy, v_manager := a\<rparr>"

text \<open>A master does not join; the role changes all the same.\<close>

definition join_v :: "int \<Rightarrow> int \<Rightarrow> membership \<Rightarrow> membership" where
  "join_v convoy cluster v =
     (let v' = v\<lparr>v_state := INITIALIZED, v_role := (if v_role v = GATEWAY then GATEWAY else MEMBER)\<rparr>
      in if v_master v then v' else v'\<lparr>v_convoy := convoy, v_manager := cluster\<rparr>)"

definition detach_v :: "membership \<Rightarrow> membership" where
  "detach_v v = v\<lparr>v_convoy := 0, v_manager := 0, v_gateway := 0\<rparr>"

definition change_v :: "int \<Rightarrow> Role \<Rightarrow> int \<Rightarrow> int \<Rightarrow> int \<Rightarrow> membership \<Rightarrow> membership" where
  "change_v a role convoy cluster cluster_gw v =
     (if role = MANAGER then found_v convoy a v
      else if role = UNDEFINED then v
      else (let v1 = (if role = GATEWAY then v\<lparr>v_role := GATEWAY, v_gateway := cluster_gw\<rparr> else v)
            in join_v convoy cluster (if v_role v = MANAGER then v1\<lparr>v_master := False\<rparr> else v1)))"

text \<open>An order, given the largest convoy id \<open>newest\<close> and two addresses for new devices.\<close>

definition order_v ::
  "int \<Rightarrow> int \<Rightarrow> int \<Rightarrow> Role \<Rightarrow> int \<Rightarrow> int \<Rightarrow> int \<Rightarrow> membership \<Rightarrow> membership" where
  "order_v a a' newest role convoy cluster cluster_gw v =
     (if convoy \<noteq> v_convoy v
      then change_v a' role convoy cluster cluster_gw
             (if newest < convoy then found_v (newest + 1) a (detach_v v) else detach_v v)
      else if role \<noteq> v_role v then change_v a role convoy cluster cluster_gw (detach_v v)
      else if cluster \<noteq> v_manager v \<or> cluster_gw \<noteq> v_gateway v
      then change_v a role convoy cluster cluster_gw v
      else v)"

text \<open>The scan comes first, and only once; orders follow the reports that start with it.\<close>

inductive protocol_step :: "membership \<Rightarrow> membership \<Rightarrow> bool" where
  stutter: "protocol_step v v"
| scan_found: "v_state v = INITIALIZING \<Longrightarrow> protocol_step v (found_v convoy a v)"
| scan_join: "v_state v = INITIALIZING \<Longrightarrow> protocol_step v (join_v convoy cluster v)"
| order: "v_state v = INITIALIZED \<Longrightarrow> protocol_step v (order_v a a' newest role convoy cluster cluster_gw v)"

section \<open>The agent's view\<close>

definition mc_view :: "'q MembershipControl \<Rightarrow> membership" where
  "mc_view m = \<lparr>v_state = mc_control_state m, v_role = mc_role m,
     v_master = (\<exists>pr. mc_device_pr m = Some pr \<and> cd_device_type pr = MASTER_DEVICE),
     v_convoy = (case mc_device_pr m of Some pr \<Rightarrow> cd_address_convoy pr | None \<Rightarrow> 0),
     v_manager = getAddressOfManagerForPrimaryDevice m,
     v_gateway = getAddressOfManagerForGatewayDevice m\<rparr>"

lemma mc_view_eq:
  assumes "mc_device_pr m = Some pr" and "mc_device_gw m = Some gw"
  shows "mc_view m = \<lparr>v_state = mc_control_state m, v_role = mc_role m,
     v_master = (cd_device_type pr = MASTER_DEVICE), v_convoy = cd_address_convoy pr,
     v_manager = cd_address_manager pr, v_gateway = cd_address_manager gw\<rparr>"
  by (simp add: mc_view_def assms getAddressOfManagerForPrimaryDevice_def getAddressOfManagerForGatewayDevice_def)

lemma mc_view_queue [simp]: "mc_view (m\<lparr>mc_queue := q\<rparr>) = mc_view m"
  by (simp add: mc_view_def getAddressOfManagerForPrimaryDevice_def getAddressOfManagerForGatewayDevice_def)

lemma mc_view_role [simp]: "v_role (mc_view m) = mc_role m" "v_state (mc_view m) = mc_control_state m"
  by (simp_all add: mc_view_def)

lemma createNewCluster_view:
  assumes "mc_ok (m, s)"
  shows "\<exists>a m' s'. MembershipControl_createNewCluster env c (m, s) = Inr (m', s') \<and> mc_ok (m', s') \<and>
    mc_queue m' = mc_queue m \<and> mc_broadcasts_received m' = mc_broadcasts_received m \<and>
    mc_view m' = found_v c a (mc_view m)"
proof -
  obtain old gw where d: "mc_device_pr m = Some old" "mc_device_gw m = Some gw"
    using assms by (rule mc_okE)
  from createNewCluster_effect [OF d, of env c s] obtain m' s' pr gw' where
    e: "MembershipControl_createNewCluster env c (m, s) = Inr (m', s')" "mc_role m' = MANAGER"
      "mc_control_state m' = INITIALIZED" "mc_queue m' = mc_queue m"
      "mc_broadcasts_received m' = mc_broadcasts_received m"
      "mc_device_pr m' = Some pr" "cd_device_type pr = MASTER_DEVICE" "cd_address_manager pr = cd_address pr"
      "cd_address_convoy pr = c" "mc_device_gw m' = Some gw'" "cd_address_manager gw' = cd_address_manager gw"
    by blast
  moreover have "mc_ok (m', s')" using createNewCluster_ok [OF assms, of env c] e(1) by auto
  ultimately show ?thesis
    by (intro exI [of _ "cd_address pr"]) (simp add: mc_view_eq d found_v_def)
qed

lemma createNewConvoy_view:
  assumes "mc_ok (m, s)"
  shows "\<exists>a m' s'. MembershipControl_createNewConvoy env (m, s) = Inr (m', s') \<and> mc_ok (m', s') \<and>
    mc_queue m' = mc_queue m \<and> mc_broadcasts_received m' = mc_broadcasts_received m \<and>
    mc_view m' = found_v (getMaxIdConvoy (sim_binder s) + 1) a (mc_view m)"
proof -
  let ?s = "s\<lparr>sim_binder := registerConvoy (getMaxIdConvoy (sim_binder s) + 1) (sim_binder s)\<rparr>"
  have "mc_ok (m, ?s)" using assms registerConvoy_ok by (auto simp: mc_ok_def)
  from createNewCluster_view [OF this] show ?thesis
    by (simp add: MembershipControl_createNewConvoy_def Let_def)
qed

lemma joinNewCluster_view:
  assumes "mc_device_pr m = Some pr" and "mc_device_gw m = Some gw" and "cd_device_type gw = GATEWAY_DEVICE"
    and "MembershipControl_joinNewCluster env c k itf rssi m = Inr m'"
  shows "mc_view m' = (if itf = GATEWAY_INTERFACE then (mc_view m)\<lparr>v_role := GATEWAY, v_gateway := k\<rparr>
     else join_v c k (mc_view m))"
proof -
  note d = assms(1-3)
  show ?thesis
  proof (cases "itf = GATEWAY_INTERFACE")
    case True
    let ?gw = "ClusterDevice_joinNewCluster (env_kernel env) (env_phy_par env) (env_now env) c k rssi gw"
    from True assms(4) d have m': "m' = m\<lparr>mc_device_gw := Some ?gw, mc_role := GATEWAY\<rparr>"
      by (simp add: MembershipControl_joinNewCluster_def Let_def)
    have "cd_address_manager ?gw = k" using d(3) by (simp add: ClusterDevice_joinNewCluster_def)
    with m' d True show ?thesis by (simp add: mc_view_eq [of _ pr ?gw] mc_view_eq [of m pr gw])
  next
    case False
    let ?pr = "ClusterDevice_joinNewCluster (env_kernel env) (env_phy_par env) (env_now env) c k rssi pr"
    have pr: "cd_device_type pr = MASTER_DEVICE \<Longrightarrow> ?pr = pr"
      "cd_device_type pr \<noteq> MASTER_DEVICE \<Longrightarrow> cd_address_convoy ?pr = c \<and> cd_address_manager ?pr = k"
      by (simp_all add: ClusterDevice_joinNewCluster_def)
    from False assms(4) d have m': "mc_device_pr m' = Some ?pr" "mc_device_gw m' = Some gw"
      "mc_control_state m' = INITIALIZED" "mc_role m' = (if mc_role m = GATEWAY then GATEWAY else MEMBER)"
      by (auto simp: MembershipControl_joinNewCluster_def Let_def)
    with pr d False show ?thesis
      by (cases "cd_device_type pr = MASTER_DEVICE")
         (simp_all add: mc_view_eq [of m' ?pr gw] mc_view_eq [of m pr gw] join_v_def)
  qed
qed

lemma join_primary_view:
  assumes "mc_ok (m, s)" and "join_primary env previous c k (m, s) = Inr (m', s')"
  shows "mc_view m' = join_v c k (if previous = MANAGER then (mc_view m)\<lparr>v_master := False\<rparr> else mc_view m)"
proof -
  obtain old gw where d: "mc_device_pr m = Some old" "mc_device_gw m = Some gw" "cd_device_type gw = GATEWAY_DEVICE"
    using assms(1) by (rule mc_okE)
  show ?thesis
  proof (cases "previous = MANAGER")
    case False
    with assms(2) obtain m1 where "MembershipControl_joinNewCluster env c k PRIMARY_INTERFACE (heard_rssi k m) m = Inr m1"
      "m' = m1" by (auto simp: join_primary_def rbind_Inr_iff)
    with False joinNewCluster_view [OF d, of env c k PRIMARY_INTERFACE] show ?thesis by simp
  next
    case True
    define s0 where "s0 = s\<lparr>sim_binder := ClusterDevice_remove (ClusterDevice_disconnect old) (sim_binder s)\<rparr>"
    obtain pr s1 where c: "MembershipControl_createInitClusterDevice env MEMBER_DEVICE PRIMARY_INTERFACE c s0 = Inr (pr, s1)"
        "cd_device_type pr = MEMBER_DEVICE" "cd_address_convoy pr = c" "cd_address_manager pr = 0"
      using create_ue [of MEMBER_DEVICE env PRIMARY_INTERFACE c s0] by auto
    let ?m = "m\<lparr>mc_device_pr := Some pr\<rparr>"
    have "MembershipControl_joinNewCluster env c k PRIMARY_INTERFACE (heard_rssi k ?m) ?m = Inr m'"
      using assms(2) True d(1) c(1) by (auto simp: join_primary_def Let_def s0_def [symmetric] rbind_Inr_iff)
    with d(2,3) have "mc_view m' = join_v c k (mc_view ?m)"
      using joinNewCluster_view [of ?m pr gw env c k PRIMARY_INTERFACE] by simp
    moreover have "mc_view ?m = (mc_view m)\<lparr>v_master := False, v_convoy := c, v_manager := 0\<rparr>"
      using d c by (simp add: mc_view_eq [of _ pr gw] mc_view_eq [of m old gw])
    ultimately show ?thesis using True by (simp add: join_v_def Let_def)
  qed
qed

lemma changeClusterMembership_view:
  assumes "mc_ok (m, s)"
  shows "\<exists>a m' s'. MembershipControl_changeClusterMembership env role c k kg (m, s) = Inr (m', s') \<and>
     mc_ok (m', s') \<and> mc_view m' = change_v a role c k kg (mc_view m)"
proof (cases "role = MANAGER")
  case True
  with createNewCluster_view [OF assms, of env c] show ?thesis
    by (auto simp: MembershipControl_changeClusterMembership_def change_v_def)
next
  case False
  obtain pr gw where d: "mc_device_pr m = Some pr" "mc_device_gw m = Some gw" "cd_device_type gw = GATEWAY_DEVICE"
    using assms by (rule mc_okE)
  let ?gw = "if role = GATEWAY then join_gateway env c kg m else Inr m"
  obtain m1 where m1: "?gw = Inr m1" "mc_ok (m1, s)"
    using assms joinNewCluster_ok [OF assms, of env c kg GATEWAY_INTERFACE "heard_rssi kg m"]
    by (cases "role = GATEWAY") (auto simp: join_gateway_def)
  have v1: "mc_view m1 = (if role = GATEWAY then (mc_view m)\<lparr>v_role := GATEWAY, v_gateway := kg\<rparr> else mc_view m)"
    using m1(1) joinNewCluster_view [OF d, of env c kg GATEWAY_INTERFACE]
    by (auto simp: join_gateway_def split: if_splits)
  obtain m' s' where j: "join_primary env (mc_role m) c k (m1, s) = Inr (m', s')" "mc_ok (m', s')"
    using join_primary_ok [OF m1(2)] by blast
  show ?thesis
    using False m1 j v1 join_primary_view [OF m1(2) j(1)]
    by (cases role) (simp_all add: MembershipControl_changeClusterMembership_def change_v_def Let_def)
qed

lemma detach_devices_view:
  assumes "mc_ok (m, s)"
  shows "\<exists>m'. detach_devices m = Inr m' \<and> mc_ok (m', s) \<and> mc_view m' = detach_v (mc_view m)"
proof -
  obtain pr gw where d: "mc_device_pr m = Some pr" "mc_device_gw m = Some gw" using assms by (rule mc_okE)
  let ?m = "m\<lparr>mc_device_pr := Some (ClusterDevice_detachFromCluster pr),
              mc_device_gw := Some (ClusterDevice_detachFromCluster gw)\<rparr>"
  have "mc_view ?m = detach_v (mc_view m)"
    using d by (simp add: mc_view_eq [of _ "ClusterDevice_detachFromCluster pr" "ClusterDevice_detachFromCluster gw"]
        mc_view_eq [of m pr gw] detach_v_def) (simp add: ClusterDevice_detachFromCluster_def)
  moreover have "detach_devices m = Inr ?m" using d by (simp add: detach_devices_def)
  ultimately show ?thesis using detach_devices_ok [OF assms] by auto
qed

lemma enforce_membership_view:
  assumes "mc_ok (m, s)"
  shows "\<exists>a a' m' s'. enforce_membership env msg (m, s) = Inr (m', s') \<and> mc_ok (m', s') \<and>
     mc_view m' = order_v a a' (getMaxIdConvoy (sim_binder s)) (cc_cluster_role msg) (cc_convoy_id msg)
       (cc_cluster_id msg) (cc_cluster_id_gw msg) (mc_view m)"
proof -
  let ?r = "cc_cluster_role msg" and ?c = "cc_convoy_id msg" and ?k = "cc_cluster_id msg" and ?kg = "cc_cluster_id_gw msg"
  let ?change = "MembershipControl_changeClusterMembership env ?r ?c ?k ?kg"
  let ?newest = "getMaxIdConvoy (sim_binder s)"
  obtain pr gw where d: "mc_device_pr m = Some pr" "mc_device_gw m = Some gw" using assms by (rule mc_okE)
  have view: "v_convoy (mc_view m) = cd_address_convoy pr" "v_manager (mc_view m) = cd_address_manager pr"
      "v_gateway (mc_view m) = cd_address_manager gw"
    by (simp_all add: mc_view_eq [OF d])
  obtain m1 where m1: "detach_devices m = Inr m1" "mc_ok (m1, s)" "mc_view m1 = detach_v (mc_view m)"
    using detach_devices_view [OF assms] by blast
  consider (convoy) "?c \<noteq> cd_address_convoy pr" | (role) "?c = cd_address_convoy pr" "?r \<noteq> mc_role m"
    | (cluster) "?c = cd_address_convoy pr" "?r = mc_role m" "?k \<noteq> cd_address_manager pr \<or> ?kg \<noteq> cd_address_manager gw"
    | (same) "?c = cd_address_convoy pr" "?r = mc_role m" "?k = cd_address_manager pr" "?kg = cd_address_manager gw"
    by blast
  then show ?thesis
  proof cases
    case convoy
    obtain a m2 s2 where m2: "(if ?newest < ?c then MembershipControl_createNewConvoy env (m1, s) else Inr (m1, s)) = Inr (m2, s2)"
        "mc_ok (m2, s2)" "mc_view m2 = (if ?newest < ?c then found_v (?newest + 1) a (mc_view m1) else mc_view m1)"
      using createNewConvoy_view [OF m1(2), of env] m1(2) by (cases "?newest < ?c") auto
    obtain a' m' s' where m': "?change (m2, s2) = Inr (m', s')" "mc_ok (m', s')"
        "mc_view m' = change_v a' ?r ?c ?k ?kg (mc_view m2)"
      using changeClusterMembership_view [OF m2(2)] by blast
    have "enforce_membership env msg (m, s) = Inr (m', s')"
      using convoy m2(1) m'(1) by (simp add: enforce_membership_def d Let_def m1(1))
    moreover have "mc_view m' = order_v a a' ?newest ?r ?c ?k ?kg (mc_view m)"
      using convoy by (simp add: m' m2(3) m1(3) order_v_def view)
    ultimately show ?thesis using m'(2) by blast
  next
    case role
    from changeClusterMembership_view [OF m1(2), of env ?r ?c ?k ?kg] role m1 show ?thesis
      by (auto simp: enforce_membership_def d Let_def order_v_def view)
  next
    case cluster
    from changeClusterMembership_view [OF assms, of env ?r ?c ?k ?kg] cluster show ?thesis
      by (auto simp: enforce_membership_def d Let_def order_v_def view)
  next
    case same
    with assms show ?thesis by (simp add: enforce_membership_def d Let_def order_v_def view)
  qed
qed

lemma setTxp_frame [simp]:
  "cd_address_convoy (ClusterDevice_setTxp t d) = cd_address_convoy d"
  "cd_address_manager (ClusterDevice_setTxp t d) = cd_address_manager d"
  by (simp_all add: ClusterDevice_setTxp_def)

lemma handleOrchestrationMessage_view:
  assumes "mc_ok (m, s)"
  shows "\<exists>a a' m' s'. MembershipControl_handleOrchestrationMessage env msg (m, s) = Inr (m', s') \<and> mc_ok (m', s') \<and>
     mc_view m' = order_v a a' (getMaxIdConvoy (sim_binder s)) (cc_cluster_role msg) (cc_convoy_id msg)
       (cc_cluster_id msg) (cc_cluster_id_gw msg) (mc_view m)"
proof -
  obtain a a' m1 s1 where e: "enforce_membership env msg (m, s) = Inr (m1, s1)" "mc_ok (m1, s1)"
      "mc_view m1 = order_v a a' (getMaxIdConvoy (sim_binder s)) (cc_cluster_role msg) (cc_convoy_id msg)
       (cc_cluster_id msg) (cc_cluster_id_gw msg) (mc_view m)"
    using enforce_membership_view [OF assms] by blast
  obtain pr gw where d: "mc_device_pr m1 = Some pr" "mc_device_gw m1 = Some gw" using e(2) by (rule mc_okE)
  let ?m = "m1\<lparr>mc_device_pr := Some (ClusterDevice_setTxp (cc_tx_power msg) pr),
                mc_device_gw := Some (ClusterDevice_setTxp (cc_tx_power_gw msg) gw)\<rparr>"
  have "mc_view ?m = mc_view m1"
    using d by (simp add: mc_view_eq [of ?m "ClusterDevice_setTxp (cc_tx_power msg) pr"
        "ClusterDevice_setTxp (cc_tx_power_gw msg) gw"] mc_view_eq [of m1 pr gw])
  moreover have "MembershipControl_handleOrchestrationMessage env msg (m, s) = Inr (?m, s1)"
    using d by (simp add: MembershipControl_handleOrchestrationMessage_def e(1))
  moreover from this have "mc_ok (?m, s1)" using handleOrchestrationMessage_ok [OF assms, of env msg] by auto
  ultimately show ?thesis using e(3) by metis
qed

text \<open>What a scan does to the view, given the cluster it chose.\<close>

definition scan_v :: "Broadcast option \<Rightarrow> int \<Rightarrow> int \<Rightarrow> membership \<Rightarrow> membership" where
  "scan_v candidate newest a v =
     (case candidate of
        None \<Rightarrow> found_v (newest + 1) a v
      | Some c \<Rightarrow> if b_full_cluster c then found_v (b_id_convoy c) a v
                  else join_v (b_id_convoy c) (b_id_cluster c) v)"

lemma handleBroadcastScanEvent_view:
  assumes "mc_ok (m, s)" and "MembershipControl_handleBroadcastScanEvent srt env (m, s) = Inr (m', s')"
  shows "\<exists>a. mc_view m' = scan_v (scan_candidate srt (env_par env) (mc_broadcasts_received m))
     (getMaxIdConvoy (sim_binder s)) a (mc_view m)"
proof -
  obtain pr gw where d: "mc_device_pr m = Some pr" "mc_device_gw m = Some gw" "cd_device_type gw = GATEWAY_DEVICE"
    using assms(1) by (rule mc_okE)
  obtain m1 s1 where m1: "choose_cluster srt env (m, s) = Inr (m1, s1)" "mc_view m' = mc_view m1"
    using assms(2)
    by (auto simp: MembershipControl_handleBroadcastScanEvent_def rbind_Inr_iff Let_def split_def)
  show ?thesis
  proof (cases "scan_candidate srt (env_par env) (mc_broadcasts_received m)")
    case None
    with m1 createNewConvoy_view [OF assms(1), of env] show ?thesis by (auto simp: choose_cluster_eq scan_v_def)
  next
    case (Some c)
    with m1 createNewCluster_view [OF assms(1), of env "b_id_convoy c"] show ?thesis
      using joinNewCluster_view [OF d, of env "b_id_convoy c" "b_id_cluster c" PRIMARY_INTERFACE]
      by (auto simp: choose_cluster_eq scan_v_def rbind_Inr_iff split: if_splits)
  qed
qed

lemma updatePublishers_view:
  assumes "mc_ok (m, s)" and "MembershipControl_updatePublishers env m = Inr m'"
  shows "mc_view m' = mc_view m"
proof -
  obtain pr gw where d: "mc_device_pr m = Some pr" "mc_device_gw m = Some gw" using assms(1) by (rule mc_okE)
  obtain pubs where "m' = m\<lparr>mc_publishers := pubs,
      mc_device_pr := Some (ClusterDevice_updateBroadcastInfo_publishers pubs pr),
      mc_device_gw := Some (ClusterDevice_updateBroadcastInfo_publishers pubs gw)\<rparr>"
    using updatePublishers_effect [OF d, of env] assms(2) by auto
  then have "mc_device_pr m' = Some (ClusterDevice_updateBroadcastInfo_publishers pubs pr)"
    "mc_device_gw m' = Some (ClusterDevice_updateBroadcastInfo_publishers pubs gw)"
    "mc_control_state m' = mc_control_state m" "mc_role m' = mc_role m" by simp_all
  then show ?thesis by (simp add: mc_view_eq [of m'] mc_view_eq [OF d])
qed

lemma receiveSignal_view:
  "MembershipControl_receiveSignal env b sg m = Inr m' \<Longrightarrow> mc_view m' = mc_view m"
  by (cases sg)
     (auto simp: MembershipControl_receiveSignal_def rbind_Inr_iff Let_def mc_view_def
        getAddressOfManagerForPrimaryDevice_def getAddressOfManagerForGatewayDevice_def
        split: option.splits if_splits)

text \<open>What the protocol makes of a message.\<close>

definition message_v ::
  "(Broadcast list \<Rightarrow> Broadcast list) \<Rightarrow> 'q mc_env \<Rightarrow> (string \<times> app_msg) in_msg \<Rightarrow> 'q MembershipControl \<times> sim
    \<Rightarrow> int \<Rightarrow> int \<Rightarrow> membership" where
  "message_v srt env msg = (\<lambda>(m, s) a a'.
     case msg of
       SelfMsg ev \<Rightarrow> if ev = ''EventScanBroadcast''
         then scan_v (scan_candidate srt (env_par env) (mc_broadcasts_received m)) (getMaxIdConvoy (sim_binder s)) a
                (mc_view m)
         else mc_view m
     | ExtMsg gate (name, MConvoyControlService c) \<Rightarrow>
         if gate = ''in'' \<and> name = ''ConvoyOrchestration''
         then order_v a a' (getMaxIdConvoy (sim_binder s)) (cc_cluster_role c) (cc_convoy_id c) (cc_cluster_id c)
                (cc_cluster_id_gw c) (mc_view m)
         else mc_view m
     | ExtMsg gate (name, _) \<Rightarrow> mc_view m)"

lemma handleMessage_view:
  assumes "mc_ok (m, s)" and "MembershipControl_handleMessage srt env msg (m, s) = Inr ((m', s'), out)"
  shows "\<exists>a a'. mc_view m' = message_v srt env msg (m, s) a a'"
proof (cases msg)
  case (SelfMsg ev)
  consider (scan) "ev = ''EventScanBroadcast''" | (publ) "ev = ''EventPublisherUpdate''" | (rest) "ev \<noteq> ''EventScanBroadcast''"
      "ev \<noteq> ''EventPublisherUpdate''" by blast
  then show ?thesis
  proof cases
    case scan
    with SelfMsg assms(2) have "MembershipControl_handleBroadcastScanEvent srt env (m, s) = Inr (m', s')"
      by (simp add: MembershipControl_handleMessage_def Let_def rbind_Inr_iff)
    from handleBroadcastScanEvent_view [OF assms(1) this] scan SelfMsg show ?thesis by (simp add: message_v_def)
  next
    case publ
    with SelfMsg assms(2) obtain m1 where "MembershipControl_updatePublishers env m = Inr m1" "mc_view m' = mc_view m1"
      by (auto simp: MembershipControl_handleMessage_def Let_def rbind_Inr_iff)
    with updatePublishers_view [OF assms(1)] publ SelfMsg show ?thesis by (simp add: message_v_def)
  next
    case rest
    with SelfMsg assms(2) show ?thesis
      by (auto simp: MembershipControl_handleMessage_def Let_def rbind_Inr_iff message_v_def split: if_splits)
  qed
next
  case (ExtMsg gate nm)
  obtain name payload where nm: "nm = (name, payload)" by force
  show ?thesis
  proof (cases "gate = ''in'' \<and> name = ''ConvoyOrchestration''")
    case False
    with ExtMsg nm assms(2) have "m' = m" by (simp add: MembershipControl_handleMessage_def Let_def)
    with False ExtMsg nm show ?thesis by (cases payload) (auto simp: message_v_def)
  next
    case True
    with ExtMsg nm assms(2) obtain c where c: "payload = MConvoyControlService c"
      "MembershipControl_handleOrchestrationMessage env c (m, s) = Inr (m', s')"
      by (cases payload) (auto simp: MembershipControl_handleMessage_def Let_def rbind_Inr_iff)
    with handleOrchestrationMessage_view [OF assms(1), of env c] True ExtMsg nm show ?thesis
      by (auto simp: message_v_def)
  qed
qed

section \<open>The life of an agent\<close>

text \<open>
  Timers are delivered when they are pending, and other messages reach an agent once it is
  initialised: the backend orders the stations that have reported, and reports start with the scan.
\<close>

inductive mc_live ::
  "'q kernel \<Rightarrow> (Broadcast list \<Rightarrow> Broadcast list) \<Rightarrow> 'q MembershipControl \<times> sim \<Rightarrow> 'q MembershipControl \<times> sim \<Rightarrow> bool"
  for K srt where
  timer: "env_kernel env = K \<Longrightarrow> k_arrival K (mc_queue m) ev = Some (env_now env) \<Longrightarrow>
    MembershipControl_handleMessage srt env (SelfMsg ev) (m\<lparr>mc_queue := k_deliver K ev (mc_queue m)\<rparr>, s) =
      Inr ((m', s'), out) \<Longrightarrow> mc_live K srt (m, s) (m', s')"
| message: "env_kernel env = K \<Longrightarrow> MembershipControl_isInitialized m \<Longrightarrow>
    MembershipControl_handleMessage srt env (ExtMsg gate nm) (m, s) = Inr ((m', s'), out) \<Longrightarrow>
    mc_live K srt (m, s) (m', s')"
| sig: "MembershipControl_receiveSignal env (sim_binder s) sg m = Inr m' \<Longrightarrow> mc_live K srt (m, s) (m', s)"
| others: "registry_ok (sim_binder s') \<Longrightarrow> mc_live K srt (m, s) (m, s')"

text \<open>Which timers can be pending before and after the scan.\<close>

definition timers_ok :: "'q kernel \<Rightarrow> 'q MembershipControl \<Rightarrow> bool" where
  "timers_ok K m \<longleftrightarrow>
     (if mc_control_state m = INITIALIZED then k_arrival K (mc_queue m) ''EventScanBroadcast'' = None
      else k_arrival K (mc_queue m) ''EventPublisherUpdate'' = None \<and> k_arrival K (mc_queue m) ''EventMemberReport'' = None)"

definition view_ok :: "membership \<Rightarrow> bool" where
  "view_ok v \<longleftrightarrow> (v_master v \<longleftrightarrow> v_role v = MANAGER) \<and> (v_state v = INITIALIZED \<longleftrightarrow> v_role v \<noteq> UNDEFINED)"

lemma change_v_ok: "view_ok v \<Longrightarrow> view_ok (change_v a role c k kg v)"
  by (cases role) (auto simp: view_ok_def change_v_def found_v_def join_v_def Let_def)

lemma protocol_step_ok: "protocol_step v w \<Longrightarrow> view_ok v \<Longrightarrow> view_ok w"
proof (induction rule: protocol_step.induct)
  case (order v a a' newest role c k kg)
  then have "view_ok (detach_v v)" "view_ok (found_v (newest + 1) a (detach_v v))"
    by (auto simp: view_ok_def detach_v_def found_v_def)
  with order show ?case by (auto simp: order_v_def intro: change_v_ok)
qed (auto simp: view_ok_def found_v_def join_v_def Let_def)

lemma protocol_state_stays: "protocol_step v w \<Longrightarrow> v_state v = INITIALIZED \<Longrightarrow> v_state w = INITIALIZED"
  by (induction rule: protocol_step.induct)
     (auto simp: found_v_def join_v_def order_v_def change_v_def detach_v_def Let_def)

text \<open>Only timer events touch the queue of the agent.\<close>

lemma updatePublishers_queue: "MembershipControl_updatePublishers env m = Inr m' \<Longrightarrow> mc_queue m' = mc_queue m"
  by (auto simp: MembershipControl_updatePublishers_def rbind_Inr_iff Let_def)

lemma createNewCluster_queue:
  "MembershipControl_createNewCluster env c (m, s) = Inr (m', s') \<Longrightarrow> mc_queue m' = mc_queue m"
  by (auto simp: MembershipControl_createNewCluster_def rbind_Inr_iff Let_def split_def dest!: updatePublishers_queue)

lemma joinNewCluster_queue:
  "MembershipControl_joinNewCluster env c k itf rssi m = Inr m' \<Longrightarrow> mc_queue m' = mc_queue m"
  by (auto simp: MembershipControl_joinNewCluster_def rbind_Inr_iff Let_def split: if_splits)

lemma join_primary_queue: "join_primary env p c k (m, s) = Inr (m', s') \<Longrightarrow> mc_queue m' = mc_queue m"
  by (auto simp: join_primary_def rbind_Inr_iff Let_def split_def dest!: joinNewCluster_queue split: if_splits)

lemma changeClusterMembership_queue:
  "MembershipControl_changeClusterMembership env r c k kg (m, s) = Inr (m', s') \<Longrightarrow> mc_queue m' = mc_queue m"
  by (auto simp: MembershipControl_changeClusterMembership_def join_gateway_def rbind_Inr_iff Let_def
      dest!: joinNewCluster_queue join_primary_queue createNewCluster_queue split: if_splits)

lemma enforce_membership_queue:
  "enforce_membership env msg (m, s) = Inr (m', s') \<Longrightarrow> mc_queue m' = mc_queue m"
  by (auto simp: enforce_membership_def detach_devices_def MembershipControl_createNewConvoy_def rbind_Inr_iff Let_def
      dest!: changeClusterMembership_queue createNewCluster_queue split: if_splits)

lemma handleOrchestrationMessage_queue:
  "MembershipControl_handleOrchestrationMessage env msg (m, s) = Inr (m', s') \<Longrightarrow> mc_queue m' = mc_queue m"
  by (auto simp: MembershipControl_handleOrchestrationMessage_def rbind_Inr_iff dest!: enforce_membership_queue)

lemma external_queue:
  "MembershipControl_handleMessage srt env (ExtMsg gate nm) (m, s) = Inr ((m', s'), out) \<Longrightarrow> mc_queue m' = mc_queue m"
  by (cases nm) (auto simp: MembershipControl_handleMessage_def Let_def rbind_Inr_iff
      dest!: handleOrchestrationMessage_queue split: if_splits app_msg.splits)

lemma receiveSignal_queue: "MembershipControl_receiveSignal env b sg m = Inr m' \<Longrightarrow> mc_queue m' = mc_queue m"
  by (cases sg) (auto simp: MembershipControl_receiveSignal_def rbind_Inr_iff Let_def split: if_splits)

lemma choose_cluster_queue: "choose_cluster srt env (m, s) = Inr (m', s') \<Longrightarrow> mc_queue m' = mc_queue m"
  by (auto simp: choose_cluster_eq MembershipControl_createNewConvoy_def rbind_Inr_iff Let_def
      dest!: joinNewCluster_queue createNewCluster_queue split: if_splits option.splits)

lemma scan_queue:
  "MembershipControl_handleBroadcastScanEvent srt env (m, s) = Inr (m', s') \<Longrightarrow>
   mc_queue m' = k_scheduleAt (env_kernel env)
     (if env_now env < memberReportStartTime (env_par env) then memberReportStartTime (env_par env) else env_now env)
     ''EventMemberReport'' (k_scheduleAt (env_kernel env) (env_now env + publisherUpdateInterval (env_par env))
     ''EventPublisherUpdate'' (mc_queue m))"
  by (auto simp: MembershipControl_handleBroadcastScanEvent_def rbind_Inr_iff Let_def dest!: choose_cluster_queue)

text \<open>A timer other than the scan leaves at most itself pending.\<close>

lemma timer_queue:
  assumes "MembershipControl_handleMessage srt env (SelfMsg ev) (m, s) = Inr ((m', s'), out)"
    and "ev \<noteq> ''EventScanBroadcast''"
  shows "mc_queue m' = mc_queue m \<or> (\<exists>t. mc_queue m' = k_scheduleAt (env_kernel env) t ev (mc_queue m))"
  using assms
  by (auto simp: MembershipControl_handleMessage_def Let_def rbind_Inr_iff dest!: updatePublishers_queue split: if_splits)

lemma message_v_timer:
  "ev \<noteq> ''EventScanBroadcast'' \<Longrightarrow> message_v srt env (SelfMsg ev) (m, s) a a' = mc_view m"
  by (simp add: message_v_def)

lemma message_v_scan_state:
  "v_state (message_v srt env (SelfMsg ''EventScanBroadcast'') (m, s) a a') = INITIALIZED"
  by (simp add: message_v_def scan_v_def found_v_def join_v_def Let_def split: option.splits)

lemma message_v_step:
  assumes "case msg of SelfMsg ev \<Rightarrow> ev = ''EventScanBroadcast'' \<longrightarrow> mc_control_state m = INITIALIZING
     | ExtMsg _ _ \<Rightarrow> mc_control_state m = INITIALIZED"
  shows "protocol_step (mc_view m) (message_v srt env msg (m, s) a a')"
  using assms
  by (auto simp: message_v_def scan_v_def intro: protocol_step.intros
      split: in_msg.splits option.splits app_msg.splits)

lemma mc_view_delivered [simp]: "mc_ok (m\<lparr>mc_queue := q\<rparr>, s) \<longleftrightarrow> mc_ok (m, s)"
  by (simp add: mc_ok_def)

lemma timer_timers_ok:
  assumes "event_kernel K" and "env_kernel env = K" and "mc_ok (m, s)" and "timers_ok K m"
    and "k_arrival K (mc_queue m) ev = Some t"
    and h: "MembershipControl_handleMessage srt env (SelfMsg ev) (m\<lparr>mc_queue := k_deliver K ev (mc_queue m)\<rparr>, s) =
      Inr ((m', s'), out)"
  shows "timers_ok K m'"
proof -
  let ?m = "m\<lparr>mc_queue := k_deliver K ev (mc_queue m)\<rparr>"
  note laws = event_kernel.arrival_schedule [OF assms(1)] event_kernel.arrival_deliver [OF assms(1)]
  obtain a a' where v: "mc_view m' = message_v srt env (SelfMsg ev) (?m, s) a a'"
    using handleMessage_view [of ?m s srt env "SelfMsg ev"] assms(3) h by auto
  show ?thesis
  proof (cases "ev = ''EventScanBroadcast''")
    case True
    then have "MembershipControl_handleBroadcastScanEvent srt env (?m, s) = Inr (m', s')"
      using h by (simp add: MembershipControl_handleMessage_def Let_def rbind_Inr_iff)
    moreover have "mc_control_state m' = INITIALIZED"
      using arg_cong [OF v, of v_state] True by (simp add: message_v_scan_state)
    moreover have "mc_control_state m \<noteq> INITIALIZED" using True assms(4,5) by (auto simp: timers_ok_def)
    ultimately show ?thesis
      using True assms(2,4) by (simp add: scan_queue timers_ok_def laws)
  next
    case False
    then have st: "mc_control_state m' = mc_control_state m"
      using arg_cong [OF v, of v_state] by (simp add: message_v_timer)
    then show ?thesis
      using timer_queue [OF h False, unfolded assms(2)] assms(4,5) False
      by (auto simp: timers_ok_def laws split: if_splits)
  qed
qed

definition live_ok :: "'q kernel \<Rightarrow> 'q MembershipControl \<times> sim \<Rightarrow> bool" where
  "live_ok K x \<longleftrightarrow> mc_ok x \<and> timers_ok K (fst x)"

lemma external_timers_ok:
  assumes "mc_ok (m, s)" and "timers_ok K m" and "mc_control_state m = INITIALIZED"
    and h: "MembershipControl_handleMessage srt env (ExtMsg gate nm) (m, s) = Inr ((m', s'), out)"
  shows "timers_ok K m'"
proof -
  obtain a a' where v: "mc_view m' = message_v srt env (ExtMsg gate nm) (m, s) a a'"
    using handleMessage_view [OF assms(1) h] by blast
  have "protocol_step (mc_view m) (mc_view m')" unfolding v by (rule message_v_step) (simp add: assms(3))
  from protocol_state_stays [OF this] assms(3) have "mc_control_state m' = INITIALIZED" by simp
  with assms(2,3) external_queue [OF h] show ?thesis by (simp add: timers_ok_def)
qed

lemma live_step_ok:
  assumes "event_kernel K" and "mc_live K srt x y" and "live_ok K x"
  shows "live_ok K y"
  using assms(2)
proof (cases rule: mc_live.cases)
  case (timer env m ev s m' s' out)
  with assms(3) handleMessage_ok [of "m\<lparr>mc_queue := k_deliver K ev (mc_queue m)\<rparr>" s srt env "SelfMsg ev"]
  have "mc_ok (m', s')" by (auto simp: live_ok_def)
  moreover have "timers_ok K m'"
    using assms(3) timer(1) by (intro timer_timers_ok [OF assms(1) timer(3) _ _ timer(4,5)]) (auto simp: live_ok_def)
  ultimately show ?thesis by (simp add: live_ok_def timer(2))
next
  case (message env m gate nm s m' s' out)
  with assms(3) handleMessage_ok [of m s srt env "ExtMsg gate nm"]
  show ?thesis by (auto simp: live_ok_def MembershipControl_isInitialized_def intro: external_timers_ok)
next
  case (sig env s sg m m')
  moreover from this have "timers_ok K m'" using assms(3) receiveSignal_queue receiveSignal_view [of env "sim_binder s" sg m m']
    by (metis fst_conv live_ok_def mc_view_role(2) timers_ok_def)
  ultimately show ?thesis using assms(3) by (auto simp: live_ok_def intro: receiveSignal_ok)
next
  case (others s' m s)
  with assms(3) show ?thesis by (auto simp: live_ok_def mc_ok_def)
qed

lemma live_step_simulates:
  assumes "mc_live K srt x y" and "live_ok K x"
  shows "protocol_step (mc_view (fst x)) (mc_view (fst y))"
  using assms(1)
proof (cases rule: mc_live.cases)
  case (timer env m ev s m' s' out)
  let ?m = "m\<lparr>mc_queue := k_deliver K ev (mc_queue m)\<rparr>"
  have "mc_ok (?m, s)" using timer assms(2) by (simp add: live_ok_def)
  then obtain a a' where v: "mc_view m' = message_v srt env (SelfMsg ev) (?m, s) a a'"
    using handleMessage_view timer(5) by blast
  have "ev = ''EventScanBroadcast'' \<longrightarrow> mc_control_state m \<noteq> INITIALIZED"
    using timer assms(2) by (auto simp: live_ok_def timers_ok_def)
  then have "ev = ''EventScanBroadcast'' \<longrightarrow> mc_control_state m = INITIALIZING" by (cases "mc_control_state m") auto
  then have "protocol_step (mc_view ?m) (message_v srt env (SelfMsg ev) (?m, s) a a')"
    by (intro message_v_step) simp
  with v timer show ?thesis by simp
next
  case (message env m gate nm s m' s' out)
  with assms(2) obtain a a' where v: "mc_view m' = message_v srt env (ExtMsg gate nm) (m, s) a a'"
    using handleMessage_view by (metis live_ok_def)
  with message show ?thesis by (auto simp: MembershipControl_isInitialized_def intro: message_v_step)
next
  case (sig env s sg m m')
  then show ?thesis using receiveSignal_view [OF sig(3)] by (auto intro: protocol_step.stutter)
next
  case (others s' m s)
  then show ?thesis by (auto intro: protocol_step.stutter)
qed

text \<open>Over any event kernel that obeys the laws, the agent refines the protocol.\<close>

sublocale event_kernel \<subseteq> live: forward_simulation "mc_live K srt" protocol_step "\<lambda>x. mc_view (fst x)" "live_ok K" for srt
  by unfold_locales (auto intro: live_step_ok [OF event_kernel_axioms] live_step_simulates)

context event_kernel
begin

lemma live_run:
  "(mc_live K srt)\<^sup>*\<^sup>* x y \<Longrightarrow> live_ok K x \<Longrightarrow>
     live_ok K y \<and> protocol_step\<^sup>*\<^sup>* (mc_view (fst x)) (mc_view (fst y))"
  by (rule live.run)

lemma live_view_ok:
  "(mc_live K srt)\<^sup>*\<^sup>* x y \<Longrightarrow> live_ok K x \<Longrightarrow> view_ok (mc_view (fst x)) \<Longrightarrow> view_ok (mc_view (fst y))"
  by (rule live.transfer [where J = view_ok]) (auto intro: protocol_step_ok)

end

section \<open>Properties of the agent\<close>

definition new_view :: membership where
  "new_view = \<lparr>v_state = INITIALIZING, v_role = UNDEFINED, v_master = False, v_convoy = 0, v_manager = 0, v_gateway = 0\<rparr>"

lemma initialize_live:
  assumes "event_kernel K" and "env_kernel env = K" and "registry_ok (sim_binder s)"
    and "\<forall>ev. k_arrival K q ev = None"
    and "MembershipControl_initialize env q s = Inr init"
  shows "live_ok K init \<and> mc_view (fst init) = new_view"
proof -
  obtain pr s1 where pr: "MembershipControl_createInitClusterDevice env MEMBER_DEVICE PRIMARY_INTERFACE 0 s = Inr (pr, s1)"
      "cd_device_type pr = MEMBER_DEVICE" "cd_address_manager pr = 0" "cd_address_convoy pr = 0"
    using create_ue [of MEMBER_DEVICE env PRIMARY_INTERFACE 0 s] by auto
  obtain gw s2 where gw: "MembershipControl_createInitClusterDevice env GATEWAY_DEVICE GATEWAY_INTERFACE 0 s1 = Inr (gw, s2)"
      "cd_address_manager gw = 0"
    using create_ue [of GATEWAY_DEVICE env GATEWAY_INTERFACE 0 s1] by auto
  obtain t where t: "mc_queue (fst init) = k_scheduleAt K t ''EventScanBroadcast'' q"
    and init: "mc_device_pr (fst init) = Some pr" "mc_device_gw (fst init) = Some gw"
      "mc_control_state (fst init) = INITIALIZING" "mc_role (fst init) = UNDEFINED"
    using assms(2,5) pr(1) gw(1) by (auto simp: MembershipControl_initialize_def Let_def)
  have "mc_ok init" using initialize_ok [OF assms(3), of env q] assms(5) by auto
  moreover have "timers_ok K (fst init)"
    using assms(4) by (simp add: timers_ok_def init t event_kernel.arrival_schedule [OF assms(1)])
  moreover have "mc_view (fst init) = new_view"
    by (simp add: mc_view_eq [OF init(1,2)] init pr gw new_view_def)
  ultimately show ?thesis by (simp add: live_ok_def)
qed


lemma sample_init:
  "\<exists>m s. MembershipControl_initialize sample_env Map.empty sample_sim = Inr (m, s)"
proof -
  have "registry_ok (sim_binder sample_sim)" by (simp add: sample_sim_def registry_ok_new)
  from initialize_ok [OF this, of sample_env Map.empty] show ?thesis by blast
qed




lemma order_v_obeyed:
  assumes "view_ok v" and "role \<noteq> UNDEFINED"
  shows "let w = order_v a a' newest role convoy cluster cluster_gw v
     in view_ok w \<and> v_convoy w = convoy \<and> (role = MANAGER \<longrightarrow> v_role w = MANAGER) \<and>
        (role \<noteq> MANAGER \<longrightarrow> \<not> v_master w \<and> v_manager w = cluster) \<and>
        (role = GATEWAY \<longrightarrow> v_role w = GATEWAY \<and> v_gateway w = cluster_gw)"
  using assms
  by (cases role)
     (auto simp: Let_def order_v_def change_v_def found_v_def join_v_def detach_v_def view_ok_def)

lemma order_powers:
  assumes "MembershipControl_handleOrchestrationMessage env msg (m, s) = Inr (m', s')"
  shows "\<exists>pr gw. mc_device_pr m' = Some pr \<and> mc_device_gw m' = Some gw \<and>
     ClusterDevice_getTxp pr = cc_tx_power msg \<and> ClusterDevice_getTxp gw = cc_tx_power_gw msg"
  using assms
  by (auto simp: MembershipControl_handleOrchestrationMessage_def rbind_Inr_iff ClusterDevice_getTxp_def
      ClusterDevice_setTxp_def getTxPower_def setTxPower_def)



end
