(* ===== verification/Member_Store.thy ===== *)
theory Member_Store
  imports Convoy_Defs Event_Kernel
begin

text \<open>
  \<^verbatim>\<open>stores/MemberStore\<close>, the backend's record of the convoy members: at most one
  \<^verbatim>\<open>Node\<close> per name, replaced by strictly younger reports, and expired periodically.
\<close>

section \<open>State and operations\<close>

record 'q member_store =
  member_ccs_record :: "Node list"
  mst_queue :: 'q

record member_store_par =
  memberCheckInterval :: simtime
  memberMaxAge :: simtime

definition MemberStore_initialize :: "'q kernel \<Rightarrow> member_store_par \<Rightarrow> simtime \<Rightarrow> 'q \<Rightarrow> 'q member_store" where
  "MemberStore_initialize K par now q =
     \<lparr>member_ccs_record = [],
      mst_queue = k_scheduleAt K (now + memberCheckInterval par) ''memberExpiryCheck'' q\<rparr>"

text \<open>The \<^verbatim>\<open>Node\<close> built from a report.\<close>

definition node_of_status :: "MemberStatus \<Rightarrow> Node" where
  "node_of_status msg = \<lparr>n_name = ms_name msg, n_address = ms_address msg,
     n_id_gnb = ms_id_gnb msg, n_id_ue = ms_id_ue msg, n_id_gnb_gw = ms_id_gnb_gw msg,
     n_id_ue_gw = ms_id_ue_gw msg, n_type = ms_type msg, n_role = ms_role msg,
     n_position = \<lparr>cx = ms_position_x msg, cy = ms_position_y msg, cz = ms_position_z msg\<rparr>,
     n_speed = ms_speed msg, n_txp = ms_txp msg, n_txp_gw = ms_txp_gw msg,
     n_direction = ms_direction msg, n_id_convoy = ms_id_convoy msg,
     n_id_cluster = ms_id_cluster msg, n_timestamp = ms_timestamp msg\<rparr>"

definition put_node :: "Node \<Rightarrow> Node list \<Rightarrow> Node list" where
  "put_node member_info rec =
     upsert (\<lambda>val. n_name val = n_name member_info)
       (\<lambda>it. if n_timestamp it < n_timestamp member_info then member_info else it)
       member_info rec"

definition MemberStore_updateNodeCCSReports :: "MemberStatus \<Rightarrow> 'q member_store \<Rightarrow> 'q member_store" where
  "MemberStore_updateNodeCCSReports msg st =
     st\<lparr>member_ccs_record := put_node (node_of_status msg) (member_ccs_record st)\<rparr>"

definition MemberStore_checkMemberExpiry :: "member_store_par \<Rightarrow> simtime \<Rightarrow> 'q member_store \<Rightarrow> 'q member_store" where
  "MemberStore_checkMemberExpiry par now st =
     st\<lparr>member_ccs_record :=
        erase_if (\<lambda>val. expired (to_u64 now) (to_u64 (memberMaxAge par)) (n_timestamp val))
          (member_ccs_record st)\<rparr>"

definition MemberStore_readCCSReports :: "'q member_store \<Rightarrow> Node list" where
  "MemberStore_readCCSReports st = member_ccs_record st"

text \<open>
  The handler.  A self message is compared with the module's own event; an external message
  is only looked at when it came in through gate \<^verbatim>\<open>in\<close>.
\<close>

definition MemberStore_handleMessage ::
  "'q kernel \<Rightarrow> member_store_par \<Rightarrow> simtime \<Rightarrow> app_msg in_msg \<Rightarrow> 'q member_store
    \<Rightarrow> 'q member_store res" where
  "MemberStore_handleMessage K par now msg st =
     (case msg of
        SelfMsg ev \<Rightarrow>
          (if ev = ''memberExpiryCheck''
           then Inr ((MemberStore_checkMemberExpiry par now st)\<lparr>mst_queue :=
                  k_scheduleAt K (now + memberCheckInterval par) ''memberExpiryCheck'' (mst_queue st)\<rparr>)
           else Inr st)
      | ExtMsg gate m \<Rightarrow>
          (if gate = ''in''
           then (case m of MMemberStatus r \<Rightarrow> Inr (MemberStore_updateNodeCCSReports r st) | _ \<Rightarrow> Inl CastError)
           else Inr st))"

section \<open>The store keeps the freshest report per member\<close>

interpretation mstore: freshness_store n_name n_timestamp put_node "\<lambda>rec. rec"
proof unfold_locales
  fix rec :: "Node list" and e :: Node and k :: string
  show "distinct (map n_name rec) \<Longrightarrow> distinct (map n_name (put_node e rec))"
    unfolding put_node_def by (rule distinct_upsert) simp_all
  show "lookup_by n_name k (put_node e rec) =
      (if k = n_name e then fresher n_timestamp e (lookup_by n_name k rec)
       else lookup_by n_name k rec)"
    unfolding put_node_def
    by (subst lookup_upsert) (auto simp: fresher_def split: option.splits)
qed

definition MemberStore_ok :: "'q member_store \<Rightarrow> bool" where
  "MemberStore_ok st \<longleftrightarrow> distinct (map n_name (member_ccs_record st))"

lemma MemberStore_initialize_ok: "MemberStore_ok (MemberStore_initialize K par now q)"
  by (simp add: MemberStore_ok_def MemberStore_initialize_def)

lemma MemberStore_updateNodeCCSReports_ok: "MemberStore_ok st \<Longrightarrow> MemberStore_ok (MemberStore_updateNodeCCSReports msg st)"
  by (simp add: MemberStore_ok_def MemberStore_updateNodeCCSReports_def mstore.put_distinct)

lemma MemberStore_checkMemberExpiry_ok: "MemberStore_ok st \<Longrightarrow> MemberStore_ok (MemberStore_checkMemberExpiry par now st)"
  by (simp add: MemberStore_ok_def MemberStore_checkMemberExpiry_def distinct_erase_if)

lemma MemberStore_handleMessage_ok:
  "MemberStore_ok st \<Longrightarrow> MemberStore_handleMessage K par now msg st = Inr st' \<Longrightarrow> MemberStore_ok st'"
  by (auto simp: MemberStore_handleMessage_def MemberStore_updateNodeCCSReports_ok split: in_msg.splits if_splits
      app_msg.splits intro: MemberStore_updateNodeCCSReports_ok)
     (use MemberStore_checkMemberExpiry_ok in \<open>fastforce simp: MemberStore_ok_def\<close>)

lemma updates_record:
  "member_ccs_record (fold MemberStore_updateNodeCCSReports msgs st) =
     fold put_node (map node_of_status msgs) (member_ccs_record st)"
  by (induction msgs arbitrary: st) (simp_all add: MemberStore_updateNodeCCSReports_def)

section \<open>Properties\<close>

text \<open>A run of the module over a list of timed messages stops at the first error.\<close>

fun MemberStore_run ::
  "'q kernel \<Rightarrow> member_store_par \<Rightarrow> (simtime \<times> app_msg in_msg) list \<Rightarrow> 'q member_store
    \<Rightarrow> 'q member_store res" where
  "MemberStore_run K par [] st = Inr st"
| "MemberStore_run K par ((now, msg) # ms) st =
     rbind (MemberStore_handleMessage K par now msg st) (MemberStore_run K par ms)"

lemma MemberStore_run_ok:
  "MemberStore_ok st \<Longrightarrow> MemberStore_run K par ms st = Inr st' \<Longrightarrow> MemberStore_ok st'"
  by (induction K par ms st rule: MemberStore_run.induct)
     (auto simp: rbind_Inr_iff intro: MemberStore_handleMessage_ok)

text \<open>
  From its initial state, any sequence of messages that the member store accepts leaves a
  record in which every node name occurs once.
\<close>

theorem MemberStore_names_unique:
  assumes "MemberStore_run K par ms (MemberStore_initialize K par now q) = Inr st"
  shows "distinct (map n_name (MemberStore_readCCSReports st))"
  using MemberStore_run_ok [OF MemberStore_initialize_ok assms]
  by (simp add: MemberStore_ok_def MemberStore_readCCSReports_def)

theorem MemberStore_names_unique_witness:
  "distinct (map n_name (MemberStore_readCCSReports
     \<lparr>member_ccs_record = [node_of_status (new_MemberStatus\<lparr>ms_name := ''v0'', ms_timestamp := 5\<rparr>)],
      mst_queue = [''memberExpiryCheck'' \<mapsto> (1::int)]\<rparr>))"
  by (rule MemberStore_names_unique
      [where K = fes_kernel and par = "\<lparr>memberCheckInterval = 1, memberMaxAge = 5\<rparr>" and now = 0
        and q = Map.empty
        and ms = "[(0, ExtMsg ''in'' (MMemberStatus (new_MemberStatus\<lparr>ms_name := ''v0'', ms_timestamp := 3\<rparr>))),
                   (0, ExtMsg ''in'' (MMemberStatus (new_MemberStatus\<lparr>ms_name := ''v0'', ms_timestamp := 5\<rparr>)))]"])
     (simp add: MemberStore_handleMessage_def MemberStore_initialize_def
        MemberStore_updateNodeCCSReports_def put_node_def upsert_def node_of_status_def)

text \<open>
  C36. However the reports of the members interleave, the entry of a member is the first of its
  reports that carries the largest timestamp; a member that never reported has no entry.
\<close>

theorem MemberStore_keeps_freshest:
  "lookup_by n_name k (MemberStore_readCCSReports
     (fold MemberStore_updateNodeCCSReports msgs (MemberStore_initialize K par now q))) =
   freshest n_name n_timestamp k (map node_of_status msgs)"
  by (simp add: MemberStore_readCCSReports_def updates_record MemberStore_initialize_def
      mstore.puts_from_empty)

text \<open>
  Out-of-order delivery: if no two reports of one member carry the same timestamp, every
  delivery order of the same reports ends with the same entry for each member.
\<close>

theorem MemberStore_order_irrelevant:
  assumes "mset msgs = mset msgs'"
    and "inj_on (\<lambda>n. (n_name n, n_timestamp n)) (node_of_status ` set msgs)"
  shows "lookup_by n_name k (MemberStore_readCCSReports
      (fold MemberStore_updateNodeCCSReports msgs (MemberStore_initialize K par now q))) =
    lookup_by n_name k (MemberStore_readCCSReports
      (fold MemberStore_updateNodeCCSReports msgs' (MemberStore_initialize K par now q)))"
  using mstore.puts_order_irrelevant
    [of "[]" "map node_of_status msgs" "map node_of_status msgs'" k] assms
  by (simp add: MemberStore_readCCSReports_def updates_record MemberStore_initialize_def)

theorem MemberStore_order_irrelevant_witness:
  "lookup_by n_name ''v0'' (MemberStore_readCCSReports
      (fold MemberStore_updateNodeCCSReports
        [new_MemberStatus\<lparr>ms_name := ''v0'', ms_timestamp := 3\<rparr>,
         new_MemberStatus\<lparr>ms_name := ''v0'', ms_timestamp := 5\<rparr>]
        (MemberStore_initialize fes_kernel \<lparr>memberCheckInterval = 1, memberMaxAge = 5\<rparr> 0 Map.empty))) =
    lookup_by n_name ''v0'' (MemberStore_readCCSReports
      (fold MemberStore_updateNodeCCSReports
        [new_MemberStatus\<lparr>ms_name := ''v0'', ms_timestamp := 5\<rparr>,
         new_MemberStatus\<lparr>ms_name := ''v0'', ms_timestamp := 3\<rparr>]
        (MemberStore_initialize fes_kernel \<lparr>memberCheckInterval = 1, memberMaxAge = 5\<rparr> 0 Map.empty)))"
  by (rule MemberStore_order_irrelevant) (simp_all add: node_of_status_def)

text \<open>
  The expiry check keeps exactly the members whose report is younger than
  \<^verbatim>\<open>memberMaxAge\<close>, in order, provided clock and reports do not run backwards (non-negative
  times below \<open>2 ^ 63\<close>, no report from the future).
\<close>

theorem MemberStore_expiry_exact:
  assumes "0 \<le> now" "now < 2 ^ 63" "0 \<le> memberMaxAge par" "memberMaxAge par < 2 ^ 63"
    and "\<forall>n \<in> set (member_ccs_record st). uint (n_timestamp n) \<le> now"
  shows "member_ccs_record (MemberStore_checkMemberExpiry par now st) =
     filter (\<lambda>n. now - uint (n_timestamp n) < memberMaxAge par) (member_ccs_record st)"
proof -
  have u: "uint (to_u64 t) = t" if "0 \<le> t" "t < 2 ^ 63" for t
    using that by (simp add: to_u64_def uint_word_of_int)
  have "expired (to_u64 now) (to_u64 (memberMaxAge par)) (n_timestamp n) \<longleftrightarrow>
      \<not> now - uint (n_timestamp n) < memberMaxAge par" if "n \<in> set (member_ccs_record st)" for n
    using that assms u [of now] u [of "memberMaxAge par"]
    by (subst expired_past) (auto simp: word_le_def)
  then show ?thesis
    by (auto simp: MemberStore_checkMemberExpiry_def erase_if_def intro: filter_cong)
qed

theorem MemberStore_expiry_exact_witness:
  "member_ccs_record (MemberStore_checkMemberExpiry \<lparr>memberCheckInterval = 1, memberMaxAge = 5\<rparr> 9
     \<lparr>member_ccs_record = [node_of_status (new_MemberStatus\<lparr>ms_name := ''old'', ms_timestamp := 4\<rparr>),
        node_of_status (new_MemberStatus\<lparr>ms_name := ''new'', ms_timestamp := 5\<rparr>)], mst_queue = ()\<rparr>) =
   [node_of_status (new_MemberStatus\<lparr>ms_name := ''new'', ms_timestamp := 5\<rparr>)]"
  by (subst MemberStore_expiry_exact) (simp_all add: node_of_status_def)

text \<open>
  A report whose timestamp lies ahead of the clock is not treated as young: the unsigned age
  wraps, so the check drops it whenever the maximal age is below \<open>2 ^ 64\<close> minus the lead.
\<close>

theorem MemberStore_future_report_expires:
  assumes "to_u64 now < n_timestamp n"
    and "uint (to_u64 (memberMaxAge par)) \<le> 2 ^ 64 + uint (to_u64 now) - uint (n_timestamp n)"
  shows "n \<notin> set (member_ccs_record (MemberStore_checkMemberExpiry par now st))"
  using assms by (simp add: MemberStore_checkMemberExpiry_def expired_future)

theorem MemberStore_future_report_expires_witness:
  "node_of_status (new_MemberStatus\<lparr>ms_timestamp := 8\<rparr>) \<notin> set (member_ccs_record
     (MemberStore_checkMemberExpiry \<lparr>memberCheckInterval = 1, memberMaxAge = 5\<rparr> 7
       \<lparr>member_ccs_record = [node_of_status (new_MemberStatus\<lparr>ms_timestamp := 8\<rparr>)], mst_queue = ()\<rparr>))"
  by (rule MemberStore_future_report_expires) (simp_all add: node_of_status_def to_u64_def)

end
