(* ===== verification/Orchestration_App.thy ===== *)
theory Orchestration_App
  imports Member_Store
begin

text \<open>
  \<^verbatim>\<open>apps/ConvoyOrchestration\<close>: the backend's application that reads the member reports and
  sends every reported node the state it is to take.
\<close>

record 'q ConvoyOrchestration =
  co_current_state :: "Node list"
  co_desired_state :: "Node list"
  co_queue :: 'q

definition ConvoyOrchestration_initialize ::
  "'q kernel \<Rightarrow> app_times \<Rightarrow> simtime \<Rightarrow> 'q \<Rightarrow> 'q ConvoyOrchestration" where
  "ConvoyOrchestration_initialize K tm now q =
     \<lparr>co_current_state = [], co_desired_state = [],
      co_queue = schedule_start K now (at_start tm) (at_stop tm) q\<rparr>"

definition estimate_actual_state ::
  "'q member_store \<Rightarrow> 'q ConvoyOrchestration \<Rightarrow> 'q ConvoyOrchestration" where
  "estimate_actual_state member_store co =
     co\<lparr>co_current_state := co_current_state co @ MemberStore_readCCSReports member_store\<rparr>"

definition compute_desired_state :: "'q ConvoyOrchestration \<Rightarrow> 'q ConvoyOrchestration" where
  "compute_desired_state co = co\<lparr>co_desired_state := co_desired_state co @ co_current_state co\<rparr>"

definition enforce_desired_state :: "simtime \<Rightarrow> 'q ConvoyOrchestration \<Rightarrow> out_msg list" where
  "enforce_desired_state now co =
     map (\<lambda>n. (MConvoyControlService (new_ConvoyControlService\<lparr>cc_node_id := n_name n,
            cc_node_address := n_address n, cc_timestamp := to_u64 now\<rparr>), ''out''))
       (co_desired_state co)"

definition ConvoyOrchestration_handleMessage ::
  "'q kernel \<Rightarrow> app_times \<Rightarrow> simtime \<Rightarrow> 'q member_store \<Rightarrow> app_msg in_msg \<Rightarrow> 'q ConvoyOrchestration
    \<Rightarrow> 'q ConvoyOrchestration \<times> out_msg list" where
  "ConvoyOrchestration_handleMessage K tm now member_store msg co =
     (let (co, out) =
            (case msg of
               SelfMsg ev \<Rightarrow>
                 (let (co, out) =
                        (if ev = ''startEvent'' then (co, [])
                         else if ev = ''updateEvent''
                         then (let co = co\<lparr>co_current_state := [], co_desired_state := []\<rparr>;
                                   co = estimate_actual_state member_store co;
                                   co = compute_desired_state co
                               in (co, enforce_desired_state now co))
                         else (co, []))
                  in (co\<lparr>co_queue := schedule_update K now (at_rate tm) (co_queue co)\<rparr>, out))
             | ExtMsg gate m \<Rightarrow> (co, []))
      in (co\<lparr>co_queue := stop_check K now (at_stop tm) (co_queue co)\<rparr>, out))"

definition ConvoyOrchestration_tick ::
  "'q kernel \<Rightarrow> app_times \<Rightarrow> simtime \<Rightarrow> 'q member_store \<Rightarrow> 'q ConvoyOrchestration
    \<Rightarrow> 'q ConvoyOrchestration \<times> out_msg list" where
  "ConvoyOrchestration_tick K tm now member_store co =
     ConvoyOrchestration_handleMessage K tm now member_store (SelfMsg ''updateEvent'')
       (co\<lparr>co_queue := k_deliver K ''updateEvent'' (co_queue co)\<rparr>)"

lemma ConvoyOrchestration_tick_eq:
  "ConvoyOrchestration_tick K tm now member_store co =
     (\<lparr>co_current_state = MemberStore_readCCSReports member_store,
       co_desired_state = MemberStore_readCCSReports member_store,
       co_queue = stop_check K now (at_stop tm) (schedule_update K now (at_rate tm)
         (k_deliver K ''updateEvent'' (co_queue co)))\<rparr>,
      map (\<lambda>n. (MConvoyControlService (new_ConvoyControlService\<lparr>cc_node_id := n_name n,
            cc_node_address := n_address n, cc_timestamp := to_u64 now\<rparr>), ''out''))
        (MemberStore_readCCSReports member_store))"
  by (simp add: ConvoyOrchestration_tick_def ConvoyOrchestration_handleMessage_def Let_def
      estimate_actual_state_def compute_desired_state_def enforce_desired_state_def)

interpretation orchestration: periodic_app fes_kernel
    "\<lambda>now co. fst (ConvoyOrchestration_tick fes_kernel tm now (store now) co)" co_queue
    "at_rate tm" "at_stop tm" for tm store
  by unfold_locales (simp add: ConvoyOrchestration_tick_eq)

end
