(* ===== verification/Rlc_Um_Tx.thy ===== *)
theory Rlc_Um_Tx
  imports Binder_Nodes "HOL-Library.Sublist"
begin

text \<open>
  The sending side of RLC in unacknowledged mode,
  \<^verbatim>\<open>simu5G/src/stack/rlc/um/entity/UmTxEntity\<close> and \<^verbatim>\<open>packet/LteRlcDataPdu\<close>: the queue of SDUs, the
  segmentation and concatenation of SDUs into PDUs of the size granted by the MAC, and the holding of
  packets while a connection changes its mode.  The specification \<open>frame\<close> says which SDUs a sequence of
  chunks completes; \<open>rlcPduMake_frames\<close> shows that the PDUs follow it, whatever the MAC grants.
\<close>

unbundle bit_operations_syntax

section \<open>Data\<close>

text \<open>
  An RLC SDU.  \<open>sdu_pkt\<close> is the PDCP packet (its identity and its content; a \<^verbatim>\<open>dup()\<close> carries the same
  mark), \<open>sdu_byteLength\<close> the length of the packet with the SDU header in front.
\<close>

record LteRlcSdu =
  sdu_pkt :: nat
  snoMainPacket :: u32
  lengthMainPacket :: u32
  sdu_byteLength :: int

text \<open>What the RLC reads of the control information of a flow.\<close>

record RlcFlowInfo =
  fi_direction :: Direction
  fi_sourceId :: MacNodeId
  fi_destId :: MacNodeId
  fi_lcid :: "16 word"
  fi_d2dRxPeerId :: MacNodeId
  fi_sequenceNumber :: u32

text \<open>
  A PDU: the SDUs (whole or in part) with the number of bytes of each, the framing information, the
  sequence number, \<^verbatim>\<open>rlcPduLength_\<close>, the length of the chunk in bits and the control
  information that is attached to the packet.
\<close>

record LteRlcUmDataPdu =
  pdu_sduList :: "(LteRlcSdu \<times> int) list"
  pdu_fi :: "16 word"
  pdu_sno :: u32
  pdu_rlcPduLength :: int
  pdu_chunkBits :: int
  pdu_info :: RlcFlowInfo

definition RLC_HEADER_UM :: int where
  "RLC_HEADER_UM = 2"

definition new_LteRlcUmDataPdu :: "RlcFlowInfo \<Rightarrow> LteRlcUmDataPdu" where
  "new_LteRlcUmDataPdu info = \<lparr>pdu_sduList = [], pdu_fi = 0, pdu_sno = 0, pdu_rlcPduLength = RLC_HEADER_UM,
     pdu_chunkBits = 8 * RLC_HEADER_UM, pdu_info = info\<rparr>"

definition pushSdu :: "LteRlcSdu \<Rightarrow> int \<Rightarrow> LteRlcUmDataPdu \<Rightarrow> LteRlcUmDataPdu" where
  "pushSdu pkt sz pdu = pdu\<lparr>pdu_rlcPduLength := pdu_rlcPduLength pdu + sz, pdu_sduList := pdu_sduList pdu @ [(pkt, sz)]\<rparr>"

definition popSdu :: "LteRlcUmDataPdu \<Rightarrow> ((LteRlcSdu \<times> int) \<times> LteRlcUmDataPdu) res" where
  "popSdu pdu = (case pdu_sduList pdu of [] \<Rightarrow> Inl NullDeref
     | (pkt, sz) # rest \<Rightarrow>
         Inr ((pkt, sz), pdu\<lparr>pdu_sduList := rest, pdu_rlcPduLength := pdu_rlcPduLength pdu - sz\<rparr>))"

datatype RlcBurstStatus = START | STOP | ACTIVE | INACTIVE

text \<open>\<open>tx_fragmentInfo\<close> is the packet that is partly sent and the number of its bytes still to be sent.\<close>

record UmTxEntity =
  tx_flowControlInfo :: RlcFlowInfo
  tx_hasFlowManager :: bool
  tx_burstStatus :: RlcBurstStatus
  tx_sduQueue :: "LteRlcSdu list"
  tx_firstIsFragment :: bool
  tx_fragmentInfo :: "(nat \<times> int) option"
  tx_notifyEmptyBuffer :: bool
  tx_holdingDownstreamInPackets :: bool
  tx_sduHoldingQueue :: "LteRlcSdu list"
  tx_queueSize :: u32
  tx_queueLength :: u32
  tx_ownerNodeId :: MacNodeId
  tx_sno :: u32

text \<open>Calls of the entity: a PDU or a new-data indication to the MAC, a note to the packet-flow manager,
  a packet dropped because the queue is full, and the request to resume the peers of an emptied connection.\<close>

datatype tx_out =
  PduToMac LteRlcUmDataPdu | NewDataToMac LteRlcSdu | InsertRlcPdu "16 word" LteRlcUmDataPdu RlcBurstStatus
  | DropBufferOverflow LteRlcSdu | ResumeDownstreamInPackets MacNodeId

section \<open>Operations\<close>

text \<open>The arguments of \<open>initialize\<close>: the MAC of the node, whether the RLC is the NR one, the queue size, and
  which packet-flow managers the node has.\<close>

definition UmTxEntity_initialize ::
  "RlcFlowInfo \<Rightarrow> RanNodeType \<Rightarrow> MacNodeId \<Rightarrow> bool \<Rightarrow> u32 \<Rightarrow> bool \<Rightarrow> bool \<Rightarrow> UmTxEntity" where
  "UmTxEntity_initialize info nodeType macNodeId nrRlc queueSize packetFlowManager nrPacketFlowManager =
     \<lparr>tx_flowControlInfo = info,
      tx_hasFlowManager =
        (if nodeType = ENODEB \<or> nodeType = GNODEB then packetFlowManager
         else if nodeType = UE then (if nrRlc then nrPacketFlowManager else packetFlowManager)
         else False),
      tx_burstStatus = INACTIVE, tx_sduQueue = [], tx_firstIsFragment = False, tx_fragmentInfo = None,
      tx_notifyEmptyBuffer = False, tx_holdingDownstreamInPackets = False, tx_sduHoldingQueue = [],
      tx_queueSize = queueSize, tx_queueLength = 0, tx_ownerNodeId = macNodeId, tx_sno = 0\<rparr>"

definition UmTxEntity_enque :: "LteRlcSdu \<Rightarrow> UmTxEntity \<Rightarrow> bool \<times> UmTxEntity" where
  "UmTxEntity_enque pkt tx =
     (if tx_queueSize tx = 0 \<or> uint (tx_queueLength tx) + sdu_byteLength pkt < uint (tx_queueSize tx)
      then (True, tx\<lparr>tx_sduQueue := tx_sduQueue tx @ [pkt],
                     tx_queueLength := tx_queueLength tx + word_of_int (sdu_byteLength pkt)\<rparr>)
      else (False, tx))"

text \<open>The length still to be sent of the packet in front of the queue.\<close>

definition front_length :: "LteRlcSdu \<Rightarrow> UmTxEntity \<Rightarrow> int res" where
  "front_length pkt tx = (case tx_fragmentInfo tx of
       None \<Rightarrow> Inr (sint (lengthMainPacket pkt))
     | Some (p, sz) \<Rightarrow> if p \<noteq> sdu_pkt pkt then Inl (RuntimeError ''Packets are different'') else Inr sz)"

definition fragment_sdu :: "LteRlcSdu \<Rightarrow> int \<Rightarrow> int \<Rightarrow> UmTxEntity \<Rightarrow> UmTxEntity res" where
  "fragment_sdu pkt sduLength pduLength tx = (case tx_fragmentInfo tx of
       Some (p, sz) \<Rightarrow> if sz - pduLength < 0 then Inl (RuntimeError ''Fragmentation error'')
                        else Inr (tx\<lparr>tx_fragmentInfo := Some (p, sz - pduLength), tx_firstIsFragment := True\<rparr>)
     | None \<Rightarrow> Inr (tx\<lparr>tx_fragmentInfo := Some (sdu_pkt pkt, sduLength - pduLength), tx_firstIsFragment := True\<rparr>))"

text \<open>
  The loop of \<open>rlcPduMake\<close>, on the queue: the state, \<^verbatim>\<open>pduLength\<close>, \<^verbatim>\<open>len\<close> and \<^verbatim>\<open>endFrag\<close> with the PDU.
  A partial SDU sets \<^verbatim>\<open>pduLength\<close> to 0 and ends it.
\<close>

fun pdu_loop ::
  "LteRlcSdu list \<Rightarrow> int \<Rightarrow> int \<Rightarrow> LteRlcUmDataPdu \<Rightarrow> UmTxEntity \<Rightarrow> (int \<times> bool \<times> LteRlcUmDataPdu \<times> UmTxEntity) res" where
  "pdu_loop [] pduLength len pdu tx = Inr (len, False, pdu, tx)"
| "pdu_loop (pkt # q) pduLength len pdu tx =
     (if pduLength \<le> 0 then Inr (len, False, pdu, tx)
      else rbind (front_length pkt tx) (\<lambda>sduLength.
        if pduLength \<ge> sduLength
        then pdu_loop q (pduLength - sduLength) (len + sduLength) (pushSdu pkt sduLength pdu)
               (tx\<lparr>tx_fragmentInfo := None, tx_sduQueue := q,
                   tx_queueLength := tx_queueLength tx - word_of_int (sdu_byteLength pkt), tx_firstIsFragment := False\<rparr>)
        else rbind (fragment_sdu pkt sduLength pduLength tx) (\<lambda>tx.
               Inr (len + pduLength, True, pushSdu pkt pduLength pdu, tx))))"

text \<open>The burst state that goes to the packet-flow manager with a PDU, and the next one.\<close>

definition burst_step :: "bool \<Rightarrow> RlcBurstStatus \<Rightarrow> RlcBurstStatus \<times> RlcBurstStatus" where
  "burst_step queue_empty s =
     (if queue_empty then (if s = ACTIVE then (STOP, INACTIVE) else (s, s))
      else if s = INACTIVE then (START, ACTIVE) else (s, s))"

definition number_pdu :: "bool \<Rightarrow> int \<Rightarrow> bool \<Rightarrow> LteRlcUmDataPdu \<Rightarrow> UmTxEntity \<Rightarrow> LteRlcUmDataPdu \<times> UmTxEntity" where
  "number_pdu startFrag len endFrag pdu tx =
     (if len = 0 then (pdu\<lparr>pdu_chunkBits := 1\<rparr>, tx)
      else (pdu\<lparr>pdu_fi := (if endFrag then 1 else 0) OR (if startFrag then 2 else 0), pdu_sno := tx_sno tx,
                pdu_chunkBits := 8 * (RLC_HEADER_UM + len)\<rparr>,
            tx\<lparr>tx_sno := tx_sno tx + 1\<rparr>))"

definition report_pdu :: "int \<Rightarrow> LteRlcUmDataPdu \<Rightarrow> UmTxEntity \<Rightarrow> tx_out list \<times> UmTxEntity" where
  "report_pdu len pdu tx =
     (let info = tx_flowControlInfo tx
      in if (fi_direction info = DL \<or> fi_direction info = UL) \<and> len \<noteq> 0 \<and> tx_hasFlowManager tx
         then (let (reported, next) = burst_step (tx_sduQueue tx = []) (tx_burstStatus tx)
               in ([InsertRlcPdu (fi_lcid info) pdu reported], tx\<lparr>tx_burstStatus := next\<rparr>))
         else ([], tx))"

definition notify_empty :: "UmTxEntity \<Rightarrow> tx_out list \<times> UmTxEntity" where
  "notify_empty tx =
     (if tx_notifyEmptyBuffer tx \<and> tx_sduQueue tx = []
      then ([ResumeDownstreamInPackets (fi_d2dRxPeerId (tx_flowControlInfo tx))], tx\<lparr>tx_notifyEmptyBuffer := False\<rparr>)
      else ([], tx))"

definition rlcPduMake :: "int \<Rightarrow> UmTxEntity \<Rightarrow> (UmTxEntity \<times> tx_out list) res" where
  "rlcPduMake pduLength tx =
     (let startFrag = tx_firstIsFragment tx
      in rbind (pdu_loop (tx_sduQueue tx) (pduLength - RLC_HEADER_UM) 0 (new_LteRlcUmDataPdu (tx_flowControlInfo tx)) tx) (\<lambda>(len, endFrag, pdu, tx).
        let (pdu, tx) = number_pdu startFrag len endFrag pdu tx;
            (flow, tx) = report_pdu len pdu tx;
            (resume, tx) = notify_empty tx
        in Inr (tx, flow @ [PduToMac pdu] @ resume)))"

definition removeDataFromQueue :: "UmTxEntity \<Rightarrow> UmTxEntity res" where
  "removeDataFromQueue tx =
     (if tx_sduQueue tx = [] then Inl NullDeref
      else Inr (tx\<lparr>tx_sduQueue := butlast (tx_sduQueue tx),
                   tx_queueLength := tx_queueLength tx - word_of_int (sdu_byteLength (last (tx_sduQueue tx)))\<rparr>))"

definition clearQueue :: "UmTxEntity \<Rightarrow> UmTxEntity" where
  "clearQueue tx = tx\<lparr>tx_sduQueue := [], tx_fragmentInfo := None, tx_queueLength := 0, tx_firstIsFragment := False\<rparr>"

definition enqueHoldingPackets :: "LteRlcSdu \<Rightarrow> UmTxEntity \<Rightarrow> UmTxEntity" where
  "enqueHoldingPackets pkt tx = tx\<lparr>tx_sduHoldingQueue := tx_sduHoldingQueue tx @ [pkt]\<rparr>"

fun resume_loop :: "LteRlcSdu list \<Rightarrow> UmTxEntity \<Rightarrow> UmTxEntity \<times> tx_out list" where
  "resume_loop [] tx = (tx, [])"
| "resume_loop (pkt # q) tx =
     (let (stored, tx) = UmTxEntity_enque pkt (tx\<lparr>tx_sduHoldingQueue := q\<rparr>);
          (tx, out) = resume_loop q tx
      in (tx, (if stored then NewDataToMac pkt else DropBufferOverflow pkt) # out))"

definition UmTxEntity_resumeDownstreamInPackets :: "UmTxEntity \<Rightarrow> UmTxEntity \<times> tx_out list" where
  "UmTxEntity_resumeDownstreamInPackets tx =
     resume_loop (tx_sduHoldingQueue tx) (tx\<lparr>tx_holdingDownstreamInPackets := False\<rparr>)"

text \<open>\<open>emptying\<close> is the answer of \<^verbatim>\<open>lteRlc_->isEmptyingTxBuffer(...)\<close>.\<close>

definition UmTxEntity_rlcHandleD2DModeSwitch :: "bool \<Rightarrow> bool \<Rightarrow> bool \<Rightarrow> UmTxEntity \<Rightarrow> UmTxEntity" where
  "UmTxEntity_rlcHandleD2DModeSwitch emptying oldConnection clearBuffer tx =
     (if oldConnection
      then (if getNodeTypeById (tx_ownerNodeId tx) = ENODEB \<or> getNodeTypeById (tx_ownerNodeId tx) = GNODEB then tx
            else if clearBuffer then clearQueue tx
            else if tx_sduQueue tx \<noteq> [] then tx\<lparr>tx_notifyEmptyBuffer := True\<rparr> else tx)
      else (let tx = tx\<lparr>tx_sno := 0\<rparr>
            in if \<not> clearBuffer \<and> emptying then tx\<lparr>tx_holdingDownstreamInPackets := True\<rparr> else tx))"

section \<open>The framing of SDUs in PDUs\<close>

text \<open>
  Between two PDUs at most one SDU is sent in part; \<open>carry\<close> holds it with the number of bytes already
  sent.  \<open>frame c cs\<close> reads chunks \<open>cs\<close> after the carry \<open>c\<close>: the SDUs whose last byte is among them, and
  the carry that remains.  Only the last chunk may leave an SDU incomplete.
\<close>

type_synonym carry = "(LteRlcSdu \<times> int) option"

definition sdu_length :: "LteRlcSdu \<Rightarrow> int" where
  "sdu_length s = sint (lengthMainPacket s)"

definition rest_length :: "carry \<Rightarrow> LteRlcSdu \<Rightarrow> int" where
  "rest_length c s = (case c of None \<Rightarrow> sdu_length s | Some (_, n) \<Rightarrow> sdu_length s - n)"

fun frame :: "carry \<Rightarrow> (LteRlcSdu \<times> int) list \<Rightarrow> (LteRlcSdu list \<times> carry) option" where
  "frame c [] = Some ([], c)"
| "frame c ((s, k) # cs) =
     (if c \<noteq> None \<and> fst (the c) \<noteq> s \<or> k \<le> 0 \<or> rest_length c s < k then None
      else if k = rest_length c s
      then (case frame None cs of None \<Rightarrow> None | Some (d, c') \<Rightarrow> Some (s # d, c'))
      else if cs = [] then Some ([], Some (s, sdu_length s - rest_length c s + k)) else None)"

definition fi_of :: "carry \<Rightarrow> carry \<Rightarrow> 16 word" where
  "fi_of c c' = (if c' \<noteq> None then 1 else 0) OR (if c \<noteq> None then 2 else 0)"

text \<open>A sequence of non-empty PDUs, numbered from \<open>n\<close>: the SDUs that each PDU completes.\<close>

fun framed :: "carry \<Rightarrow> nat \<Rightarrow> LteRlcUmDataPdu list \<Rightarrow> (LteRlcSdu list list \<times> carry) option" where
  "framed c n [] = Some ([], c)"
| "framed c n (p # ps) =
     (case frame c (pdu_sduList p) of None \<Rightarrow> None
      | Some (d, c') \<Rightarrow>
          if pdu_sduList p \<noteq> [] \<and> pdu_sno p = of_nat n \<and> pdu_fi p = fi_of c c'
          then (case framed c' (Suc n) ps of None \<Rightarrow> None | Some (ds, c'') \<Rightarrow> Some (d # ds, c''))
          else None)"

lemma framed_append:
  assumes "framed c n ps = Some (ds, c')" and "framed c' (n + length ps) qs = Some (es, c'')"
  shows "framed c n (ps @ qs) = Some (ds @ es, c'')"
  using assms by (induction ps arbitrary: c n ds) (auto split: option.splits if_splits)

lemma framed_length: "framed c n ps = Some (ds, c') \<Longrightarrow> length ds = length ps"
  by (induction ps arbitrary: c n ds) (auto split: option.splits if_splits)

section \<open>The sender follows the framing\<close>

definition tx_carry :: "UmTxEntity \<Rightarrow> carry" where
  "tx_carry tx = (case tx_fragmentInfo tx of None \<Rightarrow> None
     | Some (_, sz) \<Rightarrow> Some (hd (tx_sduQueue tx), sdu_length (hd (tx_sduQueue tx)) - sz))"

text \<open>The invariant of the entity; \<^verbatim>\<open>queueLength_\<close> is the sum of the queued bytes, modulo its width.\<close>

definition fragment_ok :: "UmTxEntity \<Rightarrow> bool" where
  "fragment_ok tx \<longleftrightarrow> (case tx_fragmentInfo tx of
       None \<Rightarrow> \<not> tx_firstIsFragment tx
     | Some (p, sz) \<Rightarrow> tx_firstIsFragment tx \<and> tx_sduQueue tx \<noteq> [] \<and> p = sdu_pkt (hd (tx_sduQueue tx)) \<and>
         0 < sz \<and> sz < sdu_length (hd (tx_sduQueue tx)))"

definition tx_ok :: "UmTxEntity \<Rightarrow> bool" where
  "tx_ok tx \<longleftrightarrow> list_all (\<lambda>s. 0 < sdu_length s) (tx_sduQueue tx) \<and> fragment_ok tx \<and>
     tx_queueLength tx = word_of_int (sum_list (map sdu_byteLength (tx_sduQueue tx)))"

lemma tx_ok_initialize: "tx_ok (UmTxEntity_initialize info nt i nr qs pf npf)"
  by (simp add: tx_ok_def fragment_ok_def UmTxEntity_initialize_def)

lemma tx_ok_enque: "tx_ok tx \<Longrightarrow> 0 < sdu_length s \<Longrightarrow> tx_ok (snd (UmTxEntity_enque s tx))"
  by (auto simp: tx_ok_def fragment_ok_def UmTxEntity_enque_def split: option.splits)

lemma tx_ok_clearQueue: "tx_ok (clearQueue tx)"
  by (simp add: tx_ok_def fragment_ok_def clearQueue_def)

lemma tx_carry_enque: "tx_ok tx \<Longrightarrow> tx_carry (snd (UmTxEntity_enque s tx)) = tx_carry tx"
  by (auto simp: tx_ok_def fragment_ok_def UmTxEntity_enque_def tx_carry_def split: option.splits)

lemma fragment_firstIsFragment: "fragment_ok tx \<Longrightarrow> tx_firstIsFragment tx \<longleftrightarrow> tx_carry tx \<noteq> None"
  by (auto simp: fragment_ok_def tx_carry_def split: option.splits)

text \<open>The packet in front: its length still to be sent, and what its last or its next part does to the state.\<close>

lemma front_length_rest:
  assumes "tx_ok tx" and "tx_sduQueue tx = s # q"
  shows "front_length s tx = Inr (rest_length (tx_carry tx) s)" and "0 < rest_length (tx_carry tx) s"
    and "tx_carry tx \<noteq> None \<longrightarrow> fst (the (tx_carry tx)) = s"
  using assms
  by (auto simp: tx_ok_def fragment_ok_def front_length_def rest_length_def tx_carry_def sdu_length_def split: option.splits)

lemma fragment_sdu_carry:
  assumes "tx_ok tx" and "tx_sduQueue tx = s # q" and "0 < k" and "k < rest_length (tx_carry tx) s"
  shows "\<exists>tx'. fragment_sdu s (rest_length (tx_carry tx) s) k tx = Inr tx' \<and> tx_ok tx' \<and>
     tx_carry tx' = Some (s, sdu_length s - rest_length (tx_carry tx) s + k) \<and>
     tx' = tx\<lparr>tx_fragmentInfo := tx_fragmentInfo tx', tx_firstIsFragment := True\<rparr>"
  using assms
  by (auto simp: tx_ok_def fragment_ok_def fragment_sdu_def rest_length_def tx_carry_def split: option.splits)

lemma tx_ok_pop:
  assumes "tx_ok tx" and "tx_sduQueue tx = s # q"
  shows "tx_ok (tx\<lparr>tx_fragmentInfo := None, tx_sduQueue := q,
     tx_queueLength := tx_queueLength tx - word_of_int (sdu_byteLength s), tx_firstIsFragment := False\<rparr>)"
  using assms by (simp add: tx_ok_def fragment_ok_def)

text \<open>The loop touches the queue and the fragment only, and the list of chunks of the PDU.\<close>

definition queue_moved :: "UmTxEntity \<Rightarrow> UmTxEntity \<Rightarrow> bool" where
  "queue_moved tx tx' \<longleftrightarrow> tx' = tx\<lparr>tx_sduQueue := tx_sduQueue tx', tx_firstIsFragment := tx_firstIsFragment tx',
     tx_fragmentInfo := tx_fragmentInfo tx', tx_queueLength := tx_queueLength tx'\<rparr>"

definition chunks_pushed :: "(LteRlcSdu \<times> int) list \<Rightarrow> LteRlcUmDataPdu \<Rightarrow> LteRlcUmDataPdu" where
  "chunks_pushed cs pdu = pdu\<lparr>pdu_sduList := pdu_sduList pdu @ cs,
     pdu_rlcPduLength := pdu_rlcPduLength pdu + sum_list (map snd cs)\<rparr>"

lemma chunks_pushed_simps [simp]:
  "chunks_pushed [] pdu = pdu"
  "chunks_pushed cs (chunks_pushed ds pdu) = chunks_pushed (ds @ cs) pdu"
  "pushSdu s k pdu = chunks_pushed [(s, k)] pdu"
  by (simp_all add: chunks_pushed_def pushSdu_def)

lemma pdu_loop_frames:
  assumes "tx_ok tx" and "tx_sduQueue tx = q"
  shows "\<exists>cs d e tx'. pdu_loop q pl len pdu tx = Inr (len + sum_list (map snd cs), e, chunks_pushed cs pdu, tx') \<and>
     frame (tx_carry tx) cs = Some (d, tx_carry tx') \<and> q = d @ tx_sduQueue tx' \<and> tx_ok tx' \<and> queue_moved tx tx' \<and>
     (e \<longleftrightarrow> cs \<noteq> [] \<and> tx_carry tx' \<noteq> None) \<and> sum_list (map snd cs) \<le> max 0 pl \<and>
     (cs \<noteq> [] \<longleftrightarrow> 0 < pl \<and> q \<noteq> []) \<and> (pl \<le> sum_list (map snd cs) \<or> tx_sduQueue tx' = [])"
  using assms
proof (induction q arbitrary: pl len pdu tx)
  case Nil
  then show ?case by (intro exI [of _ "[]"]) (auto simp: queue_moved_def)
next
  case (Cons s q)
  note front = front_length_rest [OF Cons.prems]
  let ?r = "rest_length (tx_carry tx) s"
  consider "pl \<le> 0" | "?r \<le> pl" "0 < pl" | "0 < pl" "pl < ?r" by linarith
  then show ?case
  proof cases
    case 1
    then show ?thesis using Cons.prems by (intro exI [of _ "[]"]) (auto simp: queue_moved_def)
  next
    case 2
    let ?tx = "tx\<lparr>tx_fragmentInfo := None, tx_sduQueue := q,
      tx_queueLength := tx_queueLength tx - word_of_int (sdu_byteLength s), tx_firstIsFragment := False\<rparr>"
    have carry: "tx_carry ?tx = None" and queue: "tx_sduQueue ?tx = q" by (simp_all add: tx_carry_def)
    obtain cs d e tx' where
      IH: "pdu_loop q (pl - ?r) (len + ?r) (pushSdu s ?r pdu) ?tx =
          Inr (len + ?r + sum_list (map snd cs), e, chunks_pushed cs (pushSdu s ?r pdu), tx')"
        "frame None cs = Some (d, tx_carry tx')" "q = d @ tx_sduQueue tx'" "tx_ok tx'" "queue_moved ?tx tx'"
        "e \<longleftrightarrow> cs \<noteq> [] \<and> tx_carry tx' \<noteq> None" "sum_list (map snd cs) \<le> max 0 (pl - ?r)"
        "cs \<noteq> [] \<longleftrightarrow> 0 < pl - ?r \<and> q \<noteq> []" "pl - ?r \<le> sum_list (map snd cs) \<or> tx_sduQueue tx' = []"
      using Cons.IH [OF tx_ok_pop [OF Cons.prems] queue, of "pl - ?r" "len + ?r" "pushSdu s ?r pdu", unfolded carry]
      by blast
    have "frame (tx_carry tx) ((s, ?r) # cs) = Some (s # d, tx_carry tx')"
      using front IH(2) by auto
    moreover have "queue_moved tx tx'" using IH(5) by (simp add: queue_moved_def)
    moreover have "cs = [] \<Longrightarrow> tx_carry tx' = None" using IH(2) by simp
    ultimately show ?thesis
      using 2 front(1) IH
      by (intro exI [of _ "(s, ?r) # cs"] exI [of _ "s # d"] exI [of _ e] exI [of _ tx']) auto
  next
    case 3
    from fragment_sdu_carry [OF Cons.prems 3] obtain tx' where
      tx': "fragment_sdu s ?r pl tx = Inr tx'" "tx_ok tx'" "tx_carry tx' = Some (s, sdu_length s - ?r + pl)"
        "tx' = tx\<lparr>tx_fragmentInfo := tx_fragmentInfo tx', tx_firstIsFragment := True\<rparr>" by blast
    have "tx_sduQueue tx' = s # q"
      by (subst tx'(4)) (simp add: Cons.prems)
    moreover have "queue_moved tx tx'"
      by (subst tx'(4)) (simp add: queue_moved_def)
    moreover have "frame (tx_carry tx) [(s, pl)] = Some ([], tx_carry tx')"
      using front 3 tx'(3) by auto
    ultimately show ?thesis
      using 3 front(1) tx'(1-3)
      by (intro exI [of _ "[(s, pl)]"] exI [of _ "[]"] exI [of _ True] exI [of _ tx']) auto
  qed
qed

fun pdus_of :: "tx_out list \<Rightarrow> LteRlcUmDataPdu list" where
  "pdus_of [] = []"
| "pdus_of (PduToMac p # out) = p # pdus_of out"
| "pdus_of (_ # out) = pdus_of out"

lemma pdus_of_append [simp]: "pdus_of (xs @ ys) = pdus_of xs @ pdus_of ys"
  by (induction xs rule: pdus_of.induct) simp_all

lemma tx_ok_fields [simp]:
  "tx_ok (tx\<lparr>tx_sno := n\<rparr>) = tx_ok tx" "tx_ok (tx\<lparr>tx_burstStatus := bs\<rparr>) = tx_ok tx"
  "tx_ok (tx\<lparr>tx_notifyEmptyBuffer := b\<rparr>) = tx_ok tx" "tx_carry (tx\<lparr>tx_sno := n\<rparr>) = tx_carry tx"
  "tx_carry (tx\<lparr>tx_burstStatus := bs\<rparr>) = tx_carry tx" "tx_carry (tx\<lparr>tx_notifyEmptyBuffer := b\<rparr>) = tx_carry tx"
  by (simp_all add: tx_ok_def fragment_ok_def tx_carry_def split: option.splits)

lemma frame_chunks_pos: "frame c cs = Some r \<Longrightarrow> (s, k) \<in> set cs \<Longrightarrow> 0 < k"
  by (induction c cs arbitrary: r rule: frame.induct) (auto split: if_splits option.splits)

lemma frame_sum_pos:
  assumes "frame c cs = Some r" and "cs \<noteq> []"
  shows "0 < sum_list (map snd cs)"
proof (cases cs)
  case (Cons x xs)
  have pos: "\<forall>y \<in> set cs. 0 < snd y" using frame_chunks_pos [OF assms(1)] by auto
  with Cons have "0 \<le> sum_list (map snd xs)" by (intro sum_list_nonneg) (auto intro: less_imp_le)
  with pos Cons show ?thesis by auto
qed (use assms in simp)

text \<open>The notes to the packet-flow manager and to the RLC change neither the queue nor the PDU.\<close>

lemma report_pdu_keeps:
  assumes "report_pdu len pdu tx = (out, tx')"
  shows "pdus_of out = [] \<and> tx_ok tx' = tx_ok tx \<and> tx_carry tx' = tx_carry tx \<and> tx_sduQueue tx' = tx_sduQueue tx \<and>
    tx_queueSize tx' = tx_queueSize tx \<and> tx_sno tx' = tx_sno tx \<and> tx_sduHoldingQueue tx' = tx_sduHoldingQueue tx \<and>
      tx_holdingDownstreamInPackets tx' = tx_holdingDownstreamInPackets tx"
  using assms by (auto simp: report_pdu_def Let_def split: if_splits prod.splits)

lemma notify_empty_keeps:
  assumes "notify_empty tx = (out, tx')"
  shows "pdus_of out = [] \<and> tx_ok tx' = tx_ok tx \<and> tx_carry tx' = tx_carry tx \<and> tx_sduQueue tx' = tx_sduQueue tx \<and>
    tx_queueSize tx' = tx_queueSize tx \<and> tx_sno tx' = tx_sno tx \<and> tx_sduHoldingQueue tx' = tx_sduHoldingQueue tx \<and>
      tx_holdingDownstreamInPackets tx' = tx_holdingDownstreamInPackets tx"
  using assms by (auto simp: notify_empty_def split: if_splits)

text \<open>One request of the MAC: the PDU, the completed SDUs and the new state.\<close>

lemma rlcPduMake_frames:
  assumes "tx_ok tx"
  obtains pdu d tx' out where "rlcPduMake g tx = Inr (tx', out)" and "pdus_of out = [pdu]"
    and "frame (tx_carry tx) (pdu_sduList pdu) = Some (d, tx_carry tx')"
    and "tx_sduQueue tx = d @ tx_sduQueue tx'" and "tx_ok tx'" and "tx_queueSize tx' = tx_queueSize tx \<and> tx_sduHoldingQueue tx' = tx_sduHoldingQueue tx \<and>
      tx_holdingDownstreamInPackets tx' = tx_holdingDownstreamInPackets tx"
    and "pdu_sduList pdu = [] \<longleftrightarrow> g \<le> RLC_HEADER_UM \<or> tx_sduQueue tx = []"
    and "pdu_sduList pdu = [] \<Longrightarrow> pdu_chunkBits pdu = 1 \<and> tx_sno tx' = tx_sno tx"
    and "pdu_sduList pdu \<noteq> [] \<Longrightarrow> pdu_sno pdu = tx_sno tx \<and> tx_sno tx' = tx_sno tx + 1 \<and>
           pdu_fi pdu = fi_of (tx_carry tx) (tx_carry tx') \<and>
           pdu_chunkBits pdu = 8 * (RLC_HEADER_UM + sum_list (map snd (pdu_sduList pdu))) \<and>
           pdu_chunkBits pdu \<le> 8 * g \<and> (pdu_chunkBits pdu = 8 * g \<or> tx_sduQueue tx' = [])"
proof -
  obtain cs d e tx1 where
    loop: "pdu_loop (tx_sduQueue tx) (g - RLC_HEADER_UM) 0 (new_LteRlcUmDataPdu (tx_flowControlInfo tx)) tx =
        Inr (0 + sum_list (map snd cs), e, chunks_pushed cs (new_LteRlcUmDataPdu (tx_flowControlInfo tx)), tx1)"
      "frame (tx_carry tx) cs = Some (d, tx_carry tx1)" "tx_sduQueue tx = d @ tx_sduQueue tx1" "tx_ok tx1"
      "queue_moved tx tx1" "e \<longleftrightarrow> cs \<noteq> [] \<and> tx_carry tx1 \<noteq> None" "sum_list (map snd cs) \<le> max 0 (g - RLC_HEADER_UM)"
      "cs \<noteq> [] \<longleftrightarrow> 0 < g - RLC_HEADER_UM \<and> tx_sduQueue tx \<noteq> []"
      "g - RLC_HEADER_UM \<le> sum_list (map snd cs) \<or> tx_sduQueue tx1 = []"
    using pdu_loop_frames [OF assms refl] by blast
  have len: "sum_list (map snd cs) = 0 \<longleftrightarrow> cs = []" using frame_sum_pos [OF loop(2)] by force
  have keep: "tx_sno tx1 = tx_sno tx" "tx_queueSize tx1 = tx_queueSize tx" "tx_sduHoldingQueue tx1 = tx_sduHoldingQueue tx"
      "tx_holdingDownstreamInPackets tx1 = tx_holdingDownstreamInPackets tx"
    using arg_cong [OF loop(5) [unfolded queue_moved_def], of tx_sno]
      arg_cong [OF loop(5) [unfolded queue_moved_def], of tx_queueSize]
      arg_cong [OF loop(5) [unfolded queue_moved_def], of tx_sduHoldingQueue]
      arg_cong [OF loop(5) [unfolded queue_moved_def], of tx_holdingDownstreamInPackets] by simp_all
  have first: "tx_firstIsFragment tx \<longleftrightarrow> tx_carry tx \<noteq> None"
    using assms fragment_firstIsFragment by (auto simp: tx_ok_def)
  let ?pdu = "chunks_pushed cs (new_LteRlcUmDataPdu (tx_flowControlInfo tx))"
  let ?fin = "if cs = [] then ?pdu\<lparr>pdu_chunkBits := 1\<rparr>
     else ?pdu\<lparr>pdu_fi := fi_of (tx_carry tx) (tx_carry tx1), pdu_sno := tx_sno tx,
               pdu_chunkBits := 8 * (RLC_HEADER_UM + sum_list (map snd cs))\<rparr>"
  have sdus: "pdu_sduList ?fin = cs" "pdu_sduList ?pdu = cs" by (simp_all add: chunks_pushed_def new_LteRlcUmDataPdu_def)
  obtain tx' out where make: "rlcPduMake g tx = Inr (tx', out)" "pdus_of out = [?fin]"
      "tx_ok tx'" "tx_carry tx' = tx_carry tx1" "tx_sduQueue tx' = tx_sduQueue tx1"
      "tx_queueSize tx' = tx_queueSize tx1" "tx_sduHoldingQueue tx' = tx_sduHoldingQueue tx1"
      "tx_holdingDownstreamInPackets tx' = tx_holdingDownstreamInPackets tx1" "tx_sno tx' = (if cs = [] then tx_sno tx else tx_sno tx + 1)"
  proof -
    obtain tx2 where num: "number_pdu (tx_firstIsFragment tx) (sum_list (map snd cs)) e ?pdu tx1 = (?fin, tx2)"
        "tx2 = (if cs = [] then tx1 else tx1\<lparr>tx_sno := tx_sno tx + 1\<rparr>)"
      using loop(6) first keep(1) by (auto simp: number_pdu_def len fi_of_def)
    obtain flow tx3 where rep: "report_pdu (sum_list (map snd cs)) ?fin tx2 = (flow, tx3)" by fastforce
    obtain resume tx4 where noti: "notify_empty tx3 = (resume, tx4)" by fastforce
    have "rlcPduMake g tx = Inr (tx4, flow @ [PduToMac ?fin] @ resume)"
      using loop(1) num(1) rep noti by (simp add: rlcPduMake_def Let_def)
    with that [of tx4] num(2) report_pdu_keeps [OF rep] notify_empty_keeps [OF noti] loop(4) keep show thesis by auto
  qed
  show thesis
    by (rule that [OF make(1,2)])
       (use loop(2,3,7,8,9) make(3-9) keep in \<open>auto simp: sdus simp del: pdus_of.simps\<close>)
qed

section \<open>A run of the sender\<close>

text \<open>SDUs arrive from PDCP and the MAC asks for PDUs, in any order; the run collects the accepted SDUs and
  the PDUs that carry data.\<close>

datatype tx_event = SduArrives LteRlcSdu | MacRequests int

fun tx_run :: "tx_event list \<Rightarrow> UmTxEntity \<Rightarrow> (UmTxEntity \<times> LteRlcSdu list \<times> LteRlcUmDataPdu list) res" where
  "tx_run [] tx = Inr (tx, [], [])"
| "tx_run (SduArrives s # es) tx =
     (let (stored, tx) = UmTxEntity_enque s tx
      in rbind (tx_run es tx) (\<lambda>(tx, acc, pdus). Inr (tx, (if stored then s # acc else acc), pdus)))"
| "tx_run (MacRequests g # es) tx =
     rbind (rlcPduMake g tx) (\<lambda>(tx, out).
     rbind (tx_run es tx) (\<lambda>(tx, acc, pdus). Inr (tx, acc, filter (\<lambda>p. pdu_sduList p \<noteq> []) (pdus_of out) @ pdus)))"

definition sdus_positive :: "tx_event list \<Rightarrow> bool" where
  "sdus_positive es \<longleftrightarrow> list_all (\<lambda>e. case e of SduArrives s \<Rightarrow> 0 < sdu_length s | MacRequests _ \<Rightarrow> True) es"

lemma sdus_positive_Cons [simp]:
  "sdus_positive []" "sdus_positive (SduArrives s # es) \<longleftrightarrow> 0 < sdu_length s \<and> sdus_positive es"
  "sdus_positive (MacRequests g # es) = sdus_positive es"
  by (simp_all add: sdus_positive_def)

text \<open>The run never fails, its PDUs are framed, and what was accepted is completed or still queued.\<close>

lemma tx_run_framed:
  assumes "tx_ok tx" and "sdus_positive es" and "tx_sno tx = of_nat n"
  shows "\<exists>tx' acc pdus ds. tx_run es tx = Inr (tx', acc, pdus) \<and> tx_ok tx' \<and>
     framed (tx_carry tx) n pdus = Some (ds, tx_carry tx') \<and> tx_sduQueue tx @ acc = concat ds @ tx_sduQueue tx'"
  using assms
proof (induction es arbitrary: tx n)
  case (Cons e es)
  show ?case
  proof (cases e)
    case (SduArrives s)
    obtain stored tx1 where enq: "UmTxEntity_enque s tx = (stored, tx1)" by fastforce
    have "tx_ok tx1" "tx_carry tx1 = tx_carry tx"
      using tx_ok_enque [of tx s] tx_carry_enque [of tx s] Cons.prems SduArrives enq by simp_all
    moreover have "tx_sno tx1 = tx_sno tx" "tx_sduQueue tx1 = tx_sduQueue tx @ (if stored then [s] else [])"
      using enq by (auto simp: UmTxEntity_enque_def split: if_splits)
    moreover from this obtain tx' acc pdus ds where "tx_run es tx1 = Inr (tx', acc, pdus)" "tx_ok tx'"
        "framed (tx_carry tx1) n pdus = Some (ds, tx_carry tx')" "tx_sduQueue tx1 @ acc = concat ds @ tx_sduQueue tx'"
      using Cons.IH [of tx1 n] Cons.prems SduArrives calculation by auto
    ultimately show ?thesis using SduArrives enq by auto
  next
    case (MacRequests g)
    from rlcPduMake_frames [OF Cons.prems(1), of g] obtain pdu d tx1 out where
      make: "rlcPduMake g tx = Inr (tx1, out)" "pdus_of out = [pdu]"
        "frame (tx_carry tx) (pdu_sduList pdu) = Some (d, tx_carry tx1)"
        "tx_sduQueue tx = d @ tx_sduQueue tx1" "tx_ok tx1"
        "pdu_sduList pdu = [] \<Longrightarrow> tx_sno tx1 = tx_sno tx"
        "pdu_sduList pdu \<noteq> [] \<Longrightarrow> pdu_sno pdu = tx_sno tx \<and> tx_sno tx1 = tx_sno tx + 1 \<and>
           pdu_fi pdu = fi_of (tx_carry tx) (tx_carry tx1)" by metis
    let ?n = "if pdu_sduList pdu = [] then n else Suc n"
    have "tx_sno tx1 = of_nat ?n" using make(6,7) Cons.prems(3) by auto
    from Cons.IH [OF make(5) _ this] Cons.prems(2) MacRequests obtain tx' acc pdus ds where
      IH: "tx_run es tx1 = Inr (tx', acc, pdus)" "tx_ok tx'"
        "framed (tx_carry tx1) ?n pdus = Some (ds, tx_carry tx')" "tx_sduQueue tx1 @ acc = concat ds @ tx_sduQueue tx'"
      by auto
    show ?thesis
    proof (cases "pdu_sduList pdu = []")
      case True
      with make(3) have "d = []" "tx_carry tx1 = tx_carry tx" by simp_all
      with True IH make(1,2,4) MacRequests show ?thesis by auto
    next
      case False
      with IH(3) make(3,7) Cons.prems(3)
      have "framed (tx_carry tx) n (pdu # pdus) = Some (d # ds, tx_carry tx')" by simp
      with False IH make(1,2,4) MacRequests show ?thesis by auto
    qed
  qed
qed auto

section \<open>Properties of the sender\<close>

text \<open>
  C26. A PDU never exceeds the size granted by the MAC, RLC header included, and wastes none of it: it fills
  the grant or empties the queue.  A PDU without data is one bit long, uses no sequence number, and is
  sent only if the grant has no room beside the header or the queue is empty.
\<close>

theorem rlcPduMake_fits_grant:
  assumes "tx_ok tx"
  shows "\<exists>tx' out pdu. rlcPduMake g tx = Inr (tx', out) \<and> pdus_of out = [pdu] \<and>
     (if g \<le> RLC_HEADER_UM \<or> tx_sduQueue tx = []
      then pdu_sduList pdu = [] \<and> pdu_chunkBits pdu = 1 \<and> tx_sno tx' = tx_sno tx
      else pdu_chunkBits pdu = 8 * (RLC_HEADER_UM + sum_list (map snd (pdu_sduList pdu))) \<and>
           pdu_chunkBits pdu \<le> 8 * g \<and> (pdu_chunkBits pdu = 8 * g \<or> tx_sduQueue tx' = []) \<and>
           pdu_sno pdu = tx_sno tx \<and> tx_sno tx' = tx_sno tx + 1)"
  using rlcPduMake_frames [OF assms, of g] by (metis (no_types, lifting))

text \<open>A flow, its SDUs and a new sender for examples.\<close>

definition sample_info :: RlcFlowInfo where
  "sample_info = \<lparr>fi_direction = DL, fi_sourceId = 1, fi_destId = 1025, fi_lcid = 3, fi_d2dRxPeerId = 0, fi_sequenceNumber = 0\<rparr>"

definition sample_sdu :: "nat \<Rightarrow> nat \<Rightarrow> LteRlcSdu" where
  "sample_sdu k n = \<lparr>sdu_pkt = k, snoMainPacket = of_nat (Suc k), lengthMainPacket = of_nat n, sdu_byteLength = int n + 1\<rparr>"

definition sample_tx :: UmTxEntity where
  "sample_tx = UmTxEntity_initialize sample_info GNODEB 1 False 0 False False"

theorem rlcPduMake_fits_grant_witness:
  "\<exists>tx' out pdu. rlcPduMake 6 (snd (UmTxEntity_enque (sample_sdu 0 5) sample_tx)) = Inr (tx', out) \<and> pdus_of out = [pdu] \<and>
     pdu_chunkBits pdu = 48 \<and> tx_sno tx' = 1"
proof -
  let ?tx = "snd (UmTxEntity_enque (sample_sdu 0 5) sample_tx)"
  have "tx_ok ?tx" "tx_sduQueue ?tx = [sample_sdu 0 5]" "tx_sno ?tx = 0" by code_simp+
  moreover have "case rlcPduMake 6 ?tx of Inr (tx', _) \<Rightarrow> tx_sduQueue tx' \<noteq> [] | Inl _ \<Rightarrow> False" by code_simp
  ultimately show ?thesis using rlcPduMake_fits_grant [of ?tx 6] by (auto simp: RLC_HEADER_UM_def)
qed

text \<open>The operations of the entity; SDUs have a positive length.\<close>

inductive tx_step :: "UmTxEntity \<Rightarrow> UmTxEntity \<Rightarrow> bool" where
  enque: "0 < sdu_length s \<Longrightarrow> tx_step tx (snd (UmTxEntity_enque s tx))"
| make: "rlcPduMake g tx = Inr (tx', out) \<Longrightarrow> tx_step tx tx'"
| hold: "0 < sdu_length s \<Longrightarrow> tx_step tx (enqueHoldingPackets s tx)"
| resume: "tx_step tx (fst (UmTxEntity_resumeDownstreamInPackets tx))"
| switch: "tx_step tx (UmTxEntity_rlcHandleD2DModeSwitch emptying old clear tx)"

definition tx_wf :: "UmTxEntity \<Rightarrow> bool" where
  "tx_wf tx \<longleftrightarrow> tx_ok tx \<and> list_all (\<lambda>s. 0 < sdu_length s) (tx_sduHoldingQueue tx)"

lemma tx_ok_more_fields [simp]:
  "tx_ok (tx\<lparr>tx_sduHoldingQueue := q\<rparr>) = tx_ok tx" "tx_ok (tx\<lparr>tx_holdingDownstreamInPackets := b\<rparr>) = tx_ok tx"
  by (simp_all add: tx_ok_def fragment_ok_def split: option.splits)

lemma enque_holding [simp]: "tx_sduHoldingQueue (snd (UmTxEntity_enque s tx)) = tx_sduHoldingQueue tx"
  by (simp add: UmTxEntity_enque_def)

lemma tx_wf_resume_loop:
  "tx_ok tx \<Longrightarrow> list_all (\<lambda>s. 0 < sdu_length s) q \<Longrightarrow> q = tx_sduHoldingQueue tx \<Longrightarrow>
     tx_wf (fst (resume_loop q tx)) \<and> tx_sduHoldingQueue (fst (resume_loop q tx)) = []"
proof (induction q arbitrary: tx)
  case (Cons s q)
  let ?tx = "tx\<lparr>tx_sduHoldingQueue := q\<rparr>"
  have "tx_ok (snd (UmTxEntity_enque s ?tx))" using Cons.prems(1,2) by (intro tx_ok_enque) simp_all
  with Cons.IH [of "snd (UmTxEntity_enque s ?tx)"] Cons.prems(2) show ?case by (simp add: Let_def split_beta)
qed (simp add: tx_wf_def)

lemma tx_step_wf: "tx_step tx tx' \<Longrightarrow> tx_wf tx \<Longrightarrow> tx_wf tx'"
proof (induction rule: tx_step.induct)
  case (make g tx tx' out)
  obtain tx1 out1 where "rlcPduMake g tx = Inr (tx1, out1)" "tx_ok tx1" "tx_sduHoldingQueue tx1 = tx_sduHoldingQueue tx"
    using rlcPduMake_frames [of tx g] make(2) unfolding tx_wf_def by metis
  with make show ?case by (simp add: tx_wf_def)
next
  case (resume tx)
  let ?tx = "tx\<lparr>tx_holdingDownstreamInPackets := False\<rparr>"
  have a: "tx_ok ?tx" "list_all (\<lambda>s. 0 < sdu_length s) (tx_sduHoldingQueue tx)" using resume by (simp_all add: tx_wf_def)
  have "tx_wf (fst (resume_loop (tx_sduHoldingQueue tx) ?tx))"
    by (rule conjunct1 [OF tx_wf_resume_loop [OF a]]) simp
  then show ?case by (simp only: UmTxEntity_resumeDownstreamInPackets_def)
next
  case (switch tx e old clear)
  have "tx_sduHoldingQueue (clearQueue tx) = tx_sduHoldingQueue tx" by (simp add: clearQueue_def)
  with switch show ?case
    unfolding tx_wf_def UmTxEntity_rlcHandleD2DModeSwitch_def Let_def by (simp add: tx_ok_clearQueue)
qed (auto simp: tx_wf_def enqueHoldingPackets_def intro: tx_ok_enque)



end
