(* ===== verification/Rlc_Um_Rx.thy ===== *)
theory Rlc_Um_Rx
  imports Rlc_Um_Tx Std_Containers
begin

text \<open>
  The receiving side of RLC in unacknowledged mode,
  \<^verbatim>\<open>simu5G/src/stack/rlc/um/entity/UmRxEntity\<close>: the reception window, the reordering timer
  (\<^verbatim>\<open>common/timer/TTimer\<close>), the reassembly of SDUs and the measurement of uplink bursts.
  A handler that never returns is \<open>None\<close>, one that fails is \<open>Some (Inl e)\<close>.  Throughput and delay
  samples are not modelled; a lost SDU or PDU is one output.
\<close>

section \<open>Data\<close>

text \<open>\<^verbatim>\<open>cArray\<close>: positions that hold an object or none, growing on demand; its size is one more than
  the last used position.\<close>

type_synonym 'a cArray = "'a option list"

definition cArray_get :: "nat \<Rightarrow> 'a cArray \<Rightarrow> 'a option" where
  "cArray_get i a = (if i < length a then a ! i else None)"

definition cArray_addAt :: "int \<Rightarrow> 'a \<Rightarrow> 'a cArray \<Rightarrow> 'a cArray res" where
  "cArray_addAt i x a =
     (if i < 0 then Inl (RuntimeError ''addAt(): Negative position'')
      else if cArray_get (nat i) a \<noteq> None then Inl (RuntimeError ''addAt(): Position already used'')
      else Inr ((a @ replicate (Suc (nat i) - length a) None)[nat i := Some x]))"

definition cArray_remove :: "nat \<Rightarrow> 'a cArray \<Rightarrow> 'a cArray" where
  "cArray_remove i a = a[i := None]"

definition cArray_size :: "'a cArray \<Rightarrow> nat" where
  "cArray_size a = length (dropWhile (\<lambda>x. x = None) (rev a))"

lemma cArray_get_remove [simp]: "cArray_get x (cArray_remove i a) = (if x = i then None else cArray_get x a)"
  by (simp add: cArray_get_def cArray_remove_def)

lemma cArray_addAt_free:
  assumes "cArray_get i a = None"
  obtains a' where "cArray_addAt (int i) v a = Inr a'" "\<And>x. cArray_get x a' = (if x = i then Some v else cArray_get x a)"
proof
  show "cArray_addAt (int i) v a = Inr ((a @ replicate (Suc i - length a) None)[i := Some v])"
    using assms by (simp add: cArray_addAt_def)
  show "cArray_get x ((a @ replicate (Suc i - length a) None)[i := Some v]) = (if x = i then Some v else cArray_get x a)" for x
    by (auto simp: cArray_get_def nth_append)
qed


record RlcUmRxWindowDesc =
  firstSno :: u32
  firstSnoForReordering :: u32
  reorderingSno :: u32
  highestReceivedSno :: u32
  windowSize :: u32

definition window_clear :: "u32 \<Rightarrow> RlcUmRxWindowDesc \<Rightarrow> RlcUmRxWindowDesc" where
  "window_clear i w = w\<lparr>firstSno := i, firstSnoForReordering := i, reorderingSno := i, highestReceivedSno := i\<rparr>"

text \<open>A timer is idle or set to expire.\<close>

type_synonym TTimer = "simtime option"

definition TTimer_start :: "simtime \<Rightarrow> simtime \<Rightarrow> TTimer \<Rightarrow> TTimer" where
  "TTimer_start now t tm = (if tm \<noteq> None then tm else Some (now + t))"

definition TTimer_stop :: "TTimer \<Rightarrow> TTimer" where
  "TTimer_stop tm = None"

definition TTimer_handle :: "TTimer \<Rightarrow> TTimer" where
  "TTimer_handle tm = None"

text \<open>\<open>rx_buffered\<close> is the SDU that waits for its next part, with the bytes received so far and the number
  of the PDU that brought the last part.\<close>

record UmRxEntity =
  rx_flowControlInfo :: RlcFlowInfo
  rx_ownerNodeId :: MacNodeId
  rx_pduBuffer :: "LteRlcUmDataPdu cArray"
  rx_window :: RlcUmRxWindowDesc
  rx_t_reordering :: TTimer
  rx_timeout :: simtime
  rx_received :: "bool list"
  rx_buffered :: "(LteRlcSdu \<times> int \<times> u32) option"
  rx_lastSnoDelivered :: u32
  rx_lastPduReassembled :: u32
  rx_init :: bool
  rx_resetFlag :: bool
  rx_totalRcvdBytes :: u32
  rx_isBurst :: bool
  rx_totalBits :: u32
  rx_ttiBits :: u32
  rx_t2 :: simtime
  rx_t1 :: simtime

datatype rx_out = ToPdcp LteRlcSdu | SduLost | PduLost | AddUeThroughput MacNodeId u32 simtime

definition UmRxEntity_initialize :: "RlcFlowInfo \<Rightarrow> MacNodeId \<Rightarrow> u32 \<Rightarrow> simtime \<Rightarrow> UmRxEntity" where
  "UmRxEntity_initialize info macNodeId rxWindowSize timeout =
     \<lparr>rx_flowControlInfo = info, rx_ownerNodeId = macNodeId, rx_pduBuffer = [],
      rx_window = \<lparr>firstSno = 0, firstSnoForReordering = 0, reorderingSno = 0, highestReceivedSno = 0, windowSize = rxWindowSize\<rparr>,
      rx_t_reordering = None, rx_timeout = timeout, rx_received = replicate (unat rxWindowSize) False,
      rx_buffered = None, rx_lastSnoDelivered = 0, rx_lastPduReassembled = 0, rx_init = False, rx_resetFlag = False,
      rx_totalRcvdBytes = 0, rx_isBurst = False, rx_totalBits = 0, rx_ttiBits = 0, rx_t2 = 0, rx_t1 = 0\<rparr>"

definition UmRxEntity_isEmpty :: "UmRxEntity \<Rightarrow> bool" where
  "UmRxEntity_isEmpty rx \<longleftrightarrow> rx_buffered rx = None \<and> cArray_size (rx_pduBuffer rx) = 0"

section \<open>Reassembly\<close>

text \<open>The rounds of the loop that reports the numbers between \<open>last\<close> and \<open>sno\<close> as lost.\<close>

function lost_between :: "u32 \<Rightarrow> u32 \<Rightarrow> nat" where
  "lost_between sno prev = (if sno > prev + 1 then Suc (lost_between sno (prev + 1)) else 0)"
  by auto
termination
proof (relation "measure (\<lambda>(sno, prev). unat sno - unat (prev + 1))", goal_cases)
  case (2 sno prev)
  then show ?case using unat_succ_less [of "prev + 1" sno] by (simp add: word_less_nat_alt)
qed simp

definition toPdcp :: "LteRlcSdu \<Rightarrow> UmRxEntity \<Rightarrow> UmRxEntity \<times> rx_out list" where
  "toPdcp pkt rx =
     (let sno = snoMainPacket pkt
      in (rx\<lparr>rx_lastSnoDelivered := sno,
             rx_totalRcvdBytes := rx_totalRcvdBytes rx + word_of_int (sdu_byteLength pkt - 1)\<rparr>,
          replicate (lost_between sno (rx_lastSnoDelivered rx)) SduLost @ [ToPdcp pkt]))"

definition clearBufferedSdu :: "UmRxEntity \<Rightarrow> UmRxEntity" where
  "clearBufferedSdu rx = (case rx_buffered rx of None \<Rightarrow> rx
     | Some (_, sz, _) \<Rightarrow> rx\<lparr>rx_ttiBits := rx_ttiBits rx - word_of_int sz, rx_buffered := None\<rparr>)"

definition count_bits :: "int \<Rightarrow> UmRxEntity \<Rightarrow> UmRxEntity" where
  "count_bits n rx = rx\<lparr>rx_ttiBits := rx_ttiBits rx + word_of_int n\<rparr>"

text \<open>A whole SDU goes up; \<open>counted\<close> tells whether it enters the burst statistics.\<close>

definition whole_sdu :: "bool \<Rightarrow> LteRlcSdu \<Rightarrow> int \<Rightarrow> UmRxEntity \<Rightarrow> (UmRxEntity \<times> rx_out list) res" where
  "whole_sdu counted pkt sz rx =
     (if sz \<noteq> uint (lengthMainPacket pkt) then Inl (RuntimeError ''UmRxEntity::reassemble(): failed reassembly'')
      else (let (rx, out) = toPdcp pkt (if counted then count_bits sz rx else rx) in Inr (clearBufferedSdu rx, out)))"

definition first_part :: "LteRlcSdu \<Rightarrow> int \<Rightarrow> u32 \<Rightarrow> UmRxEntity \<Rightarrow> (UmRxEntity \<times> rx_out list) res" where
  "first_part pkt sz pduSno rx = Inr (count_bits sz (clearBufferedSdu rx)\<lparr>rx_buffered := Some (pkt, sz, pduSno)\<rparr>, [])"

text \<open>A part that continues an SDU fits if the waiting part has the same SDU number and came with the
  previous PDU.\<close>

definition awaited :: "bool \<Rightarrow> LteRlcSdu \<Rightarrow> u32 \<Rightarrow> UmRxEntity \<Rightarrow> bool" where
  "awaited ignoreFragment pkt pduSno rx \<longleftrightarrow> (case rx_buffered rx of None \<Rightarrow> False
     | Some (p, sz, currentPduSno) \<Rightarrow>
         snoMainPacket pkt = snoMainPacket p \<and> pduSno = currentPduSno + 1 \<and> \<not> ignoreFragment)"

definition last_part ::
  "bool \<Rightarrow> bool \<Rightarrow> LteRlcSdu \<Rightarrow> int \<Rightarrow> u32 \<Rightarrow> UmRxEntity \<Rightarrow> (UmRxEntity \<times> rx_out list) res" where
  "last_part only ignoreFragment pkt sz pduSno rx =
     (if \<not> awaited ignoreFragment pkt pduSno rx then Inr (clearBufferedSdu rx, [])
      else (let whole = uint (lengthMainPacket pkt);
                reassembledLength = uint (word_of_int (fst (snd (the (rx_buffered rx))) + sz) :: u32)
            in if reassembledLength < whole then Inr (clearBufferedSdu rx, [])
               else if reassembledLength > whole then Inl (RuntimeError ''UmRxEntity::reassemble(): failed reassembly'')
               else (let (rx, out) = toPdcp pkt (count_bits (if only then sz else whole) rx)
                     in Inr (clearBufferedSdu rx, out))))"

definition mid_part :: "bool \<Rightarrow> LteRlcSdu \<Rightarrow> int \<Rightarrow> u32 \<Rightarrow> UmRxEntity \<Rightarrow> (UmRxEntity \<times> rx_out list) res" where
  "mid_part ignoreFragment pkt sz pduSno rx =
     (if \<not> awaited ignoreFragment pkt pduSno rx then Inr (clearBufferedSdu rx, [])
      else (let (p, size0, _) = the (rx_buffered rx)
            in Inr (count_bits sz rx\<lparr>rx_buffered := Some (p, size0 + sz, pduSno)\<rparr>, [])))"

definition first_sdu ::
  "bool \<Rightarrow> 16 word \<Rightarrow> u32 \<Rightarrow> LteRlcSdu \<Rightarrow> int \<Rightarrow> UmRxEntity \<Rightarrow> (UmRxEntity \<times> rx_out list) res" where
  "first_sdu only fi pduSno pkt sz rx =
     (let ignoreFragment = rx_resetFlag rx;
          rx = (if rx_resetFlag rx then rx\<lparr>rx_lastSnoDelivered := snoMainPacket pkt - 1, rx_resetFlag := False\<rparr> else rx)
      in if only
         then (if fi = 0 then whole_sdu False pkt sz rx
               else if fi = 1 then first_part pkt sz pduSno rx
               else if fi = 2 then last_part True ignoreFragment pkt sz pduSno rx
               else if fi = 3 then mid_part ignoreFragment pkt sz pduSno rx
               else Inl (RuntimeError ''UmRxEntity::reassemble(): FI field was not valid''))
         else (if fi = 0 \<or> fi = 1 then whole_sdu True pkt sz rx
               else if fi = 2 \<or> fi = 3 then last_part False ignoreFragment pkt sz pduSno rx
               else Inl (RuntimeError ''UmRxEntity::reassemble(): FI field was not valid'')))"

definition last_sdu :: "16 word \<Rightarrow> u32 \<Rightarrow> LteRlcSdu \<Rightarrow> int \<Rightarrow> UmRxEntity \<Rightarrow> (UmRxEntity \<times> rx_out list) res" where
  "last_sdu fi pduSno pkt sz rx =
     (if fi = 0 \<or> fi = 2 then whole_sdu True pkt sz rx
      else if fi = 1 \<or> fi = 3 then first_part pkt sz pduSno rx
      else Inl (RuntimeError ''UmRxEntity::reassemble(): FI field was not valid''))"

text \<open>The loop over the SDUs of a PDU; \<open>first\<close> holds in its first round.\<close>

fun sdu_loop ::
  "bool \<Rightarrow> 16 word \<Rightarrow> u32 \<Rightarrow> (LteRlcSdu \<times> int) list \<Rightarrow> UmRxEntity \<Rightarrow> (UmRxEntity \<times> rx_out list) res" where
  "sdu_loop first fi pduSno [] rx = Inr (rx, [])"
| "sdu_loop first fi pduSno ((pkt, sz) # rest) rx =
     rbind (if first then first_sdu (rest = []) fi pduSno pkt sz rx
            else if rest = [] then last_sdu fi pduSno pkt sz rx
            else whole_sdu True pkt sz rx) (\<lambda>(rx, out).
     rbind (sdu_loop False fi pduSno rest rx) (\<lambda>(rx, out'). Inr (rx, out @ out')))"

text \<open>\<^verbatim>\<open>getRlcByMacNodeId\<close> finds the RLC of a node unless the node has left the simulation.\<close>

definition has_rlc :: "Binder \<Rightarrow> MacNodeId \<Rightarrow> bool" where
  "has_rlc b i \<longleftrightarrow> getOmnetId i b \<noteq> 0"

text \<open>The UE that the statistics of a packet are kept for.\<close>

definition stat_node :: "RlcFlowInfo \<Rightarrow> MacNodeId \<Rightarrow> MacNodeId" where
  "stat_node info ownerNodeId =
     (if fi_direction info = DL \<or> fi_direction info = D2D \<or> fi_direction info = D2D_MULTI
        then ownerNodeId else fi_sourceId info)"

definition reassemble :: "Binder \<Rightarrow> nat \<Rightarrow> UmRxEntity \<Rightarrow> (UmRxEntity \<times> rx_out list) res" where
  "reassemble b index rx =
     rbind (vec_at (rx_received rx) index) (\<lambda>present.
       if \<not> present then Inr (rx, [])
       else (case cArray_get index (rx_pduBuffer rx) of
           None \<Rightarrow> Inl CastError
         | Some pdu \<Rightarrow>
             let pduSno = pdu_sno pdu;
                 rx = (if rx_resetFlag rx then rx\<lparr>rx_lastPduReassembled := pduSno - 1\<rparr> else rx)
             in rbind (sdu_loop True (pdu_fi pdu) pduSno (pdu_sduList pdu) rx) (\<lambda>(rx, out).
               let rx = rx\<lparr>rx_pduBuffer := cArray_remove index (rx_pduBuffer rx), rx_received := (rx_received rx)[index := False]\<rparr>;
                   lost = replicate (lost_between pduSno (rx_lastPduReassembled rx)) PduLost
               in if has_rlc b (stat_node (pdu_info pdu) (rx_ownerNodeId rx))
                  then Inr (rx\<lparr>rx_lastPduReassembled := pduSno\<rparr>, out @ lost)
                  else Inl NullDeref)))"

fun reassemble_all :: "Binder \<Rightarrow> nat list \<Rightarrow> UmRxEntity \<Rightarrow> (UmRxEntity \<times> rx_out list) res" where
  "reassemble_all b [] rx = Inr (rx, [])"
| "reassemble_all b (i # is) rx =
     rbind (reassemble b i rx) (\<lambda>(rx, out).
     rbind (reassemble_all b is rx) (\<lambda>(rx, out'). Inr (rx, out @ out')))"

section \<open>The reception window\<close>

text \<open>One round of the loop of \<open>moveRxWindow\<close>: position \<open>i\<close> goes to \<open>i - pos\<close>.\<close>

definition move_slot :: "nat \<Rightarrow> nat \<Rightarrow> UmRxEntity \<Rightarrow> UmRxEntity res" where
  "move_slot pos i rx =
     rbind (case cArray_get i (rx_pduBuffer rx) of
         Some pdu \<Rightarrow> cArray_addAt (int (i - pos)) pdu (cArray_remove i (rx_pduBuffer rx))
       | None \<Rightarrow> Inr (cArray_remove i (rx_pduBuffer rx))) (\<lambda>buffer.
     rbind (vec_at (rx_received rx) i) (\<lambda>r.
       Inr (rx\<lparr>rx_pduBuffer := buffer, rx_received := (rx_received rx)[i - pos := r, i := False]\<rparr>)))"

fun move_slots :: "nat \<Rightarrow> nat list \<Rightarrow> UmRxEntity \<Rightarrow> UmRxEntity res" where
  "move_slots pos [] rx = Inr rx"
| "move_slots pos (i # is) rx = rbind (move_slot pos i rx) (move_slots pos is)"

definition moveRxWindow :: "int \<Rightarrow> UmRxEntity \<Rightarrow> UmRxEntity res" where
  "moveRxWindow pos rx =
     (if pos \<le> 0 then Inr rx
      else if uint (windowSize (rx_window rx)) < pos then Inl (RuntimeError ''AmRxQueue::moveRxWindow()'')
      else rbind (move_slots (nat pos) [nat pos..<unat (windowSize (rx_window rx))] rx) (\<lambda>rx.
        Inr (rx\<lparr>rx_window := (rx_window rx)\<lparr>firstSno := firstSno (rx_window rx) + word_of_int pos\<rparr>\<rparr>)))"

text \<open>
  One round of the loop that advances the window to a PDU beyond it: \<^verbatim>\<open>p\<close> positions are given up, after
  an attempt to reassemble them.
\<close>

definition advance :: "Binder \<Rightarrow> u32 \<Rightarrow> int \<Rightarrow> UmRxEntity \<Rightarrow> (UmRxEntity \<times> rx_out list) res" where
  "advance b tsn p rx =
     (let first = firstSno (rx_window rx);
          p = (if first + word_of_int p > tsn then sint (tsn - first) else p)
      in rbind (reassemble_all b [0..<nat p] rx) (\<lambda>(rx, out).
         rbind (moveRxWindow p rx) (\<lambda>rx. Inr (rx, out))))"

partial_function (option) shift_loop ::
  "Binder \<Rightarrow> u32 \<Rightarrow> int \<Rightarrow> UmRxEntity \<Rightarrow> rx_out list \<Rightarrow> (UmRxEntity \<times> rx_out list) run" where
  "shift_loop b tsn shift rx acc =
     (if shift \<le> 0 then Some (Inr (rx, acc))
      else (let w = windowSize (rx_window rx);
                p = (if word_of_int shift < w then shift else sint w)
            in (case advance b tsn p rx of
                  Inl e \<Rightarrow> Some (Inl e)
                | Inr (rx, out) \<Rightarrow> shift_loop b tsn (shift - p) rx (acc @ out))))"

text \<open>The loop \<^verbatim>\<open>while (received_.at(...) == true || cond)\<close> that moves to the first missing number;
  it ends at the highest received number.\<close>

function first_missing :: "u32 \<Rightarrow> bool list \<Rightarrow> RlcUmRxWindowDesc \<Rightarrow> RlcUmRxWindowDesc res" where
  "first_missing until received w =
     rbind (vec_at received (unat (firstSnoForReordering w - firstSno w))) (\<lambda>r.
       if r \<or> firstSnoForReordering w < until
       then (let w' = w\<lparr>firstSnoForReordering := firstSnoForReordering w + 1\<rparr>
             in if firstSnoForReordering w' = highestReceivedSno w' then Inr w' else first_missing until received w')
       else Inr w)"
  by auto

termination
proof (relation "measure (\<lambda>(until, received, w). unat (highestReceivedSno w - (firstSnoForReordering w + 1)))", goal_cases)
  case (2 until received w r w')
  let ?x = "highestReceivedSno w - (firstSnoForReordering w + 1)"
  have "?x \<noteq> 0" using 2 by simp
  then have "unat (?x - 1) < unat ?x" by (metis diff_less less_numeral_extra(1) unat_gt_0 unat_minus_one word_neq_0_conv)
  with 2(2) show ?case by (simp add: algebra_simps)
qed simp

text \<open>Moving to the first missing number, and the attempt to reassemble what lies before it.\<close>

definition reorder :: "Binder \<Rightarrow> u32 \<Rightarrow> UmRxEntity \<Rightarrow> (UmRxEntity \<times> rx_out list) res" where
  "reorder b until rx =
     (let old = firstSnoForReordering (rx_window rx)
      in rbind (first_missing until (rx_received rx) (rx_window rx)) (\<lambda>w.
         reassemble_all b [unat (old - firstSno w)..<unat (firstSnoForReordering w - firstSno w)] (rx\<lparr>rx_window := w\<rparr>)))"

text \<open>A PDU beyond the highest number moves the window.\<close>

definition extend_window :: "Binder \<Rightarrow> u32 \<Rightarrow> UmRxEntity \<Rightarrow> (UmRxEntity \<times> rx_out list) run" where
  "extend_window b tsn rx =
     (let old = highestReceivedSno (rx_window rx);
          rx = rx\<lparr>rx_window := (rx_window rx)\<lparr>highestReceivedSno := tsn + 1\<rparr>\<rparr>;
          w = rx_window rx
      in if firstSno w + windowSize w < highestReceivedSno w
         then run_bind (shift_loop b tsn (sint (highestReceivedSno w - old)) rx []) (\<lambda>(rx, out).
                let w = rx_window rx
                in Some (Inr (if firstSnoForReordering w < firstSno w
                              then rx\<lparr>rx_window := w\<lparr>firstSnoForReordering := firstSno w\<rparr>\<rparr> else rx, out)))
         else Some (Inr (rx, [])))"

definition store_pdu :: "LteRlcUmDataPdu \<Rightarrow> u32 \<Rightarrow> UmRxEntity \<Rightarrow> UmRxEntity res" where
  "store_pdu pdu tsn rx =
     (let index = sint (tsn - firstSno (rx_window rx))
      in rbind (cArray_addAt index pdu (rx_pduBuffer rx)) (\<lambda>buffer.
         if nat index < length (rx_received rx)
         then Inr (rx\<lparr>rx_pduBuffer := buffer, rx_received := (rx_received rx)[nat index := True]\<rparr>)
         else Inl OutOfRange))"

definition manage_timer :: "simtime \<Rightarrow> UmRxEntity \<Rightarrow> UmRxEntity" where
  "manage_timer now rx =
     (let w = rx_window rx;
          rx = (if rx_t_reordering rx \<noteq> None \<and>
                   (reorderingSno w \<le> firstSnoForReordering w \<or> reorderingSno w < firstSno w \<or> highestReceivedSno w < reorderingSno w)
                then rx\<lparr>rx_t_reordering := TTimer_stop (rx_t_reordering rx)\<rparr> else rx)
      in if rx_t_reordering rx = None \<and> highestReceivedSno w > firstSnoForReordering w
         then rx\<lparr>rx_t_reordering := TTimer_start now (rx_timeout rx) (rx_t_reordering rx),
                 rx_window := w\<lparr>reorderingSno := highestReceivedSno w\<rparr>\<rparr>
         else rx)"

datatype BurstCheck = ENQUE | REORDERING

text \<open>The test of \<open>handleBurst\<close> as it is parenthesised: the conditional applies to the whole sum.\<close>

definition handleBurst :: "simtime \<Rightarrow> simtime \<Rightarrow> BurstCheck \<Rightarrow> UmRxEntity \<Rightarrow> UmRxEntity \<times> rx_out list" where
  "handleBurst TTI now event rx =
     (let (rx, out) =
        (if (if cArray_size (rx_pduBuffer rx) + (if rx_buffered rx = None then 1 else 0) \<noteq> 0 then 0 else 1) = (0 :: int)
         then (if rx_isBurst rx
               then (rx\<lparr>rx_totalBits := 0, rx_t2 := 0, rx_t1 := 0, rx_isBurst := False\<rparr>,
                     if rx_t1 rx - rx_t2 rx > TTI
                     then [AddUeThroughput (fi_sourceId (rx_flowControlInfo rx)) (rx_totalBits rx) (rx_t1 rx - rx_t2 rx)]
                     else [])
               else (rx, []))
         else if rx_isBurst rx
              then (if event = ENQUE then rx\<lparr>rx_totalBits := rx_totalBits rx + rx_ttiBits rx, rx_t1 := now\<rparr> else rx, [])
              else (rx\<lparr>rx_isBurst := True, rx_totalBits := rx_ttiBits rx, rx_t2 := now, rx_t1 := now\<rparr>, []))
      in (rx\<lparr>rx_ttiBits := 0\<rparr>, out))"

text \<open>\<^verbatim>\<open>isD2DMultiConnection() && !init_\<close>: the first PDU of a multicast connection opens the window.\<close>

definition start_multicast :: "u32 \<Rightarrow> UmRxEntity \<Rightarrow> UmRxEntity" where
  "start_multicast tsn rx =
     (if \<not> rx_init rx \<and> fi_direction (rx_flowControlInfo rx) = D2D_MULTI
      then rx\<lparr>rx_window := (window_clear tsn (rx_window rx))\<lparr>windowSize := 1\<rparr>, rx_init := True\<rparr> else rx)"

text \<open>The test for a number that is already in the buffer reads the vector only inside the window.\<close>

definition already_received :: "u32 \<Rightarrow> UmRxEntity \<Rightarrow> bool res" where
  "already_received tsn rx =
     (let w = rx_window rx; index = sint (tsn - firstSno w)
      in if tsn \<ge> firstSnoForReordering w \<and> tsn < highestReceivedSno w
         then (if index < 0 then Inl OutOfRange else vec_at (rx_received rx) (nat index))
         else Inr False)"

definition deliver_in_order :: "Binder \<Rightarrow> simtime \<Rightarrow> simtime \<Rightarrow> UmRxEntity \<Rightarrow> (UmRxEntity \<times> rx_out list) res" where
  "deliver_in_order b TTI now rx =
     rbind (vec_at (rx_received rx) (unat (firstSnoForReordering (rx_window rx) - firstSno (rx_window rx)))) (\<lambda>r.
     rbind (if r then reorder b 0 rx else Inr (rx, [])) (\<lambda>(rx, out).
       let rx = manage_timer now rx;
           (rx, out') = (if fi_direction (rx_flowControlInfo rx) = UL then handleBurst TTI now ENQUE rx else (rx, []))
       in Inr (rx, out @ out')))"

definition UmRxEntity_enque ::
  "Binder \<Rightarrow> simtime \<Rightarrow> simtime \<Rightarrow> LteRlcUmDataPdu \<Rightarrow> UmRxEntity \<Rightarrow> (UmRxEntity \<times> rx_out list) run" where
  "UmRxEntity_enque b TTI now pdu rx =
     (let tsn = pdu_sno pdu; rx = start_multicast tsn rx
      in run_bind (Some (already_received tsn rx)) (\<lambda>busy.
         if busy \<or> tsn < firstSnoForReordering (rx_window rx) then Some (Inr (rx, []))
         else run_bind (if tsn \<ge> highestReceivedSno (rx_window rx) then extend_window b tsn rx else Some (Inr (rx, []))) (\<lambda>(rx, out).
              run_bind (Some (rbind (store_pdu pdu tsn rx) (deliver_in_order b TTI now))) (\<lambda>(rx, out').
                Some (Inr (rx, out @ out'))))))"

text \<open>The expiry of the reordering timer.\<close>

definition UmRxEntity_handleMessage :: "Binder \<Rightarrow> simtime \<Rightarrow> UmRxEntity \<Rightarrow> (UmRxEntity \<times> rx_out list) res" where
  "UmRxEntity_handleMessage b now rx =
     (let rx = rx\<lparr>rx_t_reordering := TTimer_handle (rx_t_reordering rx)\<rparr>
      in rbind (reorder b (reorderingSno (rx_window rx)) rx) (\<lambda>(rx, out).
           let w = rx_window rx
           in Inr (if highestReceivedSno w > firstSnoForReordering w
                   then rx\<lparr>rx_window := w\<lparr>reorderingSno := highestReceivedSno w\<rparr>,
                           rx_t_reordering := TTimer_start now (rx_timeout rx) (rx_t_reordering rx)\<rparr>
                   else rx, out)))"

definition UmRxEntity_rlcHandleD2DModeSwitch ::
  "Binder \<Rightarrow> bool \<Rightarrow> LteD2DMode \<Rightarrow> bool \<Rightarrow> UmRxEntity \<Rightarrow> (UmRxEntity \<times> rx_out list) res" where
  "UmRxEntity_rlcHandleD2DModeSwitch b oldConnection oldMode clearBuffer rx =
     (if oldConnection
      then (if getNodeTypeById (rx_ownerNodeId rx) = UE \<and> oldMode = IM then Inr (rx, [])
            else if clearBuffer
            then rbind (reassemble_all b [0..<unat (windowSize (rx_window rx))] rx) (\<lambda>(rx, out).
                   Inr ((clearBufferedSdu (rx\<lparr>rx_pduBuffer := [], rx_received := map (\<lambda>_. False) (rx_received rx)\<rparr>))
                          \<lparr>rx_t_reordering := None\<rparr>, out))
            else Inr (rx, []))
      else Inr (rx\<lparr>rx_window := window_clear 0 (rx_window rx), rx_resetFlag := True\<rparr>, []))"

section \<open>What a PDU delivers\<close>

fun to_pdcp :: "rx_out list \<Rightarrow> LteRlcSdu list" where
  "to_pdcp [] = []"
| "to_pdcp (ToPdcp s # out) = s # to_pdcp out"
| "to_pdcp (_ # out) = to_pdcp out"

lemma to_pdcp_append [simp]: "to_pdcp (xs @ ys) = to_pdcp xs @ to_pdcp ys"
  by (induction xs rule: to_pdcp.induct) simp_all

lemma to_pdcp_replicate [simp]: "to_pdcp (replicate n SduLost) = []" "to_pdcp (replicate n PduLost) = []"
  by (induction n) simp_all

text \<open>Reassembly leaves the window and the buffer alone, and the flags outside a mode switch.\<close>

definition same_window :: "UmRxEntity \<Rightarrow> UmRxEntity \<Rightarrow> bool" where
  "same_window rx rx' \<longleftrightarrow> rx_pduBuffer rx' = rx_pduBuffer rx \<and> rx_received rx' = rx_received rx \<and>
     rx_window rx' = rx_window rx \<and> rx_t_reordering rx' = rx_t_reordering rx \<and> rx_ownerNodeId rx' = rx_ownerNodeId rx \<and>
     rx_flowControlInfo rx' = rx_flowControlInfo rx \<and> rx_init rx' = rx_init rx \<and> rx_resetFlag rx' = rx_resetFlag rx"

lemma same_window_refl [simp]: "same_window rx rx"
  by (simp add: same_window_def)

lemma same_window_trans: "same_window rx rx1 \<Longrightarrow> same_window rx1 rx2 \<Longrightarrow> same_window rx rx2"
  by (simp add: same_window_def)

lemma clearBufferedSdu_window:
  "rx_buffered (clearBufferedSdu rx) = None" "same_window rx (clearBufferedSdu rx)"
  by (auto simp: clearBufferedSdu_def same_window_def split: option.splits)

lemma count_bits_window: "rx_buffered (count_bits n rx) = rx_buffered rx" "same_window rx (count_bits n rx)"
  by (simp_all add: count_bits_def same_window_def)

lemma toPdcp_window:
  assumes "toPdcp s rx = (rx', out)"
  shows "to_pdcp out = [s] \<and> rx_buffered rx' = rx_buffered rx \<and> same_window rx rx'"
  using assms by (auto simp: toPdcp_def Let_def same_window_def)

text \<open>The effect of each kind of part.\<close>

lemma whole_sdu_effect:
  assumes "0 < sdu_length s"
  obtains rx' out where "whole_sdu cnt s (sdu_length s) rx = Inr (rx', out)" "to_pdcp out = [s]"
    "rx_buffered rx' = None" "same_window rx rx'"
proof -
  let ?rx = "if cnt then count_bits (sdu_length s) rx else rx"
  obtain rx1 out where up: "toPdcp s ?rx = (rx1, out)" by fastforce
  have "same_window rx (clearBufferedSdu rx1)"
    using toPdcp_window [OF up] clearBufferedSdu_window(2) [of rx1] count_bits_window(2) same_window_trans
    by (metis (full_types))
  moreover have "whole_sdu cnt s (sdu_length s) rx = Inr (clearBufferedSdu rx1, out)"
    using assms up uint_sint_pos [of "lengthMainPacket s"] by (simp add: whole_sdu_def flip: sdu_length_def)
  ultimately show thesis using that toPdcp_window [OF up] clearBufferedSdu_window(1) by blast
qed

lemma first_part_effect:
  obtains rx' where "first_part s k n rx = Inr (rx', [])" "rx_buffered rx' = Some (s, k, n)" "same_window rx rx'"
proof
  show "first_part s k n rx = Inr (count_bits k (clearBufferedSdu rx)\<lparr>rx_buffered := Some (s, k, n)\<rparr>, [])"
    by (simp add: first_part_def)
  show "same_window rx (count_bits k (clearBufferedSdu rx)\<lparr>rx_buffered := Some (s, k, n)\<rparr>)"
    using clearBufferedSdu_window(2) [of rx] by (simp add: count_bits_def same_window_def)
qed simp

lemma unawaited_effect:
  assumes "\<not> awaited ig s n rx"
  shows "last_part only ig s k n rx = Inr (clearBufferedSdu rx, [])" "mid_part ig s k n rx = Inr (clearBufferedSdu rx, [])"
  using assms by (simp_all add: last_part_def mid_part_def)

lemma last_part_effect:
  assumes "rx_buffered rx = Some (s, m, n)" and "m + k = sdu_length s" and "0 < sdu_length s"
  obtains rx' out where "last_part only False s k (n + 1) rx = Inr (rx', out)" "to_pdcp out = [s]"
    "rx_buffered rx' = None" "same_window rx rx'"
proof -
  let ?rx = "count_bits (if only then k else uint (lengthMainPacket s)) rx"
  obtain rx1 out where up: "toPdcp s ?rx = (rx1, out)" by fastforce
  have "uint (word_of_int (m + k) :: u32) = uint (lengthMainPacket s)"
    using assms(2) by (simp add: sdu_length_def)
  then have "last_part only False s k (n + 1) rx = Inr (clearBufferedSdu rx1, out)"
    using assms up by (simp add: last_part_def awaited_def Let_def)
  moreover have "same_window rx (clearBufferedSdu rx1)"
    using toPdcp_window [OF up] clearBufferedSdu_window(2) [of rx1] count_bits_window(2) same_window_trans by blast
  ultimately show thesis using that toPdcp_window [OF up] clearBufferedSdu_window(1) by blast
qed

lemma mid_part_effect:
  assumes "rx_buffered rx = Some (s, m, n)"
  obtains rx' where "mid_part False s k (n + 1) rx = Inr (rx', [])" "rx_buffered rx' = Some (s, m + k, n + 1)"
    "same_window rx rx'"
proof
  show "mid_part False s k (n + 1) rx = Inr (count_bits k rx\<lparr>rx_buffered := Some (s, m + k, n + 1)\<rparr>, [])"
    using assms by (simp add: mid_part_def awaited_def)
qed (simp_all add: count_bits_def same_window_def)

text \<open>The chunks after the first one of a PDU: whole SDUs, and perhaps the first part of one.\<close>

definition left_over :: "carry \<Rightarrow> u32 \<Rightarrow> (LteRlcSdu \<times> int \<times> u32) option" where
  "left_over c n = (case c of None \<Rightarrow> None | Some (s, m) \<Rightarrow> Some (s, m, n))"

lemma sdu_loop_rest:
  assumes "frame None cs = Some (d, c')" and "cs \<noteq> []" and "fi = fi_of c c'"
  shows "\<exists>rx' out. sdu_loop False fi n cs rx = Inr (rx', out) \<and> to_pdcp out = d \<and> rx_buffered rx' = left_over c' n \<and>
     same_window rx rx'"
  using assms(1,2)
proof (induction cs arbitrary: d rx)
  case (Cons x cs)
  obtain s k where x: "x = (s, k)" by fastforce
  show ?case
  proof (cases "cs = []")
    case True
    have k: "0 < k" "k \<le> sdu_length s" and c': "if k = sdu_length s then d = [s] \<and> c' = None else d = [] \<and> c' = Some (s, k)"
      using Cons.prems True x by (auto simp: rest_length_def split: if_splits)
    show ?thesis
    proof (cases "k = sdu_length s")
      case whole: True
      have "fi = 0 \<or> fi = 2" using assms(3) c' whole by (simp add: fi_of_def)
      moreover obtain rx' out where "whole_sdu True s (sdu_length s) rx = Inr (rx', out)" "to_pdcp out = [s]"
        "rx_buffered rx' = None" "same_window rx rx'" using whole_sdu_effect k whole by metis
      ultimately show ?thesis using x True whole c' by (auto simp: last_sdu_def left_over_def)
    next
      case part: False
      have "fi = 1 \<or> fi = 3" using assms(3) c' part by (simp add: fi_of_def)
      moreover obtain rx' where "first_part s k n rx = Inr (rx', [])" "rx_buffered rx' = Some (s, k, n)" "same_window rx rx'"
        by (rule first_part_effect)
      ultimately show ?thesis using x True part c' by (auto simp: last_sdu_def left_over_def)
    qed
  next
    case False
    then obtain d' where rest: "frame None cs = Some (d', c')" "d = s # d'" and k: "k = sdu_length s" "0 < k"
      using Cons.prems x by (auto simp: rest_length_def split: if_splits option.splits)
    obtain rx1 out where 1: "whole_sdu True s (sdu_length s) rx = Inr (rx1, out)" "to_pdcp out = [s]" "same_window rx rx1"
      using whole_sdu_effect k by metis
    from Cons.IH [OF rest(1) False, of rx1] 1 x k rest(2) False show ?thesis
      by (auto intro: same_window_trans)
  qed
qed simp

definition carry_ok :: "carry \<Rightarrow> bool" where
  "carry_ok c \<longleftrightarrow> (case c of None \<Rightarrow> True | Some (s, m) \<Rightarrow> 0 < m \<and> m < sdu_length s)"

lemma frame_carry_ok: "frame c cs = Some (d, c') \<Longrightarrow> carry_ok c \<Longrightarrow> carry_ok c'"
  by (induction c cs arbitrary: d rule: frame.induct)
     (auto simp: carry_ok_def rest_length_def split: if_splits option.splits)

text \<open>The receiver is in step with a carry if it holds exactly that part, brought by the previous PDU.\<close>

definition in_step :: "carry \<Rightarrow> u32 \<Rightarrow> UmRxEntity \<Rightarrow> bool" where
  "in_step c n rx \<longleftrightarrow> (case c of None \<Rightarrow> True | Some (s, m) \<Rightarrow> rx_buffered rx = Some (s, m, n - 1))"

lemma first_sdu_in_step:
  assumes fr: "frame c ((s, k) # cs) = Some (d, c')" and fi: "fi = fi_of c c'" and c: "carry_ok c"
    and st: "in_step c n rx" and rf: "\<not> rx_resetFlag rx"
  shows "\<exists>rx' out. first_sdu (cs = []) fi n s k rx = Inr (rx', out) \<and> same_window rx rx' \<and>
     (if k = rest_length c s then to_pdcp out = [s] \<and> rx_buffered rx' = None
      else to_pdcp out = [] \<and> rx_buffered rx' = left_over c' n)"
proof (cases c)
  case None
  have k: "0 < k" "k \<le> sdu_length s" using fr None by (auto simp: rest_length_def split: if_splits)
  show ?thesis
  proof (cases "k = sdu_length s")
    case True
    have "fi = 0 \<or> fi = 1" "cs = [] \<Longrightarrow> fi = 0" using fi fr None True by (auto simp: fi_of_def rest_length_def split: if_splits)
    then show ?thesis
      using whole_sdu_effect [of s "cs \<noteq> []" rx] k True None rf
      by (auto simp: first_sdu_def rest_length_def) metis+
  next
    case False
    then have "cs = []" "c' = Some (s, k)" using fr None by (auto simp: rest_length_def split: if_splits)
    moreover from this have "fi = 1" using fi None by (simp add: fi_of_def)
    ultimately show ?thesis
      using first_part_effect [of s k n rx] False None rf
      by (auto simp: first_sdu_def rest_length_def left_over_def) (metis to_pdcp.simps(1))
  qed
next
  case (Some sm)
  then obtain m where cm: "c = Some (s, m)" and k: "0 < k" "k \<le> sdu_length s - m"
    using fr by (cases sm) (auto simp: rest_length_def split: if_splits)
  have buf: "rx_buffered rx = Some (s, m, n - 1)" using st cm by (simp add: in_step_def)
  have len: "0 < sdu_length s" using c cm by (simp add: carry_ok_def)
  show ?thesis
  proof (cases "m + k = sdu_length s")
    case True
    have "fi = 2 \<or> fi = 3" "cs = [] \<Longrightarrow> fi = 2" using fi fr cm True by (auto simp: fi_of_def rest_length_def split: if_splits)
    then show ?thesis
      using last_part_effect [OF buf True len, of "cs = []"] True cm rf
      by (auto simp: first_sdu_def rest_length_def) metis+
  next
    case False
    then have "cs = []" "c' = Some (s, m + k)" using fr cm by (auto simp: rest_length_def split: if_splits)
    moreover from this have "fi = 3" using fi cm by (simp add: fi_of_def)
    ultimately show ?thesis
      using mid_part_effect [OF buf, of k] False cm rf
      by (auto simp: first_sdu_def rest_length_def left_over_def) (metis to_pdcp.simps(1))
  qed
qed

text \<open>A receiver in step gets exactly the SDUs that the PDU completes, and stays in step.\<close>

lemma sdu_loop_in_step:
  assumes "frame c cs = Some (d, c')" and "cs \<noteq> []" and "fi = fi_of c c'" and "carry_ok c"
    and "in_step c n rx" and "\<not> rx_resetFlag rx"
  shows "\<exists>rx' out. sdu_loop True fi n cs rx = Inr (rx', out) \<and> to_pdcp out = d \<and> rx_buffered rx' = left_over c' n \<and>
     same_window rx rx'"
proof -
  obtain s k cs' where cs: "cs = (s, k) # cs'" using assms(2) by (cases cs) auto
  from first_sdu_in_step [OF assms(1) [unfolded cs] assms(3-6)] obtain rx1 out where
    1: "first_sdu (cs' = []) fi n s k rx = Inr (rx1, out)" "same_window rx rx1"
      "if k = rest_length c s then to_pdcp out = [s] \<and> rx_buffered rx1 = None
       else to_pdcp out = [] \<and> rx_buffered rx1 = left_over c' n" by blast
  show ?thesis
  proof (cases "cs' = []")
    case True
    then show ?thesis using 1 assms(1) cs by (auto simp: left_over_def split: if_splits)
  next
    case False
    then obtain d' where d': "frame None cs' = Some (d', c')" "d = s # d'" "k = rest_length c s"
      using assms(1) cs by (auto split: if_splits option.splits)
    from sdu_loop_rest [OF this(1) False assms(3), of n rx1] d' 1 cs False show ?thesis
      by (auto intro: same_window_trans)
  qed
qed

text \<open>A receiver that missed the previous PDU drops the part it cannot use and is in step afterwards, or
  waits for nothing.\<close>

lemma sdu_loop_out_of_step:
  assumes "frame c cs = Some (d, c')" and "cs \<noteq> []" and "fi = fi_of c c'" and "c \<noteq> None"
    and "\<forall>p m j. rx_buffered rx = Some (p, m, j) \<longrightarrow> n \<noteq> j + 1" and "\<not> rx_resetFlag rx"
  shows "\<exists>rx' out. sdu_loop True fi n cs rx = Inr (rx', out) \<and> subseq (to_pdcp out) d \<and>
     (rx_buffered rx' = None \<or> rx_buffered rx' = left_over c' n) \<and> same_window rx rx'"
proof -
  obtain s k cs' where cs: "cs = (s, k) # cs'" using assms(2) by (cases cs) auto
  have "\<not> awaited False s n rx" using assms(5) by (auto simp: awaited_def split: option.splits)
  moreover have "fi = 2 \<or> fi = 3" using assms(3,4) by (auto simp: fi_of_def)
  ultimately have 1: "first_sdu (cs' = []) fi n s k rx = Inr (clearBufferedSdu rx, [])"
    using unawaited_effect assms(6) by (auto simp: first_sdu_def)
  show ?thesis
  proof (cases "cs' = []")
    case True
    then show ?thesis using 1 cs clearBufferedSdu_window by auto
  next
    case False
    then obtain d' where d': "frame None cs' = Some (d', c')" "d = s # d'"
      using assms(1) cs by (auto split: if_splits option.splits)
    from sdu_loop_rest [OF this(1) False assms(3), of n "clearBufferedSdu rx"] d'(2) 1 cs show ?thesis
      using same_window_trans [OF clearBufferedSdu_window(2)] by (auto intro: list_emb_Cons)
  qed
qed

section \<open>A stream of PDUs\<close>

text \<open>The carry before the PDU \<open>k\<close> of a stream, and the SDUs that it completes.\<close>

fun carry_after :: "carry \<Rightarrow> LteRlcUmDataPdu list \<Rightarrow> carry" where
  "carry_after c [] = c"
| "carry_after c (p # ps) = carry_after (case frame c (pdu_sduList p) of None \<Rightarrow> None | Some (_, c') \<Rightarrow> c') ps"

abbreviation carry_at :: "LteRlcUmDataPdu list \<Rightarrow> nat \<Rightarrow> carry" where
  "carry_at P k \<equiv> carry_after None (take k P)"

lemma framed_nth:
  assumes "framed c n P = Some (ds, c'')" and "k < length P"
  shows "frame (carry_after c (take k P)) (pdu_sduList (P ! k)) = Some (ds ! k, carry_after c (take (Suc k) P))"
    and "pdu_sduList (P ! k) \<noteq> []" and "pdu_sno (P ! k) = of_nat (n + k)"
    and "pdu_fi (P ! k) = fi_of (carry_after c (take k P)) (carry_after c (take (Suc k) P))"
proof -
  have "frame (carry_after c (take k P)) (pdu_sduList (P ! k)) = Some (ds ! k, carry_after c (take (Suc k) P)) \<and>
    pdu_sduList (P ! k) \<noteq> [] \<and> pdu_sno (P ! k) = of_nat (n + k) \<and>
    pdu_fi (P ! k) = fi_of (carry_after c (take k P)) (carry_after c (take (Suc k) P))"
    using assms
  proof (induction P arbitrary: c n ds k)
    case (Cons p P)
    then obtain d c1 ds' where "frame c (pdu_sduList p) = Some (d, c1)" "pdu_sduList p \<noteq> []" "pdu_sno p = of_nat n"
        "pdu_fi p = fi_of c c1" "framed c1 (Suc n) P = Some (ds', c'')" "ds = d # ds'"
      by (auto split: option.splits if_splits)
    with Cons.IH [of c1 "Suc n" ds' "k - 1"] Cons.prems(2) show ?case by (cases k) auto
  qed simp
  then show "frame (carry_after c (take k P)) (pdu_sduList (P ! k)) = Some (ds ! k, carry_after c (take (Suc k) P))"
    and "pdu_sduList (P ! k) \<noteq> []" and "pdu_sno (P ! k) = of_nat (n + k)"
    and "pdu_fi (P ! k) = fi_of (carry_after c (take k P)) (carry_after c (take (Suc k) P))" by simp_all
qed

lemma carry_at_ok:
  assumes "framed None 0 P = Some (ds, c'')" and "k \<le> length P"
  shows "carry_ok (carry_at P k)"
  using assms(2)
proof (induction k)
  case (Suc k)
  then show ?case using framed_nth(1) [OF assms(1), of k] frame_carry_ok by (metis Suc_le_eq less_imp_le)
qed (simp add: carry_ok_def)

text \<open>
  The state of the reassembly when all PDUs processed so far have numbers below \<open>n\<close>: what waits is the
  carry after the PDU that brought it.
\<close>

definition reasm_ok :: "LteRlcUmDataPdu list \<Rightarrow> nat \<Rightarrow> UmRxEntity \<Rightarrow> bool" where
  "reasm_ok P n rx \<longleftrightarrow> \<not> rx_resetFlag rx \<and> (case rx_buffered rx of None \<Rightarrow> True
     | Some (s, m, j) \<Rightarrow> unat j < n \<and> carry_at P (Suc (unat j)) = Some (s, m))"

lemma reasm_ok_mono: "reasm_ok P n rx \<Longrightarrow> n \<le> n' \<Longrightarrow> reasm_ok P n' rx"
  by (auto simp: reasm_ok_def split: option.splits)

lemma reasm_ok_window: "same_window rx rx' \<Longrightarrow> \<not> rx_resetFlag rx \<Longrightarrow> \<not> rx_resetFlag rx'"
  by (simp add: same_window_def)

lemma unat_of_nat_small: "k < 2 ^ 31 \<Longrightarrow> unat (of_nat k :: u32) = k"
  by (simp add: unat_of_nat)

lemma reasm_ok_left_over:
  assumes "rx_buffered rx = None \<or> rx_buffered rx = left_over (carry_at P (Suc k)) (of_nat k)" and "k < 2 ^ 31"
    and "\<not> rx_resetFlag rx"
  shows "reasm_ok P (Suc k) rx"
  using assms by (auto simp: reasm_ok_def left_over_def unat_of_nat_small split: option.splits)

lemma sdu_loop_stream:
  assumes fr: "framed None 0 P = Some (ds, c'')" and k: "k < length P" "length P < 2 ^ 31" and ok: "reasm_ok P k rx"
  shows "\<exists>rx' out. sdu_loop True (pdu_fi (P ! k)) (pdu_sno (P ! k)) (pdu_sduList (P ! k)) rx = Inr (rx', out) \<and>
     subseq (to_pdcp out) (ds ! k) \<and> reasm_ok P (Suc k) rx' \<and> same_window rx rx' \<and>
     (in_step (carry_at P k) (of_nat k) rx \<longrightarrow>
       to_pdcp out = ds ! k \<and> in_step (carry_at P (Suc k)) (of_nat (Suc k)) rx')"
proof -
  note nth = framed_nth [OF fr k(1), simplified]
  have rf: "\<not> rx_resetFlag rx" and small: "k < 2 ^ 31" using ok k by (simp_all add: reasm_ok_def)
  show ?thesis
  proof (cases "in_step (carry_at P k) (of_nat k) rx")
    case True
    from sdu_loop_in_step [OF nth(1,2,4) carry_at_ok [OF fr] True rf] k obtain rx' out where
      "sdu_loop True (pdu_fi (P ! k)) (of_nat k) (pdu_sduList (P ! k)) rx = Inr (rx', out)" "to_pdcp out = ds ! k"
        "rx_buffered rx' = left_over (carry_at P (Suc k)) (of_nat k)" "same_window rx rx'" by auto
    moreover from this have "in_step (carry_at P (Suc k)) (of_nat (Suc k)) rx'"
      by (simp add: in_step_def left_over_def split: option.splits)
    ultimately show ?thesis using nth(3) reasm_ok_left_over [where rx = rx' and P = P and k = k] small rf reasm_ok_window by auto
  next
    case False
    have out: "of_nat k \<noteq> j + 1" if buf: "rx_buffered rx = Some (p, m, j)" for p m j
    proof
      assume eq: "of_nat k = j + 1"
      from ok buf have j: "unat j < k" "carry_at P (Suc (unat j)) = Some (p, m)" by (simp_all add: reasm_ok_def)
      from j(1) have "j < of_nat k" using small by (simp add: word_less_nat_alt unat_of_nat_small)
      then have "Suc (unat j) = k" using unat_succ_less [of j "of_nat k"] small eq unat_of_nat_small [of k] by simp
      with j(2) buf eq False show False by (simp add: in_step_def)
    qed
    have "carry_at P k \<noteq> None" using False by (cases "carry_at P k") (auto simp: in_step_def)
    have all: "\<forall>p m j. rx_buffered rx = Some (p, m, j) \<longrightarrow> of_nat k \<noteq> j + 1" using out by blast
    from sdu_loop_out_of_step [OF nth(1,2,4) \<open>carry_at P k \<noteq> None\<close> all rf] obtain rx' up where
      "sdu_loop True (pdu_fi (P ! k)) (of_nat k) (pdu_sduList (P ! k)) rx = Inr (rx', up)" "subseq (to_pdcp up) (ds ! k)"
        "rx_buffered rx' = None \<or> rx_buffered rx' = left_over (carry_at P (Suc k)) (of_nat k)" "same_window rx rx'" by auto
    then show ?thesis using nth(3) reasm_ok_left_over [where rx = rx' and P = P and k = k] small rf reasm_ok_window False by auto
  qed
qed

end
