(* ===== verification/Rlc_Um_Link.thy ===== *)
theory Rlc_Um_Link
  imports Rlc_Um_Rx
begin

text \<open>
  A sender and a receiver of RLC UM over a link that loses, duplicates and reorders PDUs.  The locale
  \<open>um_stream\<close> is the interface between the two entities: the PDUs of a run of the sender, numbered and
  framed, and a receiver whose statistics find their nodes.  Its lemmas show that the window of the
  receiver processes the PDUs in increasing order and never fails; the properties at the end combine them
  with the runs of the sender.
\<close>

section \<open>Arrays and windows\<close>

abbreviation winF :: "UmRxEntity \<Rightarrow> nat" where "winF rx \<equiv> unat (firstSno (rx_window rx))"
abbreviation winR :: "UmRxEntity \<Rightarrow> nat" where "winR rx \<equiv> unat (firstSnoForReordering (rx_window rx))"
abbreviation winX :: "UmRxEntity \<Rightarrow> nat" where "winX rx \<equiv> unat (reorderingSno (rx_window rx))"
abbreviation winH :: "UmRxEntity \<Rightarrow> nat" where "winH rx \<equiv> unat (highestReceivedSno (rx_window rx))"
abbreviation winW :: "UmRxEntity \<Rightarrow> nat" where "winW rx \<equiv> unat (windowSize (rx_window rx))"

text \<open>The PDU with number \<open>k\<close> is in the buffer.\<close>

definition present :: "UmRxEntity \<Rightarrow> nat \<Rightarrow> bool" where
  "present rx k \<longleftrightarrow> winF rx \<le> k \<and> k - winF rx < length (rx_received rx) \<and> rx_received rx ! (k - winF rx)"

text \<open>The SDUs that the PDUs \<open>n\<close> to \<open>n'\<close> of a stream complete.\<close>

definition seg :: "LteRlcSdu list list \<Rightarrow> nat \<Rightarrow> nat \<Rightarrow> LteRlcSdu list" where
  "seg ds n n' = concat (take (n' - n) (drop n ds))"

lemma seg_refl [simp]: "seg ds n n = []"
  by (simp add: seg_def)

lemma seg_append: "n \<le> n' \<Longrightarrow> n' \<le> n'' \<Longrightarrow> seg ds n n' @ seg ds n' n'' = seg ds n n''"
proof -
  assume "n \<le> n'" "n' \<le> n''"
  then have "take (n'' - n) (drop n ds) = take (n' - n) (drop n ds) @ take (n'' - n') (drop (n' - n) (drop n ds))"
    using take_add [of "n' - n" "n'' - n'" "drop n ds"] by simp
  then show ?thesis using \<open>n \<le> n'\<close> by (simp add: seg_def)
qed

lemma seg_Suc: "n < length ds \<Longrightarrow> seg ds n (Suc n) = ds ! n"
  by (simp add: seg_def Cons_nth_drop_Suc [symmetric])

lemma seg_all: "seg ds 0 (length ds) = concat ds"
  by (simp add: seg_def)

lemma seg_prefix: "prefix (seg ds 0 n) (concat ds)"
  by (metis append_take_drop_id concat_append drop0 minus_nat.diff_0 prefixI seg_def)

text \<open>
  The buffer when every PDU below \<open>n\<close> has been processed: a position is marked iff it holds its PDU, and
  what is held has a number of at least \<open>n\<close>.
\<close>

definition buf_ok :: "LteRlcUmDataPdu list \<Rightarrow> nat \<Rightarrow> UmRxEntity \<Rightarrow> bool" where
  "buf_ok P n rx \<longleftrightarrow> 0 < winW rx \<and> winW rx \<le> length (rx_received rx) \<and> length (rx_received rx) < 2 ^ 31 \<and>
     winF rx < 2 ^ 31 \<and> reasm_ok P n rx \<and>
     (\<forall>i. cArray_get i (rx_pduBuffer rx) =
        (if i < length (rx_received rx) \<and> rx_received rx ! i then Some (P ! (winF rx + i)) else None)) \<and>
     (\<forall>i < length (rx_received rx). rx_received rx ! i \<longrightarrow> i < winW rx \<and> n \<le> winF rx + i \<and> winF rx + i < length P)"

text \<open>What the handlers leave alone while they reassemble.\<close>

definition same_entity :: "UmRxEntity \<Rightarrow> UmRxEntity \<Rightarrow> bool" where
  "same_entity rx rx' \<longleftrightarrow> rx_ownerNodeId rx' = rx_ownerNodeId rx \<and>
     rx_flowControlInfo rx' = rx_flowControlInfo rx \<and> (rx_init rx \<longrightarrow> rx_init rx') \<and>
     (rx_init rx \<or> fi_direction (rx_flowControlInfo rx) \<noteq> D2D_MULTI \<longrightarrow>
        windowSize (rx_window rx') = windowSize (rx_window rx)) \<and>
     length (rx_received rx') = length (rx_received rx)"

lemma same_entity_refl [simp]: "same_entity rx rx"
  by (simp add: same_entity_def)

lemma same_entity_trans: "same_entity rx rx1 \<Longrightarrow> same_entity rx1 rx2 \<Longrightarrow> same_entity rx rx2"
  by (simp add: same_entity_def)

text \<open>Processing the PDUs from \<open>n\<close> up to \<open>n'\<close>: what goes up is a subsequence of what they complete, and all of it
  if none of them is missing.\<close>

definition consumed ::
  "LteRlcUmDataPdu list \<Rightarrow> LteRlcSdu list list \<Rightarrow> nat \<Rightarrow> UmRxEntity \<Rightarrow> nat \<Rightarrow> UmRxEntity \<Rightarrow> rx_out list \<Rightarrow> bool" where
  "consumed P ds n rx n' rx' out \<longleftrightarrow> n \<le> n' \<and> buf_ok P n' rx' \<and> same_entity rx rx' \<and> subseq (to_pdcp out) (seg ds n n') \<and>
     (\<forall>k. present rx' k \<longleftrightarrow> present rx k \<and> n' \<le> k) \<and>
     (in_step (carry_at P n) (of_nat n) rx \<and> (\<forall>k. n \<le> k \<and> k < n' \<longrightarrow> present rx k) \<longrightarrow>
        to_pdcp out = seg ds n n' \<and> in_step (carry_at P n') (of_nat n') rx')"

lemma present_buf_ok: "buf_ok P n rx \<Longrightarrow> present rx k \<Longrightarrow> n \<le> k \<and> k < length P \<and> k < winF rx + winW rx"
  by (fastforce simp: buf_ok_def present_def)

lemma consumed_refl: "buf_ok P n rx \<Longrightarrow> consumed P ds n rx n rx []"
  using present_buf_ok by (auto simp: consumed_def)

lemma consumed_trans:
  assumes "consumed P ds n rx n1 rx1 out1" and "consumed P ds n1 rx1 n2 rx2 out2"
  shows "consumed P ds n rx n2 rx2 (out1 @ out2)"
proof -
  have "subseq (to_pdcp (out1 @ out2)) (seg ds n n2)"
    using assms seg_append [of n n1 n2 ds, symmetric] by (simp add: consumed_def list_emb_append_mono)
  then show ?thesis
    using assms seg_append [of n n1 n2 ds] same_entity_trans by (auto simp: consumed_def)
qed

section \<open>The receiver on a framed stream\<close>

locale um_stream =
  fixes b :: Binder
    and P :: "LteRlcUmDataPdu list"
    and ds :: "LteRlcSdu list list"
    and c :: carry
    and owner :: MacNodeId
  assumes framed_stream: "framed None 0 P = Some (ds, c)"
    and short_stream: "length P < 2 ^ 31"
    and nodes_known: "\<And>p. p \<in> set P \<Longrightarrow> has_rlc b (stat_node (pdu_info p) owner)"
begin

lemma length_ds: "length ds = length P"
  using framed_length [OF framed_stream] .

text \<open>An attempt at a position that is not ahead of the processed PDUs.\<close>

lemma reassemble_consumes:
  assumes ok: "buf_ok P n rx" and i: "winF rx + i \<le> n" "i < winW rx" and own: "rx_ownerNodeId rx = owner"
  shows "\<exists>rx' out. reassemble b i rx = Inr (rx', out) \<and> rx_window rx' = rx_window rx \<and> rx_t_reordering rx' = rx_t_reordering rx \<and>
    
     consumed P ds n rx (max n (Suc (winF rx + i))) rx' out"
proof (cases "rx_received rx ! i")
  case False
  have len: "i < length (rx_received rx)" using ok i by (simp add: buf_ok_def)
  with False have "reassemble b i rx = Inr (rx, [])" by (simp add: reassemble_def vec_at_def)
  moreover have "consumed P ds n rx (max n (Suc (winF rx + i))) rx []"
  proof -
    let ?n = "max n (Suc (winF rx + i))"
    have not: "\<not> present rx (winF rx + i)" using False by (simp add: present_def)
    have "buf_ok P ?n rx"
      unfolding buf_ok_def
    proof (intro conjI allI impI)
      fix j assume "j < length (rx_received rx)" "rx_received rx ! j"
      then show "?n \<le> winF rx + j"
        using ok i False by (cases "j = i") (auto simp: buf_ok_def)
    qed (use ok reasm_ok_mono [of P n rx ?n] in \<open>auto simp: buf_ok_def\<close>)
    moreover have "present rx k \<longleftrightarrow> present rx k \<and> ?n \<le> k" for k
      using present_buf_ok [OF \<open>buf_ok P ?n rx\<close>] by blast
    moreover have "in_step (carry_at P n) (of_nat n) rx \<and> (\<forall>k. n \<le> k \<and> k < ?n \<longrightarrow> present rx k) \<longrightarrow> ?n = n"
      using not by (auto dest!: spec [of _ "winF rx + i"] simp: max_def)
    ultimately show ?thesis by (auto simp: consumed_def)
  qed
  ultimately show ?thesis by blast
next
  case True
  have len: "i < length (rx_received rx)" using ok i by (simp add: buf_ok_def)
  have "n \<le> winF rx + i \<and> winF rx + i < length P" using ok True len by (simp add: buf_ok_def)
  with i(1) have n: "n = winF rx + i" and lt: "n < length P" by simp_all
  have get: "cArray_get i (rx_pduBuffer rx) = Some (P ! n)" using ok True len n by (simp add: buf_ok_def)
  have reasm: "reasm_ok P n rx" and rf: "\<not> rx_resetFlag rx" using ok by (simp_all add: buf_ok_def reasm_ok_def)
  from sdu_loop_stream [OF framed_stream lt short_stream reasm] obtain rx1 out where
    loop: "sdu_loop True (pdu_fi (P ! n)) (pdu_sno (P ! n)) (pdu_sduList (P ! n)) rx = Inr (rx1, out)"
      "subseq (to_pdcp out) (ds ! n)" "reasm_ok P (Suc n) rx1" "same_window rx rx1"
      "in_step (carry_at P n) (of_nat n) rx \<longrightarrow>
         to_pdcp out = ds ! n \<and> in_step (carry_at P (Suc n)) (of_nat (Suc n)) rx1" by blast
  let ?rx = "rx1\<lparr>rx_pduBuffer := cArray_remove i (rx_pduBuffer rx1), rx_received := (rx_received rx1)[i := False],
     rx_lastPduReassembled := pdu_sno (P ! n)\<rparr>"
  let ?out = "out @ replicate (lost_between (pdu_sno (P ! n)) (rx_lastPduReassembled rx1)) PduLost"
  note same = loop(4) [unfolded same_window_def]
  have "has_rlc b (stat_node (pdu_info (P ! n)) (rx_ownerNodeId rx1))" using nodes_known own same lt by simp
  then have "reassemble b i rx = Inr (?rx, ?out)"
    using len True get rf loop(1) by (simp add: reassemble_def vec_at_def Let_def)
  moreover have "rx_window ?rx = rx_window rx" "rx_t_reordering ?rx = rx_t_reordering rx" using same by simp_all
  moreover have "consumed P ds n rx (max n (Suc (winF rx + i))) ?rx ?out"
  proof -
    have buf: "buf_ok P (Suc n) ?rx"
      unfolding buf_ok_def
    proof (intro conjI allI impI)
      show "reasm_ok P (Suc n) ?rx" using loop(3) by (simp add: reasm_ok_def)
      fix j assume "j < length (rx_received ?rx)" "rx_received ?rx ! j"
      then have "j \<noteq> i" "j < length (rx_received rx)" "rx_received rx ! j"
        using same len by (cases "j = i", auto)+
      then show "Suc n \<le> winF ?rx + j" "j < winW ?rx" "winF ?rx + j < length P"
        using ok same n by (fastforce simp: buf_ok_def)+
    qed (use ok same in \<open>auto simp: buf_ok_def nth_list_update\<close>)
    moreover have "present ?rx k \<longleftrightarrow> present rx k \<and> Suc n \<le> k" for k
      using same n present_buf_ok [OF ok, of k] len by (auto simp: present_def nth_list_update)
    moreover have "seg ds n (Suc n) = ds ! n" using lt length_ds by (simp add: seg_Suc)
    moreover have "max n (Suc (winF rx + i)) = Suc n" using n by simp
    moreover have "same_entity rx ?rx" using same by (simp add: same_entity_def)
    moreover have "in_step (carry_at P (Suc n)) (of_nat (Suc n)) ?rx = in_step (carry_at P (Suc n)) (of_nat (Suc n)) rx1"
      by (simp add: in_step_def split: option.splits)
    ultimately show ?thesis using loop(2,5) by (simp add: consumed_def)
  qed
  ultimately show ?thesis by blast
qed

text \<open>An ascending range of positions.\<close>

lemma reassemble_range_consumes:
  assumes "buf_ok P n rx" and "winF rx + a \<le> n" and "a \<le> e" "e \<le> winW rx" and "rx_ownerNodeId rx = owner"
  shows "\<exists>rx' out. reassemble_all b [a..<e] rx = Inr (rx', out) \<and> rx_window rx' = rx_window rx \<and> rx_t_reordering rx' = rx_t_reordering rx \<and>
    
     consumed P ds n rx (max n (winF rx + e)) rx' out"
  using assms
proof (induction "e - a" arbitrary: a n rx)
  case 0
  then show ?case using consumed_refl [of P n rx ds] by (simp add: max_def)
next
  case (Suc d)
  then have ae: "[a..<e] = a # [Suc a..<e]" and lt: "a < winW rx" by (simp_all add: upt_conv_Cons)
  from reassemble_consumes [OF Suc.prems(1,2) lt Suc.prems(5)] obtain rx1 out1 where
    1: "reassemble b a rx = Inr (rx1, out1)" "rx_window rx1 = rx_window rx" "rx_t_reordering rx1 = rx_t_reordering rx"
      "consumed P ds n rx (max n (Suc (winF rx + a))) rx1 out1" by blast
  have "buf_ok P (max n (Suc (winF rx + a))) rx1" "rx_ownerNodeId rx1 = owner"
    using 1(4) Suc.prems(5) by (simp_all add: consumed_def same_entity_def)
  moreover have "d = e - Suc a" "Suc a \<le> e" using Suc.hyps(2) by simp_all
  ultimately obtain rx2 out2 where
    2: "reassemble_all b [Suc a..<e] rx1 = Inr (rx2, out2)" "rx_window rx2 = rx_window rx" "rx_t_reordering rx2 = rx_t_reordering rx"
      "consumed P ds (max n (Suc (winF rx + a))) rx1 (max (max n (Suc (winF rx + a))) (winF rx + e)) rx2 out2"
    using Suc.hyps(1) [of "Suc a" "max n (Suc (winF rx + a))" rx1] Suc.prems(4) 1(2,3) by auto
  have "max (max n (Suc (winF rx + a))) (winF rx + e) = max n (winF rx + e)" using Suc.hyps(2) by simp
  with consumed_trans [OF 1(4) 2(4)] 1(1) 2(1-3) ae show ?case by auto
qed

end

section \<open>Moving the window\<close>

text \<open>Positions from \<open>j\<close> on move down by \<open>pos\<close>.\<close>

definition moved :: "nat \<Rightarrow> nat \<Rightarrow> nat \<Rightarrow> 'a \<Rightarrow> (nat \<Rightarrow> 'a) \<Rightarrow> nat \<Rightarrow> 'a" where
  "moved pos j W d f x = (if x + pos < j then f x else if x + pos < W then f (x + pos) else if x < W then d else f x)"

lemma moved_step:
  assumes "0 < pos" and "pos \<le> j" and "j < W" and "f1 = (\<lambda>x. if x = j then d else if x = j - pos then f j else f x)"
  shows "moved pos (Suc j) W d f1 = moved pos j W d f"
  using assms by (auto simp: moved_def fun_eq_iff)

definition recv :: "UmRxEntity \<Rightarrow> nat \<Rightarrow> bool" where
  "recv rx x \<longleftrightarrow> x < length (rx_received rx) \<and> rx_received rx ! x"

lemma move_slots_effect:
  assumes "0 < pos" and "pos \<le> j" and "j \<le> W" and "W \<le> length (rx_received rx)"
    and "\<forall>x. x < j \<and> j \<le> x + pos \<longrightarrow> \<not> recv rx x \<and> cArray_get x (rx_pduBuffer rx) = None"
  shows "\<exists>rx'. move_slots pos [j..<W] rx = Inr rx' \<and>
     rx' = rx\<lparr>rx_pduBuffer := rx_pduBuffer rx', rx_received := rx_received rx'\<rparr> \<and>
     length (rx_received rx') = length (rx_received rx) \<and> recv rx' = moved pos j W False (recv rx) \<and>
     (\<lambda>x. cArray_get x (rx_pduBuffer rx')) = moved pos j W None (\<lambda>x. cArray_get x (rx_pduBuffer rx))"
  using assms
proof (induction "W - j" arbitrary: j rx)
  case 0
  then have "moved pos j W False (recv rx) = recv rx"
      "moved pos j W None (\<lambda>x. cArray_get x (rx_pduBuffer rx)) = (\<lambda>x. cArray_get x (rx_pduBuffer rx))"
    by (auto simp: moved_def fun_eq_iff)
  with 0 show ?case by simp
next
  case (Suc d)
  then have js: "[j..<W] = j # [Suc j..<W]" and lt: "j < W" "j < length (rx_received rx)" by (simp_all add: upt_conv_Cons)
  have free: "cArray_get (j - pos) (cArray_remove j (rx_pduBuffer rx)) = None" using Suc.prems by simp
  obtain a where a: "(case cArray_get j (rx_pduBuffer rx) of
         Some pdu \<Rightarrow> cArray_addAt (int (j - pos)) pdu (cArray_remove j (rx_pduBuffer rx))
       | None \<Rightarrow> Inr (cArray_remove j (rx_pduBuffer rx))) = Inr a"
    "(\<lambda>x. cArray_get x a) = (\<lambda>x. if x = j then None else if x = j - pos then cArray_get j (rx_pduBuffer rx)
                                 else cArray_get x (rx_pduBuffer rx))"
  proof (cases "cArray_get j (rx_pduBuffer rx)")
    case None
    then show thesis using that Suc.prems free by (auto simp: fun_eq_iff)
  next
    case (Some pdu)
    with free that show thesis using Suc.prems(1,2) by (auto simp: fun_eq_iff intro: cArray_addAt_free [OF free, of pdu])
  qed
  let ?rx = "rx\<lparr>rx_pduBuffer := a, rx_received := (rx_received rx)[j - pos := rx_received rx ! j, j := False]\<rparr>"
  have r1: "recv ?rx = (\<lambda>x. if x = j then False else if x = j - pos then recv rx j else recv rx x)"
    using lt by (auto simp: recv_def fun_eq_iff nth_list_update)
  have rest: "d = W - Suc j" "Suc j \<le> W" using Suc.hyps(2) by simp_all
  have "move_slot pos j rx = Inr ?rx" using a(1) lt by (simp add: move_slot_def vec_at_def)
  moreover have "\<forall>x. x < Suc j \<and> Suc j \<le> x + pos \<longrightarrow> \<not> recv ?rx x \<and> cArray_get x (rx_pduBuffer ?rx) = None"
    using Suc.prems(2,5) fun_cong [OF a(2)] by (auto simp: r1)
  then obtain rx' where "move_slots pos [Suc j..<W] ?rx = Inr rx'"
      "rx' = ?rx\<lparr>rx_pduBuffer := rx_pduBuffer rx', rx_received := rx_received rx'\<rparr>"
      "length (rx_received rx') = length (rx_received rx)" "recv rx' = moved pos (Suc j) W False (recv ?rx)"
      "(\<lambda>x. cArray_get x (rx_pduBuffer rx')) = moved pos (Suc j) W None (\<lambda>x. cArray_get x a)"
    using Suc.hyps(1) [of "Suc j" ?rx] rest Suc.prems by auto
  ultimately show ?case
    using js moved_step [OF Suc.prems(1,2) lt(1) r1] moved_step [OF Suc.prems(1,2) lt(1) a(2)] by auto
qed

lemma buf_ok_recv:
  assumes "buf_ok P n rx"
  shows "cArray_get i (rx_pduBuffer rx) = (if recv rx i then Some (P ! (winF rx + i)) else None)"
    and "recv rx i \<Longrightarrow> i < winW rx \<and> n \<le> winF rx + i \<and> winF rx + i < length P"
  using assms by (simp_all add: buf_ok_def recv_def)

lemma buf_ok_iff_recv:
  "buf_ok P n rx \<longleftrightarrow> 0 < winW rx \<and> winW rx \<le> length (rx_received rx) \<and> length (rx_received rx) < 2 ^ 31 \<and>
     winF rx < 2 ^ 31 \<and> reasm_ok P n rx \<and>
     (\<forall>i. cArray_get i (rx_pduBuffer rx) = (if recv rx i then Some (P ! (winF rx + i)) else None)) \<and>
     (\<forall>i. recv rx i \<longrightarrow> i < winW rx \<and> n \<le> winF rx + i \<and> winF rx + i < length P)"
  by (auto simp: buf_ok_def recv_def)

lemma present_recv: "present rx k \<longleftrightarrow> winF rx \<le> k \<and> recv rx (k - winF rx)"
  by (simp add: present_def recv_def)

lemma moveRxWindow_effect:
  assumes ok: "buf_ok P n rx" and pos: "pos \<le> winW rx" "winF rx + pos \<le> n" "winF rx + pos < 2 ^ 31"
  shows "\<exists>rx'. moveRxWindow (int pos) rx = Inr rx' \<and> consumed P ds n rx n rx' [] \<and>
     rx_window rx' = (rx_window rx)\<lparr>firstSno := of_nat (winF rx + pos)\<rparr>"
proof (cases "pos = 0")
  case True
  then show ?thesis using consumed_refl [OF ok] by (auto simp: moveRxWindow_def)
next
  case False
  have le: "\<not> uint (windowSize (rx_window rx)) < int pos" using pos(1) by (simp only: uint_nat of_nat_less_iff not_less)
  have "\<forall>x. x < pos \<and> pos \<le> x + pos \<longrightarrow> \<not> recv rx x \<and> cArray_get x (rx_pduBuffer rx) = None"
    using buf_ok_recv [OF ok] pos(2) by fastforce
  with move_slots_effect [of pos pos "winW rx" rx] False pos(1) ok obtain rx1 where
    mv: "move_slots pos [pos..<winW rx] rx = Inr rx1"
      "rx1 = rx\<lparr>rx_pduBuffer := rx_pduBuffer rx1, rx_received := rx_received rx1\<rparr>"
      "length (rx_received rx1) = length (rx_received rx)" "recv rx1 = moved pos pos (winW rx) False (recv rx)"
      "(\<lambda>x. cArray_get x (rx_pduBuffer rx1)) = moved pos pos (winW rx) None (\<lambda>x. cArray_get x (rx_pduBuffer rx))"
    by (auto simp: buf_ok_def)
  let ?rx = "rx1\<lparr>rx_window := (rx_window rx)\<lparr>firstSno := of_nat (winF rx + pos)\<rparr>\<rparr>"
  have F: "winF ?rx = winF rx + pos" using unat_of_nat_small [OF pos(3)] by simp
  have keep: "rx_window rx1 = rx_window rx" "rx_buffered rx1 = rx_buffered rx" "rx_resetFlag rx1 = rx_resetFlag rx"
      "same_entity rx rx1"
    by (subst mv(2), simp)+ (subst mv(2), simp add: same_entity_def mv(3))
  have "moveRxWindow (int pos) rx = Inr ?rx"
    using False le mv(1) keep(1) by (simp add: moveRxWindow_def)
  moreover have recv: "recv ?rx i \<longleftrightarrow> recv rx (i + pos)" for i
    using fun_cong [OF mv(4), of i] buf_ok_recv(2) [OF ok, of i] buf_ok_recv(2) [OF ok, of "i + pos"]
    by (auto simp: moved_def recv_def)
  have "buf_ok P n ?rx"
    unfolding buf_ok_iff_recv
  proof (intro conjI allI impI)
    show "cArray_get i (rx_pduBuffer ?rx) = (if recv ?rx i then Some (P ! (winF ?rx + i)) else None)" for i
      using fun_cong [OF mv(5), of i] buf_ok_recv(2) [OF ok, of i] buf_ok_recv(2) [OF ok, of "i + pos"]
      unfolding F recv by (auto simp: moved_def buf_ok_recv(1) [OF ok] ac_simps)
    show "i < winW ?rx" "n \<le> winF ?rx + i" "winF ?rx + i < length P" if "recv ?rx i" for i
      using buf_ok_recv(2) [OF ok, of "i + pos"] that unfolding F recv by (auto simp: ac_simps)
    show "winF ?rx < 2 ^ 31" using F pos(3) by simp
    show "reasm_ok P n ?rx" using ok keep by (simp add: buf_ok_def reasm_ok_def)
  qed (use ok keep(1) mv(3) in \<open>simp_all add: buf_ok_def\<close>)
  moreover have "present ?rx k \<longleftrightarrow> present rx k \<and> n \<le> k" for k
    using buf_ok_recv(2) [OF ok, of "k - winF rx"] pos(2) unfolding present_recv F recv
    by (auto simp: ac_simps)
  moreover have "in_step c k ?rx = in_step c k rx" for c k
    using keep by (simp add: in_step_def split: option.splits)
  moreover have "same_entity rx ?rx" using keep(4) by (simp add: same_entity_def)
  ultimately show ?thesis by (auto simp: consumed_def)
qed

text \<open>Arithmetic of sequence numbers, away from the wrap-around.\<close>

lemma unat_plus_of_nat: "unat w < 2 ^ 31 \<Longrightarrow> k < 2 ^ 31 \<Longrightarrow> unat (w + of_nat k :: u32) = unat w + k"
  by (simp add: unat_word_ariths unat_of_nat)

lemma unat_diff: "unat v \<le> unat w \<Longrightarrow> unat (w - v :: u32) = unat w - unat v"
  by (simp add: unat_sub word_le_nat_alt)

lemma sint_diff: "unat v \<le> unat w \<Longrightarrow> unat w < 2 ^ 31 \<Longrightarrow> sint (w - v :: u32) = int (unat w - unat v)"
  by (simp add: unat_diff sint_small)

context um_stream
begin

lemma advance_consumes:
  assumes ok: "buf_ok P n rx" and p: "p \<le> winW rx" and T: "winF rx \<le> unat tsn" "unat tsn < 2 ^ 31"
    and own: "rx_ownerNodeId rx = owner" and n: "winF rx \<le> n"
  defines "q \<equiv> min p (unat tsn - winF rx)"
  shows "\<exists>rx' out. advance b tsn (int p) rx = Inr (rx', out) \<and> consumed P ds n rx (max n (winF rx + q)) rx' out \<and>
     rx_window rx' = (rx_window rx)\<lparr>firstSno := of_nat (winF rx + q)\<rparr>"
proof -
  have small: "p < 2 ^ 31" "winF rx < 2 ^ 31" using ok p by (simp_all add: buf_ok_def)
  have q: "(if firstSno (rx_window rx) + word_of_int (int p) > tsn then sint (tsn - firstSno (rx_window rx)) else int p) = int q"
    using T small unat_plus_of_nat [of "firstSno (rx_window rx)" p] sint_diff [OF T]
    by (auto simp: q_def word_less_nat_alt min_def)
  have "q \<le> winW rx" using p by (simp add: q_def)
  with reassemble_range_consumes [OF ok _ _ _ own, of 0 q] n obtain rx1 out where
    1: "reassemble_all b [0..<q] rx = Inr (rx1, out)" "rx_window rx1 = rx_window rx"
      "consumed P ds n rx (max n (winF rx + q)) rx1 out" by auto
  have "buf_ok P (max n (winF rx + q)) rx1" using 1(3) by (simp add: consumed_def)
  moreover have "winF rx + q < 2 ^ 31" using T by (auto simp: q_def)
  ultimately obtain rx2 where
    2: "moveRxWindow (int q) rx1 = Inr rx2" "consumed P ds (max n (winF rx + q)) rx1 (max n (winF rx + q)) rx2 []"
      "rx_window rx2 = (rx_window rx)\<lparr>firstSno := of_nat (winF rx + q)\<rparr>"
    using moveRxWindow_effect [of P "max n (winF rx + q)" rx1 q ds] 1(2) \<open>q \<le> winW rx\<close> by auto
  show ?thesis
    using 1(1) 2(1,3) consumed_trans [OF 1(3) 2(2)] q by (simp add: advance_def Let_def)
qed

text \<open>The loop ends, and the window stops at the number that moves it.\<close>

lemma shift_loop_consumes:
  assumes "buf_ok P n rx" and "winF rx \<le> unat tsn" "unat tsn < 2 ^ 31" and "rx_ownerNodeId rx = owner" and "winF rx \<le> n"
    and "S < 2 ^ 31"
  shows "\<exists>rx' out. shift_loop b tsn (int S) rx acc = Some (Inr (rx', acc @ out)) \<and>
     consumed P ds n rx (max n (winF rx + min S (unat tsn - winF rx))) rx' out \<and>
     rx_window rx' = (rx_window rx)\<lparr>firstSno := of_nat (winF rx + min S (unat tsn - winF rx))\<rparr>"
  using assms
proof (induction S arbitrary: n rx acc rule: less_induct)
  case (less S)
  note simps = shift_loop.simps [of b tsn "int S" rx acc]
  show ?case
  proof (cases "S = 0")
    case True
    then show ?thesis using simps consumed_refl [OF less.prems(1), of ds] less.prems(5) by (auto simp: max_def)
  next
    case False
    define p where "p = min S (winW rx)"
    define F1 where "F1 = winF rx + min p (unat tsn - winF rx)"
    have W: "0 < winW rx" "winW rx < 2 ^ 31" using less.prems(1) by (simp_all add: buf_ok_def)
    have p: "0 < p" "p \<le> S" "p \<le> winW rx" using False W by (simp_all add: p_def)
    have pw: "(if word_of_int (int S) < windowSize (rx_window rx) then int S else sint (windowSize (rx_window rx))) = int p"
      using less.prems(6) W(2) by (auto simp: p_def word_less_nat_alt unat_of_nat_small sint_small)
    from advance_consumes [OF less.prems(1) p(3) less.prems(2-5)] obtain rx1 out1 where
      1: "advance b tsn (int p) rx = Inr (rx1, out1)" "consumed P ds n rx (max n F1) rx1 out1"
        "rx_window rx1 = (rx_window rx)\<lparr>firstSno := of_nat F1\<rparr>" by (auto simp: F1_def)
    have "F1 \<le> unat tsn" using less.prems(2) by (auto simp: F1_def)
    then have F1: "F1 \<le> unat tsn" "winF rx1 = F1" using less.prems(3) 1(3) by (simp_all add: unat_of_nat_small)
    have "buf_ok P (max n F1) rx1" "rx_ownerNodeId rx1 = owner"
      using 1(2) less.prems(4) by (simp_all add: consumed_def same_entity_def)
    moreover have "S - p < S" "S - p < 2 ^ 31" using p(1,2) less.prems(6) by (auto intro: less_imp_diff_less)
    ultimately obtain rx2 out2 where
      2: "shift_loop b tsn (int (S - p)) rx1 (acc @ out1) = Some (Inr (rx2, (acc @ out1) @ out2))"
        "consumed P ds (max n F1) rx1 (max (max n F1) (F1 + min (S - p) (unat tsn - F1))) rx2 out2"
        "rx_window rx2 = (rx_window rx1)\<lparr>firstSno := of_nat (F1 + min (S - p) (unat tsn - F1))\<rparr>"
      using less.IH [of "S - p" "max n F1" rx1 "acc @ out1"] F1 less.prems(3) by auto
    have fin: "F1 + min (S - p) (unat tsn - F1) = winF rx + min S (unat tsn - winF rx)"
      using p(2) less.prems(2) by (auto simp: F1_def min_def)
    have "max (max n F1) (winF rx + min S (unat tsn - winF rx)) = max n (winF rx + min S (unat tsn - winF rx))"
      using p(2) by (auto simp: F1_def min_def max_def)
    moreover have "shift_loop b tsn (int S) rx acc = shift_loop b tsn (int (S - p)) rx1 (acc @ out1)"
      using simps False pw 1(1) p(2) by (simp add: Let_def of_nat_diff)
    ultimately show ?thesis
      using 2 1(3) consumed_trans [OF 1(2) 2(2)] unfolding fin by auto
  qed
qed

end

section \<open>Reordering\<close>

declare first_missing.simps [simp del] lost_between.simps [simp del]

lemma first_missing_effect:
  assumes "unat (firstSno w) \<le> unat (firstSnoForReordering w)" and "unat (firstSnoForReordering w) < unat (highestReceivedSno w)"
    and "unat (highestReceivedSno w) \<le> unat (firstSno w) + length received"
  shows "\<exists>R'. first_missing u received w = Inr (w\<lparr>firstSnoForReordering := of_nat R'\<rparr>) \<and>
     unat (firstSnoForReordering w) \<le> R' \<and> R' \<le> unat (highestReceivedSno w) \<and>
     (\<forall>k. unat (firstSnoForReordering w) \<le> k \<and> k < R' \<longrightarrow> received ! (k - unat (firstSno w)) \<or> k < unat u) \<and>
     (R' = unat (highestReceivedSno w) \<or> \<not> received ! (R' - unat (firstSno w)) \<and> unat u \<le> R')"
  using assms
proof (induction "unat (highestReceivedSno w) - unat (firstSnoForReordering w)" arbitrary: w)
  case (Suc d)
  let ?F = "unat (firstSno w)" and ?R = "unat (firstSnoForReordering w)" and ?H = "unat (highestReceivedSno w)"
  have at: "vec_at received (unat (firstSnoForReordering w - firstSno w)) = Inr (received ! (?R - ?F))"
    using Suc.prems by (simp add: vec_at_def unat_diff)
  let ?w = "w\<lparr>firstSnoForReordering := firstSnoForReordering w + 1\<rparr>"
  have R1: "unat (firstSnoForReordering w + 1) = Suc ?R"
    using Suc.prems(2) unat_succ_less [of "firstSnoForReordering w" "highestReceivedSno w"] by (simp add: word_less_nat_alt)
  have at_end: "firstSnoForReordering w + 1 = highestReceivedSno w \<longleftrightarrow> Suc ?R = ?H"
    using R1 by (simp add: word_unat_eq_iff)
  note simps = first_missing.simps [of u received w]
  show ?case
  proof (cases "received ! (?R - ?F) \<or> ?R < unat u")
    case False
    then have "first_missing u received w = Inr w" using simps at by (simp add: word_less_nat_alt)
    with False Suc.prems(2) show ?thesis by (intro exI [of _ ?R]) auto
  next
    case True
    show ?thesis
    proof (cases "Suc ?R = ?H")
      case fin: True
      then have "first_missing u received w = Inr ?w" using simps at True at_end by (simp add: word_less_nat_alt Let_def)
      moreover have "?w = w\<lparr>firstSnoForReordering := of_nat (Suc ?R)\<rparr>" by (simp add: add.commute)
      ultimately show ?thesis using fin [symmetric] True by (intro exI [of _ "Suc ?R"]) (auto simp: le_less_Suc_eq)
    next
      case more: False
      then have "first_missing u received w = first_missing u received ?w"
        using simps at True at_end by (simp add: word_less_nat_alt Let_def)
      moreover have "d = unat (highestReceivedSno ?w) - unat (firstSnoForReordering ?w)" "Suc ?R < ?H"
        using Suc.hyps(2) Suc.prems(2) R1 more by simp_all
      from Suc.hyps(1) [OF this(1)] this(2) R1 Suc.prems obtain R' where
        "first_missing u received ?w = Inr (?w\<lparr>firstSnoForReordering := of_nat R'\<rparr>)" "Suc ?R \<le> R'" "R' \<le> ?H"
        "\<forall>k. Suc ?R \<le> k \<and> k < R' \<longrightarrow> received ! (k - ?F) \<or> k < unat u"
        "R' = ?H \<or> \<not> received ! (R' - ?F) \<and> unat u \<le> R'" by auto
      moreover from this(4) True have "\<forall>k. ?R \<le> k \<and> k < R' \<longrightarrow> received ! (k - ?F) \<or> k < unat u"
        by (metis Suc_leI le_neq_implies_less)
      ultimately show ?thesis by (intro exI [of _ R']) auto
    qed
  qed
qed simp

text \<open>What the buffer, the window position and the waiting SDU decide.\<close>

definition same_view :: "UmRxEntity \<Rightarrow> UmRxEntity \<Rightarrow> bool" where
  "same_view rx rx' \<longleftrightarrow> rx_pduBuffer rx' = rx_pduBuffer rx \<and> rx_received rx' = rx_received rx \<and>
     firstSno (rx_window rx') = firstSno (rx_window rx) \<and> windowSize (rx_window rx') = windowSize (rx_window rx) \<and>
     rx_buffered rx' = rx_buffered rx \<and> rx_resetFlag rx' = rx_resetFlag rx"

lemma same_view_iff:
  assumes "same_view rx rx'"
  shows "buf_ok P n rx' = buf_ok P n rx" "present rx' = present rx" "in_step c k rx' = in_step c k rx"
  using assms by (auto simp: same_view_def buf_ok_def reasm_ok_def present_def in_step_def fun_eq_iff split: option.splits)

lemma consumed_view:
  "same_view rx0 rx \<Longrightarrow> same_entity rx0 rx \<Longrightarrow> consumed P ds n rx n' rx' out \<Longrightarrow> consumed P ds n rx0 n' rx' out"
  "same_view rx' rx1 \<Longrightarrow> same_entity rx' rx1 \<Longrightarrow> consumed P ds n rx n' rx' out \<Longrightarrow> consumed P ds n rx n' rx1 out"
  using same_entity_trans by (auto simp: consumed_def same_view_iff)

text \<open>The window between two events: everything below \<open>winR\<close> is processed.\<close>

definition window_ok :: "LteRlcUmDataPdu list \<Rightarrow> UmRxEntity \<Rightarrow> bool" where
  "window_ok P rx \<longleftrightarrow> buf_ok P (winR rx) rx \<and> winF rx \<le> winR rx \<and> winR rx \<le> winH rx \<and>
     winH rx \<le> winF rx + winW rx \<and> winH rx \<le> length P \<and> (\<forall>k. present rx k \<longrightarrow> k < winH rx)"

context um_stream
begin

lemma reorder_consumes:
  assumes ok: "window_ok P rx" and R: "winR rx < winH rx" and own: "rx_ownerNodeId rx = owner"
  shows "\<exists>rx' out R'. reorder b u rx = Inr (rx', out) \<and> rx_window rx' = (rx_window rx)\<lparr>firstSnoForReordering := of_nat R'\<rparr> \<and> rx_t_reordering rx' = rx_t_reordering rx \<and>
     winR rx \<le> R' \<and> R' \<le> winH rx \<and> consumed P ds (winR rx) rx R' rx' out \<and>
     (\<forall>k. winR rx \<le> k \<and> k < R' \<longrightarrow> present rx k \<or> k < unat u) \<and>
     (R' = winH rx \<or> \<not> present rx R' \<and> unat u \<le> R')"
proof -
  have buf: "buf_ok P (winR rx) rx" and bounds: "winF rx \<le> winR rx" "winH rx \<le> winF rx + winW rx" "winH rx \<le> length P"
      "winW rx \<le> length (rx_received rx)"
    using ok by (simp_all add: window_ok_def buf_ok_def)
  from first_missing_effect [of "rx_window rx" "rx_received rx" u] bounds R obtain R' where
    fm: "first_missing u (rx_received rx) (rx_window rx) = Inr ((rx_window rx)\<lparr>firstSnoForReordering := of_nat R'\<rparr>)"
      "winR rx \<le> R'" "R' \<le> winH rx" "\<forall>k. winR rx \<le> k \<and> k < R' \<longrightarrow> rx_received rx ! (k - winF rx) \<or> k < unat u"
      "R' = winH rx \<or> \<not> rx_received rx ! (R' - winF rx) \<and> unat u \<le> R'" by auto
  have R': "unat (of_nat R' :: u32) = R'" using fm(3) bounds(3) short_stream by (intro unat_of_nat_small) simp
  let ?rx = "rx\<lparr>rx_window := (rx_window rx)\<lparr>firstSnoForReordering := of_nat R'\<rparr>\<rparr>"
  have view: "same_view rx ?rx" "same_entity rx ?rx" by (simp_all add: same_view_def same_entity_def)
  have le: "R' - winF rx \<le> winW rx" "winR rx - winF rx \<le> R' - winF rx" using fm(2,3) bounds by simp_all
  have "\<exists>rx' out. reassemble_all b [winR rx - winF rx..<R' - winF rx] ?rx = Inr (rx', out) \<and>
      rx_window rx' = rx_window ?rx \<and> rx_t_reordering rx' = rx_t_reordering rx \<and> consumed P ds (winR rx) ?rx (max (winR rx) (winF ?rx + (R' - winF rx))) rx' out"
    using reassemble_range_consumes [of "winR rx" ?rx "winR rx - winF rx" "R' - winF rx"] same_view_iff(1) [OF view(1)]
      buf le bounds(1) own by simp
  moreover have "max (winR rx) (winF ?rx + (R' - winF rx)) = R'" using fm(2) bounds(1) by simp
  ultimately obtain rx' out where all: "reassemble_all b [winR rx - winF rx..<R' - winF rx] ?rx = Inr (rx', out)"
      "rx_window rx' = rx_window ?rx" "rx_t_reordering rx' = rx_t_reordering rx" "consumed P ds (winR rx) rx R' rx' out"
    using consumed_view(1) [OF view] by auto
  have "reorder b u rx = Inr (rx', out)"
    using fm(1,2) all(1) R' bounds(1) by (simp add: reorder_def Let_def unat_diff)
  moreover have "present rx k \<longleftrightarrow> rx_received rx ! (k - winF rx)" if "winR rx \<le> k" "k < winH rx" for k
    using that bounds by (auto simp: present_def)
  ultimately show ?thesis using all(2-4) fm(2-5) by (intro exI [of _ rx'] exI [of _ out] exI [of _ R']) auto
qed

text \<open>A PDU beyond the highest number.\<close>

lemma extend_window_consumes:
  assumes ok: "window_ok P rx" and T: "winH rx \<le> unat tsn" "unat tsn < length P" and own: "rx_ownerNodeId rx = owner"
  shows "\<exists>rx' out. extend_window b tsn rx = Some (Inr (rx', out)) \<and> window_ok P rx' \<and>
     consumed P ds (winR rx) rx (winR rx') rx' out \<and> winH rx' = Suc (unat tsn) \<and> winR rx' \<le> unat tsn \<and>
     (unat tsn < winF rx + winW rx \<or> winR rx = unat tsn \<longrightarrow> winR rx' = winR rx)"
proof -
  let ?T = "unat tsn"
  have buf: "buf_ok P (winR rx) rx" and bounds: "winF rx \<le> winR rx" "winR rx \<le> winH rx" "winH rx \<le> winF rx + winW rx"
      "winW rx < 2 ^ 31" "winF rx < 2 ^ 31" "0 < winW rx"
    using ok by (simp_all add: window_ok_def buf_ok_def)
  have small: "?T < 2 ^ 31" using T(2) short_stream by simp
  have T1: "unat (tsn + 1) = Suc ?T" using unat_plus_of_nat [OF small, of 1] by simp
  let ?rx = "rx\<lparr>rx_window := (rx_window rx)\<lparr>highestReceivedSno := tsn + 1\<rparr>\<rparr>"
  have view: "same_view rx ?rx" "same_entity rx ?rx" by (simp_all add: same_view_def same_entity_def)
  have buf1: "buf_ok P (winR rx) ?rx" using same_view_iff(1) [OF view(1)] buf by simp
  have before: "present rx k \<Longrightarrow> k < Suc ?T" for k using ok T(1) unfolding window_ok_def by fastforce
  have test: "firstSno (rx_window rx) + windowSize (rx_window rx) < tsn + 1 \<longleftrightarrow> winF rx + winW rx < Suc ?T"
    using bounds(4,5) T1 by (simp add: word_less_nat_alt unat_word_ariths)
  show ?thesis
  proof (cases "winF rx + winW rx < Suc ?T")
    case False
    then have "extend_window b tsn rx = Some (Inr (?rx, []))" using test by (simp add: extend_window_def Let_def)
    moreover have "consumed P ds (winR rx) rx (winR ?rx) ?rx []"
      using consumed_view(2) [OF view consumed_refl [OF buf]] by simp
    moreover have "window_ok P ?rx"
      using buf1 bounds False T T1 before by (simp add: window_ok_def same_view_iff(2) [OF view(1)])
    ultimately show ?thesis using T1 T(1) bounds(2) by (intro exI [of _ ?rx] exI [of _ "[]"]) auto
  next
    case True
    let ?S = "Suc ?T - winH rx" and ?F = "winF rx + min (Suc ?T - winH rx) (?T - winF rx)"
    have shift: "sint (tsn + 1 - highestReceivedSno (rx_window rx)) = int ?S"
      using sint_small [of "tsn + 1 - highestReceivedSno (rx_window rx)"]
        unat_diff [of "highestReceivedSno (rx_window rx)" "tsn + 1"] T1 T(1) small short_stream T(2) by simp
    have S: "?S < 2 ^ 31" and FT: "winF rx \<le> ?T" using T short_stream bounds(1,2) by simp_all
    then obtain rx1 out where
      1: "shift_loop b tsn (int ?S) ?rx [] = Some (Inr (rx1, out))"
        "consumed P ds (winR rx) ?rx (max (winR rx) ?F) rx1 out"
        "rx_window rx1 = (rx_window ?rx)\<lparr>firstSno := of_nat ?F\<rparr>"
      using shift_loop_consumes [OF buf1, of tsn ?S "[]"] bounds(1) small own by auto
    have F: "?F \<le> ?T" "winF rx1 = ?F" using FT small 1(3) unat_of_nat_small [of ?F] by auto
    let ?rx2 = "if firstSnoForReordering (rx_window rx1) < firstSno (rx_window rx1)
       then rx1\<lparr>rx_window := (rx_window rx1)\<lparr>firstSnoForReordering := firstSno (rx_window rx1)\<rparr>\<rparr> else rx1"
    have view2: "same_view rx1 ?rx2" "same_entity rx1 ?rx2" by (simp_all add: same_view_def same_entity_def)
    have win: "winF ?rx2 = ?F" "winR ?rx2 = max (winR rx) ?F" "winH ?rx2 = Suc ?T" "winW ?rx2 = winW rx"
      using F(2) 1(3) T1 by (auto simp: word_less_nat_alt)
    have "extend_window b tsn rx = Some (Inr (?rx2, out))"
      using True test shift 1(1) by (simp add: extend_window_def Let_def)
    moreover have con: "consumed P ds (winR rx) rx (max (winR rx) ?F) ?rx2 out"
      using consumed_view(2) [OF view2 consumed_view(1) [OF view 1(2)]] .
    moreover have "window_ok P ?rx2"
    proof -
      have "buf_ok P (max (winR rx) ?F) ?rx2" "\<forall>k. present ?rx2 k \<longrightarrow> k < Suc ?T"
        using con before unfolding consumed_def by blast+
      moreover have "max (winR rx) ?F \<le> Suc ?T" "Suc ?T \<le> ?F + winW rx"
        using F(1) bounds(1-3,6) T(1) by (auto simp: min_def)
      ultimately show ?thesis unfolding window_ok_def win using T(2) by simp
    qed
    ultimately show ?thesis
      using F(1) True bounds(1,2) T(1) unfolding win by (intro exI [of _ ?rx2] exI [of _ out]) (auto simp: win)
  qed
qed

text \<open>Storing a missing PDU inside the window.\<close>

lemma store_pdu_effect:
  assumes ok: "window_ok P rx" and k: "winR rx \<le> k" "k < winH rx" "\<not> present rx k"
  shows "\<exists>rx'. store_pdu (P ! k) (of_nat k) rx = Inr rx' \<and> window_ok P rx' \<and> rx_window rx' = rx_window rx \<and>
     same_entity rx rx' \<and> (\<forall>j. present rx' j \<longleftrightarrow> present rx j \<or> j = k) \<and> (\<forall>c n. in_step c n rx' = in_step c n rx)"
proof -
  have buf: "buf_ok P (winR rx) rx" and bounds: "winF rx \<le> winR rx" "winH rx \<le> winF rx + winW rx" "winH rx \<le> length P"
      "winW rx \<le> length (rx_received rx)"
    using ok by (simp_all add: window_ok_def buf_ok_def)
  let ?i = "k - winF rx"
  have small: "k < 2 ^ 31" using k(2) bounds(3) short_stream by simp
  have i: "?i < length (rx_received rx)" "winF rx + ?i = k" "\<not> recv rx ?i"
    using k bounds by (auto simp: present_recv)
  have index: "sint (of_nat k - firstSno (rx_window rx)) = int ?i"
    using sint_diff [of "firstSno (rx_window rx)" "of_nat k", unfolded unat_of_nat_small [OF small]] small k(1) bounds(1) by linarith
  have "cArray_get ?i (rx_pduBuffer rx) = None" using buf_ok_recv(1) [OF buf] i(3) by simp
  then obtain a where a: "cArray_addAt (int ?i) (P ! k) (rx_pduBuffer rx) = Inr a"
      "\<And>x. cArray_get x a = (if x = ?i then Some (P ! k) else cArray_get x (rx_pduBuffer rx))"
    using cArray_addAt_free [of ?i "rx_pduBuffer rx" "P ! k"] by blast
  let ?rx = "rx\<lparr>rx_pduBuffer := a, rx_received := (rx_received rx)[?i := True]\<rparr>"
  have recv: "recv ?rx x \<longleftrightarrow> recv rx x \<or> x = ?i" for x
    using i(1) by (auto simp: recv_def nth_list_update)
  have pres: "present ?rx j \<longleftrightarrow> present rx j \<or> j = k" for j
    using recv [of "j - winF rx"] k(1) bounds(1) by (auto simp: present_recv)
  have "store_pdu (P ! k) (of_nat k) rx = Inr ?rx"
    using index a(1) i(1) by (simp add: store_pdu_def Let_def)
  moreover have "buf_ok P (winR rx) ?rx"
    unfolding buf_ok_iff_recv
  proof (intro conjI allI impI)
    show "cArray_get x (rx_pduBuffer ?rx) = (if recv ?rx x then Some (P ! (winF ?rx + x)) else None)" for x
      using i(2) unfolding recv by (simp add: a(2) buf_ok_recv(1) [OF buf])
    show "x < winW ?rx" "winR rx \<le> winF ?rx + x" "winF ?rx + x < length P" if "recv ?rx x" for x
      using that buf_ok_recv(2) [OF buf, of x] k bounds unfolding recv by auto
    show "reasm_ok P (winR rx) ?rx" using buf by (simp add: buf_ok_def reasm_ok_def)
  qed (use buf in \<open>simp_all add: buf_ok_def\<close>)
  then have "window_ok P ?rx" using ok k(2) pres by (auto simp: window_ok_def)
  moreover have "in_step c n ?rx = in_step c n rx" for c n by (simp add: in_step_def split: option.splits)
  ultimately show ?thesis using pres by (intro exI [of _ ?rx]) (simp add: same_entity_def)
qed

end

section \<open>The events of the receiver\<close>

text \<open>The invariant of a receiver between two events; \<open>unopened\<close> is a multicast receiver that waits for its first PDU.\<close>

definition unopened :: "UmRxEntity \<Rightarrow> bool" where
  "unopened rx \<longleftrightarrow> \<not> rx_init rx \<and> fi_direction (rx_flowControlInfo rx) = D2D_MULTI"

definition rx_ok :: "LteRlcUmDataPdu list \<Rightarrow> UmRxEntity \<Rightarrow> bool" where
  "rx_ok P rx \<longleftrightarrow> window_ok P rx \<and> (winR rx = winH rx \<or> \<not> present rx (winR rx)) \<and>
     (rx_t_reordering rx \<noteq> None \<longrightarrow> winR rx < winX rx \<and> winX rx \<le> winH rx) \<and>
     (unopened rx \<longrightarrow> winR rx = 0 \<and> winH rx = 0 \<and> rx_buffered rx = None)"

lemma manage_timer_ok:
  "same_view rx (manage_timer now rx)" "same_entity rx (manage_timer now rx)"
  "winR (manage_timer now rx) = winR rx" "winH (manage_timer now rx) = winH rx"
  "rx_t_reordering (manage_timer now rx) \<noteq> None \<Longrightarrow>
     winR rx < winX (manage_timer now rx) \<and> winX (manage_timer now rx) \<le> winH rx"
  "rx_init (manage_timer now rx) = rx_init rx"
  by (auto simp: manage_timer_def Let_def same_view_def same_entity_def TTimer_stop_def word_less_nat_alt word_le_nat_alt
      split: if_splits)

lemma handleBurst_same:
  assumes "handleBurst t now ev rx = (rx', out)"
  shows "same_view rx rx'" "same_entity rx rx'" "rx_window rx' = rx_window rx" "rx_t_reordering rx' = rx_t_reordering rx"
    "to_pdcp out = []" "rx_init rx' = rx_init rx"
  using assms by (auto simp: handleBurst_def Let_def same_view_def same_entity_def split: if_splits prod.splits)

lemma rx_ok_initialize:
  assumes "0 < w" and "unat w < 2 ^ 31"
  shows "rx_ok P (UmRxEntity_initialize info i w t)"
  using assms
  by (auto simp: rx_ok_def window_ok_def buf_ok_def reasm_ok_def present_def UmRxEntity_initialize_def cArray_get_def unat_gt_0)

context um_stream
begin

lemma deliver_in_order_ok:
  assumes ok: "window_ok P rx" and R: "winR rx < winH rx" and own: "rx_ownerNodeId rx = owner" and op: "\<not> unopened rx"
  shows "\<exists>rx' out. deliver_in_order b t now rx = Inr (rx', out) \<and> rx_ok P rx' \<and> consumed P ds (winR rx) rx (winR rx') rx' out \<and>
     winH rx' = winH rx \<and> (\<forall>k. winR rx \<le> k \<and> k < winR rx' \<longrightarrow> present rx k)"
proof -
  have bounds: "winF rx \<le> winR rx" "winH rx \<le> winF rx + winW rx" "winW rx \<le> length (rx_received rx)" "winH rx \<le> length P"
    and buf: "buf_ok P (winR rx) rx" using ok by (simp_all add: window_ok_def buf_ok_def)
  have at: "vec_at (rx_received rx) (unat (firstSnoForReordering (rx_window rx) - firstSno (rx_window rx))) = Inr (present rx (winR rx))"
    using bounds R by (simp add: vec_at_def unat_diff present_def)
  obtain rx1 out where 1: "(if present rx (winR rx) then reorder b 0 rx else Inr (rx, [])) = Inr (rx1, out)"
      "winR rx \<le> winR rx1" "winR rx1 \<le> winH rx" "winH rx1 = winH rx" "winF rx1 = winF rx" "winW rx1 = winW rx"
      "consumed P ds (winR rx) rx (winR rx1) rx1 out" "\<forall>k. winR rx \<le> k \<and> k < winR rx1 \<longrightarrow> present rx k"
      "winR rx1 = winH rx \<or> \<not> present rx (winR rx1)"
  proof (cases "present rx (winR rx)")
    case False
    then show thesis by (intro that [of rx "[]"]) (use consumed_refl [OF buf] R in auto)
  next
    case True
    from reorder_consumes [OF ok R own, of 0] obtain rx1 out R' where
      r: "reorder b 0 rx = Inr (rx1, out)" "rx_window rx1 = (rx_window rx)\<lparr>firstSnoForReordering := of_nat R'\<rparr>"
        "winR rx \<le> R'" "R' \<le> winH rx" "consumed P ds (winR rx) rx R' rx1 out"
        "\<forall>k. winR rx \<le> k \<and> k < R' \<longrightarrow> present rx k" "R' = winH rx \<or> \<not> present rx R'" by auto
    have "winR rx1 = R'" using r(2,4) bounds(4) short_stream unat_of_nat_small [of R'] by simp
    then show thesis using that [of rx1 out] True r by simp
  qed
  let ?rx2 = "manage_timer now rx1"
  obtain rx3 out3 where 3: "(if fi_direction (rx_flowControlInfo ?rx2) = UL then handleBurst t now ENQUE ?rx2 else (?rx2, [])) = (rx3, out3)"
    by fastforce
  have same: "same_view ?rx2 rx3" "same_entity ?rx2 rx3" "rx_window rx3 = rx_window ?rx2"
      "rx_t_reordering rx3 = rx_t_reordering ?rx2" "to_pdcp out3 = []"
    using 3 handleBurst_same [of t now ENQUE ?rx2 rx3 out3] by (auto simp: same_view_def split: if_splits)
  have win: "winR rx3 = winR rx1" "winH rx3 = winH rx" "winF rx3 = winF rx" "winW rx3 = winW rx"
    using same(3) manage_timer_ok(1,3,4) [where now = now and rx = rx1] 1(4-6) by (simp_all add: same_view_def)
  have con: "consumed P ds (winR rx) rx (winR rx1) rx3 out"
    using consumed_view(2) [OF same(1,2) consumed_view(2) [OF manage_timer_ok(1,2) 1(7)]] .
  have "rx_ok P rx3"
  proof -
    have "buf_ok P (winR rx1) rx3" and pres: "\<forall>k. present rx3 k \<longleftrightarrow> present rx k \<and> winR rx1 \<le> k" and ent: "same_entity rx rx3"
      using con by (simp_all add: consumed_def)
    moreover have "\<forall>k. present rx k \<longrightarrow> k < winH rx" using ok by (simp add: window_ok_def)
    ultimately have "window_ok P rx3" unfolding window_ok_def win using 1(2,3) bounds by auto
    moreover have "winR rx3 = winH rx3 \<or> \<not> present rx3 (winR rx3)" unfolding win using pres 1(9) by blast
    moreover have "rx_t_reordering rx3 \<noteq> None \<longrightarrow> winR rx3 < winX rx3 \<and> winX rx3 \<le> winH rx3"
      using manage_timer_ok(3-5) [where now = now and rx = rx1] same(3,4) win 1(4) by simp
    moreover have "\<not> unopened rx3" using op ent by (auto simp: unopened_def same_entity_def)
    ultimately show ?thesis by (simp add: rx_ok_def)
  qed
  moreover have "deliver_in_order b t now rx = Inr (rx3, out @ out3)"
    using at 1(1) 3 by (simp add: deliver_in_order_def Let_def)
  moreover have "consumed P ds (winR rx) rx (winR rx1) rx3 (out @ out3)"
    using con same(5) by (simp add: consumed_def)
  ultimately show ?thesis using win 1(8) by auto
qed

text \<open>
  A PDU that arrives.  The window never fails; if the PDU lies in the window or is the next one, everything
  that becomes available in order is delivered.
\<close>

definition in_reach :: "nat \<Rightarrow> UmRxEntity \<Rightarrow> bool" where
  "in_reach k rx \<longleftrightarrow> k < winF rx + winW rx \<or> winR rx = k"

definition arrival_effect :: "nat \<Rightarrow> UmRxEntity \<Rightarrow> UmRxEntity \<Rightarrow> rx_out list \<Rightarrow> bool" where
  "arrival_effect k rx rx' out \<longleftrightarrow> rx_ok P rx' \<and> same_entity rx rx' \<and> winR rx \<le> winR rx' \<and>
     subseq (to_pdcp out) (seg ds (winR rx) (winR rx')) \<and>
     (in_reach k rx \<and> \<not> unopened rx \<longrightarrow> winH rx' = max (winH rx) (Suc k) \<and>
        (\<forall>j. present rx' j \<longleftrightarrow> (present rx j \<or> j = k) \<and> winR rx' \<le> j) \<and>
        (\<forall>j. winR rx \<le> j \<and> j < winR rx' \<longrightarrow> present rx j \<or> j = k) \<and>
        (in_step (carry_at P (winR rx)) (of_nat (winR rx)) rx \<longrightarrow>
           to_pdcp out = seg ds (winR rx) (winR rx') \<and> in_step (carry_at P (winR rx')) (of_nat (winR rx')) rx'))"

lemma accept_ok:
  assumes ok: "window_ok P rx" and own: "rx_ownerNodeId rx = owner" and op: "\<not> unopened rx"
    and k: "winR rx \<le> k" "k < length P" "\<not> present rx k"
  shows "\<exists>rx' out. run_bind (if of_nat k \<ge> highestReceivedSno (rx_window rx) then extend_window b (of_nat k) rx else Some (Inr (rx, [])))
      (\<lambda>(rx, out). run_bind (Some (rbind (store_pdu (P ! k) (of_nat k) rx) (deliver_in_order b t now))) (\<lambda>(rx, out').
         Some (Inr (rx, out @ out')))) = Some (Inr (rx', out)) \<and> arrival_effect k rx rx' out"
proof -
  have small: "unat (of_nat k :: u32) = k" using k(2) short_stream by (intro unat_of_nat_small) simp
  have buf: "buf_ok P (winR rx) rx" using ok by (simp add: window_ok_def)
  obtain rx1 out1 where
    1: "(if of_nat k \<ge> highestReceivedSno (rx_window rx) then extend_window b (of_nat k) rx else Some (Inr (rx, []))) = Some (Inr (rx1, out1))"
      "window_ok P rx1" "consumed P ds (winR rx) rx (winR rx1) rx1 out1" "winH rx1 = max (winH rx) (Suc k)" "winR rx1 \<le> k"
      "in_reach k rx \<longrightarrow> winR rx1 = winR rx"
  proof (cases "winH rx \<le> k")
    case True
    with extend_window_consumes [OF ok _ _ own, of "of_nat k"] small k(2) show thesis
      by (auto simp: word_le_nat_alt in_reach_def intro!: that)
  next
    case False
    then show thesis using that [of rx "[]"] consumed_refl [OF buf] ok k(1) small by (auto simp: word_le_nat_alt)
  qed
  have own1: "rx_ownerNodeId rx1 = owner" and op1: "\<not> unopened rx1" and k1: "\<not> present rx1 k" "k < winH rx1"
    using 1(3,4) own op k(3) by (auto simp: consumed_def same_entity_def unopened_def)
  from store_pdu_effect [OF 1(2,5) k1(2,1)] obtain rx2 where
    2: "store_pdu (P ! k) (of_nat k) rx1 = Inr rx2" "window_ok P rx2" "rx_window rx2 = rx_window rx1" "same_entity rx1 rx2"
      "\<forall>j. present rx2 j \<longleftrightarrow> present rx1 j \<or> j = k" "\<forall>c n. in_step c n rx2 = in_step c n rx1" by blast
  have "winR rx2 < winH rx2" "rx_ownerNodeId rx2 = owner" "\<not> unopened rx2"
    using 1(5) k1(2) 2(3,4) own1 op1 by (auto simp: same_entity_def unopened_def)
  from deliver_in_order_ok [OF 2(2) this, of t now] 2(3) obtain rx3 out3 where
    3: "deliver_in_order b t now rx2 = Inr (rx3, out3)" "rx_ok P rx3" "consumed P ds (winR rx1) rx2 (winR rx3) rx3 out3"
      "winH rx3 = winH rx1" "\<forall>j. winR rx1 \<le> j \<and> j < winR rx3 \<longrightarrow> present rx2 j" by auto
  note con = 1(3) [unfolded consumed_def] 3(3) [unfolded consumed_def]
  have "arrival_effect k rx rx3 (out1 @ out3)"
    unfolding arrival_effect_def
  proof (intro conjI impI)
    show "rx_ok P rx3" by (rule 3(2))
    show "same_entity rx rx3" using con 2(4) same_entity_trans by blast
    show "winR rx \<le> winR rx3" using con by simp
    show "subseq (to_pdcp (out1 @ out3)) (seg ds (winR rx) (winR rx3))"
      using con seg_append [of "winR rx" "winR rx1" "winR rx3" ds, symmetric] by (simp add: list_emb_append_mono)
    assume a: "in_reach k rx \<and> \<not> unopened rx"
    then have R: "winR rx1 = winR rx" using 1(6) by blast
    show "winH rx3 = max (winH rx) (Suc k)" using 3(4) 1(4) by simp
    have p1: "present rx1 j \<longleftrightarrow> present rx j" for j using con R present_buf_ok [OF buf, of j] by auto
    show "\<forall>j. present rx3 j \<longleftrightarrow> (present rx j \<or> j = k) \<and> winR rx3 \<le> j" using con 2(5) p1 by simp
    show "\<forall>j. winR rx \<le> j \<and> j < winR rx3 \<longrightarrow> present rx j \<or> j = k" using 3(5) R 2(5) p1 by auto
    assume st: "in_step (carry_at P (winR rx)) (of_nat (winR rx)) rx"
    then have s1: "to_pdcp out1 = []" "in_step (carry_at P (winR rx)) (of_nat (winR rx)) rx2" using con R 2(6) by auto
    then show "to_pdcp (out1 @ out3) = seg ds (winR rx) (winR rx3)"
      and "in_step (carry_at P (winR rx3)) (of_nat (winR rx3)) rx3" using con 3(5) R by auto
  qed
  with 1(1) 2(1) 3(1) show ?thesis by simp
qed

lemma discard_effect:
  assumes ok: "rx_ok P rx" and k: "present rx k \<or> k < winR rx"
  shows "arrival_effect k rx rx []"
proof -
  have "window_ok P rx" using ok by (simp add: rx_ok_def)
  then have "present rx j \<Longrightarrow> winR rx \<le> j \<and> j < winH rx" and "winR rx \<le> winH rx" for j
    using present_buf_ok [of P "winR rx" rx j] by (auto simp: window_ok_def)
  with ok k show ?thesis by (fastforce simp: arrival_effect_def)
qed

lemma already_received_ok:
  assumes ok: "window_ok P rx" and k: "k < length P"
  shows "already_received (of_nat k) rx = Inr (present rx k)"
proof -
  have small: "k < 2 ^ 31" using k short_stream by simp
  have bounds: "winF rx \<le> winR rx" "winH rx \<le> winF rx + winW rx" "winW rx \<le> length (rx_received rx)"
    and pres: "present rx k \<Longrightarrow> winR rx \<le> k \<and> k < winH rx"
    using ok present_buf_ok [of P "winR rx" rx k] by (auto simp: window_ok_def buf_ok_def)
  define i where "i = k - winF rx"
  have index: "sint (of_nat k - firstSno (rx_window rx)) = int i" if "winF rx \<le> k"
    using sint_diff [of "firstSno (rx_window rx)" "of_nat k", unfolded unat_of_nat_small [OF small]] small that
    unfolding i_def by linarith
  show ?thesis
  proof (cases "winR rx \<le> k \<and> k < winH rx")
    case True
    then have "i < length (rx_received rx)" "present rx k = rx_received rx ! i" using bounds by (auto simp: i_def present_def)
    then show ?thesis
      using True index bounds(1) small
      by (simp add: already_received_def word_le_nat_alt word_less_nat_alt unat_of_nat_small vec_at_def)
  next
    case False
    then show ?thesis
      using pres small by (auto simp: already_received_def Let_def word_le_nat_alt word_less_nat_alt unat_of_nat_small)
  qed
qed

text \<open>The first PDU of a multicast connection opens a window of one position at its number.\<close>

lemma start_multicast_ok:
  assumes ok: "rx_ok P rx" and op: "unopened rx" and k: "k < length P"
  defines "rx0 \<equiv> start_multicast (of_nat k) rx"
  shows "window_ok P rx0" "same_entity rx rx0" "winR rx0 = k" "\<not> present rx0 k" "\<not> unopened rx0"
proof -
  have small: "unat (of_nat k :: u32) = k" "k < 2 ^ 31" using k short_stream by (simp_all add: unat_of_nat_small)
  have win: "winF rx0 = k" "winR rx0 = k" "winH rx0 = k" "winW rx0 = 1" "rx_received rx0 = rx_received rx"
      "rx_pduBuffer rx0 = rx_pduBuffer rx" "rx_buffered rx0 = rx_buffered rx" "rx_resetFlag rx0 = rx_resetFlag rx"
    using op small by (simp_all add: rx0_def start_multicast_def unopened_def window_clear_def)
  have w: "window_ok P rx" and z: "winH rx = 0" "rx_buffered rx = None" using ok op unfolding rx_ok_def by blast+
  have buf: "buf_ok P (winR rx) rx" using w unfolding window_ok_def by blast
  have none: "\<not> recv rx i" for i
    using w z(1) buf_ok_recv(2) [OF buf, of i] by (auto simp: window_ok_def present_recv dest: spec [of _ "winF rx + i"])
  then have "\<not> recv rx0 i" for i using win by (simp add: recv_def)
  moreover have "buf_ok P k rx0"
    unfolding buf_ok_iff_recv
    using buf none win small \<open>\<And>i. \<not> recv rx0 i\<close> z(2) buf_ok_recv(1) [OF buf] by (auto simp: buf_ok_def reasm_ok_def)
  ultimately show "window_ok P rx0" "\<not> present rx0 k" using win k by (auto simp: window_ok_def present_recv)
  show "same_entity rx rx0" "winR rx0 = k" "\<not> unopened rx0"
    using op win by (simp_all add: rx0_def start_multicast_def unopened_def same_entity_def)
qed

lemma enque_accepts:
  assumes w: "window_ok P (start_multicast (of_nat k) rx)" and k: "k < length P" and op: "\<not> unopened (start_multicast (of_nat k) rx)"
    and own: "rx_ownerNodeId (start_multicast (of_nat k) rx) = owner"
    and new: "\<not> present (start_multicast (of_nat k) rx) k" "winR (start_multicast (of_nat k) rx) \<le> k"
  shows "\<exists>rx' out. UmRxEntity_enque b t now (P ! k) rx = Some (Inr (rx', out)) \<and>
     arrival_effect k (start_multicast (of_nat k) rx) rx' out"
proof -
  have "pdu_sno (P ! k) = of_nat k" using framed_nth(3) [OF framed_stream k] by simp
  moreover have "\<not> of_nat k < firstSnoForReordering (rx_window (start_multicast (of_nat k) rx))"
    using new(2) k short_stream by (simp add: word_less_nat_alt unat_of_nat_small)
  ultimately show ?thesis
    using accept_ok [OF w own op new(2) k new(1)] already_received_ok [OF w k] new(1)
    unfolding UmRxEntity_enque_def Let_def by (simp only: run_bind_simps if_False simp_thms)
qed

lemma enque_ok:
  assumes ok: "rx_ok P rx" and own: "rx_ownerNodeId rx = owner" and k: "k < length P"
  shows "\<exists>rx' out. UmRxEntity_enque b t now (P ! k) rx = Some (Inr (rx', out)) \<and> arrival_effect k rx rx' out"
proof -
  have sno: "pdu_sno (P ! k) = of_nat k" using framed_nth(3) [OF framed_stream k] by simp
  have small: "unat (of_nat k :: u32) = k" using k short_stream by (simp add: unat_of_nat_small)
  let ?rx = "start_multicast (of_nat k) rx"
  show ?thesis
  proof (cases "unopened rx")
    case False
    then have st: "?rx = rx" by (auto simp: start_multicast_def unopened_def)
    have w: "window_ok P rx" using ok by (simp add: rx_ok_def)
    show ?thesis
    proof (cases "present rx k \<or> k < winR rx")
      case True
      then have "UmRxEntity_enque b t now (P ! k) rx = Some (Inr (rx, []))"
        using st sno already_received_ok [OF w k] small by (simp add: UmRxEntity_enque_def Let_def word_less_nat_alt)
      then show ?thesis using discard_effect [OF ok True] by blast
    next
      case new: False
      then show ?thesis using enque_accepts [of k rx t now] w own k False st by simp
    qed
  next
    case True
    note mc = start_multicast_ok [OF ok True k]
    have own0: "rx_ownerNodeId ?rx = owner" using mc(2) own by (simp add: same_entity_def)
    from enque_accepts [OF mc(1) k mc(5) own0 mc(4), of t now] mc(3) obtain rx' out where
      acc: "UmRxEntity_enque b t now (P ! k) rx = Some (Inr (rx', out))" "arrival_effect k ?rx rx' out" by auto
    moreover have "arrival_effect k rx rx' out"
    proof -
      have "winR rx = 0" using ok True by (simp add: rx_ok_def)
      moreover have "subseq (to_pdcp out) (seg ds 0 (winR rx'))"
        using acc(2) mc(3) seg_append [of 0 k "winR rx'" ds] by (simp add: arrival_effect_def) (metis list_emb_append2)
      ultimately show ?thesis
        using acc(2) mc(2) True same_entity_trans by (auto simp: arrival_effect_def)
    qed
    ultimately show ?thesis by blast
  qed
qed

text \<open>The expiry of the reordering timer.\<close>

lemma timer_ok:
  assumes ok: "rx_ok P rx" and own: "rx_ownerNodeId rx = owner" and busy: "rx_t_reordering rx \<noteq> None"
  shows "\<exists>rx' out. UmRxEntity_handleMessage b now rx = Inr (rx', out) \<and> rx_ok P rx' \<and> same_entity rx rx' \<and>
     winR rx \<le> winR rx' \<and> subseq (to_pdcp out) (seg ds (winR rx) (winR rx'))"
proof -
  let ?rx = "rx\<lparr>rx_t_reordering := None\<rparr>"
  have view: "same_view rx ?rx" "same_entity rx ?rx" by (simp_all add: same_view_def same_entity_def)
  have w: "window_ok P rx" and X: "winR rx < winX rx" "winX rx \<le> winH rx" using ok busy by (simp_all add: rx_ok_def)
  then have "window_ok P ?rx" by (simp add: window_ok_def same_view_iff [OF view(1)])
  from reorder_consumes [OF this, of "reorderingSno (rx_window rx)"] X own obtain rx1 out R' where
    1: "reorder b (reorderingSno (rx_window rx)) ?rx = Inr (rx1, out)"
      "rx_window rx1 = (rx_window rx)\<lparr>firstSnoForReordering := of_nat R'\<rparr>" "winR rx \<le> R'" "R' \<le> winH rx"
      "consumed P ds (winR rx) ?rx R' rx1 out" "R' = winH rx \<or> \<not> present ?rx R'" "rx_t_reordering rx1 = None" by auto
  have H: "winH rx \<le> length P" "winF rx \<le> winR rx" "winH rx \<le> winF rx + winW rx" "\<forall>k. present rx k \<longrightarrow> k < winH rx"
    using w by (simp_all add: window_ok_def)
  have R: "winR rx1 = R'" using 1(2,4) H(1) short_stream unat_of_nat_small [of R'] by simp
  define rx2 where "rx2 = (if highestReceivedSno (rx_window rx1) > firstSnoForReordering (rx_window rx1)
    then rx1\<lparr>rx_window := (rx_window rx1)\<lparr>reorderingSno := highestReceivedSno (rx_window rx1)\<rparr>,
             rx_t_reordering := TTimer_start now (rx_timeout rx1) (rx_t_reordering rx1)\<rparr> else rx1)"
  have view2: "same_view rx1 rx2" "same_entity rx1 rx2" by (simp_all add: rx2_def same_view_def same_entity_def)
  have con: "consumed P ds (winR rx) rx R' rx2 out"
    using consumed_view(2) [OF view2 consumed_view(1) [OF view 1(5)]] .
  have win: "winR rx2 = R'" "winH rx2 = winH rx" "winF rx2 = winF rx" "winW rx2 = winW rx" using 1(2) R by (auto simp: rx2_def)
  have "window_ok P rx2"
    using con 1(3,4) H unfolding window_ok_def win by (auto simp: consumed_def)
  moreover have "winR rx2 = winH rx2 \<or> \<not> present rx2 (winR rx2)"
    using con 1(6) unfolding win same_view_iff(2) [OF view(1)] by (auto simp: consumed_def)
  moreover have "rx_t_reordering rx2 \<noteq> None \<longrightarrow> winR rx2 < winX rx2 \<and> winX rx2 \<le> winH rx2"
    using 1(7) by (auto simp: rx2_def word_less_nat_alt)
  moreover have "\<not> unopened rx2"
  proof -
    have "\<not> unopened rx" using ok X unfolding rx_ok_def by linarith
    moreover have "same_entity rx rx2" using con by (simp add: consumed_def)
    ultimately show ?thesis by (auto simp: unopened_def same_entity_def)
  qed
  ultimately have "rx_ok P rx2" unfolding rx_ok_def by blast
  moreover have "UmRxEntity_handleMessage b now rx = Inr (rx2, out)"
    using 1(1) by (simp add: UmRxEntity_handleMessage_def TTimer_handle_def Let_def rx2_def)
  ultimately show ?thesis using con win(1) by (auto simp: consumed_def)
qed

end

section \<open>Runs of the receiver\<close>

text \<open>PDUs arrive and the reordering timer expires, which it does only at the time it is set to.\<close>

datatype rx_event = PduArrives simtime LteRlcUmDataPdu | TimerExpires simtime

definition rx_step :: "Binder \<Rightarrow> simtime \<Rightarrow> rx_event \<Rightarrow> UmRxEntity \<Rightarrow> (UmRxEntity \<times> rx_out list) run" where
  "rx_step b TTI e rx = (case e of
       PduArrives now p \<Rightarrow> UmRxEntity_enque b TTI now p rx
     | TimerExpires now \<Rightarrow> if rx_t_reordering rx = Some now then Some (UmRxEntity_handleMessage b now rx) else Some (Inr (rx, [])))"

fun rx_run :: "Binder \<Rightarrow> simtime \<Rightarrow> rx_event list \<Rightarrow> UmRxEntity \<Rightarrow> (UmRxEntity \<times> rx_out list) run" where
  "rx_run b TTI [] rx = Some (Inr (rx, []))"
| "rx_run b TTI (e # es) rx =
     run_bind (rx_step b TTI e rx) (\<lambda>(rx, out).
     run_bind (rx_run b TTI es rx) (\<lambda>(rx, out'). Some (Inr (rx, out @ out'))))"

definition arrivals :: "rx_event list \<Rightarrow> LteRlcUmDataPdu list" where
  "arrivals es = concat (map (\<lambda>e. case e of PduArrives _ p \<Rightarrow> [p] | TimerExpires _ \<Rightarrow> []) es)"

lemma arrivals_simps [simp]:
  "arrivals [] = []" "arrivals (PduArrives now p # es) = p # arrivals es" "arrivals (TimerExpires now # es) = arrivals es"
  by (simp_all add: arrivals_def)

context um_stream
begin

lemma rx_step_ok:
  assumes "rx_ok P rx" and "rx_ownerNodeId rx = owner" and "set (arrivals [e]) \<subseteq> set P"
  shows "\<exists>rx' out. rx_step b t e rx = Some (Inr (rx', out)) \<and> rx_ok P rx' \<and> rx_ownerNodeId rx' = owner \<and>
     winR rx \<le> winR rx' \<and> subseq (to_pdcp out) (seg ds (winR rx) (winR rx'))"
proof (cases e)
  case (PduArrives now p)
  with assms(3) obtain k where "p = P ! k" "k < length P" by (auto simp: in_set_conv_nth)
  with enque_ok [OF assms(1,2) this(2), of t now] PduArrives assms(2) show ?thesis
    by (auto simp: rx_step_def arrival_effect_def same_entity_def)
next
  case (TimerExpires now)
  show ?thesis
  proof (cases "rx_t_reordering rx = Some now")
    case True
    with timer_ok [OF assms(1,2), of now] TimerExpires assms(2) show ?thesis by (auto simp: rx_step_def same_entity_def)
  next
    case False
    with TimerExpires assms(1,2) show ?thesis by (auto simp: rx_step_def)
  qed
qed

lemma rx_run_ok:
  assumes "rx_ok P rx" and "rx_ownerNodeId rx = owner" and "set (arrivals es) \<subseteq> set P"
  shows "\<exists>rx' out. rx_run b t es rx = Some (Inr (rx', out)) \<and> rx_ok P rx' \<and> winR rx \<le> winR rx' \<and>
     subseq (to_pdcp out) (seg ds (winR rx) (winR rx'))"
  using assms
proof (induction es arbitrary: rx)
  case (Cons e es)
  have "set (arrivals [e]) \<subseteq> set P" "set (arrivals es) \<subseteq> set P" using Cons.prems(3) by (cases e; simp)+
  from rx_step_ok [OF Cons.prems(1,2) this(1), of t] obtain rx1 out1 where
    1: "rx_step b t e rx = Some (Inr (rx1, out1))" "rx_ok P rx1" "rx_ownerNodeId rx1 = owner" "winR rx \<le> winR rx1"
      "subseq (to_pdcp out1) (seg ds (winR rx) (winR rx1))" by blast
  from Cons.IH [OF 1(2,3) \<open>set (arrivals es) \<subseteq> set P\<close>] obtain rx2 out2 where
    2: "rx_run b t es rx1 = Some (Inr (rx2, out2))" "rx_ok P rx2" "winR rx1 \<le> winR rx2"
      "subseq (to_pdcp out2) (seg ds (winR rx1) (winR rx2))" by blast
  have "subseq (to_pdcp (out1 @ out2)) (seg ds (winR rx) (winR rx2))"
    using 1(4,5) 2(3,4) seg_append [of "winR rx" "winR rx1" "winR rx2" ds, symmetric] by (simp add: list_emb_append_mono)
  with 1 2 show ?case by auto
qed simp

text \<open>In order.\<close>

lemma next_arrival:
  assumes ok: "rx_ok P rx" and own: "rx_ownerNodeId rx = owner" and op: "\<not> unopened rx" and R: "winR rx = k" "winH rx = k"
    and st: "in_step (carry_at P k) (of_nat k) rx" and k: "k < length P"
  shows "\<exists>rx' out. UmRxEntity_enque b t now (P ! k) rx = Some (Inr (rx', out)) \<and> to_pdcp out = ds ! k \<and> rx_ok P rx' \<and>
     rx_ownerNodeId rx' = owner \<and> \<not> unopened rx' \<and> winR rx' = Suc k \<and> winH rx' = Suc k \<and>
     in_step (carry_at P (Suc k)) (of_nat (Suc k)) rx'"
proof -
  from enque_ok [OF ok own k, of t now] obtain rx' out where
    enq: "UmRxEntity_enque b t now (P ! k) rx = Some (Inr (rx', out))" "arrival_effect k rx rx' out" by blast
  have "in_reach k rx \<and> \<not> unopened rx" using R op by (simp add: in_reach_def)
  with enq(2) R st have eff: "rx_ok P rx'" "same_entity rx rx'" "k \<le> winR rx'" "winH rx' = Suc k"
      "present rx' k \<longleftrightarrow> winR rx' \<le> k" "to_pdcp out = seg ds k (winR rx')"
      "in_step (carry_at P (winR rx')) (of_nat (winR rx')) rx'"
    by (auto simp: arrival_effect_def)
  have "winR rx' \<le> winH rx'" using eff(1) by (simp add: rx_ok_def window_ok_def)
  moreover have "winR rx' \<noteq> k" using eff(1,4,5) by (auto simp: rx_ok_def)
  ultimately have R': "winR rx' = Suc k" using eff(3,4) by simp
  have "\<not> unopened rx'" using op eff(2) by (auto simp: unopened_def same_entity_def)
  with eff R' enq(1) own k show ?thesis by (auto simp: seg_Suc length_ds same_entity_def)
qed

lemma rx_run_in_order:
  assumes "rx_ok P rx" and "rx_ownerNodeId rx = owner" and "\<not> unopened rx" and "winR rx = k" "winH rx = k"
    and "in_step (carry_at P k) (of_nat k) rx" and "k \<le> length P"
  shows "\<exists>rx' out. rx_run b t (map (PduArrives now) (drop k P)) rx = Some (Inr (rx', out)) \<and> to_pdcp out = seg ds k (length P)"
  using assms
proof (induction "length P - k" arbitrary: k rx)
  case (Suc d)
  then have lt: "k < length P" by simp
  then have drop: "drop k P = P ! k # drop (Suc k) P" by (simp add: Cons_nth_drop_Suc)
  from next_arrival [OF Suc.prems(1-6) lt, of t now] obtain rx1 out1 where
    1: "UmRxEntity_enque b t now (P ! k) rx = Some (Inr (rx1, out1))" "to_pdcp out1 = ds ! k" "rx_ok P rx1"
      "rx_ownerNodeId rx1 = owner" "\<not> unopened rx1" "winR rx1 = Suc k" "winH rx1 = Suc k"
      "in_step (carry_at P (Suc k)) (of_nat (Suc k)) rx1" by blast
  have "d = length P - Suc k" "Suc k \<le> length P" using Suc.hyps(2) by simp_all
  from Suc.hyps(1) [OF this(1) 1(3-8) this(2)] obtain rx2 out2 where
    2: "rx_run b t (map (PduArrives now) (drop (Suc k) P)) rx1 = Some (Inr (rx2, out2))" "to_pdcp out2 = seg ds (Suc k) (length P)"
    by blast
  have "seg ds k (length P) = ds ! k @ seg ds (Suc k) (length P)"
    using seg_append [of k "Suc k" "length P" ds] lt by (simp add: seg_Suc length_ds)
  with 1(1,2) 2 drop show ?case by (simp add: rx_step_def)
qed simp

text \<open>In any order, within one window.\<close>

lemma rx_run_any_order:
  assumes "rx_ok P rx" and "rx_ownerNodeId rx = owner" and "\<not> unopened rx" and "length P \<le> winW rx"
    and "\<forall>j. present rx j \<longleftrightarrow> j \<in> S \<and> winR rx \<le> j" and "{..< winR rx} \<subseteq> S"
    and "in_step (carry_at P (winR rx)) (of_nat (winR rx)) rx" and "set ks \<subseteq> {..< length P}"
  shows "\<exists>rx' out. rx_run b t (map (\<lambda>k. PduArrives now (P ! k)) ks) rx = Some (Inr (rx', out)) \<and> rx_ok P rx' \<and>
     to_pdcp out = seg ds (winR rx) (winR rx') \<and> winR rx \<le> winR rx' \<and>
     (\<forall>j. present rx' j \<longleftrightarrow> j \<in> S \<union> set ks \<and> winR rx' \<le> j) \<and> {..< winR rx'} \<subseteq> S \<union> set ks"
  using assms
proof (induction ks arbitrary: rx S)
  case Nil
  then show ?case by auto
next
  case (Cons k ks)
  have k: "k < length P" using Cons.prems(8) by simp
  from enque_ok [OF Cons.prems(1,2) k, of t now] obtain rx1 out1 where
    1: "UmRxEntity_enque b t now (P ! k) rx = Some (Inr (rx1, out1))" "arrival_effect k rx rx1 out1" by blast
  have "in_reach k rx \<and> \<not> unopened rx" using k Cons.prems(3,4) by (simp add: in_reach_def)
  with 1(2) Cons.prems(7) have eff: "rx_ok P rx1" "same_entity rx rx1" "winR rx \<le> winR rx1"
      "\<forall>j. present rx1 j \<longleftrightarrow> (present rx j \<or> j = k) \<and> winR rx1 \<le> j"
      "\<forall>j. winR rx \<le> j \<and> j < winR rx1 \<longrightarrow> present rx j \<or> j = k" "to_pdcp out1 = seg ds (winR rx) (winR rx1)"
      "in_step (carry_at P (winR rx1)) (of_nat (winR rx1)) rx1"
    by (auto simp: arrival_effect_def)
  have keep: "rx_ownerNodeId rx1 = owner" "\<not> unopened rx1" "length P \<le> winW rx1"
    using eff(2) Cons.prems(2-4) by (auto simp: same_entity_def unopened_def)
  have pres: "\<forall>j. present rx1 j \<longleftrightarrow> j \<in> insert k S \<and> winR rx1 \<le> j" using eff(3,4) Cons.prems(5) by auto
  have below: "{..< winR rx1} \<subseteq> insert k S"
  proof
    fix j assume "j \<in> {..< winR rx1}"
    then show "j \<in> insert k S" using eff(5) Cons.prems(5,6) by (cases "winR rx \<le> j") (auto simp: subset_iff)
  qed
  from Cons.IH [OF eff(1) keep pres below eff(7)] Cons.prems(8) obtain rx2 out2 where
    2: "rx_run b t (map (\<lambda>k. PduArrives now (P ! k)) ks) rx1 = Some (Inr (rx2, out2))" "rx_ok P rx2"
      "to_pdcp out2 = seg ds (winR rx1) (winR rx2)" "winR rx1 \<le> winR rx2"
      "\<forall>j. present rx2 j \<longleftrightarrow> j \<in> insert k S \<union> set ks \<and> winR rx2 \<le> j" "{..< winR rx2} \<subseteq> insert k S \<union> set ks" by auto
  have "to_pdcp (out1 @ out2) = seg ds (winR rx) (winR rx2)"
    using eff(3,6) 2(3,4) seg_append [of "winR rx" "winR rx1" "winR rx2" ds] by simp
  moreover have "rx_run b t (map (\<lambda>k. PduArrives now (P ! k)) (k # ks)) rx = Some (Inr (rx2, out1 @ out2))"
    using 1(1) 2(1) by (simp add: rx_step_def)
  ultimately show ?case using 2(2,4-6) eff(3) by (intro exI [of _ rx2] exI [of _ "out1 @ out2"]) auto
qed

end

section \<open>Sender, link and receiver\<close>

text \<open>The PDUs of a run of a new sender are a stream for every receiver whose statistics find their nodes.\<close>

lemma sender_stream:
  assumes run: "tx_run es (UmTxEntity_initialize info nt i nr qs pf npf) = Inr (tx, acc, pdus)" and "sdus_positive es"
    and "length pdus < 2 ^ 31" and "\<forall>p \<in> set pdus. has_rlc b (stat_node (pdu_info p) owner)"
  obtains ds where "um_stream b pdus ds (tx_carry tx) owner" and "acc = concat ds @ tx_sduQueue tx"
proof -
  let ?tx = "UmTxEntity_initialize info nt i nr qs pf npf"
  have new: "tx_sno ?tx = of_nat 0" "tx_carry ?tx = None" "tx_sduQueue ?tx = []"
    by (simp_all add: UmTxEntity_initialize_def tx_carry_def)
  from tx_run_framed [OF tx_ok_initialize assms(2) new(1)] run new(2,3) obtain ds where
    "framed None 0 pdus = Some (ds, tx_carry tx)" "acc = concat ds @ tx_sduQueue tx" by auto
  with that assms(3,4) show thesis by (simp add: um_stream_def)
qed

lemma rx_initial:
  fixes info :: RlcFlowInfo and owner :: MacNodeId and timeout :: simtime
  assumes "0 < w" and "unat w < 2 ^ 31"
  defines "rx \<equiv> UmRxEntity_initialize info owner w timeout"
  shows "rx_ok P rx" "rx_ownerNodeId rx = owner" "winR rx = 0" "winH rx = 0" "winW rx = unat w"
    "in_step (carry_at P 0) (of_nat 0) rx" "\<not> present rx j" "unopened rx \<longleftrightarrow> fi_direction info = D2D_MULTI"
  using rx_ok_initialize [OF assms(1,2)]
  by (simp_all add: rx_def UmRxEntity_initialize_def in_step_def present_def unopened_def)


text \<open>
  C15. Segmentation and reassembly invert each other: over a link that keeps all PDUs in order the receiver
  delivers exactly the SDUs that have left the queue of the sender, and the rest is still queued there.
\<close>

theorem rlc_um_roundtrip:
  assumes "tx_run es (UmTxEntity_initialize info nt i nr qs pf npf) = Inr (tx, acc, pdus)" and "sdus_positive es"
    and "length pdus < 2 ^ 31" and "\<forall>p \<in> set pdus. has_rlc b (stat_node (pdu_info p) owner)"
    and "0 < w" and "unat w < 2 ^ 31" and "fi_direction info' \<noteq> D2D_MULTI"
  shows "\<exists>rx out. rx_run b t (map (PduArrives now) pdus) (UmRxEntity_initialize info' owner w timeout) = Some (Inr (rx, out)) \<and>
     to_pdcp out @ tx_sduQueue tx = acc"
proof -
  from sender_stream [OF assms(1-4)] obtain ds where st: "um_stream b pdus ds (tx_carry tx) owner" "acc = concat ds @ tx_sduQueue tx" .
  note ini = rx_initial [OF assms(5,6), where info = info' and owner = owner and timeout = timeout]
  have "\<not> unopened (UmRxEntity_initialize info' owner w timeout)" using ini(8) assms(7) by simp
  from um_stream.rx_run_in_order [OF st(1) ini(1,2) this ini(3,4,6), of t now]
  show ?thesis using st(2) seg_all [of ds] um_stream.length_ds [OF st(1)] by auto
qed


section \<open>Examples\<close>

text \<open>Two SDUs in three PDUs: the first is cut, the second PDU ends it and begins the other.\<close>

definition sample_rlc_binder :: Binder where
  "sample_rlc_binder = new_Binder\<lparr>nodeIds := [(1025, 7)]\<rparr>"

definition sample_events :: "tx_event list" where
  "sample_events = [SduArrives (sample_sdu 0 5), MacRequests 6, SduArrives (sample_sdu 1 4), MacRequests 5, MacRequests 9]"

definition sample_run :: "UmTxEntity \<times> LteRlcSdu list \<times> LteRlcUmDataPdu list" where
  "sample_run = (case tx_run sample_events sample_tx of Inr r \<Rightarrow> r | Inl _ \<Rightarrow> (sample_tx, [], []))"

lemma sample_run_facts:
  "tx_run sample_events sample_tx = Inr sample_run"
  "fst (snd sample_run) = [sample_sdu 0 5, sample_sdu 1 4]" "tx_sduQueue (fst sample_run) = []"
  "length (snd (snd sample_run)) = 3" "map pdu_fi (snd (snd sample_run)) = [1, 3, 2]"
  "list_all (\<lambda>p. has_rlc sample_rlc_binder (stat_node (pdu_info p) 1025)) (snd (snd sample_run))"
  "sdus_positive sample_events"
  by code_simp+

definition sample_pdus :: "LteRlcUmDataPdu list" where
  "sample_pdus = snd (snd sample_run)"

lemma sample_sender: "tx_run sample_events (UmTxEntity_initialize sample_info GNODEB 1 False 0 False False) =
    Inr (fst sample_run, [sample_sdu 0 5, sample_sdu 1 4], sample_pdus)"
  using sample_run_facts(1,2) by (metis prod.collapse sample_pdus_def sample_tx_def)

lemma sample_pdus_facts:
  "length sample_pdus = 3" "\<forall>p \<in> set sample_pdus. has_rlc sample_rlc_binder (stat_node (pdu_info p) 1025)"
  using sample_run_facts(4,6) by (simp_all add: sample_pdus_def list_all_iff)

lemma sample_framed: "framed None 0 sample_pdus = Some ([[], [sample_sdu 0 5], [sample_sdu 1 4]], None)"
  by code_simp

interpretation sample_link: um_stream sample_rlc_binder sample_pdus "[[], [sample_sdu 0 5], [sample_sdu 1 4]]" None 1025
  by unfold_locales (use sample_framed sample_pdus_facts in auto)


theorem rlc_um_roundtrip_witness:
  "\<exists>rx out. rx_run sample_rlc_binder 1 (map (PduArrives 5) sample_pdus) (UmRxEntity_initialize sample_info 1025 16 10) =
       Some (Inr (rx, out)) \<and> to_pdcp out = [sample_sdu 0 5, sample_sdu 1 4]"
  using rlc_um_roundtrip [OF sample_sender sample_run_facts(7), of sample_rlc_binder 1025 16 sample_info 1 5 10]
    sample_pdus_facts sample_run_facts(3)
  by (auto simp: sample_info_def)


section \<open>Where the entities fall short\<close>

declare shift_loop.simps [code] first_missing.simps [code] lost_between.simps [code]

text \<open>Five PDUs of one SDU each.\<close>

definition five_pdus :: "LteRlcUmDataPdu list" where
  "five_pdus = (case tx_run (concat (map (\<lambda>k. [SduArrives (sample_sdu k 3), MacRequests 5]) [0..<5])) sample_tx of
     Inr (_, _, pdus) \<Rightarrow> pdus | Inl _ \<Rightarrow> [])"

text \<open>
  The window advances by the distance between the old and the new highest number and not by the number of
  positions it lacks.  With a window of four, PDU 4 after PDUs 0 and 1 needs one position more, but the window
  gives up three: PDU 2, well inside a window that ends at PDU 4, is discarded when it comes.
\<close>

theorem window_advances_too_far:
  "(case rx_run sample_rlc_binder 1 (map (\<lambda>k. PduArrives 5 (five_pdus ! k)) [0, 1, 4]) (UmRxEntity_initialize sample_info 1025 4 10) of
      Some (Inr (rx, out)) \<Rightarrow> firstSno (rx_window rx) = 3 \<and> firstSnoForReordering (rx_window rx) = 3 \<and>
        to_pdcp out = [sample_sdu 0 3, sample_sdu 1 3] \<and>
        (case UmRxEntity_enque sample_rlc_binder 1 6 (five_pdus ! 2) rx of
           Some (Inr (rx', out')) \<Rightarrow> rx' = rx \<and> out' = [] | _ \<Rightarrow> False)
    | _ \<Rightarrow> False)"
  by code_simp

text \<open>
  The test of \<open>handleBurst\<close>: with PDUs in the buffer or no SDU waiting the code takes the branch of an empty
  receiver, so a burst ends while data is outstanding.
\<close>

theorem burst_ends_with_buffered_pdus:
  assumes "rx_isBurst rx" and "cArray_size (rx_pduBuffer rx) \<noteq> 0 \<or> rx_buffered rx = None"
  shows "\<not> rx_isBurst (fst (handleBurst t now ev rx))"
  using assms by (auto simp: handleBurst_def)

text \<open>A PDU of a UE that has left the simulation makes the receiver of the base station fail on the statistics.\<close>

theorem reassemble_unknown_ue_fails:
  assumes "i < length (rx_received rx)" and "rx_received rx ! i" and "cArray_get i (rx_pduBuffer rx) = Some pdu"
    and "sdu_loop True (pdu_fi pdu) (pdu_sno pdu) (pdu_sduList pdu) rx = Inr (rx', out)" and "\<not> rx_resetFlag rx"
    and "\<not> has_rlc b (stat_node (pdu_info pdu) (rx_ownerNodeId rx'))"
  shows "reassemble b i rx = Inl NullDeref"
  using assms by (simp add: reassemble_def vec_at_def Let_def)

end
