(* ===== verification/Conn_Table.thy ===== *)
theory Conn_Table
  imports Convoy_Prelude
begin

text \<open>
  \<^verbatim>\<open>simu5G/src/stack/pdcp_rrc/ConnectionsTable\<close>: the hash table with linear probing that maps a connection to
  its logical identifier (LCID).  A free slot has the identifier 0xFFFF; nothing is ever removed.  The probing
  loops have no bound: \<open>None\<close> is a loop that never ends.  The locale \<open>conn_index\<close> is the interface between the
  probing and the two forms of keys, with and without the direction of the flow.
\<close>

unbundle bit_operations_syntax

section \<open>Connection identifiers\<close>

text \<open>\<^verbatim>\<open>common/LteCommon.cc\<close>: the identifier of a connection at the MAC is a node with a logical identifier.\<close>

type_synonym MacCid = u32

definition idToMacCid :: "MacNodeId \<Rightarrow> LogicalCid \<Rightarrow> MacCid" where
  "idToMacCid nodeId lcid = push_bit 16 (ucast nodeId) OR ucast lcid"

definition MacCidToNodeId :: "MacCid \<Rightarrow> MacNodeId" where
  "MacCidToNodeId cid = ucast (drop_bit 16 cid)"

definition MacCidToLcid :: "MacCid \<Rightarrow> LogicalCid" where
  "MacCidToLcid cid = ucast cid"

lemma MacCid_roundtrip: "MacCidToNodeId (idToMacCid n l) = n" "MacCidToLcid (idToMacCid n l) = l"
proof -
  have "\<not> bit l (16 + k)" for k using bit_imp_le_length [of l "16 + k"] by auto
  then show "MacCidToNodeId (idToMacCid n l) = n" "MacCidToLcid (idToMacCid n l) = l"
    by (auto intro!: bit_word_eqI simp: MacCidToNodeId_def MacCidToLcid_def idToMacCid_def bit_simps)
qed

lemma idToMacCid_inj: "idToMacCid n l = idToMacCid n' l' \<longleftrightarrow> n = n' \<and> l = l'"
  by (metis MacCid_roundtrip)

section \<open>The table\<close>

type_synonym conn_key = "u32 \<times> u32 \<times> 16 word"
type_synonym conn_dir_key = "u32 \<times> u32 \<times> 16 word \<times> 16 word"

record conn_entry =
  ce_srcAddr :: u32
  ce_dstAddr :: u32
  ce_typeOfService :: "16 word"
  ce_dir :: "16 word"
  ce_lcid :: LogicalCid

definition CONN_TABLE_SIZE :: nat where
  "CONN_TABLE_SIZE = 2048"

definition ConnectionsTable :: "conn_entry list" where
  "ConnectionsTable = replicate CONN_TABLE_SIZE
     \<lparr>ce_srcAddr = - 1, ce_dstAddr = - 1, ce_typeOfService = - 1, ce_dir = - 1, ce_lcid = - 1\<rparr>"

definition conn_hash :: "conn_key \<Rightarrow> nat" where
  "conn_hash = (\<lambda>(srcAddr, dstAddr, typeOfService).
     unat ((ucast typeOfService OR srcAddr OR dstAddr) mod (of_nat CONN_TABLE_SIZE :: u32)))"

definition conn_hash_dir :: "conn_dir_key \<Rightarrow> nat" where
  "conn_hash_dir = (\<lambda>(srcAddr, dstAddr, typeOfService, dir).
     unat ((ucast typeOfService OR srcAddr OR dstAddr OR ucast dir) mod (of_nat CONN_TABLE_SIZE :: u32)))"

text \<open>The connection of a slot, as the two forms of the search compare it.\<close>

definition conn_key_of :: "conn_entry \<Rightarrow> conn_key" where
  "conn_key_of e = (ce_srcAddr e, ce_dstAddr e, ce_typeOfService e)"

definition conn_dir_key_of :: "conn_entry \<Rightarrow> conn_dir_key" where
  "conn_dir_key_of e = (ce_srcAddr e, ce_dstAddr e, ce_typeOfService e, ce_dir e)"

text \<open>Probing: the first slot from \<open>hashIndex\<close> on at which the loop stops.\<close>

partial_function (option) probe_loop :: "('e \<Rightarrow> bool) \<Rightarrow> 'e list \<Rightarrow> nat \<Rightarrow> nat option" where
  "probe_loop stop ht hashIndex =
     (if stop (ht ! hashIndex) then Some hashIndex else probe_loop stop ht ((hashIndex + 1) mod length ht))"

definition conn_free :: "conn_entry \<Rightarrow> bool" where
  "conn_free e \<longleftrightarrow> ce_lcid e = 0xFFFF"

definition conn_find :: "conn_key \<Rightarrow> conn_entry list \<Rightarrow> LogicalCid option" where
  "conn_find k ht =
     map_option (\<lambda>i. ce_lcid (ht ! i)) (probe_loop (\<lambda>e. conn_free e \<or> conn_key_of e = k) ht (conn_hash k))"

definition conn_find_dir :: "conn_dir_key \<Rightarrow> conn_entry list \<Rightarrow> LogicalCid option" where
  "conn_find_dir k ht =
     map_option (\<lambda>i. ce_lcid (ht ! i)) (probe_loop (\<lambda>e. conn_free e \<or> conn_dir_key_of e = k) ht (conn_hash_dir k))"

definition conn_create :: "conn_key \<Rightarrow> LogicalCid \<Rightarrow> conn_entry list \<Rightarrow> conn_entry list option" where
  "conn_create k lcid ht = map_option (\<lambda>i. ht[i := (ht ! i)\<lparr>ce_srcAddr := fst k, ce_dstAddr := fst (snd k),
     ce_typeOfService := snd (snd k), ce_lcid := lcid\<rparr>]) (probe_loop conn_free ht (conn_hash k))"

definition conn_create_dir :: "conn_dir_key \<Rightarrow> LogicalCid \<Rightarrow> conn_entry list \<Rightarrow> conn_entry list option" where
  "conn_create_dir k lcid ht = map_option (\<lambda>i. ht[i := \<lparr>ce_srcAddr = fst k, ce_dstAddr = fst (snd k),
     ce_typeOfService = fst (snd (snd k)), ce_dir = snd (snd (snd k)), ce_lcid = lcid\<rparr>]) (probe_loop conn_free ht (conn_hash_dir k))"

section \<open>Probing\<close>

text \<open>\<open>reaches stop ht s j\<close>: probing from slot \<open>s\<close> stops at slot \<open>j\<close>.\<close>

definition reaches :: "('e \<Rightarrow> bool) \<Rightarrow> 'e list \<Rightarrow> nat \<Rightarrow> nat \<Rightarrow> bool" where
  "reaches stop ht s j \<longleftrightarrow> (\<exists>m. j = (s + m) mod length ht \<and> stop (ht ! j) \<and> (\<forall>i < m. \<not> stop (ht ! ((s + i) mod length ht))))"

lemma probe_loop_reaches:
  assumes "s < length ht" and "reaches stop ht s j"
  shows "probe_loop stop ht s = Some j"
proof -
  obtain m where m: "j = (s + m) mod length ht" "stop (ht ! j)" "\<forall>i < m. \<not> stop (ht ! ((s + i) mod length ht))"
    using assms(2) by (auto simp: reaches_def)
  have "k \<le> m \<Longrightarrow> probe_loop stop ht s = probe_loop stop ht ((s + k) mod length ht)" for k
  proof (induction k)
    case 0
    then show ?case using assms(1) by simp
  next
    case (Suc k)
    then have "probe_loop stop ht s = probe_loop stop ht ((s + k) mod length ht)" by simp
    also have "\<dots> = probe_loop stop ht ((s + Suc k) mod length ht)"
      using m(3) Suc.prems by (subst probe_loop.simps) (simp add: mod_Suc_eq)
    finally show ?case .
  qed
  from this [of m] m(1,2) show ?thesis by (simp add: probe_loop.simps)
qed

lemma reaches_exists:
  assumes "s < length ht" and "e \<in> set ht" and "stop e"
  obtains j where "reaches stop ht s j" "j < length ht"
proof -
  let ?slot = "\<lambda>m. (s + m) mod length ht"
  obtain j where j: "j < length ht" "ht ! j = e" using assms(2) by (auto simp: in_set_conv_nth)
  let ?m = "(j + (length ht - s)) mod length ht"
  have "?slot ?m = (s + (j + (length ht - s))) mod length ht" by (simp add: mod_simps)
  also have "s + (j + (length ht - s)) = j + length ht" using assms(1) by simp
  finally have "\<exists>m. stop (ht ! ?slot m)" using j assms(3) by (intro exI [of _ ?m]) simp
  then have "reaches stop ht s (?slot (LEAST m. stop (ht ! ?slot m)))"
    unfolding reaches_def by (intro exI [of _ "LEAST m. stop (ht ! ?slot m)"]) (auto intro: LeastI_ex dest: not_less_Least)
  with assms(1) that show thesis by (metis mod_less_divisor gr_zeroI not_less_zero)
qed

text \<open>Writing a slot at which the probing did not pass leaves the result.\<close>

lemma reaches_update:
  assumes "reaches stop ht s j" and "i \<noteq> j" and "i < length ht" and "stop (ht ! i)"
  shows "reaches stop (ht[i := x]) s j"
proof -
  obtain m where m: "j = (s + m) mod length ht" "stop (ht ! j)" "\<forall>k < m. \<not> stop (ht ! ((s + k) mod length ht))"
    using assms(1) by (auto simp: reaches_def)
  have "(s + k) mod length ht \<noteq> i" if "k < m" for k using m(3) that assms(4) by auto
  then have "ht[i := x] ! ((s + k) mod length ht) = ht ! ((s + k) mod length ht)" if "k < m" for k
    using that by (metis nth_list_update_neq)
  with m assms(2) show ?thesis unfolding reaches_def by (intro exI [of _ m]) simp
qed

section \<open>The interface of the two forms of keys\<close>

text \<open>How the PDCP modules use a table: look up, and create with the next identifier what is not found.\<close>

definition assign_lcid ::
  "('k \<Rightarrow> conn_entry list \<Rightarrow> LogicalCid option) \<Rightarrow> ('k \<Rightarrow> LogicalCid \<Rightarrow> conn_entry list \<Rightarrow> conn_entry list option) \<Rightarrow>
   'k \<Rightarrow> LogicalCid \<times> conn_entry list \<Rightarrow> (LogicalCid \<times> LogicalCid \<times> conn_entry list) option" where
  "assign_lcid look enter k = (\<lambda>(lcid, ht). case look k ht of
       None \<Rightarrow> None
     | Some l \<Rightarrow> if l \<noteq> 0xFFFF then Some (l, lcid, ht)
                 else (case enter k lcid ht of None \<Rightarrow> None | Some ht \<Rightarrow> Some (lcid, lcid + 1, ht)))"

fun assign_all ::
  "('k \<Rightarrow> LogicalCid \<times> conn_entry list \<Rightarrow> (LogicalCid \<times> LogicalCid \<times> conn_entry list) option) \<Rightarrow>
   'k list \<Rightarrow> LogicalCid \<times> conn_entry list \<Rightarrow> (LogicalCid list \<times> LogicalCid \<times> conn_entry list) option" where
  "assign_all asg [] s = Some ([], s)"
| "assign_all asg (k # ks) s = (case asg k s of None \<Rightarrow> None
     | Some (l, s) \<Rightarrow> (case assign_all asg ks s of None \<Rightarrow> None | Some (ls, s) \<Rightarrow> Some (l # ls, s)))"

text \<open>The reference: connections are numbered from 1 in the order of their first packets.\<close>

definition rank :: "'k list \<Rightarrow> 'k \<Rightarrow> nat" where
  "rank seen k = Suc (length (takeWhile (\<lambda>x. x \<noteq> k) seen))"

fun first_numbers :: "'k list \<Rightarrow> 'k list \<Rightarrow> nat list" where
  "first_numbers seen [] = []"
| "first_numbers seen (k # ks) =
     (if k \<in> set seen then rank seen k # first_numbers seen ks
      else Suc (length seen) # first_numbers (seen @ [k]) ks)"

lemma rank_append: "k \<in> set seen \<Longrightarrow> rank (seen @ xs) k = rank seen k"
  by (simp add: rank_def takeWhile_append1)

lemma rank_new: "k \<notin> set seen \<Longrightarrow> rank (seen @ [k]) k = Suc (length seen)"
  by (induction seen) (auto simp: rank_def)

lemma rank_le: "k \<in> set seen \<Longrightarrow> rank seen k \<le> length seen"
  by (induction seen) (auto simp: rank_def)

text \<open>The table holds the connections \<open>seen\<close> so far, each found from its hash.\<close>

definition holds ::
  "('k \<Rightarrow> nat) \<Rightarrow> (conn_entry \<Rightarrow> 'k) \<Rightarrow> 'k list \<Rightarrow> conn_entry list \<Rightarrow> bool" where
  "holds hash key seen ht \<longleftrightarrow> length ht = CONN_TABLE_SIZE \<and>
     (\<forall>j < length ht. \<not> conn_free (ht ! j) \<longrightarrow> key (ht ! j) \<in> set seen \<and>
        ce_lcid (ht ! j) = of_nat (rank seen (key (ht ! j))) \<and>
        reaches (\<lambda>e. conn_free e \<or> key e = key (ht ! j)) ht (hash (key (ht ! j))) j) \<and>
     (\<forall>k \<in> set seen. \<exists>j < length ht. \<not> conn_free (ht ! j) \<and> key (ht ! j) = k)"

locale conn_index =
  fixes hash :: "'k \<Rightarrow> nat" and key :: "conn_entry \<Rightarrow> 'k" and put :: "'k \<Rightarrow> LogicalCid \<Rightarrow> conn_entry \<Rightarrow> conn_entry"
    and look :: "'k \<Rightarrow> conn_entry list \<Rightarrow> LogicalCid option"
    and enter :: "'k \<Rightarrow> LogicalCid \<Rightarrow> conn_entry list \<Rightarrow> conn_entry list option"
  assumes hash_less: "hash k < CONN_TABLE_SIZE"
    and key_put: "key (put k l e) = k"
    and lcid_put: "ce_lcid (put k l e) = l"
    and find_eq: "look k ht = map_option (\<lambda>i. ce_lcid (ht ! i)) (probe_loop (\<lambda>e. conn_free e \<or> key e = k) ht (hash k))"
    and create_eq: "enter k l ht = map_option (\<lambda>i. ht[i := put k l (ht ! i)]) (probe_loop conn_free ht (hash k))"
begin

lemma find_old:
  assumes "holds hash key seen ht" and "k \<in> set seen" and "length seen < CONN_TABLE_SIZE"
  shows "assign_lcid look enter k (lcid, ht) = Some (of_nat (rank seen k), lcid, ht)"
proof -
  obtain j where j: "j < length ht" "\<not> conn_free (ht ! j)" "key (ht ! j) = k"
    using assms(1,2) by (auto simp: holds_def)
  then have "reaches (\<lambda>e. conn_free e \<or> key e = k) ht (hash k) j" and lcid: "ce_lcid (ht ! j) = of_nat (rank seen k)"
    using assms(1) by (auto simp: holds_def)
  moreover have "hash k < length ht" using assms(1) hash_less by (simp add: holds_def)
  ultimately have "look k ht = Some (ce_lcid (ht ! j))" by (simp add: find_eq probe_loop_reaches)
  with lcid j(2) show ?thesis by (simp add: assign_lcid_def conn_free_def)
qed

lemma free_slot:
  assumes "holds hash key seen ht" and "length seen < CONN_TABLE_SIZE"
  shows "\<exists>e \<in> set ht. conn_free e"
proof (rule ccontr)
  assume "\<not> ?thesis"
  then have used: "\<not> conn_free (ht ! j)" if "j < length ht" for j using that by auto
  have "inj_on (\<lambda>j. key (ht ! j)) {..<length ht}"
  proof (rule inj_onI)
    fix i j assume "i \<in> {..<length ht}" "j \<in> {..<length ht}" and eq: "key (ht ! i) = key (ht ! j)"
    then have r: "reaches (\<lambda>e. conn_free e \<or> key e = key (ht ! i)) ht (hash (key (ht ! i))) i"
      "reaches (\<lambda>e. conn_free e \<or> key e = key (ht ! i)) ht (hash (key (ht ! i))) j"
      using assms(1) used by (auto simp: holds_def)
    have less: "hash (key (ht ! i)) < length ht" using assms(1) hash_less by (simp add: holds_def)
    from probe_loop_reaches [OF less r(1)] probe_loop_reaches [OF less r(2)] show "i = j" by simp
  qed
  then have "card {..<length ht} = card ((\<lambda>j. key (ht ! j)) ` {..<length ht})" by (simp add: card_image)
  also have "\<dots> \<le> card (set seen)" using assms(1) used by (intro card_mono) (auto simp: holds_def)
  also have "\<dots> \<le> length seen" by (rule card_length)
  finally show False using assms by (simp add: holds_def)
qed

lemma find_new:
  assumes h: "holds hash key seen ht" and new: "k \<notin> set seen" and room: "length seen < CONN_TABLE_SIZE"
  obtains j where "j < length ht" "conn_free (ht ! j)" "reaches (\<lambda>e. conn_free e \<or> key e = k) ht (hash k) j"
    "look k ht = Some 0xFFFF" "enter k l ht = Some (ht[j := put k l (ht ! j)])"
proof -
  have hash: "hash k < length ht" using h hash_less by (simp add: holds_def)
  obtain e where "e \<in> set ht" "conn_free e" using free_slot [OF h room] by blast
  from reaches_exists [OF hash this(1), of "\<lambda>e. conn_free e \<or> key e = k"] this(2) obtain j where
    j: "reaches (\<lambda>e. conn_free e \<or> key e = k) ht (hash k) j" "j < length ht" by blast
  have other: "key (ht ! i) \<noteq> k" if "i < length ht" "\<not> conn_free (ht ! i)" for i using h new that by (auto simp: holds_def)
  have free: "conn_free (ht ! j)" using j other by (auto simp: reaches_def)
  have "reaches conn_free ht (hash k) j" using j(1) free by (auto simp: reaches_def)
  with j free hash that show thesis by (auto simp: find_eq create_eq probe_loop_reaches conn_free_def)
qed

lemma assign_new:
  assumes h: "holds hash key seen ht" and new: "k \<notin> set seen" and room: "Suc (length seen) < CONN_TABLE_SIZE"
  obtains ht' where "assign_lcid look enter k (of_nat (Suc (length seen)), ht) =
      Some (of_nat (Suc (length seen)), of_nat (Suc (Suc (length seen))), ht')"
    "holds hash key (seen @ [k]) ht'"
proof -
  let ?l = "of_nat (Suc (length seen)) :: LogicalCid"
  from find_new [OF h new, of ?l] room obtain j where
    j: "j < length ht" "conn_free (ht ! j)" "reaches (\<lambda>e. conn_free e \<or> key e = k) ht (hash k) j"
      "look k ht = Some 0xFFFF" "enter k ?l ht = Some (ht[j := put k ?l (ht ! j)])" by auto
  let ?e = "put k ?l (ht ! j)"
  have "Suc (length seen) < 2048" using room by (simp add: CONN_TABLE_SIZE_def)
  then have "unat ?l = Suc (length seen)" by (simp only: unat_of_nat) (simp add: take_bit_nat_eq_self)
  have "?l \<noteq> 0xFFFF"
  proof
    assume "?l = 0xFFFF"
    then have "unat ?l = 65535" by simp
    with \<open>unat ?l = Suc (length seen)\<close> \<open>Suc (length seen) < 2048\<close> show False by simp
  qed
  then have used: "\<not> conn_free ?e" by (simp add: conn_free_def lcid_put)
  have "holds hash key (seen @ [k]) (ht[j := ?e])"
    unfolding holds_def
  proof (intro conjI allI impI ballI)
    show "length (ht[j := ?e]) = CONN_TABLE_SIZE" using h by (simp add: holds_def)
  next
    fix i assume i: "i < length (ht[j := ?e])" "\<not> conn_free (ht[j := ?e] ! i)"
    have "key (ht[j := ?e] ! i) \<in> set (seen @ [k]) \<and> ce_lcid (ht[j := ?e] ! i) = of_nat (rank (seen @ [k]) (key (ht[j := ?e] ! i))) \<and>
      reaches (\<lambda>e. conn_free e \<or> key e = key (ht[j := ?e] ! i)) (ht[j := ?e]) (hash (key (ht[j := ?e] ! i))) i"
    proof (cases "i = j")
      case True
      obtain m where "j = (hash k + m) mod length ht" "\<forall>x < m. \<not> (conn_free (ht ! ((hash k + x) mod length ht)) \<or> key (ht ! ((hash k + x) mod length ht)) = k)"
        using j(3) by (auto simp: reaches_def)
      moreover from this(2) j(2) have "(hash k + x) mod length ht \<noteq> j" if "x < m" for x using that by auto
      ultimately have "reaches (\<lambda>e. conn_free e \<or> key e = k) (ht[j := ?e]) (hash k) j"
        unfolding reaches_def using j(1) key_put by (intro exI [of _ m]) (simp, metis nth_list_update_neq)
      with True j(1) new show ?thesis by (simp add: key_put lcid_put rank_new)
    next
      case False
      then have "\<not> conn_free (ht ! i)" "i < length ht" using i by auto
      with h have "key (ht ! i) \<in> set seen" "ce_lcid (ht ! i) = of_nat (rank seen (key (ht ! i)))"
        "reaches (\<lambda>e. conn_free e \<or> key e = key (ht ! i)) ht (hash (key (ht ! i))) i" by (auto simp: holds_def)
      with False j(1,2) reaches_update [of _ ht "hash (key (ht ! i))" i j ?e] show ?thesis by (simp add: rank_append)
    qed
    then show "key (ht[j := ?e] ! i) \<in> set (seen @ [k])"
      "ce_lcid (ht[j := ?e] ! i) = of_nat (rank (seen @ [k]) (key (ht[j := ?e] ! i)))"
      "reaches (\<lambda>e. conn_free e \<or> key e = key (ht[j := ?e] ! i)) (ht[j := ?e]) (hash (key (ht[j := ?e] ! i))) i" by auto
  next
    fix k' assume "k' \<in> set (seen @ [k])"
    then consider "k' = k" | "k' \<in> set seen" by auto
    then show "\<exists>i < length (ht[j := ?e]). \<not> conn_free (ht[j := ?e] ! i) \<and> key (ht[j := ?e] ! i) = k'"
    proof cases
      case 1
      with j(1) used show ?thesis by (intro exI [of _ j]) (simp add: key_put)
    next
      case 2
      then obtain i where "i < length ht" "\<not> conn_free (ht ! i)" "key (ht ! i) = k'" using h by (auto simp: holds_def)
      moreover from this j(2) have "j \<noteq> i" by auto
      ultimately show ?thesis by (intro exI [of _ i]) simp
    qed
  qed
  moreover have "assign_lcid look enter k (?l, ht) = Some (?l, of_nat (Suc (Suc (length seen))), ht[j := ?e])"
    using j(4,5) by (simp add: assign_lcid_def add.commute)
  ultimately show thesis by (intro that)
qed

lemma assign_all_numbers:
  assumes "holds hash key seen ht" and "distinct seen" and "card (set seen \<union> set ks) < CONN_TABLE_SIZE"
  shows "\<exists>s. assign_all (assign_lcid look enter) ks (of_nat (Suc (length seen)), ht) = Some (map of_nat (first_numbers seen ks), s)"
  using assms
proof (induction ks arbitrary: seen ht)
  case Nil
  then show ?case by simp
next
  case (Cons k ks)
  have "length seen \<le> card (set seen \<union> set (k # ks))"
    using Cons.prems(2) by (metis List.finite_set card_mono distinct_card finite_Un sup_ge1)
  then have room: "length seen < CONN_TABLE_SIZE" using Cons.prems(3) by simp
  show ?case
  proof (cases "k \<in> set seen")
    case True
    then have "set seen \<union> set (k # ks) = set seen \<union> set ks" by auto
    with Cons.IH [OF Cons.prems(1,2)] Cons.prems(3) find_old [OF Cons.prems(1) True room] True show ?thesis by auto
  next
    case False
    have "card (set (seen @ [k])) \<le> card (set seen \<union> set (k # ks))" by (intro card_mono) auto
    then have "Suc (length seen) < CONN_TABLE_SIZE" using Cons.prems(2,3) False by (simp add: distinct_card)
    from assign_new [OF Cons.prems(1) False this] obtain ht' where
      1: "assign_lcid look enter k (of_nat (Suc (length seen)), ht) = Some (of_nat (Suc (length seen)), of_nat (Suc (Suc (length seen))), ht')"
        "holds hash key (seen @ [k]) ht'" by metis
    have "set (seen @ [k]) \<union> set ks = set seen \<union> set (k # ks)" by auto
    with Cons.IH [OF 1(2)] Cons.prems(2,3) False 1(1) show ?thesis by auto
  qed
qed

end

section \<open>Both forms of keys\<close>

lemma conn_mod_less: "unat (w mod (of_nat CONN_TABLE_SIZE :: u32)) < CONN_TABLE_SIZE"
  by (simp add: CONN_TABLE_SIZE_def unat_mod)

lemma conn_hash_less: "conn_hash k < CONN_TABLE_SIZE" "conn_hash_dir k' < CONN_TABLE_SIZE"
  by (simp_all only: conn_hash_def conn_hash_dir_def split_def conn_mod_less)

interpretation plain: conn_index conn_hash conn_key_of
  "\<lambda>k l e. e\<lparr>ce_srcAddr := fst k, ce_dstAddr := fst (snd k), ce_typeOfService := snd (snd k), ce_lcid := l\<rparr>"
  conn_find conn_create
  by unfold_locales (simp_all add: conn_hash_less conn_key_of_def conn_find_def conn_create_def)

interpretation directed: conn_index conn_hash_dir conn_dir_key_of
  "\<lambda>k l e. \<lparr>ce_srcAddr = fst k, ce_dstAddr = fst (snd k), ce_typeOfService = fst (snd (snd k)), ce_dir = snd (snd (snd k)), ce_lcid = l\<rparr>"
  conn_find_dir conn_create_dir
  by unfold_locales (simp_all add: conn_hash_less conn_dir_key_of_def conn_find_dir_def conn_create_dir_def)

lemma holds_empty: "holds hash key [] ConnectionsTable"
  by (simp add: holds_def ConnectionsTable_def conn_free_def)

text \<open>
  C23. Logical identifiers.  While there are fewer connections than slots, with or without the direction in the
  key, every search ends and the table behaves as the list of the connections in the order of their first
  packets: a connection has the same identifier in all its packets, and different connections have different ones.
\<close>

theorem connections_numbered:
  assumes "card (set ks) < CONN_TABLE_SIZE" and "card (set ks') < CONN_TABLE_SIZE"
  shows "(\<exists>s. assign_all (assign_lcid conn_find conn_create) ks (1, ConnectionsTable) = Some (map of_nat (first_numbers [] ks), s)) \<and>
    (\<exists>s. assign_all (assign_lcid conn_find_dir conn_create_dir) ks' (1, ConnectionsTable) = Some (map of_nat (first_numbers [] ks'), s))"
  using plain.assign_all_numbers [OF holds_empty, of ks] directed.assign_all_numbers [OF holds_empty, of ks'] assms by auto

theorem connections_numbered_witness:
  "(\<exists>s. assign_all (assign_lcid conn_find conn_create) [(1, 2, 0), (2, 1, 0), (1, 2, 0)] (1, ConnectionsTable) = Some ([1, 2, 1], s)) \<and>
   (\<exists>s. assign_all (assign_lcid conn_find_dir conn_create_dir) [(1, 2, 0, 0), (1, 2, 0, 2), (3, 0, 0, 0), (1, 2, 0, 2)] (1, ConnectionsTable) =
      Some ([1, 2, 3, 2], s))"
proof -
  have "card (set [(1, 2, 0), (2, 1, 0), (1, 2, 0)] :: conn_key set) < CONN_TABLE_SIZE"
    by (rule le_less_trans [OF card_length]) (simp add: CONN_TABLE_SIZE_def)
  moreover have "card (set [(1, 2, 0, 0), (1, 2, 0, 2), (3, 0, 0, 0), (1, 2, 0, 2)] :: conn_dir_key set) < CONN_TABLE_SIZE"
    by (rule le_less_trans [OF card_length]) (simp add: CONN_TABLE_SIZE_def)
  ultimately show ?thesis using connections_numbered by (fastforce simp: rank_def)
qed

end
