(* ===== verification/Rlc_Um.thy ===== *)
theory Rlc_Um
  imports Rlc_Um_Link Conn_Table
begin

text \<open>
  The RLC UM module, \<^verbatim>\<open>simu5G/src/stack/rlc/um/LteRlcUm\<close> and its variant \<^verbatim>\<open>LteRlcUmD2D\<close>: one sending and
  one receiving entity per connection, created on first use; the paths of packets between PDCP, the entities
  and the MAC; the deletion of entities at a handover; the throughput counters; and the hand-over of traffic
  from an old to a new connection when a device-to-device link changes its mode.  The entities a peer shares
  are a set of pointers in the source; they are named by their connection identifiers here.
\<close>

section \<open>Connection identifiers\<close>

definition ctrlInfoToUeId :: "RlcFlowInfo \<Rightarrow> MacNodeId res" where
  "ctrlInfoToUeId info = (case fi_direction info of
       DL \<Rightarrow> Inr (fi_destId info) | D2D \<Rightarrow> Inr (fi_destId info)
     | UL \<Rightarrow> Inr (fi_sourceId info) | D2D_MULTI \<Rightarrow> Inr (fi_sourceId info)
     | UNKNOWN_DIRECTION \<Rightarrow> Inl (RuntimeError ''ctrlInfoToMacCid - unknown direction''))"

section \<open>State\<close>

text \<open>\<open>um_d2d\<close> selects the variant.  The remaining fields of the first group are what new entities read.\<close>

record LteRlcUm =
  um_d2d :: bool
  um_nodeType :: RanNodeType
  um_macNodeId :: MacNodeId
  um_nrRlc :: bool
  um_queueSize :: u32
  um_packetFlowManager :: bool
  um_nrPacketFlowManager :: bool
  um_rxWindowSize :: u32
  um_timeout :: simtime
  um_TTI :: simtime
  mapAllLcidsToSingleBearer :: bool
  txEntities :: "(MacCid, UmTxEntity) smap"
  rxEntities :: "(MacCid, UmRxEntity) smap"
  ulThroughput :: "(MacNodeId, u32 \<times> simtime) smap"
  perPeerTxEntities :: "(MacNodeId, MacCid sset) smap"

text \<open>Packets to the MAC, packets and notifications to PDCP.\<close>

datatype um_out = ToLower tx_out | ToUpper rx_out | SwitchToUpper

datatype um_lower_msg =
  MacSduRequest u32 | RlcPdu LteRlcUmDataPdu | D2DModeSwitchNotification bool bool LteD2DMode bool

definition new_tx_entity :: "RlcFlowInfo \<Rightarrow> LteRlcUm \<Rightarrow> UmTxEntity" where
  "new_tx_entity info um = UmTxEntity_initialize info (um_nodeType um) (um_macNodeId um) (um_nrRlc um) (um_queueSize um)
     (um_packetFlowManager um) (um_nrPacketFlowManager um)"

definition new_rx_entity :: "RlcFlowInfo \<Rightarrow> LteRlcUm \<Rightarrow> UmRxEntity" where
  "new_rx_entity info um = UmRxEntity_initialize info (um_macNodeId um) (um_rxWindowSize um) (um_timeout um)"

section \<open>Operations\<close>

definition isEmptyingTxBuffer :: "MacNodeId \<Rightarrow> LteRlcUm \<Rightarrow> bool" where
  "isEmptyingTxBuffer peerId um \<longleftrightarrow> um_d2d um \<and> peerId \<noteq> 0 \<and>
     (case map_of (perPeerTxEntities um) peerId of None \<Rightarrow> False
      | Some cids \<Rightarrow> list_ex (\<lambda>cid. case map_of (txEntities um) cid of None \<Rightarrow> False | Some tx \<Rightarrow> tx_notifyEmptyBuffer tx) cids)"

text \<open>The connection of a packet on the sending side, with the entity created if there is none.\<close>

definition tx_cid :: "RlcFlowInfo \<Rightarrow> LteRlcUm \<Rightarrow> MacCid res" where
  "tx_cid info um = rbind (ctrlInfoToUeId info) (\<lambda>nodeId.
     Inr (idToMacCid nodeId (if \<not> um_d2d um \<and> mapAllLcidsToSingleBearer um then 1 else fi_lcid info)))"

definition add_peer :: "MacNodeId \<Rightarrow> MacCid \<Rightarrow> LteRlcUm \<Rightarrow> LteRlcUm" where
  "add_peer peer cid um =
     (if um_d2d um \<and> peer \<noteq> 0
      then (let (cids, m) = smap_index [] peer (perPeerTxEntities um)
            in um\<lparr>perPeerTxEntities := smap_upd peer (sset_ins cid cids) m\<rparr>) else um)"

definition getTxBuffer :: "RlcFlowInfo \<Rightarrow> LteRlcUm \<Rightarrow> (MacCid \<times> UmTxEntity \<times> LteRlcUm) res" where
  "getTxBuffer info um = rbind (tx_cid info um) (\<lambda>cid.
     case map_of (txEntities um) cid of
       Some tx \<Rightarrow> Inr (cid, tx, um)
     | None \<Rightarrow>
         let tx = new_tx_entity info um;
             um = add_peer (fi_d2dRxPeerId info) cid (um\<lparr>txEntities := smap_upd cid tx (txEntities um)\<rparr>);
             tx = (if isEmptyingTxBuffer (fi_d2dRxPeerId info) um then tx\<lparr>tx_holdingDownstreamInPackets := True\<rparr> else tx)
         in Inr (cid, tx, um\<lparr>txEntities := smap_upd cid tx (txEntities um)\<rparr>))"

definition rx_cid :: "RlcFlowInfo \<Rightarrow> MacCid" where
  "rx_cid info = idToMacCid (if fi_direction info = DL then fi_destId info else fi_sourceId info) (fi_lcid info)"

definition getRxBuffer :: "RlcFlowInfo \<Rightarrow> LteRlcUm \<Rightarrow> MacCid \<times> UmRxEntity \<times> LteRlcUm" where
  "getRxBuffer info um =
     (case map_of (rxEntities um) (rx_cid info) of
        Some rx \<Rightarrow> (rx_cid info, rx, um)
      | None \<Rightarrow> let rx = new_rx_entity info um
                in (rx_cid info, rx, um\<lparr>rxEntities := smap_upd (rx_cid info) rx (rxEntities um)\<rparr>))"

definition put_tx :: "MacCid \<Rightarrow> UmTxEntity \<Rightarrow> LteRlcUm \<Rightarrow> LteRlcUm" where
  "put_tx cid tx um = um\<lparr>txEntities := smap_upd cid tx (txEntities um)\<rparr>"

definition put_rx :: "MacCid \<Rightarrow> UmRxEntity \<Rightarrow> LteRlcUm \<Rightarrow> LteRlcUm" where
  "put_rx cid rx um = um\<lparr>rxEntities := smap_upd cid rx (rxEntities um)\<rparr>"

definition addUeThroughput :: "MacNodeId \<Rightarrow> u32 \<Rightarrow> simtime \<Rightarrow> LteRlcUm \<Rightarrow> LteRlcUm" where
  "addUeThroughput nodeId bytes time um = um\<lparr>ulThroughput :=
     (case map_of (ulThroughput um) nodeId of
        None \<Rightarrow> smap_upd nodeId (bytes, time) (ulThroughput um)
      | Some (n, t) \<Rightarrow> smap_upd nodeId (n + bytes, t + time) (ulThroughput um))\<rparr>"

definition getUeThroughput :: "(simtime \<Rightarrow> real) \<Rightarrow> MacNodeId \<Rightarrow> LteRlcUm \<Rightarrow> real" where
  "getUeThroughput dbl nodeId um = (case map_of (ulThroughput um) nodeId of
     None \<Rightarrow> 0 | Some (n, t) \<Rightarrow> real (unat n) / dbl t)"

definition resetThroughputStats :: "MacNodeId \<Rightarrow> LteRlcUm \<Rightarrow> LteRlcUm" where
  "resetThroughputStats nodeId um = (if map_of (ulThroughput um) nodeId = None then um
     else um\<lparr>ulThroughput := smap_upd nodeId (0, 0) (ulThroughput um)\<rparr>)"

text \<open>The entities of a peer take up the packets they hold.\<close>

fun resume_peers :: "MacCid list \<Rightarrow> LteRlcUm \<Rightarrow> LteRlcUm \<times> um_out list" where
  "resume_peers [] um = (um, [])"
| "resume_peers (cid # cids) um =
     (case map_of (txEntities um) cid of
        Some tx \<Rightarrow>
          if tx_holdingDownstreamInPackets tx
          then (let (tx, out) = UmTxEntity_resumeDownstreamInPackets tx; (um, out') = resume_peers cids (put_tx cid tx um)
                in (um, map ToLower out @ out'))
          else resume_peers cids um
      | None \<Rightarrow> resume_peers cids um)"

definition LteRlcUm_resumeDownstreamInPackets :: "MacNodeId \<Rightarrow> LteRlcUm \<Rightarrow> LteRlcUm \<times> um_out list" where
  "LteRlcUm_resumeDownstreamInPackets peerId um =
     (if \<not> um_d2d um \<or> peerId = 0 then (um, [])
      else case map_of (perPeerTxEntities um) peerId of None \<Rightarrow> (um, []) | Some cids \<Rightarrow> resume_peers cids um)"

text \<open>The calls of an entity on the module.\<close>

fun tx_calls :: "tx_out list \<Rightarrow> LteRlcUm \<Rightarrow> LteRlcUm \<times> um_out list" where
  "tx_calls [] um = (um, [])"
| "tx_calls (ResumeDownstreamInPackets peer # out) um =
     (let (um, o1) = LteRlcUm_resumeDownstreamInPackets peer um; (um, o2) = tx_calls out um in (um, o1 @ o2))"
| "tx_calls (c # out) um = (let (um, o2) = tx_calls out um in (um, ToLower c # o2))"

fun rx_calls :: "rx_out list \<Rightarrow> LteRlcUm \<Rightarrow> LteRlcUm \<times> um_out list" where
  "rx_calls [] um = (um, [])"
| "rx_calls (AddUeThroughput i n t # out) um = rx_calls out (addUeThroughput i n t um)"
| "rx_calls (c # out) um = (let (um, o2) = rx_calls out um in (um, ToUpper c # o2))"

text \<open>A packet from PDCP: \<open>pkt\<close> with \<open>bytes\<close> bytes.\<close>

definition handleUpperMessage :: "RlcFlowInfo \<Rightarrow> nat \<Rightarrow> int \<Rightarrow> LteRlcUm \<Rightarrow> (LteRlcUm \<times> um_out list) res" where
  "handleUpperMessage info pkt bytes um =
     rbind (getTxBuffer info um) (\<lambda>(cid, tx, um).
       let sdu = \<lparr>sdu_pkt = pkt, snoMainPacket = fi_sequenceNumber info, lengthMainPacket = word_of_int bytes,
                  sdu_byteLength = bytes + 1\<rparr>
       in if tx_holdingDownstreamInPackets tx then Inr (put_tx cid (enqueHoldingPackets sdu tx) um, [])
          else (let (stored, tx) = UmTxEntity_enque sdu tx
                in Inr (put_tx cid tx um, [ToLower (if stored then NewDataToMac sdu else DropBufferOverflow sdu)])))"

definition LteRlcUm_handleLowerMessage ::
  "Binder \<Rightarrow> simtime \<Rightarrow> RlcFlowInfo \<Rightarrow> um_lower_msg \<Rightarrow> LteRlcUm \<Rightarrow> (LteRlcUm \<times> um_out list) run" where
  "LteRlcUm_handleLowerMessage b now info msg um = (case msg of
       MacSduRequest sz \<Rightarrow>
         Some (rbind (getTxBuffer info um) (\<lambda>(cid, tx, um).
               rbind (rlcPduMake (sint sz) tx) (\<lambda>(tx, out). Inr (tx_calls out (put_tx cid tx um)))))
     | RlcPdu pdu \<Rightarrow>
         let (cid, rx, um) = getRxBuffer info um
         in run_bind (UmRxEntity_enque b (um_TTI um) now pdu rx) (\<lambda>(rx, out).
              Some (Inr (rx_calls out (put_rx cid rx um))))
     | D2DModeSwitchNotification txSide oldConnection oldMode clearRlcBuffer \<Rightarrow>
         if \<not> um_d2d um then Some (Inl CastError)
         else if txSide
         then Some (rbind (getTxBuffer info um) (\<lambda>(cid, tx, um).
                let emptying = isEmptyingTxBuffer (fi_d2dRxPeerId (tx_flowControlInfo tx)) um
                in Inr (put_tx cid (UmTxEntity_rlcHandleD2DModeSwitch emptying oldConnection clearRlcBuffer tx) um, [SwitchToUpper])))
         else (let (cid, rx, um) = getRxBuffer info um
               in Some (rbind (UmRxEntity_rlcHandleD2DModeSwitch b oldConnection oldMode clearRlcBuffer rx) (\<lambda>(rx, out).
                    Inr (rx_calls out (put_rx cid rx um))))))"

text \<open>The timer of a receiving entity.\<close>

definition rx_timer :: "Binder \<Rightarrow> simtime \<Rightarrow> MacCid \<Rightarrow> LteRlcUm \<Rightarrow> (LteRlcUm \<times> um_out list) res" where
  "rx_timer b now cid um = (case map_of (rxEntities um) cid of
       None \<Rightarrow> Inr (um, [])
     | Some rx \<Rightarrow> rbind (UmRxEntity_handleMessage b now rx) (\<lambda>(rx, out). Inr (rx_calls out (put_rx cid rx um))))"

text \<open>At the UE all connections go, at a base station those of the given UE; multicast connections stay in the
  variant for D2D.\<close>

definition doomed :: "LteRlcUm \<Rightarrow> MacNodeId \<Rightarrow> MacCid \<Rightarrow> Direction \<Rightarrow> bool" where
  "doomed um nodeId cid dir \<longleftrightarrow> \<not> (um_d2d um \<and> dir = D2D_MULTI) \<and>
     (if um_nodeType um = ENODEB \<or> um_nodeType um = GNODEB then MacCidToNodeId cid = nodeId else True)"

definition deleteQueues :: "MacNodeId \<Rightarrow> LteRlcUm \<Rightarrow> LteRlcUm" where
  "deleteQueues nodeId um =
     um\<lparr>txEntities := filter (\<lambda>(cid, tx). \<not> doomed um nodeId cid (fi_direction (tx_flowControlInfo tx))) (txEntities um),
        rxEntities := filter (\<lambda>(cid, rx). \<not> doomed um nodeId cid (fi_direction (rx_flowControlInfo rx))) (rxEntities um),
        perPeerTxEntities := (if um_d2d um then [] else perPeerTxEntities um)\<rparr>"

definition activeUeUL :: "LteRlcUm \<Rightarrow> MacNodeId sset \<Rightarrow> MacNodeId sset" where
  "activeUeUL um ueSet = fold (\<lambda>(cid, rx) s. if UmRxEntity_isEmpty rx then s else sset_ins (MacCidToNodeId cid) s) (rxEntities um) ueSet"

section \<open>Flows do not interfere\<close>

text \<open>What the sending side of the module sees: packets from PDCP and requests of the MAC, of many flows.\<close>

datatype um_event = UpperPacket RlcFlowInfo nat int | LowerRequest RlcFlowInfo u32

definition um_step :: "Binder \<Rightarrow> simtime \<Rightarrow> um_event \<Rightarrow> LteRlcUm \<Rightarrow> (LteRlcUm \<times> um_out list) run" where
  "um_step b now ev um = (case ev of
       UpperPacket info pkt bytes \<Rightarrow> Some (handleUpperMessage info pkt bytes um)
     | LowerRequest info sz \<Rightarrow> LteRlcUm_handleLowerMessage b now info (MacSduRequest sz) um)"

fun um_run :: "Binder \<Rightarrow> simtime \<Rightarrow> um_event list \<Rightarrow> LteRlcUm \<Rightarrow> (LteRlcUm \<times> (um_event \<times> um_out list) list) run" where
  "um_run b now [] um = Some (Inr (um, []))"
| "um_run b now (ev # evs) um =
     run_bind (um_step b now ev um) (\<lambda>(um, out).
     run_bind (um_run b now evs um) (\<lambda>(um, trace). Some (Inr (um, (ev, out) # trace))))"

text \<open>The flow of an event, the event as its entity sees it, and the PDUs with data among the outputs.\<close>

definition ev_info :: "um_event \<Rightarrow> RlcFlowInfo" where
  "ev_info ev = (case ev of UpperPacket info _ _ \<Rightarrow> info | LowerRequest info _ \<Rightarrow> info)"

definition ev_tx :: "um_event \<Rightarrow> tx_event" where
  "ev_tx ev = (case ev of
       UpperPacket info pkt bytes \<Rightarrow> SduArrives \<lparr>sdu_pkt = pkt, snoMainPacket = fi_sequenceNumber info,
         lengthMainPacket = word_of_int bytes, sdu_byteLength = bytes + 1\<rparr>
     | LowerRequest _ sz \<Rightarrow> MacRequests (sint sz))"

definition lower_pdus :: "um_out list \<Rightarrow> LteRlcUmDataPdu list" where
  "lower_pdus out = filter (\<lambda>p. pdu_sduList p \<noteq> []) (pdus_of (concat (map (\<lambda>u. case u of ToLower c \<Rightarrow> [c] | _ \<Rightarrow> []) out)))"

definition ev_ok :: "um_event \<Rightarrow> bool" where
  "ev_ok ev \<longleftrightarrow> fi_direction (ev_info ev) \<noteq> UNKNOWN_DIRECTION \<and>
     (case ev of UpperPacket _ _ bytes \<Rightarrow> 0 < bytes \<and> bytes < 2 ^ 31 | LowerRequest _ _ \<Rightarrow> True)"

text \<open>The module without D2D: its entities are well formed and none is holding packets.\<close>

definition um_ok :: "LteRlcUm \<Rightarrow> bool" where
  "um_ok um \<longleftrightarrow> \<not> um_d2d um \<and> smap_ok (txEntities um) \<and>
     (\<forall>cid tx. map_of (txEntities um) cid = Some tx \<longrightarrow> tx_ok tx \<and> \<not> tx_holdingDownstreamInPackets tx)"

definition um_same_config :: "LteRlcUm \<Rightarrow> LteRlcUm \<Rightarrow> bool" where
  "um_same_config um um' \<longleftrightarrow> um' = um\<lparr>txEntities := txEntities um'\<rparr>"

lemma um_same_config_fields:
  assumes "um_same_config um um'"
  shows "um_d2d um' = um_d2d um" "tx_cid info um' = tx_cid info um" "new_tx_entity info um' = new_tx_entity info um"
proof -
  have "um' = um\<lparr>txEntities := txEntities um'\<rparr>" using assms by (simp add: um_same_config_def)
  then obtain m where "um' = um\<lparr>txEntities := m\<rparr>" by blast
  then show "um_d2d um' = um_d2d um" "tx_cid info um' = tx_cid info um" "new_tx_entity info um' = new_tx_entity info um"
    by (simp_all add: tx_cid_def new_tx_entity_def)
qed

lemma um_same_config_trans: "um_same_config um um1 \<Longrightarrow> um_same_config um1 um2 \<Longrightarrow> um_same_config um um2"
proof -
  assume 1: "um_same_config um um1" and 2: "um_same_config um1 um2"
  have "um1\<lparr>txEntities := txEntities um2\<rparr> = um\<lparr>txEntities := txEntities um2\<rparr>"
    using arg_cong [OF 1 [unfolded um_same_config_def], of "\<lambda>u. u\<lparr>txEntities := txEntities um2\<rparr>"] by simp
  with 2 show ?thesis by (simp add: um_same_config_def)
qed

text \<open>The entity that serves a packet: an existing one, or a new one with the control information of the packet.\<close>

definition entity_for :: "RlcFlowInfo \<Rightarrow> MacCid \<Rightarrow> LteRlcUm \<Rightarrow> UmTxEntity" where
  "entity_for info cid um = (case map_of (txEntities um) cid of Some tx \<Rightarrow> tx | None \<Rightarrow> new_tx_entity info um)"

lemma getTxBuffer_entity:
  assumes "um_ok um" and "tx_cid info um = Inr cid"
  obtains um1 where "getTxBuffer info um = Inr (cid, entity_for info cid um, um1)"
    "um_same_config um um1" "map_of (txEntities um1) = (map_of (txEntities um))(cid \<mapsto> entity_for info cid um)"
    "smap_ok (txEntities um1)"
proof (cases "map_of (txEntities um) cid")
  case (Some tx)
  then show thesis using that [of um] assms
    by (auto simp: getTxBuffer_def entity_for_def um_same_config_def um_ok_def fun_eq_iff)
next
  case None
  let ?um = "um\<lparr>txEntities := smap_upd cid (new_tx_entity info um) (smap_upd cid (new_tx_entity info um) (txEntities um))\<rparr>"
  have "getTxBuffer info um = Inr (cid, entity_for info cid um, ?um)"
    using assms None by (simp add: getTxBuffer_def entity_for_def add_peer_def isEmptyingTxBuffer_def um_ok_def Let_def)
  moreover have "smap_ok (txEntities um)" using assms by (simp add: um_ok_def)
  ultimately show thesis using None
    by (intro that [of ?um]) (simp_all add: um_same_config_def smap_ok_upd map_of_smap_upd entity_for_def)
qed

lemma entity_for_ok:
  "um_ok um \<Longrightarrow> tx_ok (entity_for info cid um) \<and> \<not> tx_holdingDownstreamInPackets (entity_for info cid um)"
  using tx_ok_initialize
  by (auto simp: entity_for_def um_ok_def new_tx_entity_def split: option.splits) (simp add: UmTxEntity_initialize_def)

lemma put_tx_ok:
  assumes "um_ok um" and "um_same_config um um1" and "smap_ok (txEntities um1)"
    and "map_of (txEntities um1) = (map_of (txEntities um))(cid \<mapsto> tx0)" and "tx_ok tx" "\<not> tx_holdingDownstreamInPackets tx"
  shows "um_ok (put_tx cid tx um1)" "um_same_config um (put_tx cid tx um1)"
    "map_of (txEntities (put_tx cid tx um1)) = (map_of (txEntities um))(cid \<mapsto> tx)"
proof -
  have m: "map_of (txEntities (put_tx cid tx um1)) = (map_of (txEntities um))(cid \<mapsto> tx)"
    using assms(3,4) by (simp add: put_tx_def map_of_smap_upd)
  moreover have "um_same_config um1 (put_tx cid tx um1)" by (simp add: put_tx_def um_same_config_def)
  with assms(2) show "um_same_config um (put_tx cid tx um1)" by (rule um_same_config_trans)
  then have "um_d2d (put_tx cid tx um1) = um_d2d um" by (rule um_same_config_fields)
  ultimately show "um_ok (put_tx cid tx um1)"
    using assms(1,3,5,6) by (auto simp: um_ok_def put_tx_def smap_ok_upd)
  show "map_of (txEntities (put_tx cid tx um1)) = (map_of (txEntities um))(cid \<mapsto> tx)" by (rule m)
qed

fun not_resume :: "tx_out \<Rightarrow> bool" where
  "not_resume (ResumeDownstreamInPackets _) = False"
| "not_resume _ = True"

lemma tx_calls_plain: "\<not> um_d2d um \<Longrightarrow> tx_calls out um = (um, map ToLower (filter not_resume out))"
  by (induction out um rule: tx_calls.induct) (simp_all add: LteRlcUm_resumeDownstreamInPackets_def)

lemma pdus_of_not_resume: "pdus_of (filter not_resume out) = pdus_of out"
  by (induction out rule: pdus_of.induct) simp_all

lemma lower_pdus_ToLower: "lower_pdus (map ToLower out) = filter (\<lambda>p. pdu_sduList p \<noteq> []) (pdus_of out)"
proof -
  have "concat (map (\<lambda>u. case u of ToLower c \<Rightarrow> [c] | _ \<Rightarrow> []) (map ToLower out)) = out" by (induction out) simp_all
  then show ?thesis by (simp only: lower_pdus_def)
qed

lemma sdu_length_of_bytes: "0 < n \<Longrightarrow> n < 2 ^ 31 \<Longrightarrow> sint (word_of_int n :: u32) = n"
  by (simp add: sint_word_ariths sint_uint uint_word_of_int_eq take_bit_int_eq_self signed_take_bit_int_eq_self)

text \<open>One event: it concerns the entity of its connection only, which handles it as on its own.\<close>

lemma um_step_projects:
  assumes ok: "um_ok um" and ev: "ev_ok ev"
  shows "\<exists>um1 out cid tx1 acc. um_step b now ev um = Some (Inr (um1, out)) \<and> tx_cid (ev_info ev) um = Inr cid \<and>
     um_ok um1 \<and> um_same_config um um1 \<and> map_of (txEntities um1) = (map_of (txEntities um))(cid \<mapsto> tx1) \<and>
     tx_run [ev_tx ev] (entity_for (ev_info ev) cid um) = Inr (tx1, acc, lower_pdus out)"
proof -
  obtain cid where cid: "tx_cid (ev_info ev) um = Inr cid"
    using ev by (cases "fi_direction (ev_info ev)") (auto simp: ev_ok_def tx_cid_def ctrlInfoToUeId_def)
  let ?tx = "entity_for (ev_info ev) cid um"
  from getTxBuffer_entity [OF ok cid] obtain um0 where
    get: "getTxBuffer (ev_info ev) um = Inr (cid, ?tx, um0)" "um_same_config um um0"
      "map_of (txEntities um0) = (map_of (txEntities um))(cid \<mapsto> ?tx)" "smap_ok (txEntities um0)" .
  note tx = entity_for_ok [OF ok, of "ev_info ev" cid]
  note put = put_tx_ok [OF ok get(2,4,3)]
  show ?thesis
  proof (cases ev)
    case (UpperPacket info pkt bytes)
    define sdu where "sdu = \<lparr>sdu_pkt = pkt, snoMainPacket = fi_sequenceNumber info, lengthMainPacket = word_of_int bytes,
      sdu_byteLength = bytes + 1\<rparr>"
    obtain stored tx1 where enq: "UmTxEntity_enque sdu ?tx = (stored, tx1)" by fastforce
    have "0 < sdu_length sdu"
      using ev UpperPacket by (simp add: ev_ok_def sdu_def sdu_length_def sdu_length_of_bytes)
    with tx_ok_enque [of ?tx sdu] tx enq have tx1: "tx_ok tx1" "\<not> tx_holdingDownstreamInPackets tx1"
      by (auto simp: UmTxEntity_enque_def split: if_splits)
    have "um_step b now ev um = Some (Inr (put_tx cid tx1 um0,
        map ToLower [if stored then NewDataToMac sdu else DropBufferOverflow sdu]))"
      using UpperPacket get(1) tx enq by (simp add: um_step_def ev_info_def handleUpperMessage_def sdu_def Let_def)
    moreover have "tx_run [ev_tx ev] ?tx = Inr (tx1, if stored then [sdu] else [],
        lower_pdus (map ToLower [if stored then NewDataToMac sdu else DropBufferOverflow sdu]))"
      using UpperPacket enq by (simp add: ev_tx_def sdu_def lower_pdus_def)
    ultimately show ?thesis using cid put [OF tx1] by blast
  next
    case (LowerRequest info sz)
    from rlcPduMake_frames [of ?tx "sint sz"] tx obtain tx1 out where
      make: "rlcPduMake (sint sz) ?tx = Inr (tx1, out)" "tx_ok tx1" "\<not> tx_holdingDownstreamInPackets tx1" by metis
    have "\<not> um_d2d (put_tx cid tx1 um0)" using put(1) [OF make(2,3)] by (simp add: um_ok_def)
    from tx_calls_plain [OF this, of out]
    have "um_step b now ev um = Some (Inr (put_tx cid tx1 um0, map ToLower (filter not_resume out)))"
      using LowerRequest get(1) make(1) by (simp add: um_step_def ev_info_def LteRlcUm_handleLowerMessage_def)
    moreover have "tx_run [ev_tx ev] ?tx = Inr (tx1, [], lower_pdus (map ToLower (filter not_resume out)))"
      using LowerRequest make(1) by (simp add: ev_tx_def lower_pdus_ToLower pdus_of_not_resume)
    ultimately show ?thesis using cid put [OF make(2,3)] by blast
  qed
qed

lemma tx_run_Cons:
  assumes "tx_run [e] tx = Inr (tx1, acc1, p1)" and "tx_run es tx1 = Inr (tx2, acc2, p2)"
  shows "tx_run (e # es) tx = Inr (tx2, acc1 @ acc2, p1 @ p2)"
  using assms by (cases e) (auto simp: rbind_Inr_iff split: prod.splits)

definition on_flow :: "LteRlcUm \<Rightarrow> MacCid \<Rightarrow> um_event \<Rightarrow> bool" where
  "on_flow um cid ev \<longleftrightarrow> tx_cid (ev_info ev) um = Inr cid"

definition flow_pdus :: "LteRlcUm \<Rightarrow> MacCid \<Rightarrow> (um_event \<times> um_out list) list \<Rightarrow> LteRlcUmDataPdu list" where
  "flow_pdus um cid trace = concat (map (lower_pdus \<circ> snd) (filter (on_flow um cid \<circ> fst) trace))"


definition sample_um :: LteRlcUm where
  "sample_um = \<lparr>um_d2d = False, um_nodeType = GNODEB, um_macNodeId = 1, um_nrRlc = False, um_queueSize = 0,
     um_packetFlowManager = False, um_nrPacketFlowManager = False, um_rxWindowSize = 16, um_timeout = 10, um_TTI = 1,
     mapAllLcidsToSingleBearer = False, txEntities = [(idToMacCid 1025 3, sample_tx)], rxEntities = [],
     ulThroughput = [], perPeerTxEntities = []\<rparr>"

definition sample_um_events :: "um_event list" where
  "sample_um_events = [UpperPacket sample_info 0 5, UpperPacket (sample_info\<lparr>fi_destId := 1026\<rparr>) 7 9,
     LowerRequest sample_info 6, LowerRequest (sample_info\<lparr>fi_destId := 1026\<rparr>) 6, LowerRequest sample_info 6]"


section \<open>A device-to-device link changes its mode\<close>

text \<open>\<open>released tx tx'\<close>: the entity holds nothing any more, and the packets it held follow those of its queue,
  in their order; all of them when the queue is not limited.\<close>

definition released :: "UmTxEntity \<Rightarrow> UmTxEntity \<Rightarrow> bool" where
  "released tx tx' \<longleftrightarrow> \<not> tx_holdingDownstreamInPackets tx' \<and> tx_sduHoldingQueue tx' = [] \<and>
     (\<exists>kept. subseq kept (tx_sduHoldingQueue tx) \<and> tx_sduQueue tx' = tx_sduQueue tx @ kept \<and>
        (tx_queueSize tx = 0 \<longrightarrow> kept = tx_sduHoldingQueue tx))"

lemma resume_loop_releases:
  "resume_loop q tx = (tx', out) \<Longrightarrow> q = tx_sduHoldingQueue tx \<Longrightarrow>
     tx_holdingDownstreamInPackets tx' = tx_holdingDownstreamInPackets tx \<and> tx_sduHoldingQueue tx' = [] \<and>
     (\<exists>kept. subseq kept q \<and> tx_sduQueue tx' = tx_sduQueue tx @ kept \<and> (tx_queueSize tx = 0 \<longrightarrow> kept = q))"
proof (induction q arbitrary: tx out)
  case Nil
  then show ?case by simp
next
  case (Cons s q)
  obtain stored tx1 where enq: "UmTxEntity_enque s (tx\<lparr>tx_sduHoldingQueue := q\<rparr>) = (stored, tx1)" by fastforce
  then obtain out' where loop: "resume_loop q tx1 = (tx', out')" using Cons.prems(1) by (auto split: prod.splits)
  have tx1: "tx_sduHoldingQueue tx1 = q" "tx_holdingDownstreamInPackets tx1 = tx_holdingDownstreamInPackets tx"
    "tx_queueSize tx1 = tx_queueSize tx" "tx_sduQueue tx1 = tx_sduQueue tx @ (if stored then [s] else [])"
    "tx_queueSize tx = 0 \<longrightarrow> stored"
    using enq by (auto simp: UmTxEntity_enque_def split: if_splits)
  from Cons.IH [OF loop tx1(1) [symmetric]] obtain kept where
    "tx_holdingDownstreamInPackets tx' = tx_holdingDownstreamInPackets tx" "tx_sduHoldingQueue tx' = []"
    "subseq kept q" "tx_sduQueue tx' = tx_sduQueue tx1 @ kept" "tx_queueSize tx = 0 \<longrightarrow> kept = q"
    using tx1 by auto
  with tx1 show ?case
    by (intro conjI exI [of _ "(if stored then [s] else []) @ kept"]) auto
qed

lemma UmTxEntity_resume_releases: "released tx (fst (UmTxEntity_resumeDownstreamInPackets tx))"
proof -
  obtain tx' out where r: "resume_loop (tx_sduHoldingQueue tx) (tx\<lparr>tx_holdingDownstreamInPackets := False\<rparr>) = (tx', out)" by fastforce
  from resume_loop_releases [OF this] show ?thesis
    by (auto simp: released_def UmTxEntity_resumeDownstreamInPackets_def r)
qed

text \<open>The effect on the entity of one connection.\<close>

definition resumed :: "UmTxEntity option \<Rightarrow> UmTxEntity option" where
  "resumed e = (case e of None \<Rightarrow> None
     | Some tx \<Rightarrow> Some (if tx_holdingDownstreamInPackets tx then fst (UmTxEntity_resumeDownstreamInPackets tx) else tx))"

lemma resume_peers_entities:
  assumes "smap_ok (txEntities um)" and "distinct cids"
  shows "map_of (txEntities (fst (resume_peers cids um))) cid =
    (if cid \<in> set cids then resumed (map_of (txEntities um) cid) else map_of (txEntities um) cid)"
  using assms
proof (induction cids arbitrary: um)
  case Nil
  then show ?case by simp
next
  case (Cons c cids)
  have skip: ?case if "fst (resume_peers (c # cids) um) = fst (resume_peers cids um)"
    "resumed (map_of (txEntities um) c) = map_of (txEntities um) c"
    using that Cons.IH [of um] Cons.prems by auto
  show ?case
  proof (cases "map_of (txEntities um) c")
    case None
    then show ?thesis by (intro skip) (simp_all add: resumed_def)
  next
    case (Some tx)
    show ?thesis
    proof (cases "tx_holdingDownstreamInPackets tx")
      case False
      with Some show ?thesis by (intro skip) (simp_all add: resumed_def)
    next
      case True
      obtain tx1 o1 where r: "UmTxEntity_resumeDownstreamInPackets tx = (tx1, o1)" by fastforce
      have "fst (resume_peers (c # cids) um) = fst (resume_peers cids (put_tx c tx1 um))"
        using Some True r by (simp split: prod.splits)
      moreover have "smap_ok (txEntities (put_tx c tx1 um))" using Cons.prems(1) by (simp add: put_tx_def smap_ok_upd)
      ultimately show ?thesis
        using Cons.IH [of "put_tx c tx1 um"] Cons.prems Some True r
        by (auto simp: put_tx_def map_of_smap_upd resumed_def)
    qed
  qed
qed

text \<open>A request that empties the queue ends with the call that resumes the peer.\<close>

lemma rlcPduMake_resumes:
  assumes "tx_ok tx" and "tx_notifyEmptyBuffer tx" and "rlcPduMake g tx = Inr (tx', out)" and "tx_sduQueue tx' = []"
  shows "\<exists>o1. out = o1 @ [ResumeDownstreamInPackets (fi_d2dRxPeerId (tx_flowControlInfo tx))] \<and> list_all not_resume o1 \<and>
     \<not> tx_notifyEmptyBuffer tx'"
proof -
  obtain len e pdu tx1 where
    loop: "pdu_loop (tx_sduQueue tx) (g - RLC_HEADER_UM) 0 (new_LteRlcUmDataPdu (tx_flowControlInfo tx)) tx = Inr (len, e, pdu, tx1)"
    and moved: "queue_moved tx tx1"
    using pdu_loop_frames [OF assms(1) refl] by blast
  have keep: "tx_notifyEmptyBuffer tx1 = tx_notifyEmptyBuffer tx" "tx_flowControlInfo tx1 = tx_flowControlInfo tx"
    using arg_cong [OF moved [unfolded queue_moved_def], of tx_notifyEmptyBuffer]
      arg_cong [OF moved [unfolded queue_moved_def], of tx_flowControlInfo] by simp_all
  obtain pdu2 tx2 where num: "number_pdu (tx_firstIsFragment tx) len e pdu tx1 = (pdu2, tx2)" by fastforce
  obtain flow tx3 where rep: "report_pdu len pdu2 tx2 = (flow, tx3)" by fastforce
  obtain resume tx4 where noti: "notify_empty tx3 = (resume, tx4)" by fastforce
  have out: "tx' = tx4" "out = flow @ [PduToMac pdu2] @ resume"
    using assms(3) loop num rep noti by (simp_all add: rlcPduMake_def Let_def)
  have tx3: "tx_notifyEmptyBuffer tx3" "tx_flowControlInfo tx3 = tx_flowControlInfo tx" "list_all not_resume flow"
    using num rep keep assms(2) by (auto simp: number_pdu_def report_pdu_def Let_def split: if_splits prod.splits)
  moreover have "tx_sduQueue tx3 = []" using noti assms(4) out(1) by (auto simp: notify_empty_def split: if_splits)
  ultimately have "resume = [ResumeDownstreamInPackets (fi_d2dRxPeerId (tx_flowControlInfo tx))]" "\<not> tx_notifyEmptyBuffer tx4"
    using noti by (auto simp: notify_empty_def)
  with out tx3(3) show ?thesis by simp
qed

text \<open>A grant beyond what is queued empties the queue.\<close>

lemma frame_sum_le:
  "frame c cs = Some (d, c') \<Longrightarrow> (\<forall>s n. c = Some (s, n) \<longrightarrow> 0 \<le> n) \<Longrightarrow>
     sum_list (map snd cs) \<le> sum_list (map sdu_length d) + (case c' of None \<Rightarrow> 0 | Some (s, n) \<Rightarrow> n)"
proof (induction c cs arbitrary: d rule: frame.induct)
  case (1 c)
  then show ?case by (auto split: option.splits)
next
  case (2 c s k cs)
  show ?case
  proof (cases "k = rest_length c s")
    case True
    with 2 show ?thesis by (fastforce simp: rest_length_def split: if_splits option.splits)
  next
    case False
    with 2 show ?thesis by (auto simp: rest_length_def split: if_splits option.splits)
  qed
qed

lemma rlcPduMake_drains:
  assumes "tx_ok tx" and "RLC_HEADER_UM + sum_list (map sdu_length (tx_sduQueue tx)) < g"
  obtains tx' out where "rlcPduMake g tx = Inr (tx', out)" "tx_sduQueue tx' = []"
proof -
  obtain pdu d tx' out where
    make: "rlcPduMake g tx = Inr (tx', out)" "pdus_of out = [pdu]" "frame (tx_carry tx) (pdu_sduList pdu) = Some (d, tx_carry tx')"
      "tx_sduQueue tx = d @ tx_sduQueue tx'" "tx_ok tx'" "pdu_sduList pdu = [] \<longleftrightarrow> g \<le> RLC_HEADER_UM \<or> tx_sduQueue tx = []"
      "pdu_sduList pdu \<noteq> [] \<longrightarrow> pdu_chunkBits pdu = 8 * (RLC_HEADER_UM + sum_list (map snd (pdu_sduList pdu))) \<and>
         (pdu_chunkBits pdu = 8 * g \<or> tx_sduQueue tx' = [])"
    by (rule rlcPduMake_frames [OF assms(1), of g]) blast
  have "tx_sduQueue tx' = []"
  proof (rule ccontr)
    assume q: "tx_sduQueue tx' \<noteq> []"
    have pos: "0 \<le> sum_list (map sdu_length (tx_sduQueue t))" if "tx_ok t" for t
      using that by (auto simp: tx_ok_def list_all_iff less_imp_le intro!: sum_list_nonneg)
    have "\<forall>s n. tx_carry tx = Some (s, n) \<longrightarrow> 0 \<le> n"
      using assms(1) by (auto simp: tx_carry_def tx_ok_def fragment_ok_def split: option.splits)
    note le = frame_sum_le [OF make(3) this]
    have "(case tx_carry tx' of None \<Rightarrow> 0 | Some (s, n) \<Rightarrow> n) \<le> sum_list (map sdu_length (tx_sduQueue tx'))"
    proof (cases "tx_carry tx'")
      case None
      then show ?thesis using pos [OF make(5)] by simp
    next
      case (Some a)
      obtain x xs where x: "tx_sduQueue tx' = x # xs" using q by (cases "tx_sduQueue tx'") auto
      then have "0 \<le> sum_list (map sdu_length xs)" using make(5) by (auto simp: tx_ok_def list_all_iff less_imp_le intro!: sum_list_nonneg)
      with Some x make(5) show ?thesis by (auto simp: tx_carry_def tx_ok_def fragment_ok_def split: option.splits)
    qed
    with le make(4) have "sum_list (map snd (pdu_sduList pdu)) \<le> sum_list (map sdu_length (tx_sduQueue tx))" by simp
    moreover have "pdu_sduList pdu \<noteq> []" using make(4,6) q assms(2) pos [OF assms(1)] by auto
    ultimately show False using make(7) q assms(2) by auto
  qed
  with make(1) that show thesis by blast
qed

lemma tx_calls_append:
  "list_all not_resume o1 \<Longrightarrow> tx_calls (o1 @ o2) um = (fst (tx_calls o2 um), map ToLower o1 @ snd (tx_calls o2 um))"
  by (induction o1 um rule: tx_calls.induct) (simp_all add: case_prod_unfold)

text \<open>
  C18. A change of mode ends.  After a device-to-device link has changed its mode, the old connection still
  drains its queue while the connections of the new mode hold their packets.  A MAC request beyond the bytes that
  the old connection has queued completes the change: every other connection of the peer that was holding
  packets takes them up behind its queue in their order (all of them if its queue is not limited) and holds
  no further ones, and the connections of other peers are as before.
\<close>

theorem d2d_switch_releases:
  assumes "um_d2d um" and "smap_ok (txEntities um)" and "tx_cid info um = Inr old"
    and "map_of (txEntities um) old = Some tx" and "tx_ok tx" and "tx_notifyEmptyBuffer tx"
    and "peer = fi_d2dRxPeerId (tx_flowControlInfo tx)" and "peer \<noteq> 0"
    and "map_of (perPeerTxEntities um) peer = Some cids" and "distinct cids"
    and "RLC_HEADER_UM + sum_list (map sdu_length (tx_sduQueue tx)) < sint sz"
  shows "\<exists>um' out. LteRlcUm_handleLowerMessage b now info (MacSduRequest sz) um = Some (Inr (um', out)) \<and>
     (\<forall>cid \<in> set cids - {old}. \<forall>tx0. map_of (txEntities um) cid = Some tx0 \<and> tx_holdingDownstreamInPackets tx0 \<longrightarrow>
        (\<exists>tx'. map_of (txEntities um') cid = Some tx' \<and> released tx0 tx')) \<and>
     (\<forall>cid. cid \<notin> set cids \<and> cid \<noteq> old \<longrightarrow> map_of (txEntities um') cid = map_of (txEntities um) cid)"
proof -
  from rlcPduMake_drains [OF assms(5,11)] obtain tx1 out1 where
    make: "rlcPduMake (sint sz) tx = Inr (tx1, out1)" "tx_sduQueue tx1 = []" .
  from rlcPduMake_resumes [OF assms(5,6) make] obtain o1 where
    o1: "out1 = o1 @ [ResumeDownstreamInPackets peer]" "list_all not_resume o1" using assms(7) by auto
  let ?um = "put_tx old tx1 um"
  have "fst (tx_calls out1 ?um) = fst (resume_peers cids ?um)"
    using assms(1,8,9) o1 by (simp add: tx_calls_append LteRlcUm_resumeDownstreamInPackets_def put_tx_def case_prod_unfold)
  moreover have "LteRlcUm_handleLowerMessage b now info (MacSduRequest sz) um = Some (Inr (tx_calls out1 ?um))"
    using assms(3,4) make(1) by (simp add: LteRlcUm_handleLowerMessage_def getTxBuffer_def)
  ultimately obtain out where
    step: "LteRlcUm_handleLowerMessage b now info (MacSduRequest sz) um = Some (Inr (fst (resume_peers cids ?um), out))"
    by (metis prod.collapse)
  have "smap_ok (txEntities ?um)" using assms(2) by (simp add: put_tx_def smap_ok_upd)
  note after = resume_peers_entities [OF this assms(10)]
  have um: "map_of (txEntities ?um) = (map_of (txEntities um))(old \<mapsto> tx1)" using assms(2) by (simp add: put_tx_def map_of_smap_upd)
  show ?thesis
    by (intro exI conjI, rule step) (auto simp: after um resumed_def UmTxEntity_resume_releases)
qed

text \<open>A UE whose direct link to UE 1026 goes back to the infrastructure: the connection of the direct mode has five
  bytes left, the connection over the base station holds one packet.\<close>

definition switch_info :: "Direction \<Rightarrow> RlcFlowInfo" where
  "switch_info dir = \<lparr>fi_direction = dir, fi_sourceId = 1025, fi_destId = 1026, fi_lcid = 3, fi_d2dRxPeerId = 1026, fi_sequenceNumber = 0\<rparr>"

definition switch_um :: LteRlcUm where
  "switch_um = sample_um\<lparr>um_d2d := True, um_nodeType := UE, um_macNodeId := 1025,
     txEntities := [(idToMacCid 1025 3, (UmTxEntity_initialize (switch_info UL) UE 1025 False 0 False False)
                       \<lparr>tx_holdingDownstreamInPackets := True, tx_sduHoldingQueue := [sample_sdu 1 4]\<rparr>),
                    (idToMacCid 1026 3, (snd (UmTxEntity_enque (sample_sdu 0 5)
                       (UmTxEntity_initialize (switch_info D2D) UE 1025 False 0 False False)))\<lparr>tx_notifyEmptyBuffer := True\<rparr>)],
     perPeerTxEntities := [(1026, [idToMacCid 1025 3, idToMacCid 1026 3])]\<rparr>"

theorem d2d_switch_releases_witness:
  "\<exists>um' out tx'. LteRlcUm_handleLowerMessage sample_rlc_binder 0 (switch_info D2D) (MacSduRequest 20) switch_um = Some (Inr (um', out)) \<and>
     map_of (txEntities um') (idToMacCid 1025 3) = Some tx' \<and> \<not> tx_holdingDownstreamInPackets tx' \<and> tx_sduQueue tx' = [sample_sdu 1 4]"
proof -
  let ?new = "(UmTxEntity_initialize (switch_info UL) UE 1025 False 0 False False)
    \<lparr>tx_holdingDownstreamInPackets := True, tx_sduHoldingQueue := [sample_sdu 1 4]\<rparr>"
  let ?old = "(snd (UmTxEntity_enque (sample_sdu 0 5) (UmTxEntity_initialize (switch_info D2D) UE 1025 False 0 False False)))
    \<lparr>tx_notifyEmptyBuffer := True\<rparr>"
  have um: "um_d2d switch_um" "map_of (perPeerTxEntities switch_um) 1026 = Some [idToMacCid 1025 3, idToMacCid 1026 3]"
    "map_of (txEntities switch_um) (idToMacCid 1025 3) = Some ?new" "map_of (txEntities switch_um) (idToMacCid 1026 3) = Some ?old"
    by (simp_all add: switch_um_def sample_um_def idToMacCid_inj)
  have facts: "smap_ok (txEntities switch_um)" "tx_cid (switch_info D2D) switch_um = Inr (idToMacCid 1026 3)"
    "tx_ok ?old" "RLC_HEADER_UM + sum_list (map sdu_length (tx_sduQueue ?old)) < sint (20 :: u32)"
    "distinct [idToMacCid 1025 3, idToMacCid 1026 3]"
    by code_simp+
  have old: "tx_notifyEmptyBuffer ?old" "1026 = fi_d2dRxPeerId (tx_flowControlInfo ?old)"
    by (simp_all add: UmTxEntity_enque_def UmTxEntity_initialize_def switch_info_def)
  have "(1026 :: MacNodeId) \<noteq> 0" by simp
  from d2d_switch_releases [OF um(1) facts(1,2) um(4) facts(3) old this um(2) facts(5,4), of sample_rlc_binder 0]
  obtain um' out where
    r: "LteRlcUm_handleLowerMessage sample_rlc_binder 0 (switch_info D2D) (MacSduRequest 20) switch_um = Some (Inr (um', out))"
      "\<forall>cid \<in> set [idToMacCid 1025 3, idToMacCid 1026 3] - {idToMacCid 1026 3}. \<forall>tx0.
         map_of (txEntities switch_um) cid = Some tx0 \<and> tx_holdingDownstreamInPackets tx0 \<longrightarrow>
         (\<exists>tx'. map_of (txEntities um') cid = Some tx' \<and> released tx0 tx')" by blast
  have "idToMacCid 1025 3 \<in> set [idToMacCid 1025 3, idToMacCid 1026 3] - {idToMacCid 1026 3}" by (simp add: idToMacCid_inj)
  from bspec [OF r(2) this] um(3) obtain tx' where
    "map_of (txEntities um') (idToMacCid 1025 3) = Some tx'" "released ?new tx'" by auto
  with r(1) show ?thesis by (intro exI [of _ um'] exI [of _ out] exI [of _ tx']) (auto simp: released_def UmTxEntity_initialize_def)
qed

end
