(* ===== verification/Pdcp_Reordering.thy ===== *)
theory Pdcp_Reordering
  imports Rlc_Um_Rx
begin

text \<open>
  The receiving PDCP entity of NR, \<^verbatim>\<open>simu5G/src/stack/pdcp_rrc/layer/entity/NRRxPdcpEntity\<close>: with dual
  connectivity the SDUs of a split bearer come over two paths, and the entity puts them back in order, with a
  window of positions relative to the first number not delivered and a timer that gives up on a missing one.
  The number of an SDU is an argument, the SDU itself is of any type.
\<close>

section \<open>State\<close>

record PdcpRxWindowDesc =
  pdcp_windowSize :: u32
  rxNext :: u32
  rxDeliv :: u32
  rxReord :: u32

record 'a NRRxPdcpEntity =
  nrx_outOfOrderDelivery :: bool
  nrx_sduBuffer :: "'a cArray"
  nrx_received :: "bool list"
  nrx_window :: PdcpRxWindowDesc
  nrx_t_reordering :: TTimer
  nrx_timeout :: simtime

definition NRRxPdcpEntity_initialize :: "bool \<Rightarrow> u32 \<Rightarrow> simtime \<Rightarrow> 'a NRRxPdcpEntity" where
  "NRRxPdcpEntity_initialize outOfOrderDelivery rxWindowSize timeout =
     \<lparr>nrx_outOfOrderDelivery = outOfOrderDelivery, nrx_sduBuffer = [],
      nrx_received = replicate (unat rxWindowSize) False,
      nrx_window = \<lparr>pdcp_windowSize = rxWindowSize, rxNext = 0, rxDeliv = 0, rxReord = 0\<rparr>,
      nrx_t_reordering = None, nrx_timeout = timeout\<rparr>"

definition NRRxPdcpEntity_isEmpty :: "'a NRRxPdcpEntity \<Rightarrow> bool" where
  "NRRxPdcpEntity_isEmpty rx \<longleftrightarrow> cArray_size (nrx_sduBuffer rx) = 0"

section \<open>Operations\<close>

lemma rbind_cong [fundef_cong]: "r = r' \<Longrightarrow> (\<And>x. r' = Inr x \<Longrightarrow> f x = g x) \<Longrightarrow> rbind r f = rbind r' g"
  by (simp add: rbind_def split: sum.splits)

text \<open>\<^verbatim>\<open>check_and_cast<cPacket*>(sduBuffer_.remove(pos))\<close>\<close>

definition take_sdu :: "nat \<Rightarrow> 'a cArray \<Rightarrow> ('a \<times> 'a cArray) res" where
  "take_sdu pos buf = (case cArray_get pos buf of None \<Rightarrow> Inl CastError | Some sdu \<Rightarrow> Inr (sdu, cArray_remove pos buf))"

text \<open>The loop that delivers what is buffered behind the SDU that was awaited.\<close>

function flush_loop ::
  "nat \<Rightarrow> bool list \<Rightarrow> 'a cArray \<Rightarrow> PdcpRxWindowDesc \<Rightarrow> (nat \<times> bool list \<times> 'a cArray \<times> PdcpRxWindowDesc \<times> 'a list) res" where
  "flush_loop pos received buf w =
     (if pos < unat (pdcp_windowSize w)
      then rbind (vec_at received pos) (\<lambda>r.
        if r then rbind (take_sdu pos buf) (\<lambda>(sdu, buf).
               rbind (flush_loop (Suc pos) (received[pos := False]) buf (w\<lparr>rxDeliv := rxDeliv w + 1\<rparr>)) (\<lambda>(p, received, buf, w, out).
                 Inr (p, received, buf, w, sdu # out)))
        else Inr (pos, received, buf, w, []))
      else Inr (pos, received, buf, w, []))"
  by auto

termination
  by (relation "measure (\<lambda>(pos, received, buf, w). unat (pdcp_windowSize w) - pos)") auto

text \<open>The window slides by \<open>pos\<close> positions: position \<open>i\<close> goes to \<open>i - pos\<close>.\<close>

definition slide_slot :: "nat \<Rightarrow> nat \<Rightarrow> bool list \<times> 'a cArray \<Rightarrow> (bool list \<times> 'a cArray) res" where
  "slide_slot pos i = (\<lambda>(received, buf).
     rbind (case cArray_get i buf of
         Some sdu \<Rightarrow> cArray_addAt (int (i - pos)) sdu (cArray_remove i buf)
       | None \<Rightarrow> Inr buf) (\<lambda>buf.
     rbind (vec_at received i) (\<lambda>r. Inr (received[i - pos := r, i := False], buf))))"

fun slide_slots :: "nat \<Rightarrow> nat list \<Rightarrow> bool list \<times> 'a cArray \<Rightarrow> (bool list \<times> 'a cArray) res" where
  "slide_slots pos [] s = Inr s"
| "slide_slots pos (i # is) s = rbind (slide_slot pos i s) (slide_slots pos is)"

text \<open>The SDU that was awaited; the bound of the slide is read after the loop has advanced \<^verbatim>\<open>rxDeliv_\<close>.\<close>

definition deliver_next :: "'a \<Rightarrow> 'a NRRxPdcpEntity \<Rightarrow> ('a NRRxPdcpEntity \<times> 'a list) res" where
  "deliver_next sdu rx =
     (let w = nrx_window rx
      in rbind (flush_loop 1 (nrx_received rx) (nrx_sduBuffer rx) (w\<lparr>rxDeliv := rxDeliv w + 1\<rparr>)) (\<lambda>(pos, received, buf, w, out).
         rbind (slide_slots pos [pos..<unat (rxNext w - rxDeliv w)] (received, buf)) (\<lambda>(received, buf).
           Inr (rx\<lparr>nrx_received := received, nrx_sduBuffer := buf, nrx_window := w\<rparr>, sdu # out))))"

definition buffer_sdu :: "nat \<Rightarrow> 'a \<Rightarrow> 'a NRRxPdcpEntity \<Rightarrow> ('a NRRxPdcpEntity \<times> 'a list) res" where
  "buffer_sdu index sdu rx =
     rbind (cArray_addAt (int index) sdu (nrx_sduBuffer rx)) (\<lambda>buf.
       Inr (rx\<lparr>nrx_sduBuffer := buf, nrx_received := (nrx_received rx)[index := True]\<rparr>, []))"

definition reordering_timer :: "simtime \<Rightarrow> 'a NRRxPdcpEntity \<Rightarrow> 'a NRRxPdcpEntity" where
  "reordering_timer now rx =
     (let w = nrx_window rx;
          rx = (if nrx_t_reordering rx \<noteq> None \<and> rxDeliv w \<ge> rxReord w
                then rx\<lparr>nrx_t_reordering := TTimer_stop (nrx_t_reordering rx)\<rparr> else rx)
      in if nrx_t_reordering rx = None \<and> rxDeliv w < rxNext w
         then rx\<lparr>nrx_t_reordering := TTimer_start now (nrx_timeout rx) (nrx_t_reordering rx),
                 nrx_window := w\<lparr>rxReord := rxNext w\<rparr>\<rparr>
         else rx)"

text \<open>\<open>dual\<close> is \<^verbatim>\<open>pdcp_->isDualConnectivityEnabled()\<close>; the outputs go to the data port.\<close>

definition NRRxPdcpEntity_handlePdcpSdu ::
  "bool \<Rightarrow> simtime \<Rightarrow> u32 \<Rightarrow> 'a \<Rightarrow> 'a NRRxPdcpEntity \<Rightarrow> ('a NRRxPdcpEntity \<times> 'a list) res" where
  "NRRxPdcpEntity_handlePdcpSdu dual now rcvdSno sdu rx =
     (if \<not> dual \<or> nrx_outOfOrderDelivery rx then Inr (rx, [sdu])
      else let w = nrx_window rx; index = rcvdSno - rxDeliv w
           in if rcvdSno < rxDeliv w \<or> index \<ge> pdcp_windowSize w then Inr (rx, [])
              else rbind (vec_at (nrx_received rx) (unat index)) (\<lambda>busy.
                if busy then Inr (rx, [])
                else let rx = (if rcvdSno \<ge> rxNext w then rx\<lparr>nrx_window := w\<lparr>rxNext := rcvdSno + 1\<rparr>\<rparr> else rx)
                     in rbind (if rcvdSno = rxDeliv w then deliver_next sdu rx else buffer_sdu (unat index) sdu rx) (\<lambda>(rx, out).
                          Inr (reordering_timer now rx, out))))"

text \<open>The loops of the timer: up to the number the timer was set for, then on to the first missing one; the
  flags of the delivered positions stay set.\<close>

function deliver_until ::
  "nat \<Rightarrow> bool list \<Rightarrow> 'a cArray \<Rightarrow> PdcpRxWindowDesc \<Rightarrow> (nat \<times> 'a cArray \<times> PdcpRxWindowDesc \<times> 'a list) res" where
  "deliver_until pos received buf w =
     (if rxDeliv w < rxReord w
      then rbind (vec_at received pos) (\<lambda>r.
           rbind (if r then rbind (take_sdu pos buf) (\<lambda>(sdu, buf). Inr ([sdu], buf)) else Inr ([], buf)) (\<lambda>(out, buf).
           rbind (deliver_until (Suc pos) received buf (w\<lparr>rxDeliv := rxDeliv w + 1\<rparr>)) (\<lambda>(p, buf, w, out').
             Inr (p, buf, w, out @ out'))))
      else Inr (pos, buf, w, []))"
  by auto

termination deliver_until
  by (relation "measure (\<lambda>(pos, received, buf, w). length received - pos)") (auto simp: vec_at_def split: if_splits)

function deliver_run ::
  "nat \<Rightarrow> bool list \<Rightarrow> 'a cArray \<Rightarrow> PdcpRxWindowDesc \<Rightarrow> (nat \<times> 'a cArray \<times> PdcpRxWindowDesc \<times> 'a list) res" where
  "deliver_run pos received buf w =
     rbind (vec_at received pos) (\<lambda>r.
       if r then rbind (take_sdu pos buf) (\<lambda>(sdu, buf).
              let w = w\<lparr>rxDeliv := rxDeliv w + 1\<rparr>
              in if rxDeliv w = rxNext w then Inr (Suc pos, buf, w, [sdu])
                 else rbind (deliver_run (Suc pos) received buf w) (\<lambda>(p, buf, w, out). Inr (p, buf, w, sdu # out)))
       else Inr (pos, buf, w, []))"
  by auto

termination
  by (relation "measure (\<lambda>(pos, received, buf, w). length received - pos)") (auto simp: vec_at_def split: if_splits)

declare flush_loop.simps [simp del] deliver_until.simps [simp del] deliver_run.simps [simp del]

definition NRRxPdcpEntity_handleMessage :: "simtime \<Rightarrow> 'a NRRxPdcpEntity \<Rightarrow> ('a NRRxPdcpEntity \<times> 'a list) res" where
  "NRRxPdcpEntity_handleMessage now rx =
     (let rx = rx\<lparr>nrx_t_reordering := TTimer_handle (nrx_t_reordering rx)\<rparr>
      in rbind (deliver_until 0 (nrx_received rx) (nrx_sduBuffer rx) (nrx_window rx)) (\<lambda>(pos, buf, w, out).
         rbind (deliver_run pos (nrx_received rx) buf w) (\<lambda>(offset, buf, w, out').
         rbind (slide_slots offset [offset..<unat (pdcp_windowSize w)] (nrx_received rx, buf)) (\<lambda>(received, buf).
           let rx = rx\<lparr>nrx_received := received, nrx_sduBuffer := buf, nrx_window := w\<rparr>
           in Inr (if rxNext w > rxDeliv w
                   then rx\<lparr>nrx_window := w\<lparr>rxReord := rxNext w\<rparr>,
                           nrx_t_reordering := TTimer_start now (nrx_timeout rx) (nrx_t_reordering rx)\<rparr>
                   else rx, out @ out')))))"

section \<open>Specification: one late number at a time\<close>

text \<open>
  The numbers that arrive and the expiries of the timer.  The specification keeps the first number not delivered
  and the one after the highest received; it is defined while at most one number is late, that is, between the two
  only the first is missing, and while they are at most half a window apart.
\<close>

datatype pdcp_event = Arrival nat simtime | Expiry simtime

definition order_step :: "nat \<Rightarrow> pdcp_event \<Rightarrow> nat \<times> nat \<Rightarrow> ((nat \<times> nat) \<times> nat list) option" where
  "order_step W ev = (\<lambda>(d, n). case ev of
       Arrival k _ \<Rightarrow>
         if k < d \<or> d < k \<and> k < n then Some ((d, n), [])
         else if k = d then (let n' = max n (Suc d) in if n' < 2 ^ 32 then Some ((n', n'), [d..<n']) else None)
         else if (k = n \<or> n = d \<and> k = Suc d) \<and> 2 * (Suc k - d) \<le> W \<and> Suc k < 2 ^ 32 then Some ((d, Suc k), [])
         else None
     | Expiry _ \<Rightarrow> if d < n then Some ((n, n), [Suc d..<n]) else None)"

fun order_run :: "nat \<Rightarrow> pdcp_event list \<Rightarrow> nat \<times> nat \<Rightarrow> ((nat \<times> nat) \<times> nat list) option" where
  "order_run W [] s = Some (s, [])"
| "order_run W (ev # evs) s = (case order_step W ev s of None \<Rightarrow> None
     | Some (s, ks) \<Rightarrow> (case order_run W evs s of None \<Rightarrow> None | Some (s, ks') \<Rightarrow> Some (s, ks @ ks')))"

text \<open>The entity on such a sequence; \<open>f k\<close> is the SDU with the number \<open>k\<close>.\<close>

definition nrx_step :: "(nat \<Rightarrow> 'a) \<Rightarrow> pdcp_event \<Rightarrow> 'a NRRxPdcpEntity \<Rightarrow> ('a NRRxPdcpEntity \<times> 'a list) res" where
  "nrx_step f ev rx = (case ev of
       Arrival k now \<Rightarrow> NRRxPdcpEntity_handlePdcpSdu True now (of_nat k) (f k) rx
     | Expiry now \<Rightarrow> NRRxPdcpEntity_handleMessage now rx)"

fun nrx_run :: "(nat \<Rightarrow> 'a) \<Rightarrow> pdcp_event list \<Rightarrow> 'a NRRxPdcpEntity \<Rightarrow> ('a NRRxPdcpEntity \<times> 'a list) res" where
  "nrx_run f [] rx = Inr (rx, [])"
| "nrx_run f (ev # evs) rx = rbind (nrx_step f ev rx) (\<lambda>(rx, out).
     rbind (nrx_run f evs rx) (\<lambda>(rx, out'). Inr (rx, out @ out')))"

definition one_gap :: "(nat \<Rightarrow> 'a) \<Rightarrow> nat \<Rightarrow> nat \<times> nat \<Rightarrow> 'a NRRxPdcpEntity \<Rightarrow> bool" where
  "one_gap f W = (\<lambda>(d, n) rx. \<not> nrx_outOfOrderDelivery rx \<and> 0 < W \<and> W = unat (pdcp_windowSize (nrx_window rx)) \<and>
     length (nrx_received rx) = W \<and> d \<le> n \<and> n \<noteq> Suc d \<and> 2 * (n - d) \<le> W \<and> n < 2 ^ 32 \<and>
     rxDeliv (nrx_window rx) = of_nat d \<and> rxNext (nrx_window rx) = of_nat n \<and>
     (\<forall>i < W. nrx_received rx ! i \<longleftrightarrow> 0 < i \<and> i < n - d) \<and>
     (\<forall>i. cArray_get i (nrx_sduBuffer rx) = (if 0 < i \<and> i < n - d then Some (f (d + i)) else None)) \<and>
     (nrx_t_reordering rx \<noteq> None \<longleftrightarrow> d < n) \<and>
     (d < n \<longrightarrow> (\<exists>m. rxReord (nrx_window rx) = of_nat m \<and> d < m \<and> m \<le> n)))"

section \<open>The entity implements the specification\<close>

lemma u32_of_nat [simp]:
  "a < 2 ^ 32 \<Longrightarrow> unat (of_nat a :: u32) = a"
  "a < 2 ^ 32 \<Longrightarrow> b < 2 ^ 32 \<Longrightarrow> (of_nat a :: u32) < of_nat b \<longleftrightarrow> a < b"
  "a < 2 ^ 32 \<Longrightarrow> b < 2 ^ 32 \<Longrightarrow> (of_nat a :: u32) \<le> of_nat b \<longleftrightarrow> a \<le> b"
  "a < 2 ^ 32 \<Longrightarrow> b < 2 ^ 32 \<Longrightarrow> (of_nat a :: u32) = of_nat b \<longleftrightarrow> a = b"
proof -
  show *: "unat (of_nat a :: u32) = a" if "a < 2 ^ 32" for a using that by (simp add: unat_of_nat take_bit_nat_eq_self)
  show "a < 2 ^ 32 \<Longrightarrow> b < 2 ^ 32 \<Longrightarrow> (of_nat a :: u32) < of_nat b \<longleftrightarrow> a < b" by (simp add: word_less_nat_alt *)
  show "a < 2 ^ 32 \<Longrightarrow> b < 2 ^ 32 \<Longrightarrow> (of_nat a :: u32) \<le> of_nat b \<longleftrightarrow> a \<le> b" by (simp add: word_le_nat_alt *)
  show "a < 2 ^ 32 \<Longrightarrow> b < 2 ^ 32 \<Longrightarrow> (of_nat a :: u32) = of_nat b \<longleftrightarrow> a = b" by (metis *)
qed

text \<open>A slide over positions that hold nothing.\<close>

lemma slide_slots_empty:
  assumes "\<forall>i \<in> set is. i < length received \<and> \<not> received ! i \<and> pos \<le> i" and "\<forall>i \<in> set is. cArray_get i buf = None" and "sorted is" and "0 < pos"
  obtains received' where "slide_slots pos is (received, buf) = Inr (received', buf)" "length received' = length received"
    "\<And>i. i < length received \<Longrightarrow> received' ! i \<longleftrightarrow> received ! i \<and> i \<notin> (\<lambda>i. i - pos) ` set is \<and> i \<notin> set is"
  using assms
proof (induction "is" arbitrary: received thesis)
  case Nil
  then show ?case by simp
next
  case (Cons i "is")
  let ?r = "received[i - pos := False, i := False]"
  have i: "i < length received" "\<not> received ! i" "pos \<le> i" "cArray_get i buf = None" using Cons.prems(2,3) by auto
  have step: "slide_slot pos i (received, buf) = Inr (?r, buf)" using i by (simp add: slide_slot_def vec_at_def)
  have rest: "\<forall>j \<in> set is. j < length ?r \<and> \<not> ?r ! j \<and> pos \<le> j" using Cons.prems(2) i by (auto simp: nth_list_update)
  from Cons.IH [OF _ rest] Cons.prems(3,4,5) obtain received' where
    "slide_slots pos is (?r, buf) = Inr (received', buf)" "length received' = length ?r"
    "\<And>j. j < length ?r \<Longrightarrow> received' ! j \<longleftrightarrow> ?r ! j \<and> j \<notin> (\<lambda>i. i - pos) ` set is \<and> j \<notin> set is" by auto
  with step i show ?case by (intro Cons.prems(1) [of received']) (auto simp: nth_list_update)
qed

lemma of_nat_add_u32: "of_nat a + of_nat b = (of_nat (a + b) :: u32)" "of_nat a + 1 = (of_nat (Suc a) :: u32)"
  by simp_all

text \<open>Positions \<open>p\<close> to \<open>g\<close> are held: the loop delivers them and leaves the buffer empty.\<close>

lemma flush_loop_gap:
  assumes "0 < p" and "p \<le> g" and "g \<le> unat (pdcp_windowSize w)" and "length received = unat (pdcp_windowSize w)"
    and "\<forall>i < length received. received ! i \<longleftrightarrow> p \<le> i \<and> i < g"
    and "\<forall>i. cArray_get i buf = (if p \<le> i \<and> i < g then Some (f (d + i)) else None)"
  shows "\<exists>received' buf'. flush_loop p received buf w =
      Inr (g, received', buf', w\<lparr>rxDeliv := rxDeliv w + of_nat (g - p)\<rparr>, map f [d + p..<d + g]) \<and>
    length received' = length received \<and> (\<forall>i < length received. \<not> received' ! i) \<and> (\<forall>i. cArray_get i buf' = None)"
  using assms
proof (induction "g - p" arbitrary: p received buf w)
  case 0
  then have "p = g" by simp
  with 0 have "flush_loop p received buf w = Inr (p, received, buf, w, [])"
    by (subst flush_loop.simps) (auto simp: vec_at_def)
  with 0 \<open>p = g\<close> show ?case by (intro exI [of _ received] exI [of _ buf]) auto
next
  case (Suc k)
  then have p: "p < g" "p < length received" by simp_all
  let ?r = "received[p := False]" and ?b = "cArray_remove p buf" and ?w = "w\<lparr>rxDeliv := rxDeliv w + 1\<rparr>"
  have take: "take_sdu p buf = Inr (f (d + p), ?b)" using Suc.prems(6) p by (simp add: take_sdu_def)
  have r: "\<forall>i < length ?r. ?r ! i \<longleftrightarrow> Suc p \<le> i \<and> i < g" using Suc.prems(5) p by (auto simp: nth_list_update)
  have b: "\<forall>i. cArray_get i ?b = (if Suc p \<le> i \<and> i < g then Some (f (d + i)) else None)" using Suc.prems(6) by auto
  have "k = g - Suc p" using Suc.hyps(2) by simp
  from Suc.hyps(1) [OF this _ _ _ _ r b, of ?w] Suc.prems p obtain received' buf' where
    ih: "flush_loop (Suc p) ?r ?b ?w = Inr (g, received', buf', ?w\<lparr>rxDeliv := rxDeliv ?w + of_nat (g - Suc p)\<rparr>, map f [d + Suc p..<d + g])"
      "length received' = length ?r" "\<forall>i < length ?r. \<not> received' ! i" "\<forall>i. cArray_get i buf' = None" by auto
  have "flush_loop p received buf w = Inr (g, received', buf', w\<lparr>rxDeliv := rxDeliv w + of_nat (g - p)\<rparr>, map f [d + p..<d + g])"
  proof -
    have "g - p = Suc (g - Suc p)" using p by simp
    then have "rxDeliv ?w + of_nat (g - Suc p) = rxDeliv w + of_nat (g - p)" by simp
    moreover have "[d + p..<d + g] = (d + p) # [d + Suc p..<d + g]" using p by (simp add: upt_conv_Cons)
    ultimately show ?thesis
      using p Suc.prems(3,4,5) take ih(1) by (subst flush_loop.simps) (simp add: vec_at_def)
  qed
  with ih(2-4) show ?case by auto
qed

text \<open>The two loops of the timer.\<close>

lemma deliver_until_gap:
  assumes "p \<le> m - d" and "d < m" and "m - d \<le> g" and "d + g < 2 ^ 32" and "g \<le> length received"
    and "\<forall>i < length received. received ! i \<longleftrightarrow> 0 < i \<and> i < g"
    and "\<forall>i. cArray_get i buf = (if 0 < i \<and> p \<le> i \<and> i < g then Some (f (d + i)) else None)"
    and "rxDeliv w = of_nat (d + p)" and "rxReord w = of_nat m"
  shows "\<exists>buf'. deliver_until p received buf w = Inr (m - d, buf', w\<lparr>rxDeliv := of_nat m\<rparr>, map f [d + max p 1..<m]) \<and>
    (\<forall>i. cArray_get i buf' = (if m - d \<le> i \<and> i < g then Some (f (d + i)) else None))"
  using assms
proof (induction "m - d - p" arbitrary: p buf w)
  case 0
  then have p: "p = m - d" "0 < p" "d + p = m" by simp_all
  with 0 have "deliver_until p received buf w = Inr (p, buf, w, [])" by (subst deliver_until.simps) simp
  with 0 p show ?case by (intro exI [of _ buf]) (auto simp: max_def)
next
  case (Suc k)
  then have p: "p < m - d" "p < length received" "p < g" by simp_all
  have less: "rxDeliv w < rxReord w" using Suc.prems(2,3,4,8,9) p by (simp del: of_nat_add)
  let ?b = "if 0 < p then cArray_remove p buf else buf" and ?w = "w\<lparr>rxDeliv := rxDeliv w + 1\<rparr>"
  have b: "\<forall>i. cArray_get i ?b = (if 0 < i \<and> Suc p \<le> i \<and> i < g then Some (f (d + i)) else None)"
    using Suc.prems(7) p by auto
  have w: "rxDeliv ?w = of_nat (d + Suc p)" "rxReord ?w = of_nat m" using Suc.prems(8,9) by (simp_all del: of_nat_add of_nat_Suc add: of_nat_add_u32)
  have "k = m - d - Suc p" using Suc.hyps(2) by simp
  from Suc.hyps(1) [OF this _ Suc.prems(2-6) b w] p obtain buf' where
    ih: "deliver_until (Suc p) received ?b ?w = Inr (m - d, buf', ?w\<lparr>rxDeliv := of_nat m\<rparr>, map f [d + max (Suc p) 1..<m])"
      "\<forall>i. cArray_get i buf' = (if m - d \<le> i \<and> i < g then Some (f (d + i)) else None)" by auto
  have "deliver_until p received buf w = Inr (m - d, buf', w\<lparr>rxDeliv := of_nat m\<rparr>, map f [d + max p 1..<m])"
  proof (cases "0 < p")
    case True
    then have "max p 1 = p" "max (Suc p) 1 = Suc p" by auto
    moreover have "[d + p..<m] = (d + p) # [d + Suc p..<m]" using p by (simp add: upt_conv_Cons)
    ultimately have "[d + max p 1..<m] = (d + p) # [d + max (Suc p) 1..<m]" by simp
    with True less p Suc.prems(6,7) ih(1) show ?thesis
      by (subst deliver_until.simps) (simp add: vec_at_def take_sdu_def)
  next
    case False
    with less p Suc.prems(6) ih(1) show ?thesis by (subst deliver_until.simps) (simp add: vec_at_def)
  qed
  with ih(2) show ?case by auto
qed

lemma deliver_run_gap:
  assumes "0 < p" and "p \<le> g" and "g < length received" and "d + g < 2 ^ 32"
    and "\<forall>i < length received. received ! i \<longleftrightarrow> 0 < i \<and> i < g"
    and "\<forall>i. cArray_get i buf = (if p \<le> i \<and> i < g then Some (f (d + i)) else None)"
    and "rxDeliv w = of_nat (d + p)" and "rxNext w = of_nat (d + g)"
  shows "\<exists>buf'. deliver_run p received buf w = Inr (g, buf', w\<lparr>rxDeliv := of_nat (d + g)\<rparr>, map f [d + p..<d + g]) \<and>
    (\<forall>i. cArray_get i buf' = None)"
  using assms
proof (induction "g - p" arbitrary: p buf w)
  case 0
  then have "p = g" by simp
  with 0 have "deliver_run p received buf w = Inr (p, buf, w, [])" by (subst deliver_run.simps) (simp add: vec_at_def)
  with 0 \<open>p = g\<close> show ?case by (intro exI [of _ buf]) auto
next
  case (Suc k)
  then have p: "p < g" "p < length received" by simp_all
  let ?b = "cArray_remove p buf" and ?w = "w\<lparr>rxDeliv := rxDeliv w + 1\<rparr>"
  have take: "take_sdu p buf = Inr (f (d + p), ?b)" using Suc.prems(6) p by (simp add: take_sdu_def)
  have b: "\<forall>i. cArray_get i ?b = (if Suc p \<le> i \<and> i < g then Some (f (d + i)) else None)" using Suc.prems(6) by auto
  have w: "rxDeliv ?w = of_nat (d + Suc p)" "rxNext ?w = of_nat (d + g)"
    using Suc.prems(7,8) by (simp_all del: of_nat_add of_nat_Suc add: of_nat_add_u32)
  have upt: "[d + p..<d + g] = (d + p) # [d + Suc p..<d + g]" using p by (simp add: upt_conv_Cons)
  show ?case
  proof (cases "Suc p = g")
    case True
    then have "rxDeliv ?w = rxNext ?w" using w by simp
    moreover have "?w = w\<lparr>rxDeliv := of_nat (d + g)\<rparr>" using w(1) True by simp
    ultimately have "deliver_run p received buf w = Inr (g, ?b, w\<lparr>rxDeliv := of_nat (d + g)\<rparr>, [f (d + p)])"
      using p Suc.prems(1,5) take True by (subst deliver_run.simps) (simp add: vec_at_def Let_def)
    with True upt b show ?thesis by auto
  next
    case False
    then have "rxDeliv ?w \<noteq> rxNext ?w" using w p Suc.prems(4) by (simp del: of_nat_add of_nat_Suc)
    moreover have "k = g - Suc p" using Suc.hyps(2) by simp
    from Suc.hyps(1) [OF this _ _ Suc.prems(3-5) b w] p obtain buf' where
      "deliver_run (Suc p) received ?b ?w = Inr (g, buf', ?w\<lparr>rxDeliv := of_nat (d + g)\<rparr>, map f [d + Suc p..<d + g])"
      "\<forall>i. cArray_get i buf' = None" by auto
    ultimately show ?thesis
      using p Suc.prems(1,5) take upt by (subst deliver_run.simps) (auto simp: vec_at_def Let_def)
  qed
qed

lemma one_gap_reordering_timer:
  assumes "one_gap f W (d, n) (rx\<lparr>nrx_t_reordering := (if d < n then Some t else None),
      nrx_window := (nrx_window rx)\<lparr>rxReord := of_nat n\<rparr>\<rparr>)"
    and "nrx_t_reordering rx \<noteq> None \<longrightarrow> (\<exists>m. rxReord (nrx_window rx) = of_nat m \<and> m \<le> n \<and> (d < n \<longrightarrow> d < m))"
  shows "one_gap f W (d, n) (reordering_timer now rx)"
  using assms by (auto simp: one_gap_def reordering_timer_def TTimer_stop_def TTimer_start_def Let_def)

text \<open>The SDU that is awaited.\<close>

lemma deliver_next_one_gap:
  assumes "one_gap f W (d, n) rx" and "n' = max n (Suc d)" and "n' < 2 ^ 32"
    and "rx1 = rx\<lparr>nrx_window := (nrx_window rx)\<lparr>rxNext := of_nat n'\<rparr>\<rparr>"
  shows "\<exists>rx'. deliver_next (f d) rx1 = Inr (rx', map f [d..<n']) \<and>
    one_gap f W (n', n') (rx'\<lparr>nrx_t_reordering := None\<rparr>) \<and> nrx_t_reordering rx' = nrx_t_reordering rx \<and>
    rxReord (nrx_window rx') = rxReord (nrx_window rx)"
proof -
  let ?g = "n' - d" and ?w = "(nrx_window rx1)\<lparr>rxDeliv := rxDeliv (nrx_window rx1) + 1\<rparr>"
  have g: "0 < ?g" "?g \<le> W" "length (nrx_received rx) = W" "W = unat (pdcp_windowSize (nrx_window rx))"
    using assms(1,2) by (auto simp: one_gap_def)
  have held: "\<forall>i < W. nrx_received rx ! i \<longleftrightarrow> 1 \<le> i \<and> i < ?g"
    "\<forall>i. cArray_get i (nrx_sduBuffer rx) = (if 1 \<le> i \<and> i < ?g then Some (f (d + i)) else None)"
    using assms(1,2) by (auto simp: one_gap_def max_def)
  from flush_loop_gap [of 1 ?g ?w "nrx_received rx" "nrx_sduBuffer rx" f d] g held assms(4) obtain received' buf' where
    flush: "flush_loop 1 (nrx_received rx) (nrx_sduBuffer rx) ?w =
        Inr (?g, received', buf', ?w\<lparr>rxDeliv := rxDeliv ?w + of_nat (?g - 1)\<rparr>, map f [d + 1..<d + ?g])"
      "length received' = W" "\<forall>i < W. \<not> received' ! i" "\<forall>i. cArray_get i buf' = None" by auto
  have "rxDeliv (nrx_window rx) = of_nat d" using assms(1) by (simp add: one_gap_def)
  then have deliv: "rxDeliv ?w + of_nat (?g - 1) = of_nat n'"
    using g(1) assms(4) by simp
  let ?rx = "rx1\<lparr>nrx_received := received', nrx_sduBuffer := buf', nrx_window := ?w\<lparr>rxDeliv := of_nat n'\<rparr>\<rparr>"
  have "[d..<n'] = d # [d + 1..<d + ?g]" using g(1) by (simp add: upt_conv_Cons)
  moreover have "deliver_next (f d) rx1 = Inr (?rx, f d # map f [d + 1..<d + ?g])"
    using flush(1) deliv assms(4) by (simp add: deliver_next_def Let_def)
  ultimately have "deliver_next (f d) rx1 = Inr (?rx, map f [d..<n'])" by simp
  moreover have "one_gap f W (n', n') (?rx\<lparr>nrx_t_reordering := None\<rparr>)"
    using assms(1,3,4) flush(2-4) by (simp add: one_gap_def)
  ultimately show ?thesis using assms(4) by (intro exI [of _ ?rx]) simp
qed

lemma nrx_arrival_awaited:
  assumes "one_gap f W (d, n) rx" and "n' = max n (Suc d)" and "n' < 2 ^ 32"
  shows "\<exists>rx'. nrx_step f (Arrival d now) rx = Inr (rx', map f [d..<n']) \<and> one_gap f W (n', n') rx'"
proof -
  let ?w = "nrx_window rx"
  define rx1 where "rx1 = rx\<lparr>nrx_window := ?w\<lparr>rxNext := of_nat n'\<rparr>\<rparr>"
  from deliver_next_one_gap [OF assms rx1_def] obtain rx2 where
    2: "deliver_next (f d) rx1 = Inr (rx2, map f [d..<n'])" "one_gap f W (n', n') (rx2\<lparr>nrx_t_reordering := None\<rparr>)"
      "nrx_t_reordering rx2 = nrx_t_reordering rx" "rxReord (nrx_window rx2) = rxReord ?w" by auto
  have fields: "rxDeliv ?w = of_nat d" "rxNext ?w = of_nat n" "0 < pdcp_windowSize ?w" "\<not> nrx_outOfOrderDelivery rx"
      "nrx_received rx \<noteq> []" "\<not> nrx_received rx ! 0" "d < 2 ^ 32" "n < 2 ^ 32"
    using assms by (auto simp: one_gap_def word_less_nat_alt)
  have nxt: "(if rxNext ?w \<le> of_nat d then rx\<lparr>nrx_window := ?w\<lparr>rxNext := of_nat d + 1\<rparr>\<rparr> else rx) = rx1"
  proof (cases "n \<le> d")
    case True
    then have "n' = Suc d" using assms(2) by simp
    with True fields show ?thesis by (simp add: rx1_def add.commute)
  next
    case False
    then have "n' = n" using assms(2) by simp
    with False fields show ?thesis by (simp add: rx1_def)
  qed
  have "nrx_step f (Arrival d now) rx = Inr (reordering_timer now rx2, map f [d..<n'])"
    using fields(1,3-6) 2(1) nxt by (simp add: nrx_step_def NRRxPdcpEntity_handlePdcpSdu_def Let_def vec_at_def)
  moreover have "nrx_t_reordering rx2 \<noteq> None \<longrightarrow> (\<exists>m. rxReord (nrx_window rx2) = of_nat m \<and> m \<le> n')"
    using assms(1,2) 2(3,4) by (auto simp: one_gap_def)
  then have "one_gap f W (n', n') (reordering_timer now rx2)"
    using 2(2) by (intro one_gap_reordering_timer [of _ _ _ _ _ undefined]) (auto simp: one_gap_def)
  ultimately show ?thesis by blast
qed

lemma nrx_arrival_ahead:
  assumes "one_gap f W (d, n) rx" and "k = n \<or> n = d \<and> k = Suc d" and "k \<noteq> d" and "2 * (Suc k - d) \<le> W" and "Suc k < 2 ^ 32"
  shows "\<exists>rx'. nrx_step f (Arrival k now) rx = Inr (rx', []) \<and> one_gap f W (d, Suc k) rx'"
proof -
  let ?w = "nrx_window rx"
  have k: "d < k" "n \<le> k" using assms(1-3) by (auto simp: one_gap_def)
  have fields: "rxDeliv ?w = of_nat d" "rxNext ?w = of_nat n" "\<not> nrx_outOfOrderDelivery rx" "length (nrx_received rx) = W"
      "W = unat (pdcp_windowSize ?w)" "n < 2 ^ 32" "d < 2 ^ 32" "k < 2 ^ 32" "\<not> nrx_received rx ! (k - d)" "k - d < W"
      "cArray_get (k - d) (nrx_sduBuffer rx) = None"
    using assms k by (auto simp: one_gap_def)
  have index: "(of_nat k :: u32) - of_nat d = of_nat (k - d)" using k by (simp add: of_nat_diff)
  have unat: "unat (of_nat (k - d) :: u32) = k - d" using fields(8) by simp
  obtain buf where buf: "cArray_addAt (int (k - d)) (f k) (nrx_sduBuffer rx) = Inr buf"
      "\<And>x. cArray_get x buf = (if x = k - d then Some (f k) else cArray_get x (nrx_sduBuffer rx))"
    using cArray_addAt_free [OF fields(11)] by metis
  let ?rx = "rx\<lparr>nrx_window := ?w\<lparr>rxNext := of_nat (Suc k)\<rparr>, nrx_sduBuffer := buf, nrx_received := (nrx_received rx)[k - d := True]\<rparr>"
  have not_less: "\<not> (of_nat k :: u32) < of_nat d" "\<not> pdcp_windowSize ?w \<le> of_nat (k - d)" "rxNext ?w \<le> of_nat k" "(of_nat k :: u32) \<noteq> of_nat d"
    using k fields unat by (auto simp: word_le_nat_alt simp del: of_nat_diff)
  have "nrx_step f (Arrival k now) rx = Inr (reordering_timer now ?rx, [])"
    using fields(1,3,4,9,10) not_less buf(1) k
    by (simp add: nrx_step_def NRRxPdcpEntity_handlePdcpSdu_def Let_def index unat vec_at_def buffer_sdu_def add.commute del: of_nat_diff)
  moreover have "one_gap f W (d, Suc k) (reordering_timer now ?rx)"
  proof (rule one_gap_reordering_timer [of _ _ _ _ _ undefined])
    show "one_gap f W (d, Suc k) (?rx\<lparr>nrx_t_reordering := (if d < Suc k then Some undefined else None),
        nrx_window := (nrx_window ?rx)\<lparr>rxReord := of_nat (Suc k)\<rparr>\<rparr>)"
    proof -
      have held: "\<forall>i < W. (nrx_received rx)[k - d := True] ! i \<longleftrightarrow> 0 < i \<and> i < Suc k - d"
        "\<forall>i. cArray_get i buf = (if 0 < i \<and> i < Suc k - d then Some (f (d + i)) else None)"
        using assms(1-3) k buf(2) fields(4,10) by (auto simp: one_gap_def nth_list_update)
      show ?thesis
        using fields(1,3,4,5) assms(1,4,5) k held
        by (simp add: one_gap_def del: of_nat_Suc) (rule exI [of _ "Suc k"], simp)
    qed
    show "nrx_t_reordering ?rx \<noteq> None \<longrightarrow> (\<exists>m. rxReord (nrx_window ?rx) = of_nat m \<and> m \<le> Suc k \<and> (d < Suc k \<longrightarrow> d < m))"
      using assms(1) k by (auto simp: one_gap_def)
  qed
  ultimately show ?thesis by blast
qed

lemma nrx_arrival_known:
  assumes "one_gap f W (d, n) rx" and "k < d \<or> d < k \<and> k < n"
  shows "nrx_step f (Arrival k now) rx = Inr (rx, [])"
proof -
  let ?w = "nrx_window rx"
  have fields: "rxDeliv ?w = of_nat d" "\<not> nrx_outOfOrderDelivery rx" "length (nrx_received rx) = W"
      "W = unat (pdcp_windowSize ?w)" "d < 2 ^ 32" "k < 2 ^ 32" "2 * (n - d) \<le> W"
      "d < k \<longrightarrow> nrx_received rx ! (k - d)"
    using assms by (auto simp: one_gap_def)
  show ?thesis
  proof (cases "k < d")
    case True
    with fields show ?thesis by (simp add: nrx_step_def NRRxPdcpEntity_handlePdcpSdu_def Let_def)
  next
    case False
    then have k: "d < k" "k - d < W" using assms(2) fields(7) by auto
    have index: "(of_nat k :: u32) - of_nat d = of_nat (k - d)" using k by (simp add: of_nat_diff)
    have "unat (of_nat (k - d) :: u32) = k - d" using fields(6) by simp
    with k fields(1-3,8) show ?thesis
      by (simp add: nrx_step_def NRRxPdcpEntity_handlePdcpSdu_def Let_def index vec_at_def del: of_nat_diff)
  qed
qed

lemma nrx_expiry_gap:
  assumes "one_gap f W (d, n) rx" and "d < n"
  shows "\<exists>rx'. nrx_step f (Expiry now) rx = Inr (rx', map f [Suc d..<n]) \<and> one_gap f W (n, n) rx'"
proof -
  let ?w = "nrx_window rx" and ?g = "n - d"
  obtain m where m: "rxReord ?w = of_nat m" "d < m" "m \<le> n" using assms by (auto simp: one_gap_def)
  have fields: "rxDeliv ?w = of_nat d" "rxNext ?w = of_nat n" "length (nrx_received rx) = W" "W = unat (pdcp_windowSize ?w)"
      "n < 2 ^ 32" "2 * ?g \<le> W" "0 < W" "d + ?g = n"
    and held: "\<forall>i < W. nrx_received rx ! i \<longleftrightarrow> 0 < i \<and> i < ?g"
      "\<forall>i. cArray_get i (nrx_sduBuffer rx) = (if 0 < i \<and> i < ?g then Some (f (d + i)) else None)"
    using assms by (auto simp: one_gap_def)
  have gW: "?g < W" "m - d \<le> ?g" using fields(6,7) m(3) by linarith+
  from deliver_until_gap [of 0 m d ?g "nrx_received rx" "nrx_sduBuffer rx" f ?w] m fields gW held obtain buf1 where
    1: "deliver_until 0 (nrx_received rx) (nrx_sduBuffer rx) ?w = Inr (m - d, buf1, ?w\<lparr>rxDeliv := of_nat m\<rparr>, map f [Suc d..<m])"
      "\<forall>i. cArray_get i buf1 = (if m - d \<le> i \<and> i < ?g then Some (f (d + i)) else None)" by auto
  from deliver_run_gap [of "m - d" ?g "nrx_received rx" d buf1 f "?w\<lparr>rxDeliv := of_nat m\<rparr>"] m fields gW held(1) 1(2) obtain buf2 where
    2: "deliver_run (m - d) (nrx_received rx) buf1 (?w\<lparr>rxDeliv := of_nat m\<rparr>) = Inr (?g, buf2, ?w\<lparr>rxDeliv := of_nat n\<rparr>, map f [m..<n])"
      "\<forall>i. cArray_get i buf2 = None" by auto
  have "\<forall>i \<in> set [?g..<W]. i < length (nrx_received rx) \<and> \<not> nrx_received rx ! i \<and> ?g \<le> i" using held(1) fields(3) by auto
  from slide_slots_empty [OF this, of buf2] 2(2) assms(2) obtain received where
    3: "slide_slots ?g [?g..<W] (nrx_received rx, buf2) = Inr (received, buf2)" "length received = W"
      "\<And>i. i < W \<Longrightarrow> received ! i \<longleftrightarrow> nrx_received rx ! i \<and> i \<notin> (\<lambda>i. i - ?g) ` set [?g..<W] \<and> i \<notin> set [?g..<W]"
    using fields(3) by auto
  have empty: "\<not> received ! i" if "i < W" for i
  proof
    assume "received ! i"
    with 3(3) [OF that] held(1) that have "i < ?g" "i \<notin> (\<lambda>i. i - ?g) ` set [?g..<W]" by auto
    moreover have "i = (i + ?g) - ?g" "i + ?g \<in> set [?g..<W]" using \<open>i < ?g\<close> fields(6) by auto
    ultimately show False by blast
  qed
  let ?rx = "rx\<lparr>nrx_t_reordering := None, nrx_received := received, nrx_sduBuffer := buf2, nrx_window := ?w\<lparr>rxDeliv := of_nat n\<rparr>\<rparr>"
  have "[Suc d..<n] = [Suc d..<m] @ [m..<n]" using m(2,3) upt_add_eq_append [of "Suc d" m "n - m"] by simp
  then have "nrx_step f (Expiry now) rx = Inr (?rx, map f [Suc d..<n])"
    using 1(1) 2(1) 3(1) fields(2,4) by (simp add: nrx_step_def NRRxPdcpEntity_handleMessage_def TTimer_handle_def Let_def)
  moreover have "one_gap f W (n, n) ?rx"
    using assms(1) fields empty 3(2) 2(2) by (auto simp: one_gap_def)
  ultimately show ?thesis by blast
qed

lemma nrx_step_refines:
  assumes "one_gap f W s rx" and "order_step W ev s = Some (s', ks)"
  shows "\<exists>rx'. nrx_step f ev rx = Inr (rx', map f ks) \<and> one_gap f W s' rx'"
proof -
  obtain d n where s: "s = (d, n)" by fastforce
  show ?thesis
  proof (cases ev)
    case (Expiry now)
    with assms s show ?thesis using nrx_expiry_gap [of f W d n rx now] by (auto simp: order_step_def split: if_splits)
  next
    case (Arrival k now)
    consider "k < d \<or> d < k \<and> k < n" | "k = d" | "d < k" "\<not> k < n" by linarith
    then show ?thesis
    proof cases
      case 1
      with assms s Arrival show ?thesis using nrx_arrival_known [of f W d n rx k now] by (auto simp: order_step_def)
    next
      case 2
      with assms s Arrival show ?thesis
        using nrx_arrival_awaited [of f W d n rx _ now] by (auto simp: order_step_def Let_def split: if_splits)
    next
      case 3
      with assms s Arrival have *: "k = n \<or> n = d \<and> k = Suc d" "2 * (Suc k - d) \<le> W" "Suc k < 2 ^ 32" "s' = (d, Suc k)" "ks = []"
        by (auto simp: order_step_def split: if_splits)
      with nrx_arrival_ahead [of f W d n rx k now] assms(1) s 3 Arrival show ?thesis by auto
    qed
  qed
qed

lemma nrx_run_refines:
  "one_gap f W s rx \<Longrightarrow> order_run W evs s = Some (s', ks) \<Longrightarrow>
     \<exists>rx'. nrx_run f evs rx = Inr (rx', map f ks) \<and> one_gap f W s' rx'"
proof (induction evs arbitrary: s rx ks)
  case Nil
  then show ?case by simp
next
  case (Cons ev evs)
  then obtain s1 ks1 ks2 where 1: "order_step W ev s = Some (s1, ks1)" "order_run W evs s1 = Some (s', ks2)" "ks = ks1 @ ks2"
    by (auto split: option.splits)
  from nrx_step_refines [OF Cons.prems(1) 1(1)] obtain rx1 where
    2: "nrx_step f ev rx = Inr (rx1, map f ks1)" "one_gap f W s1 rx1" by auto
  from Cons.IH [OF 2(2) 1(2)] 2(1) 1(3) show ?case by auto
qed

section \<open>Properties\<close>

fun is_expiry :: "pdcp_event \<Rightarrow> bool" where
  "is_expiry (Expiry _) = True"
| "is_expiry (Arrival _ _) = False"

text \<open>What the specification delivers.\<close>

lemma order_step_delivers:
  assumes "order_step W ev (d, n) = Some ((d', n'), ks)" and "d \<le> n"
  shows "d \<le> d'" "d' \<le> n'" "sorted_wrt (<) ks" "set ks \<subseteq> {d..<d'}" "length ks + (if is_expiry ev then 1 else 0) = d' - d"
  using assms by (auto simp: order_step_def Let_def split: pdcp_event.splits if_splits)

lemma order_run_delivers:
  "order_run W evs (d, n) = Some ((d', n'), ks) \<Longrightarrow> d \<le> n \<Longrightarrow>
     d \<le> d' \<and> d' \<le> n' \<and> sorted_wrt (<) ks \<and> set ks \<subseteq> {d..<d'} \<and> length ks + length (filter is_expiry evs) = d' - d"
proof (induction evs arbitrary: d n ks)
  case Nil
  then show ?case by simp
next
  case (Cons ev evs)
  then obtain d1 n1 ks1 ks2 where
    1: "order_step W ev (d, n) = Some ((d1, n1), ks1)" "order_run W evs (d1, n1) = Some ((d', n'), ks2)" "ks = ks1 @ ks2"
    by (auto split: option.splits)
  note step = order_step_delivers [OF 1(1) Cons.prems(2)]
  from Cons.IH [OF 1(2) step(2)] step 1(3) show ?case by (fastforce simp: sorted_wrt_append split: if_splits)
qed

lemma one_gap_initialize:
  "0 < sz \<Longrightarrow> one_gap f (unat sz) (0, 0) (NRRxPdcpEntity_initialize False sz t)"
  by (simp add: one_gap_def NRRxPdcpEntity_initialize_def cArray_get_def unat_gt_0 word_gt_0)

text \<open>
  C19. Reordering with one late number.  As long as at most one number is late and no more than half a window lies
  behind it, a receiving entity of a split bearer never fails and delivers the SDUs in increasing order
  without duplicates; every number below the first one not delivered has gone up except one per expiry
  of the reordering timer.
\<close>

theorem nr_pdcp_delivers_in_order:
  assumes "0 < sz" and "order_run (unat sz) evs (0, 0) = Some ((d, n), ks)"
  shows "(\<exists>rx. nrx_run f evs (NRRxPdcpEntity_initialize False sz t) = Inr (rx, map f ks) \<and>
       rxDeliv (nrx_window rx) = of_nat d \<and> rxNext (nrx_window rx) = of_nat n) \<and>
     sorted_wrt (<) ks \<and> set ks \<subseteq> {..<d} \<and> length ks + length (filter is_expiry evs) = d"
proof -
  from nrx_run_refines [OF one_gap_initialize [OF assms(1)] assms(2)] obtain rx where
    "nrx_run f evs (NRRxPdcpEntity_initialize False sz t) = Inr (rx, map f ks)" "one_gap f (unat sz) (d, n) rx" by blast
  with order_run_delivers [OF assms(2)] show ?thesis by (auto simp: one_gap_def)
qed

text \<open>Numbers 1 and 2 overtake 0; then 3 is late, and the timer gives up on it.\<close>

theorem nr_pdcp_delivers_in_order_witness:
  "\<exists>rx :: nat NRRxPdcpEntity. nrx_run (\<lambda>k. 10 * k) [Arrival 1 0, Arrival 2 1, Arrival 1 1, Arrival 0 2, Arrival 4 3, Arrival 5 3, Expiry 9, Arrival 6 10]
     (NRRxPdcpEntity_initialize False 8 6) = Inr (rx, [0, 10, 20, 40, 50, 60]) \<and> rxDeliv (nrx_window rx) = of_nat 7"
proof -
  let ?evs = "[Arrival 1 0, Arrival 2 1, Arrival 1 1, Arrival 0 2, Arrival 4 3, Arrival 5 3, Expiry 9, Arrival 6 10]"
  have "order_run (unat (8 :: u32)) ?evs (0, 0) = Some ((7, 7), [0, 1, 2, 4, 5, 6])"
    by (simp add: order_step_def upt_rec)
  moreover have "(0 :: u32) < 8" by simp
  ultimately obtain rx where "nrx_run (\<lambda>k. 10 * k) ?evs (NRRxPdcpEntity_initialize False 8 6) = Inr (rx, map ((*) 10) [0, 1, 2, 4, 5, 6 :: nat])"
    "rxDeliv (nrx_window rx) = of_nat 7" using nr_pdcp_delivers_in_order [of 8 ?evs 7 7 _ "(*) 10" 6] by blast
  moreover have "map ((*) 10) [0, 1, 2, 4, 5, 6] = [0, 10, 20, 40, 50, 60 :: nat]" by simp
  ultimately show ?thesis by (intro exI [of _ rx]) (simp only: simp_thms)
qed

declare flush_loop.simps [code] deliver_until.simps [code] deliver_run.simps [code]

text \<open>
  With two late numbers the entity loses the order.  When the awaited SDU 0 comes, the window slides by one, but the
  bound of the loop has already been lowered: SDU 2 stays at position 2, which is now the place of number 3.  SDU 3
  is then taken for a duplicate and dropped.
\<close>

theorem nr_pdcp_two_late_loses:
  "(case nrx_run (\<lambda>k. k) (map (\<lambda>k. Arrival k 0) [2, 0]) (NRRxPdcpEntity_initialize False 8 6) of
      Inr (rx, out) \<Rightarrow> out = [0] \<and> nrx_received rx ! 2 \<and> \<not> nrx_received rx ! 1 \<and>
        (case NRRxPdcpEntity_handlePdcpSdu True 1 3 3 rx of Inr (rx', out') \<Rightarrow> rx' = rx \<and> out' = [] | Inl _ \<Rightarrow> False)
    | Inl _ \<Rightarrow> False)"
  by code_simp

text \<open>When the SDU that starts the timer is at the last position of the window, the expiry reads past the end.\<close>

theorem nr_pdcp_last_position_fails:
  "nrx_run (\<lambda>k. k) [Arrival 3 0, Expiry 6] (NRRxPdcpEntity_initialize False 4 6) = Inl OutOfRange"
  by code_simp

end
