(* ===== verification/Pdcp_Rrc.thy ===== *)
theory Pdcp_Rrc
  imports Pdcp_Reordering Conn_Table Binder_Radio
begin

text \<open>
  The PDCP layer, \<^verbatim>\<open>simu5G/src/stack/pdcp_rrc/layer\<close>: header compression, the numbering of connections and of
  their packets, the paths between IP, RLC and (with dual connectivity) the PDCP of another node.  The classes
  \<^verbatim>\<open>LtePdcpRrcUe\<close>, \<^verbatim>\<open>LtePdcpRrcEnb\<close>, their D2D variants and \<^verbatim>\<open>NRPdcpRrcUe\<close>, \<^verbatim>\<open>NRPdcpRrcEnb\<close> are one record with
  a \<open>kind\<close>, and a virtual method is a case distinction on it.  The Binder is passed through; whether a node can do
  D2D, and with which mode it starts, are the parameters \<open>env\<close>.  A search of the connections table that never ends
  is \<open>None\<close>.
\<close>

section \<open>Packets\<close>

datatype LteRlcType = TM | UM | AM | UNKNOWN_RLC_TYPE
datatype LteTrafficClass = CONVERSATIONAL | STREAMING | INTERACTIVE | BACKGROUND | UNKNOWN_TRAFFIC_TYPE
datatype ApplicationType = VOIP | VOD | WEB | CBR | FTP | GAMING | FULLBUFFER | UNKNOWN_APP

text \<open>The chunks of a packet with their lengths in bytes; IP with the transport protocol, ROHC with the original
  lengths of the transport and IP headers; \<open>Payload\<close> stands for the rest.\<close>

datatype pdcp_chunk =
  Ipv4Header int int | TcpHeader int | UdpHeader int | LteRohcPdu int int int | LtePdcpPdu int | Payload nat

definition IP_PROT_TCP :: int where "IP_PROT_TCP = 6"
definition IP_PROT_UDP :: int where "IP_PROT_UDP = 17"
definition UDP_HEADER_LENGTH :: int where "UDP_HEADER_LENGTH = 8"

record PdcpInfo =
  pi_srcAddr :: Ipv4Address
  pi_dstAddr :: Ipv4Address
  pi_typeOfService :: "16 word"
  pi_useNR :: bool
  pi_sequenceNumber :: u32
  pi_direction :: Direction
  pi_lcid :: LogicalCid
  pi_sourceId :: MacNodeId
  pi_destId :: MacNodeId
  pi_d2dTxPeerId :: MacNodeId
  pi_d2dRxPeerId :: MacNodeId
  pi_multicastGroupId :: int
  pi_application :: ApplicationType
  pi_traffic :: LteTrafficClass
  pi_rlcType :: LteRlcType

record pdcp_packet =
  pp_name :: string
  pp_chunks :: "pdcp_chunk list"
  pp_info :: PdcpInfo

section \<open>Header compression\<close>

definition LTE_PDCP_HEADER_COMPRESSION_DISABLED :: int where
  "LTE_PDCP_HEADER_COMPRESSION_DISABLED = - 1"

text \<open>Taking a chunk of another class off the front fails.\<close>

definition headerCompress :: "int \<Rightarrow> pdcp_chunk list \<Rightarrow> pdcp_chunk list res" where
  "headerCompress compressed cs =
     (if compressed = LTE_PDCP_HEADER_COMPRESSION_DISABLED then Inr cs
      else (case cs of
          Ipv4Header len proto # cs \<Rightarrow>
            if proto = IP_PROT_TCP
            then (case cs of TcpHeader tlen # cs \<Rightarrow>
                      Inr (LteRohcPdu (compressed - 1 - 1) tlen len # Ipv4Header 1 proto # TcpHeader 1 # cs)
                  | _ \<Rightarrow> Inl CastError)
            else if proto = IP_PROT_UDP
            then (case cs of UdpHeader _ # cs \<Rightarrow>
                      Inr (LteRohcPdu (compressed - 1 - 1) UDP_HEADER_LENGTH len # Ipv4Header 1 proto # UdpHeader 1 # cs)
                  | _ \<Rightarrow> Inl CastError)
            else Inr (LteRohcPdu (compressed - 0 - 1) 0 len # Ipv4Header 1 proto # cs)
        | _ \<Rightarrow> Inl CastError))"

definition headerDecompress :: "int \<Rightarrow> pdcp_chunk list \<Rightarrow> pdcp_chunk list res" where
  "headerDecompress compressed cs =
     (if compressed = LTE_PDCP_HEADER_COMPRESSION_DISABLED then Inr cs
      else (case cs of
          LteRohcPdu _ origTransport origIp # Ipv4Header _ proto # cs \<Rightarrow>
            if proto = IP_PROT_TCP
            then (case cs of TcpHeader _ # cs \<Rightarrow> Inr (Ipv4Header origIp proto # TcpHeader origTransport # cs) | _ \<Rightarrow> Inl CastError)
            else if proto = IP_PROT_UDP
            then (case cs of UdpHeader _ # cs \<Rightarrow> Inr (Ipv4Header origIp proto # UdpHeader origTransport # cs) | _ \<Rightarrow> Inl CastError)
            else Inr (Ipv4Header origIp proto # cs)
        | _ \<Rightarrow> Inl CastError))"

section \<open>State\<close>

datatype pdcp_kind = LteUe | LteEnb | LteUeD2D | LteEnbD2D | NrUe | NrEnb

datatype pdcp_rx_entity = LteRxPdcpEntity | NrRx "pdcp_packet NRRxPdcpEntity"

text \<open>A sending entity is its next sequence number.  The parameters of new receiving entities of NR come last.\<close>

record PdcpRrc =
  pr_kind :: pdcp_kind
  pr_headerCompressedSize :: int
  pr_conversationalRlc :: LteRlcType
  pr_interactiveRlc :: LteRlcType
  pr_streamingRlc :: LteRlcType
  pr_backgroundRlc :: LteRlcType
  pr_lcid :: LogicalCid
  pr_ht :: "conn_entry list"
  pr_nodeId :: MacNodeId
  pr_nrNodeId :: MacNodeId
  pr_dualConnectivityEnabled :: bool
  pr_packetFlowManager :: bool
  pr_nrPacketFlowManager :: bool
  pr_txEntities :: "(MacCid, u32) smap"
  pr_rxEntities :: "(MacCid, pdcp_rx_entity) smap"
  pr_outOfOrderDelivery :: bool
  pr_rxWindowSize :: u32
  pr_timeout :: simtime

record pdcp_env =
  pe_isD2DCapable :: "MacNodeId \<Rightarrow> bool"
  pe_d2dInitialMode :: "MacNodeId \<Rightarrow> bool"

text \<open>Calls and messages: to RLC (of the LTE or the NR side), to IP, to the packet-flow managers, to another
  node through the dual-connectivity manager, and the control messages of RRC.\<close>

datatype pdcp_out =
  ToRlc bool LteRlcType pdcp_packet | ToDataPort pdcp_packet | InsertPdcpSdu bool pdcp_packet
  | ReceivedPdcpSdu pdcp_packet | ForwardDataToTargetNode MacNodeId pdcp_packet
  | RrcControlToTm MacNodeId LogicalCid nat | ToEutranRrc nat

definition is_nr :: "PdcpRrc \<Rightarrow> bool" where
  "is_nr pr \<longleftrightarrow> pr_kind pr = NrUe \<or> pr_kind pr = NrEnb"

definition is_ue :: "PdcpRrc \<Rightarrow> bool" where
  "is_ue pr \<longleftrightarrow> pr_kind pr = LteUe \<or> pr_kind pr = LteUeD2D \<or> pr_kind pr = NrUe"

definition isDualConnectivityEnabled :: "PdcpRrc \<Rightarrow> bool" where
  "isDualConnectivityEnabled pr \<longleftrightarrow> is_nr pr \<and> pr_dualConnectivityEnabled pr"

definition getNrNodeId :: "PdcpRrc \<Rightarrow> MacNodeId" where
  "getNrNodeId pr = (if pr_kind pr = NrUe then pr_nrNodeId pr else pr_nodeId pr)"

definition pdcp_getDirection :: "PdcpRrc \<Rightarrow> Direction" where
  "pdcp_getDirection pr = (if is_ue pr then UL else DL)"

definition setTrafficInformation :: "PdcpRrc \<Rightarrow> string \<Rightarrow> PdcpInfo \<Rightarrow> PdcpInfo" where
  "setTrafficInformation pr name info =
     (let (app, traffic, rlc) =
        (if name = ''VoIP'' then (VOIP, CONVERSATIONAL, pr_conversationalRlc pr)
         else if name = ''gaming'' then (GAMING, INTERACTIVE, pr_interactiveRlc pr)
         else if name = ''VoDPacket'' \<or> name = ''VoDFinishPacket'' then (VOD, STREAMING, pr_streamingRlc pr)
         else (CBR, BACKGROUND, pr_backgroundRlc pr))
      in info\<lparr>pi_application := app, pi_traffic := traffic, pi_rlcType := rlc, pi_direction := pdcp_getDirection pr\<rparr>)"

section \<open>Destinations\<close>

text \<open>D2D if the pair of UEs is in direct mode; asking for the mode goes through \<^verbatim>\<open>operator[]\<close>.\<close>

definition d2d_direction :: "MacNodeId \<Rightarrow> MacNodeId \<Rightarrow> Binder \<Rightarrow> (Direction \<times> Binder) res" where
  "d2d_direction src dst b = rbind (getD2DCapability src dst b) (\<lambda>capable.
     if capable then rbind (getD2DMode src dst b) (\<lambda>(mode, b). Inr (if mode = DM then D2D else UL, b))
     else Inr (UL, b))"

text \<open>The base station that serves \<open>destId\<close>, or the node of the dual connection that does.\<close>

definition serving_dest :: "PdcpRrc \<Rightarrow> MacNodeId \<Rightarrow> Binder \<Rightarrow> MacNodeId res" where
  "serving_dest pr destId b = rbind (getNextHop destId b) (\<lambda>master.
     if master \<noteq> pr_nodeId pr then Inr master
     else rbind (getMasterNode master b) (\<lambda>master. Inr (if master \<noteq> pr_nodeId pr then master else destId)))"

definition LtePdcpRrcUe_getDestId :: "PdcpRrc \<Rightarrow> Binder \<Rightarrow> (MacNodeId \<times> Binder) res" where
  "LtePdcpRrcUe_getDestId pr b = rbind (getNextHop (pr_nodeId pr) b) (\<lambda>m. Inr (m, b))"

definition LtePdcpRrcEnb_getDestId :: "PdcpRrc \<Rightarrow> PdcpInfo \<Rightarrow> Binder \<Rightarrow> (MacNodeId \<times> Binder) res" where
  "LtePdcpRrcEnb_getDestId pr info b =
     rbind (getMacNodeId (pi_dstAddr info) b) (\<lambda>destId. rbind (serving_dest pr destId b) (\<lambda>m. Inr (m, b)))"

text \<open>At a UE that can do D2D: the peer itself in direct mode, the serving station otherwise.\<close>

definition ue_dest :: "MacNodeId \<Rightarrow> PdcpInfo \<Rightarrow> Binder \<Rightarrow> (MacNodeId \<times> Binder) res" where
  "ue_dest srcId info b = rbind (getMacNodeId (pi_dstAddr info) b) (\<lambda>destId.
     if destId = 0 then rbind (getNextHop (pi_sourceId info) b) (\<lambda>m. Inr (m, b))
     else rbind (d2d_direction srcId destId b) (\<lambda>(dir, b).
       if dir = UL then rbind (getNextHop (pi_sourceId info) b) (\<lambda>m. Inr (m, b)) else Inr (destId, b)))"

definition LtePdcpRrcUeD2D_getDestId :: "PdcpRrc \<Rightarrow> PdcpInfo \<Rightarrow> Binder \<Rightarrow> (MacNodeId \<times> Binder) res" where
  "LtePdcpRrcUeD2D_getDestId pr info b = ue_dest (pr_nodeId pr) info b"

definition NRPdcpRrcUe_getDestId :: "PdcpRrc \<Rightarrow> PdcpInfo \<Rightarrow> Binder \<Rightarrow> (MacNodeId \<times> Binder) res" where
  "NRPdcpRrcUe_getDestId pr info b = ue_dest (if pi_useNR info then pr_nrNodeId pr else pr_nodeId pr) info b"

definition NRPdcpRrcEnb_getDestId :: "PdcpRrc \<Rightarrow> PdcpInfo \<Rightarrow> Binder \<Rightarrow> (MacNodeId \<times> Binder) res" where
  "NRPdcpRrcEnb_getDestId pr info b =
     (if \<not> pr_dualConnectivityEnabled pr \<or> pi_useNR info
      then rbind (serving_dest pr (getNrMacNodeId (pi_dstAddr info) b) b) (\<lambda>m. Inr (m, b))
      else rbind (getMacNodeId (pi_dstAddr info) b) (\<lambda>destId. rbind (serving_dest pr destId b) (\<lambda>m. Inr (m, b))))"

definition pdcp_getDestId :: "PdcpRrc \<Rightarrow> PdcpInfo \<Rightarrow> Binder \<Rightarrow> (MacNodeId \<times> Binder) res" where
  "pdcp_getDestId pr info b = (case pr_kind pr of
       LteUe \<Rightarrow> LtePdcpRrcUe_getDestId pr b
     | LteUeD2D \<Rightarrow> LtePdcpRrcUeD2D_getDestId pr info b
     | NrUe \<Rightarrow> NRPdcpRrcUe_getDestId pr info b
     | NrEnb \<Rightarrow> NRPdcpRrcEnb_getDestId pr info b
     | _ \<Rightarrow> LtePdcpRrcEnb_getDestId pr info b)"

section \<open>Towards RLC\<close>

text \<open>The note to the packet-flow manager, for packets that are not sent in direct mode.\<close>

definition insert_pdcp_sdu :: "bool \<Rightarrow> bool \<Rightarrow> pdcp_packet \<Rightarrow> pdcp_out list" where
  "insert_pdcp_sdu nr present pkt =
     (if pi_direction (pp_info pkt) \<noteq> D2D_MULTI \<and> pi_direction (pp_info pkt) \<noteq> D2D \<and> present
      then [InsertPdcpSdu nr pkt] else [])"

definition LtePdcpRrcBase_sendToLowerLayer :: "PdcpRrc \<Rightarrow> pdcp_packet \<Rightarrow> pdcp_out list res" where
  "LtePdcpRrcBase_sendToLowerLayer pr pkt =
     (if pi_rlcType (pp_info pkt) = UNKNOWN_RLC_TYPE
      then Inl (RuntimeError ''LtePdcpRrcBase::sendToLowerLayer(): invalid RlcType'')
      else Inr (insert_pdcp_sdu False (pr_packetFlowManager pr) pkt @ [ToRlc False (pi_rlcType (pp_info pkt)) pkt]))"

definition NRPdcpRrcUe_sendToLowerLayer :: "PdcpRrc \<Rightarrow> pdcp_packet \<Rightarrow> pdcp_out list res" where
  "NRPdcpRrcUe_sendToLowerLayer pr pkt =
     (if \<not> pr_dualConnectivityEnabled pr \<or> pi_useNR (pp_info pkt)
      then (let pkt = pkt\<lparr>pp_info := (pp_info pkt)\<lparr>pi_sourceId := pr_nrNodeId pr\<rparr>\<rparr>
            in Inr (insert_pdcp_sdu True (pr_nrPacketFlowManager pr) pkt @
                    [ToRlc True (if pi_rlcType (pp_info pkt) = UM then UM else AM) pkt]))
      else LtePdcpRrcBase_sendToLowerLayer pr pkt)"

definition sendToLowerLayer :: "PdcpRrc \<Rightarrow> pdcp_packet \<Rightarrow> pdcp_out list res" where
  "sendToLowerLayer pr pkt =
     (if pr_kind pr = NrUe then NRPdcpRrcUe_sendToLowerLayer pr pkt else LtePdcpRrcBase_sendToLowerLayer pr pkt)"

text \<open>The sending entity: numbering, identifiers, PDCP header, and the way out.\<close>

definition set_dest :: "PdcpRrc \<Rightarrow> PdcpInfo \<Rightarrow> Binder \<Rightarrow> (PdcpInfo \<times> Binder) res" where
  "set_dest pr info b =
     (if 0 < pi_multicastGroupId info then Inr (info\<lparr>pi_destId := pr_nodeId pr\<rparr>, b)
      else rbind (pdcp_getDestId pr info b) (\<lambda>(destId, b). Inr (info\<lparr>pi_destId := destId\<rparr>, b)))"

definition LteTxPdcpEntity_setIds :: "PdcpRrc \<Rightarrow> PdcpInfo \<Rightarrow> Binder \<Rightarrow> (PdcpInfo \<times> Binder) res" where
  "LteTxPdcpEntity_setIds pr info b = set_dest pr (info\<lparr>pi_sourceId := pr_nodeId pr\<rparr>) b"

definition NRTxPdcpEntity_setIds :: "PdcpRrc \<Rightarrow> PdcpInfo \<Rightarrow> Binder \<Rightarrow> (PdcpInfo \<times> Binder) res" where
  "NRTxPdcpEntity_setIds pr info b =
     (let source = (if pi_useNR info \<and> getNodeTypeById (pr_nodeId pr) \<noteq> ENODEB \<and> getNodeTypeById (pr_nodeId pr) \<noteq> GNODEB
                    then getNrNodeId pr else pr_nodeId pr)
      in set_dest pr (info\<lparr>pi_sourceId := source\<rparr>) b)"

definition setIds :: "PdcpRrc \<Rightarrow> PdcpInfo \<Rightarrow> Binder \<Rightarrow> (PdcpInfo \<times> Binder) res" where
  "setIds pr info b = (if is_nr pr then NRTxPdcpEntity_setIds pr info b else LteTxPdcpEntity_setIds pr info b)"

definition pdcp_header_length :: "LteRlcType \<Rightarrow> int res" where
  "pdcp_header_length t = (case t of UM \<Rightarrow> Inr 1 | AM \<Rightarrow> Inr 2 | TM \<Rightarrow> Inr 0
     | UNKNOWN_RLC_TYPE \<Rightarrow> Inl (RuntimeError ''LtePdcpRrcBase::fromDataport(): invalid RlcType''))"

definition NRTxPdcpEntity_deliverPdcpPdu :: "PdcpRrc \<Rightarrow> pdcp_packet \<Rightarrow> pdcp_out list res" where
  "NRTxPdcpEntity_deliverPdcpPdu pr pkt =
     (let destId = pi_destId (pp_info pkt)
      in if getNodeTypeById (pr_nodeId pr) = UE then sendToLowerLayer pr pkt
         else if \<not> isDualConnectivityEnabled pr
         then (if getNodeTypeById destId \<noteq> UE then Inl (RuntimeError ''NRTxPdcpEntity::deliverPdcpPdu - Dual Connectivity is not enabled'')
               else sendToLowerLayer pr pkt)
         else if \<not> pi_useNR (pp_info pkt)
         then (if getNodeTypeById destId \<noteq> UE then Inl (RuntimeError ''NRTxPdcpEntity::deliverPdcpPdu - not marked as NR packet'')
               else sendToLowerLayer pr pkt)
         else if getNodeTypeById destId = UE
         then Inl (RuntimeError ''NRTxPdcpEntity::deliverPdcpPdu - the destination is not the secondary node'')
         else Inr [ForwardDataToTargetNode destId pkt])"

definition deliverPdcpPdu :: "PdcpRrc \<Rightarrow> pdcp_packet \<Rightarrow> pdcp_out list res" where
  "deliverPdcpPdu pr pkt = (if is_nr pr then NRTxPdcpEntity_deliverPdcpPdu pr pkt else sendToLowerLayer pr pkt)"

definition handlePacketFromUpperLayer ::
  "PdcpRrc \<Rightarrow> Binder \<Rightarrow> u32 \<Rightarrow> pdcp_packet \<Rightarrow> (u32 \<times> Binder \<times> pdcp_out list) res" where
  "handlePacketFromUpperLayer pr b sno pkt =
     rbind (headerCompress (pr_headerCompressedSize pr) (pp_chunks pkt)) (\<lambda>cs.
     rbind (setIds pr ((pp_info pkt)\<lparr>pi_sequenceNumber := sno\<rparr>) b) (\<lambda>(info, b).
     rbind (pdcp_header_length (pi_rlcType info)) (\<lambda>len.
     rbind (deliverPdcpPdu pr (pkt\<lparr>pp_chunks := LtePdcpPdu len # cs, pp_info := info\<rparr>)) (\<lambda>out.
       Inr (sno + 1, b, out)))))"

section \<open>From IP\<close>

text \<open>The direction as a word of the key: the values of the enumeration.\<close>

definition dir_code :: "Direction \<Rightarrow> 16 word" where
  "dir_code d = (case d of DL \<Rightarrow> 0 | UL \<Rightarrow> 1 | D2D \<Rightarrow> 2 | D2D_MULTI \<Rightarrow> 3 | UNKNOWN_DIRECTION \<Rightarrow> 4)"

definition connection_lcid :: "PdcpInfo \<Rightarrow> PdcpRrc \<Rightarrow> (LogicalCid \<times> PdcpRrc) option" where
  "connection_lcid info pr =
     (let s = (pr_lcid pr, pr_ht pr)
      in map_option (\<lambda>(l, lcid, ht). (l, pr\<lparr>pr_lcid := lcid, pr_ht := ht\<rparr>))
           (if pr_kind pr = LteUe \<or> pr_kind pr = LteEnb
            then assign_lcid conn_find conn_create (pi_srcAddr info, pi_dstAddr info, pi_typeOfService info) s
            else assign_lcid conn_find_dir conn_create_dir
                   (pi_srcAddr info, pi_dstAddr info, pi_typeOfService info, dir_code (pi_direction info)) s))"

text \<open>The entity with the identifier \<open>cid\<close>, created with the first packet, processes the packet.\<close>

definition to_entity :: "MacCid \<Rightarrow> pdcp_packet \<Rightarrow> PdcpRrc \<Rightarrow> Binder \<Rightarrow> (PdcpRrc \<times> Binder \<times> pdcp_out list) res" where
  "to_entity cid pkt pr b =
     (let sno = (case map_of (pr_txEntities pr) cid of None \<Rightarrow> 0 | Some n \<Rightarrow> n)
      in rbind (handlePacketFromUpperLayer pr b sno pkt) (\<lambda>(sno, b, out).
           Inr (pr\<lparr>pr_txEntities := smap_upd cid sno (pr_txEntities pr)\<rparr>, b, out)))"

text \<open>The endpoints of a flow that can change to direct mode.\<close>

definition set_peers :: "bool \<Rightarrow> MacNodeId \<Rightarrow> MacNodeId \<Rightarrow> PdcpInfo \<Rightarrow> PdcpInfo" where
  "set_peers capable src dst info =
     (if capable then info\<lparr>pi_d2dTxPeerId := src, pi_d2dRxPeerId := dst\<rparr>
      else info\<lparr>pi_d2dTxPeerId := 0, pi_d2dRxPeerId := 0\<rparr>)"

definition is_multicast :: "Ipv4Address \<Rightarrow> bool" where
  "is_multicast a \<longleftrightarrow> drop_bit 28 a = 0xE"

definition multicast_group :: "Ipv4Address \<Rightarrow> int" where
  "multicast_group a = uint (a AND 0x0FFFFFFF)"

text \<open>The information of the flow at a UE with D2D.\<close>

definition ue_flow :: "pdcp_env \<Rightarrow> MacNodeId \<Rightarrow> PdcpInfo \<Rightarrow> Binder \<Rightarrow> (PdcpInfo \<times> Binder) res" where
  "ue_flow env nodeId info b =
     (if is_multicast (pi_dstAddr info)
      then Inr (info\<lparr>pi_direction := D2D_MULTI, pi_multicastGroupId := multicast_group (pi_dstAddr info)\<rparr>,
                addD2DMulticastTransmitter nodeId b)
      else rbind (getMacNodeId (pi_dstAddr info) b) (\<lambda>destId.
        if destId = 0 then Inr (set_peers False 0 0 (info\<lparr>pi_direction := UL\<rparr>), b)
        else rbind (checkD2DCapability (pe_isD2DCapable env) (pe_d2dInitialMode env) nodeId destId b) (\<lambda>(capable, b).
             rbind (d2d_direction nodeId destId b) (\<lambda>(dir, b).
               Inr ((set_peers capable nodeId destId info)\<lparr>pi_direction := dir\<rparr>, b)))))"

text \<open>The information of the flow at a base station with D2D.\<close>

definition enb_flow :: "PdcpRrc \<Rightarrow> MacNodeId \<Rightarrow> MacNodeId \<Rightarrow> PdcpInfo \<Rightarrow> Binder \<Rightarrow> PdcpInfo res" where
  "enb_flow pr srcId destId info b =
     (let info = info\<lparr>pi_direction := pdcp_getDirection pr\<rparr>
      in rbind (if getNodeTypeById srcId = UE \<and> getNodeTypeById destId = UE then getD2DCapability srcId destId b else Inr False) (\<lambda>capable.
           Inr (set_peers capable srcId destId info)))"

definition lift_run :: "'a res \<Rightarrow> ('a \<Rightarrow> 'b run) \<Rightarrow> 'b run" where
  "lift_run r f = run_bind (Some r) f"

definition with_lcid :: "PdcpInfo \<Rightarrow> PdcpRrc \<Rightarrow> (LogicalCid \<Rightarrow> PdcpRrc \<Rightarrow> 'a res) \<Rightarrow> 'a run" where
  "with_lcid info pr f = (case connection_lcid info pr of None \<Rightarrow> None | Some (l, pr) \<Rightarrow> Some (f l pr))"

definition LtePdcpRrcBase_fromDataPort :: "pdcp_packet \<Rightarrow> PdcpRrc \<Rightarrow> Binder \<Rightarrow> (PdcpRrc \<times> Binder \<times> pdcp_out list) run" where
  "LtePdcpRrcBase_fromDataPort pkt pr b =
     (let info = setTrafficInformation pr (pp_name pkt) (pp_info pkt)
      in lift_run (pdcp_getDestId pr info b) (\<lambda>(destId, b).
         with_lcid info pr (\<lambda>lcid pr.
           to_entity (idToMacCid destId lcid)
             (pkt\<lparr>pp_info := info\<lparr>pi_lcid := lcid, pi_sourceId := pr_nodeId pr, pi_destId := destId\<rparr>\<rparr>) pr b)))"

definition LtePdcpRrcUeD2D_fromDataPort ::
  "pdcp_env \<Rightarrow> pdcp_packet \<Rightarrow> PdcpRrc \<Rightarrow> Binder \<Rightarrow> (PdcpRrc \<times> Binder \<times> pdcp_out list) run" where
  "LtePdcpRrcUeD2D_fromDataPort env pkt pr b =
     (let info = setTrafficInformation pr (pp_name pkt) (pp_info pkt)
      in lift_run (ue_flow env (pr_nodeId pr) info b) (\<lambda>(info, b).
         with_lcid info pr (\<lambda>lcid pr.
           let info = info\<lparr>pi_lcid := lcid, pi_sourceId := pr_nodeId pr\<rparr>
           in rbind (pdcp_getDestId pr info b) (\<lambda>(destId, b). to_entity (idToMacCid destId lcid) (pkt\<lparr>pp_info := info\<rparr>) pr b))))"

definition NRPdcpRrcUe_fromDataPort ::
  "pdcp_env \<Rightarrow> pdcp_packet \<Rightarrow> PdcpRrc \<Rightarrow> Binder \<Rightarrow> (PdcpRrc \<times> Binder \<times> pdcp_out list) run" where
  "NRPdcpRrcUe_fromDataPort env pkt pr b =
     (let info = setTrafficInformation pr (pp_name pkt) (pp_info pkt);
          nodeId = (if pi_useNR info then pr_nrNodeId pr else pr_nodeId pr)
      in lift_run (ue_flow env nodeId info b) (\<lambda>(info, b).
         with_lcid info pr (\<lambda>lcid pr.
           let info = info\<lparr>pi_lcid := lcid\<rparr>
           in rbind (pdcp_getDestId pr info b) (\<lambda>(destId, b). to_entity (idToMacCid destId lcid) (pkt\<lparr>pp_info := info\<rparr>) pr b))))"

definition LtePdcpRrcEnbD2D_fromDataPort :: "pdcp_packet \<Rightarrow> PdcpRrc \<Rightarrow> Binder \<Rightarrow> (PdcpRrc \<times> Binder \<times> pdcp_out list) run" where
  "LtePdcpRrcEnbD2D_fromDataPort pkt pr b =
     (let info = setTrafficInformation pr (pp_name pkt) (pp_info pkt)
      in lift_run (rbind (getMacNodeId (pi_srcAddr info) b) (\<lambda>srcId. rbind (getMacNodeId (pi_dstAddr info) b) (\<lambda>destId.
           enb_flow pr srcId destId info b))) (\<lambda>info.
         with_lcid info pr (\<lambda>lcid pr.
           let info = info\<lparr>pi_lcid := lcid, pi_sourceId := pr_nodeId pr\<rparr>
           in rbind (pdcp_getDestId pr info b) (\<lambda>(destId, b). to_entity (idToMacCid destId lcid) (pkt\<lparr>pp_info := info\<rparr>) pr b))))"

definition NRPdcpRrcEnb_fromDataPort :: "pdcp_packet \<Rightarrow> PdcpRrc \<Rightarrow> Binder \<Rightarrow> (PdcpRrc \<times> Binder \<times> pdcp_out list) run" where
  "NRPdcpRrcEnb_fromDataPort pkt pr b =
     (let info = setTrafficInformation pr (pp_name pkt) (pp_info pkt);
          node_of = (\<lambda>a. if pi_useNR info then Inr (getNrMacNodeId a b) else getMacNodeId a b)
      in lift_run (rbind (node_of (pi_srcAddr info)) (\<lambda>srcId. rbind (node_of (pi_dstAddr info)) (\<lambda>destId.
           rbind (enb_flow pr srcId destId info b) (\<lambda>info. Inr (destId, info))))) (\<lambda>(destId, info).
         with_lcid info pr (\<lambda>lcid pr. to_entity (idToMacCid destId lcid) (pkt\<lparr>pp_info := info\<lparr>pi_lcid := lcid\<rparr>\<rparr>) pr b)))"

definition fromDataPort :: "pdcp_env \<Rightarrow> pdcp_packet \<Rightarrow> PdcpRrc \<Rightarrow> Binder \<Rightarrow> (PdcpRrc \<times> Binder \<times> pdcp_out list) run" where
  "fromDataPort env pkt pr b = (case pr_kind pr of
       LteUeD2D \<Rightarrow> LtePdcpRrcUeD2D_fromDataPort env pkt pr b
     | LteEnbD2D \<Rightarrow> LtePdcpRrcEnbD2D_fromDataPort pkt pr b
     | NrUe \<Rightarrow> NRPdcpRrcUe_fromDataPort env pkt pr b
     | NrEnb \<Rightarrow> NRPdcpRrcEnb_fromDataPort pkt pr b
     | _ \<Rightarrow> LtePdcpRrcBase_fromDataPort pkt pr b)"

section \<open>From RLC and from other nodes\<close>

definition handlePacketFromLowerLayer ::
  "PdcpRrc \<Rightarrow> simtime \<Rightarrow> pdcp_packet \<Rightarrow> pdcp_rx_entity \<Rightarrow> (pdcp_rx_entity \<times> pdcp_out list) res" where
  "handlePacketFromLowerLayer pr now pkt rx =
     (case pp_chunks pkt of
        LtePdcpPdu _ # cs \<Rightarrow>
          let dir = pi_direction (pp_info pkt);
              flow = (if dir \<noteq> D2D_MULTI \<and> dir \<noteq> D2D \<and> pr_packetFlowManager pr then [ReceivedPdcpSdu (pkt\<lparr>pp_chunks := cs\<rparr>)] else [])
          in rbind (headerDecompress (pr_headerCompressedSize pr) cs) (\<lambda>cs.
             let sdu = pkt\<lparr>pp_chunks := cs\<rparr>
             in (case rx of
                   LteRxPdcpEntity \<Rightarrow> Inr (rx, flow @ [ToDataPort sdu])
                 | NrRx nrx \<Rightarrow>
                     rbind (NRRxPdcpEntity_handlePdcpSdu (isDualConnectivityEnabled pr) now (pi_sequenceNumber (pp_info pkt)) sdu nrx) (\<lambda>(nrx, out).
                       Inr (NrRx nrx, flow @ map ToDataPort out))))
      | _ \<Rightarrow> Inl CastError)"

definition pdcp_new_rx :: "PdcpRrc \<Rightarrow> pdcp_rx_entity" where
  "pdcp_new_rx pr = (if is_nr pr
     then NrRx (NRRxPdcpEntity_initialize (pr_outOfOrderDelivery pr) (pr_rxWindowSize pr) (pr_timeout pr))
     else LteRxPdcpEntity)"

definition pdcp_rx_cid :: "PdcpInfo \<Rightarrow> MacCid" where
  "pdcp_rx_cid info = idToMacCid (pi_sourceId info) (pi_lcid info)"

definition LtePdcpRrcBase_fromLowerLayer :: "simtime \<Rightarrow> pdcp_packet \<Rightarrow> PdcpRrc \<Rightarrow> (PdcpRrc \<times> pdcp_out list) res" where
  "LtePdcpRrcBase_fromLowerLayer now pkt pr =
     (let cid = pdcp_rx_cid (pp_info pkt);
          rx = (case map_of (pr_rxEntities pr) cid of None \<Rightarrow> pdcp_new_rx pr | Some rx \<Rightarrow> rx)
      in rbind (handlePacketFromLowerLayer pr now pkt rx) (\<lambda>(rx, out).
           Inr (pr\<lparr>pr_rxEntities := smap_upd cid rx (pr_rxEntities pr)\<rparr>, out)))"

text \<open>A secondary node passes what it receives on to its master.\<close>

definition NRPdcpRrcEnb_fromLowerLayer :: "simtime \<Rightarrow> pdcp_packet \<Rightarrow> Binder \<Rightarrow> PdcpRrc \<Rightarrow> (PdcpRrc \<times> pdcp_out list) res" where
  "NRPdcpRrcEnb_fromLowerLayer now pkt b pr =
     rbind (getMasterNode (pr_nodeId pr) b) (\<lambda>masterId.
       if pr_dualConnectivityEnabled pr \<and> pr_nodeId pr \<noteq> masterId
       then Inr (pr, [ForwardDataToTargetNode masterId pkt])
       else LtePdcpRrcBase_fromLowerLayer now pkt pr)"

definition pdcp_fromLowerLayer :: "simtime \<Rightarrow> pdcp_packet \<Rightarrow> Binder \<Rightarrow> PdcpRrc \<Rightarrow> (PdcpRrc \<times> pdcp_out list) res" where
  "pdcp_fromLowerLayer now pkt b pr =
     (if pr_kind pr = NrEnb then NRPdcpRrcEnb_fromLowerLayer now pkt b pr else LtePdcpRrcBase_fromLowerLayer now pkt pr)"

definition receiveDataFromSourceNode :: "simtime \<Rightarrow> pdcp_packet \<Rightarrow> Binder \<Rightarrow> PdcpRrc \<Rightarrow> (PdcpRrc \<times> pdcp_out list) res" where
  "receiveDataFromSourceNode now pkt b pr =
     (if pr_kind pr \<noteq> NrEnb then Inr (pr, [])
      else if pi_direction (pp_info pkt) = DL
      then rbind (sendToLowerLayer pr (pkt\<lparr>pp_info := (pp_info pkt)\<lparr>pi_sourceId := pr_nodeId pr,
                     pi_destId := getNrMacNodeId (pi_dstAddr (pp_info pkt)) b\<rparr>\<rparr>)) (\<lambda>out. Inr (pr, out))
      else pdcp_fromLowerLayer now pkt b pr)"

text \<open>The timer of a receiving entity.\<close>

definition pdcp_timer :: "simtime \<Rightarrow> MacCid \<Rightarrow> PdcpRrc \<Rightarrow> (PdcpRrc \<times> pdcp_out list) res" where
  "pdcp_timer now cid pr = (case map_of (pr_rxEntities pr) cid of
       Some (NrRx nrx) \<Rightarrow> rbind (NRRxPdcpEntity_handleMessage now nrx) (\<lambda>(nrx, out).
         Inr (pr\<lparr>pr_rxEntities := smap_upd cid (NrRx nrx) (pr_rxEntities pr)\<rparr>, map ToDataPort out))
     | _ \<Rightarrow> Inr (pr, []))"

text \<open>Control messages of RRC.\<close>

definition fromEutranRrcSap :: "nat \<Rightarrow> PdcpRrc \<Rightarrow> pdcp_out" where
  "fromEutranRrcSap pkt pr = RrcControlToTm (pr_nodeId pr) 1000 pkt"

definition toEutranRrcSap :: "nat \<Rightarrow> pdcp_out" where
  "toEutranRrcSap upPkt = ToEutranRrc upPkt"

text \<open>At a handover.\<close>

definition LtePdcpRrcUe_deleteEntities :: "PdcpRrc \<Rightarrow> PdcpRrc" where
  "LtePdcpRrcUe_deleteEntities pr = pr\<lparr>pr_txEntities := [], pr_rxEntities := []\<rparr>"

definition LtePdcpRrcEnb_deleteEntities :: "MacNodeId \<Rightarrow> PdcpRrc \<Rightarrow> PdcpRrc" where
  "LtePdcpRrcEnb_deleteEntities nodeId pr =
     pr\<lparr>pr_txEntities := filter (\<lambda>(cid, _). MacCidToNodeId cid \<noteq> nodeId) (pr_txEntities pr),
        pr_rxEntities := filter (\<lambda>(cid, _). MacCidToNodeId cid \<noteq> nodeId) (pr_rxEntities pr)\<rparr>"

definition NRPdcpRrcUe_deleteEntities :: "MacNodeId \<Rightarrow> PdcpRrc \<Rightarrow> PdcpRrc" where
  "NRPdcpRrcUe_deleteEntities nodeId pr =
     pr\<lparr>pr_txEntities := filter (\<lambda>(cid, _). MacCidToNodeId cid \<noteq> nodeId) (pr_txEntities pr),
        pr_rxEntities := filter (\<lambda>(cid, _). MacCidToNodeId cid \<noteq> nodeId) (pr_rxEntities pr)\<rparr>"

definition deleteEntities :: "MacNodeId \<Rightarrow> PdcpRrc \<Rightarrow> PdcpRrc" where
  "deleteEntities nodeId pr = (case pr_kind pr of
       LteUe \<Rightarrow> LtePdcpRrcUe_deleteEntities pr
     | LteUeD2D \<Rightarrow> LtePdcpRrcUe_deleteEntities pr
     | NrUe \<Rightarrow> NRPdcpRrcUe_deleteEntities nodeId pr
     | _ \<Rightarrow> LtePdcpRrcEnb_deleteEntities nodeId pr)"

definition pdcp_activeUeUL :: "PdcpRrc \<Rightarrow> MacNodeId sset \<Rightarrow> MacNodeId sset" where
  "pdcp_activeUeUL pr ueSet =
     fold (\<lambda>(cid, rx) s. case rx of NrRx nrx \<Rightarrow> if NRRxPdcpEntity_isEmpty nrx then s else sset_ins (MacCidToNodeId cid) s
       | LteRxPdcpEntity \<Rightarrow> s) (pr_rxEntities pr) ueSet"

section \<open>The module\<close>

datatype pdcp_in = FromIp pdcp_packet | FromRrc nat | FromTm nat | FromRlc pdcp_packet | ModeSwitch

definition LtePdcpRrc_handleMessage ::
  "pdcp_env \<Rightarrow> simtime \<Rightarrow> pdcp_in \<Rightarrow> PdcpRrc \<Rightarrow> Binder \<Rightarrow> (PdcpRrc \<times> Binder \<times> pdcp_out list) run" where
  "LtePdcpRrc_handleMessage env now msg pr b = (case msg of
       FromIp pkt \<Rightarrow> fromDataPort env pkt pr b
     | FromRrc pkt \<Rightarrow> Some (Inr (pr, b, [fromEutranRrcSap pkt pr]))
     | FromTm pkt \<Rightarrow> Some (Inr (pr, b, [toEutranRrcSap pkt]))
     | FromRlc pkt \<Rightarrow> Some (rbind (pdcp_fromLowerLayer now pkt b pr) (\<lambda>(pr, out). Inr (pr, b, out)))
     | ModeSwitch \<Rightarrow> if pr_kind pr = LteUe \<or> pr_kind pr = LteEnb then Some (Inl CastError) else Some (Inr (pr, b, [])))"

text \<open>The manager of dual connectivity (\<^verbatim>\<open>stack/dualConnectivityManager\<close>): a message over X2 that carries a packet.\<close>

datatype dc_msg = X2DualConnectivityDataMsg MacNodeId "MacNodeId list" pdcp_packet | OtherX2Message

definition DualConnectivityManager_forward :: "MacNodeId \<Rightarrow> MacNodeId \<Rightarrow> pdcp_packet \<Rightarrow> dc_msg" where
  "DualConnectivityManager_forward nodeId targetNode pkt = X2DualConnectivityDataMsg nodeId [targetNode] pkt"

definition DualConnectivityManager_handleX2Message ::
  "simtime \<Rightarrow> dc_msg \<Rightarrow> Binder \<Rightarrow> PdcpRrc \<Rightarrow> (PdcpRrc \<times> pdcp_out list) res" where
  "DualConnectivityManager_handleX2Message now msg b pr = (case msg of
       X2DualConnectivityDataMsg sourceId destList pkt \<Rightarrow> receiveDataFromSourceNode now pkt b pr
     | OtherX2Message \<Rightarrow> Inl (RuntimeError ''DualConnectivityManager::handleX2Message - Message type not valid. Abort.''))"

section \<open>A packet comes out as it went in\<close>

text \<open>The headers that the compression understands.\<close>

definition headers_ok :: "pdcp_chunk list \<Rightarrow> bool" where
  "headers_ok cs \<longleftrightarrow> (case cs of
       Ipv4Header _ proto # cs \<Rightarrow>
         if proto = IP_PROT_TCP then (case cs of TcpHeader _ # _ \<Rightarrow> True | _ \<Rightarrow> False)
         else if proto = IP_PROT_UDP then (case cs of UdpHeader len # _ \<Rightarrow> len = UDP_HEADER_LENGTH | _ \<Rightarrow> False)
         else True
     | _ \<Rightarrow> False)"

lemma header_roundtrip:
  assumes "compressed = LTE_PDCP_HEADER_COMPRESSION_DISABLED \<or> headers_ok cs"
  shows "\<exists>cs'. headerCompress compressed cs = Inr cs' \<and> headerDecompress compressed cs' = Inr cs"
proof (cases "compressed = LTE_PDCP_HEADER_COMPRESSION_DISABLED")
  case True
  then show ?thesis by (simp add: headerCompress_def headerDecompress_def)
next
  case False
  with assms have ok: "headers_ok cs" by simp
  then obtain len proto rest where cs: "cs = Ipv4Header len proto # rest"
    by (auto simp: headers_ok_def split: list.splits pdcp_chunk.splits)
  consider "proto = IP_PROT_TCP" | "proto \<noteq> IP_PROT_TCP" "proto = IP_PROT_UDP" | "proto \<noteq> IP_PROT_TCP" "proto \<noteq> IP_PROT_UDP" by blast
  then show ?thesis
  proof cases
    case 1
    with ok cs obtain tlen data where "rest = TcpHeader tlen # data"
      by (auto simp: headers_ok_def split: list.splits pdcp_chunk.splits)
    with 1 cs False show ?thesis by (simp add: headerCompress_def headerDecompress_def)
  next
    case 2
    with ok cs obtain data where "rest = UdpHeader UDP_HEADER_LENGTH # data"
      by (auto simp: headers_ok_def split: list.splits pdcp_chunk.splits)
    with 2 cs False show ?thesis by (simp add: headerCompress_def headerDecompress_def)
  next
    case 3
    with cs False show ?thesis by (simp add: headerCompress_def headerDecompress_def)
  qed
qed

lemmas send_defs = sendToLowerLayer_def NRPdcpRrcUe_sendToLowerLayer_def LtePdcpRrcBase_sendToLowerLayer_def insert_pdcp_sdu_def

lemmas setIds_defs = setIds_def LteTxPdcpEntity_setIds_def NRTxPdcpEntity_setIds_def set_dest_def

lemma sendToLowerLayer_ToRlc:
  assumes "sendToLowerLayer pr pkt = Inr out" and "ToRlc nr t p \<in> set out"
  shows "pp_chunks p = pp_chunks pkt" "pp_name p = pp_name pkt" "pi_sequenceNumber (pp_info p) = pi_sequenceNumber (pp_info pkt)"
  using assms by (auto simp: send_defs Let_def split: if_splits)

lemma deliverPdcpPdu_ToRlc:
  assumes "deliverPdcpPdu pr pkt = Inr out" and "ToRlc nr t p \<in> set out"
  shows "pp_chunks p = pp_chunks pkt" "pp_name p = pp_name pkt" "pi_sequenceNumber (pp_info p) = pi_sequenceNumber (pp_info pkt)"
  using assms sendToLowerLayer_ToRlc [of pr pkt out nr t p] by (auto simp: deliverPdcpPdu_def NRTxPdcpEntity_deliverPdcpPdu_def Let_def split: if_splits)

lemma setIds_keeps:
  "setIds pr info b = Inr (info', b') \<Longrightarrow> pi_sequenceNumber info' = pi_sequenceNumber info \<and> pi_rlcType info' = pi_rlcType info \<and>
     pi_direction info' = pi_direction info \<and> pi_useNR info' = pi_useNR info \<and> pi_dstAddr info' = pi_dstAddr info \<and> pi_lcid info' = pi_lcid info"
  by (auto simp: setIds_defs Let_def rbind_Inr_iff split: if_splits)

definition data_of :: "pdcp_out list \<Rightarrow> pdcp_packet list" where
  "data_of out = concat (map (\<lambda>c. case c of ToDataPort p \<Rightarrow> [p] | _ \<Rightarrow> []) out)"

lemma data_of_simps [simp]:
  "data_of [] = []" "data_of (ToDataPort p # out) = p # data_of out" "data_of (ReceivedPdcpSdu p # out) = data_of out"
  "data_of (out @ out') = data_of out @ data_of out'" "data_of (map ToDataPort ps) = ps"
  by (simp_all add: data_of_def comp_def)

text \<open>
  C22. Round trip through PDCP.  A packet that a sending entity hands to RLC is numbered with the entity's counter,
  and a receiving entity without reordering, of a node with the same compression, delivers it to IP with exactly
  the headers and the payload it had, compressed or not.
\<close>

theorem pdcp_roundtrip:
  assumes "pr_headerCompressedSize pr = LTE_PDCP_HEADER_COMPRESSION_DISABLED \<or> headers_ok (pp_chunks pkt)"
    and "handlePacketFromUpperLayer pr b sno pkt = Inr (sno', b', out)" and "ToRlc nr t p \<in> set out"
    and "pr_headerCompressedSize pr' = pr_headerCompressedSize pr" and "\<not> isDualConnectivityEnabled pr'"
  shows "\<exists>rx' out'. handlePacketFromLowerLayer pr' now p rx = Inr (rx', out') \<and>
     data_of out' = [p\<lparr>pp_chunks := pp_chunks pkt\<rparr>] \<and> pi_sequenceNumber (pp_info p) = sno \<and> sno' = sno + 1"
proof -
  from header_roundtrip [OF assms(1)] obtain cs where
    cs: "headerCompress (pr_headerCompressedSize pr) (pp_chunks pkt) = Inr cs"
      "headerDecompress (pr_headerCompressedSize pr) cs = Inr (pp_chunks pkt)" by blast
  from assms(2) cs(1) obtain info len where
    i: "setIds pr ((pp_info pkt)\<lparr>pi_sequenceNumber := sno\<rparr>) b = Inr (info, b')" "sno' = sno + 1"
      "deliverPdcpPdu pr (pkt\<lparr>pp_chunks := LtePdcpPdu len # cs, pp_info := info\<rparr>) = Inr out"
    by (auto simp: handlePacketFromUpperLayer_def rbind_Inr_iff)
  have p: "pp_chunks p = LtePdcpPdu len # cs" "pi_sequenceNumber (pp_info p) = sno"
    using deliverPdcpPdu_ToRlc [OF i(3) assms(3)] setIds_keeps [OF i(1)] by simp_all
  show ?thesis
  proof (cases rx)
    case LteRxPdcpEntity
    with p cs(2) assms(4) i(2) show ?thesis by (simp add: handlePacketFromLowerLayer_def Let_def)
  next
    case (NrRx nrx)
    with p cs(2) assms(4,5) i(2) show ?thesis
      by (simp add: handlePacketFromLowerLayer_def NRRxPdcpEntity_handlePdcpSdu_def Let_def)
  qed
qed

text \<open>A base station 1, a secondary node 2 and a UE with the NR identifier 2049.\<close>

definition sample_pdcp :: "pdcp_kind \<Rightarrow> bool \<Rightarrow> MacNodeId \<Rightarrow> PdcpRrc" where
  "sample_pdcp kind dual i = \<lparr>pr_kind = kind, pr_headerCompressedSize = 3, pr_conversationalRlc = UM, pr_interactiveRlc = UM,
     pr_streamingRlc = UM, pr_backgroundRlc = UM, pr_lcid = 1, pr_ht = ConnectionsTable, pr_nodeId = i, pr_nrNodeId = 2049,
     pr_dualConnectivityEnabled = dual, pr_packetFlowManager = False, pr_nrPacketFlowManager = False, pr_txEntities = [],
     pr_rxEntities = [], pr_outOfOrderDelivery = False, pr_rxWindowSize = 16, pr_timeout = 100\<rparr>"

definition sample_flow :: PdcpInfo where
  "sample_flow = \<lparr>pi_srcAddr = 7, pi_dstAddr = 9, pi_typeOfService = 0, pi_useNR = True, pi_sequenceNumber = 0, pi_direction = DL,
     pi_lcid = 1, pi_sourceId = 0, pi_destId = 0, pi_d2dTxPeerId = 0, pi_d2dRxPeerId = 0, pi_multicastGroupId = - 1,
     pi_application = CBR, pi_traffic = BACKGROUND, pi_rlcType = UM\<rparr>"

definition sample_packet :: pdcp_packet where
  "sample_packet = \<lparr>pp_name = ''cam'', pp_chunks = [Ipv4Header 20 17, UdpHeader 8, Payload 190], pp_info = sample_flow\<rparr>"

definition sample_hops :: "MacNodeId \<Rightarrow> MacNodeId list" where
  "sample_hops hop = replicate 2049 0 @ [hop]"

lemma sample_hops_simps: "length (sample_hops hop) = 2050" "sample_hops hop ! 2049 = hop"
proof -
  show "length (sample_hops hop) = 2050" unfolding sample_hops_def by (simp only: length_append length_replicate) simp
  show "sample_hops hop ! 2049 = hop" unfolding sample_hops_def by (metis length_replicate nth_append_length)
qed

definition sample_pdcp_binder :: "MacNodeId \<Rightarrow> Binder" where
  "sample_pdcp_binder hop = new_Binder\<lparr>nrMacNodeIdToIPAddress := [(9, 2049)], nextHop := sample_hops hop,
     secondaryNodeToMasterNode := [0, 1, 1]\<rparr>"

lemma sample_pdcp_simps [simp]:
  "pr_kind (sample_pdcp kind dual i) = kind" "pr_dualConnectivityEnabled (sample_pdcp kind dual i) = dual"
  "pr_nodeId (sample_pdcp kind dual i) = i" "pr_nrNodeId (sample_pdcp kind dual i) = 2049"
  "pr_headerCompressedSize (sample_pdcp kind dual i) = 3" "pr_packetFlowManager (sample_pdcp kind dual i) = False"
  by (simp_all add: sample_pdcp_def)

lemma sample_types: "getNodeTypeById 1 = ENODEB" "getNodeTypeById 2 = ENODEB" "getNodeTypeById 2049 = UE"
  by (simp_all add: getNodeTypeById_def id_bounds)

lemma sample_routes:
  "getNrMacNodeId 9 (sample_pdcp_binder hop) = 2049" "getNextHop 2049 (sample_pdcp_binder hop) = Inr hop"
  "getMasterNode 1 (sample_pdcp_binder hop) = Inr 1"
  by (simp_all add: sample_pdcp_binder_def new_Binder_def getNrMacNodeId_def getNextHop_def getMasterNode_def sample_hops_simps)

lemma sample_compressed:
  "headerCompress 3 (pp_chunks sample_packet) = Inr [LteRohcPdu 1 8 20, Ipv4Header 1 17, UdpHeader 1, Payload 190]"
  by (simp add: headerCompress_def sample_packet_def LTE_PDCP_HEADER_COMPRESSION_DISABLED_def IP_PROT_TCP_def IP_PROT_UDP_def
      UDP_HEADER_LENGTH_def)

lemma sample_info [simp]:
  "pp_info sample_packet = sample_flow" "pi_useNR sample_flow = True" "pi_direction sample_flow = DL"
  "pi_rlcType sample_flow = UM" "pi_multicastGroupId sample_flow = - 1" "pi_dstAddr sample_flow = 9"
  by (simp_all add: sample_packet_def sample_flow_def)

theorem pdcp_roundtrip_witness:
  "\<exists>p b' rx' out'. handlePacketFromUpperLayer (sample_pdcp NrEnb False 1) (sample_pdcp_binder 1) 4 sample_packet = Inr (5, b', [ToRlc False UM p]) \<and>
     handlePacketFromLowerLayer (sample_pdcp NrUe False 1025) 0 p LteRxPdcpEntity = Inr (rx', out') \<and>
     data_of out' = [p\<lparr>pp_chunks := pp_chunks sample_packet\<rparr>]"
proof -
  let ?m = "sample_pdcp NrEnb False 1" and ?b = "sample_pdcp_binder 1"
  have "setIds ?m (sample_flow\<lparr>pi_sequenceNumber := 4\<rparr>) ?b = Inr (sample_flow\<lparr>pi_sequenceNumber := 4, pi_sourceId := 1, pi_destId := 2049\<rparr>, ?b)"
    by (simp add: setIds_defs pdcp_getDestId_def NRPdcpRrcEnb_getDestId_def serving_dest_def is_nr_def sample_types sample_routes)
  then obtain p where up: "handlePacketFromUpperLayer ?m ?b 4 sample_packet = Inr (5, ?b, [ToRlc False UM p])"
    by (simp add: handlePacketFromUpperLayer_def sample_compressed pdcp_header_length_def deliverPdcpPdu_def NRTxPdcpEntity_deliverPdcpPdu_def is_nr_def
        isDualConnectivityEnabled_def sample_types send_defs)
  have "pr_headerCompressedSize ?m = LTE_PDCP_HEADER_COMPRESSION_DISABLED \<or> headers_ok (pp_chunks sample_packet)"
    by (simp add: headers_ok_def sample_packet_def IP_PROT_TCP_def IP_PROT_UDP_def UDP_HEADER_LENGTH_def)
  from pdcp_roundtrip [OF this up, of False UM p "sample_pdcp NrUe False 1025" 0 LteRxPdcpEntity] obtain rx' out' where
    "handlePacketFromLowerLayer (sample_pdcp NrUe False 1025) 0 p LteRxPdcpEntity = Inr (rx', out')"
    "data_of out' = [p\<lparr>pp_chunks := pp_chunks sample_packet\<rparr>]" by (auto simp: isDualConnectivityEnabled_def)
  with up show ?thesis by blast
qed

section \<open>Dual connectivity\<close>

text \<open>
  C20. The downlink over a secondary node.  A packet marked for NR, for a UE that a secondary node serves, is numbered
  and compressed at the master and forwarded to the secondary node; the secondary node hands the same PDCP packet,
  with the same number, to its RLC, with itself as the source and the NR identifier of the UE as the destination.
\<close>

theorem dual_connectivity_downlink:
  assumes m: "pr_kind m = NrEnb" "pr_dualConnectivityEnabled m" "getNodeTypeById (pr_nodeId m) = ENODEB"
    and s: "pr_kind s = NrEnb" "pr_nodeId s \<noteq> pr_nodeId m" "getNodeTypeById (pr_nodeId s) = ENODEB"
    and pkt: "pi_useNR (pp_info pkt)" "pi_direction (pp_info pkt) = DL" "pi_rlcType (pp_info pkt) = UM" "pi_multicastGroupId (pp_info pkt) \<le> 0"
    and ue: "getNrMacNodeId (pi_dstAddr (pp_info pkt)) b = ue" "getNextHop ue b = Inr (pr_nodeId s)"
    and headers: "headerCompress (pr_headerCompressedSize m) (pp_chunks pkt) = Inr cs"
  shows "\<exists>p. handlePacketFromUpperLayer m b sno pkt = Inr (sno + 1, b, [ForwardDataToTargetNode (pr_nodeId s) p]) \<and>
     (\<exists>out p'. DualConnectivityManager_handleX2Message now (DualConnectivityManager_forward (pr_nodeId m) (pr_nodeId s) p) b s = Inr (s, out @ [ToRlc False UM p']) \<and>
        pp_chunks p' = LtePdcpPdu 1 # cs \<and> pi_sequenceNumber (pp_info p') = sno \<and>
        pi_sourceId (pp_info p') = pr_nodeId s \<and> pi_destId (pp_info p') = ue \<and> pi_lcid (pp_info p') = pi_lcid (pp_info pkt))"
proof -
  let ?info = "(pp_info pkt)\<lparr>pi_sequenceNumber := sno, pi_sourceId := pr_nodeId m, pi_destId := pr_nodeId s\<rparr>"
  let ?p = "pkt\<lparr>pp_chunks := LtePdcpPdu 1 # cs, pp_info := ?info\<rparr>"
  have "setIds m ((pp_info pkt)\<lparr>pi_sequenceNumber := sno\<rparr>) b = Inr (?info, b)"
    using m s(2) pkt(1,4) ue by (simp add: setIds_defs is_nr_def pdcp_getDestId_def NRPdcpRrcEnb_getDestId_def serving_dest_def Let_def)
  moreover have "deliverPdcpPdu m (pkt\<lparr>pp_chunks := LtePdcpPdu 1 # cs, pp_info := ?info\<rparr>) =
      Inr [ForwardDataToTargetNode (pr_nodeId s) (pkt\<lparr>pp_chunks := LtePdcpPdu 1 # cs, pp_info := ?info\<rparr>)]"
    using m s(3) pkt(1) by (simp add: deliverPdcpPdu_def NRTxPdcpEntity_deliverPdcpPdu_def is_nr_def isDualConnectivityEnabled_def Let_def)
  ultimately have master: "handlePacketFromUpperLayer m b sno pkt = Inr (sno + 1, b, [ForwardDataToTargetNode (pr_nodeId s) ?p])"
    using headers pkt(3) by (simp add: handlePacketFromUpperLayer_def pdcp_header_length_def)
  let ?p' = "?p\<lparr>pp_info := ?info\<lparr>pi_sourceId := pr_nodeId s, pi_destId := ue\<rparr>\<rparr>"
  have "DualConnectivityManager_handleX2Message now (DualConnectivityManager_forward (pr_nodeId m) (pr_nodeId s) ?p) b s =
      Inr (s, insert_pdcp_sdu False (pr_packetFlowManager s) ?p' @ [ToRlc False UM ?p'])"
    using s(1) pkt(2,3) ue(1)
    by (simp add: DualConnectivityManager_handleX2Message_def DualConnectivityManager_forward_def receiveDataFromSourceNode_def
        sendToLowerLayer_def LtePdcpRrcBase_sendToLowerLayer_def)
  with master show ?thesis by (intro exI [of _ ?p] conjI exI [of _ "insert_pdcp_sdu False (pr_packetFlowManager s) ?p'"] exI [of _ ?p']) simp_all
qed

theorem dual_connectivity_downlink_witness:
  "\<exists>p out p'. handlePacketFromUpperLayer (sample_pdcp NrEnb True 1) (sample_pdcp_binder 2) 4 sample_packet =
       Inr (5, sample_pdcp_binder 2, [ForwardDataToTargetNode 2 p]) \<and>
     DualConnectivityManager_handleX2Message 0 (DualConnectivityManager_forward 1 2 p) (sample_pdcp_binder 2) (sample_pdcp NrEnb True 2) =
       Inr (sample_pdcp NrEnb True 2, out @ [ToRlc False UM p']) \<and> pi_sequenceNumber (pp_info p') = 4 \<and> pi_destId (pp_info p') = 2049"
  using dual_connectivity_downlink [of "sample_pdcp NrEnb True 1" "sample_pdcp NrEnb True 2" sample_packet "sample_pdcp_binder 2" 2049
      "[LteRohcPdu 1 8 20, Ipv4Header 1 17, UdpHeader 1, Payload 190]" 4 0]
  by (auto simp: sample_types sample_routes sample_compressed)

text \<open>
  The legs of a split bearer do not share a receiving entity: it is looked up by the source, which is the node that
  sent the packet over the air.  When number 1 comes over the secondary node before number 0 over the master, the
  arrival of number 0 does not release number 1, which waits for its timer.
\<close>

definition sample_leg :: "MacNodeId \<Rightarrow> u32 \<Rightarrow> pdcp_packet" where
  "sample_leg source sno = sample_packet\<lparr>pp_chunks := [LtePdcpPdu 1, LteRohcPdu 1 8 20, Ipv4Header 1 17, UdpHeader 1, Payload 190],
     pp_info := sample_flow\<lparr>pi_sourceId := source, pi_sequenceNumber := sno\<rparr>\<rparr>"

definition data_numbers :: "pdcp_out list \<Rightarrow> u32 list" where
  "data_numbers out = map (\<lambda>p. pi_sequenceNumber (pp_info p)) (data_of out)"

definition receive_legs :: "(MacNodeId \<times> u32) list \<Rightarrow> PdcpRrc \<Rightarrow> u32 list res" where
  "receive_legs legs pr = rbind (fold (\<lambda>(source, sno) r. rbind r (\<lambda>(pr, nums).
       rbind (LtePdcpRrcBase_fromLowerLayer 0 (sample_leg source sno) pr) (\<lambda>(pr, out). Inr (pr, nums @ data_numbers out)))) legs (Inr (pr, []))) (\<lambda>(pr, nums). Inr nums)"

lemma split_bearer_leg_waits:
  "receive_legs [(2, 1), (1, 0)] ((sample_pdcp NrUe True 1025)\<lparr>pr_ht := []\<rparr>) = Inr [0]"
  "receive_legs [(1, 1), (1, 0)] ((sample_pdcp NrUe True 1025)\<lparr>pr_ht := []\<rparr>) = Inr [0, 1]"
  by code_simp+

text \<open>
  A UE of NR looks its destination up before it has set its own identifier, so that a packet that leaves the
  network belongs to an entity of node 0; a handover, which deletes the entities of the old base station, keeps it.
\<close>

lemma connection_lcid_keeps:
  "connection_lcid i pr = Some (lcid, pr') \<Longrightarrow> pr_kind pr' = pr_kind pr \<and> pr_txEntities pr' = pr_txEntities pr"
  by (auto simp: connection_lcid_def Let_def split: if_splits)

lemma with_lcid_Some:
  "with_lcid info pr f = Some r \<longleftrightarrow> (\<exists>lcid pr'. connection_lcid info pr = Some (lcid, pr') \<and> pr_kind pr' = pr_kind pr \<and>
     pr_txEntities pr' = pr_txEntities pr \<and> r = f lcid pr')"
  by (auto simp: with_lcid_def connection_lcid_keeps split: option.splits)

lemma to_entity_Inr:
  "to_entity cid pkt pr b = Inr (pr', b', out) \<Longrightarrow> \<exists>sno. pr' = pr\<lparr>pr_txEntities := smap_upd cid sno (pr_txEntities pr)\<rparr>"
  by (auto simp: to_entity_def rbind_Inr_iff Let_def)

lemma nr_ue_entity_survives_handover:
  assumes kind: "pr_kind pr = NrUe" and pkt: "\<not> is_multicast (pi_dstAddr (pp_info pkt))" "pi_sourceId (pp_info pkt) = 0"
    and b: "getMacNodeId (pi_dstAddr (pp_info pkt)) b = Inr 0" "getNextHop 0 b = Inr 0"
    and ok: "smap_ok (pr_txEntities pr)" and run: "fromDataPort env pkt pr b = Some (Inr (pr', b', out))" and "master \<noteq> 0"
  shows "\<exists>lcid sno. map_of (pr_txEntities (deleteEntities master pr')) (idToMacCid 0 lcid) = Some sno"
proof -
  have info: "pi_sourceId (setTrafficInformation pr n i) = pi_sourceId i" "pi_dstAddr (setTrafficInformation pr n i) = pi_dstAddr i" for n i
    by (simp_all add: setTrafficInformation_def)
  let ?i = "\<lambda>lcid. (setTrafficInformation pr (pp_name pkt) (pp_info pkt))\<lparr>pi_direction := UL, pi_d2dTxPeerId := 0, pi_d2dRxPeerId := 0, pi_lcid := lcid\<rparr>"
  from run kind pkt b obtain lcid pr1 where conn: "pr_kind pr1 = NrUe" "pr_txEntities pr1 = pr_txEntities pr"
    and to: "Inr (pr', b', out) = rbind (pdcp_getDestId pr1 (?i lcid) b) (\<lambda>(destId, b). to_entity (idToMacCid destId lcid) (pkt\<lparr>pp_info := ?i lcid\<rparr>) pr1 b)"
    by (auto simp: fromDataPort_def NRPdcpRrcUe_fromDataPort_def ue_flow_def set_peers_def lift_run_def with_lcid_Some info Let_def)
  from conn(1) pkt(2) b have "pdcp_getDestId pr1 (?i lcid) b = Inr (0, b)"
    by (simp add: pdcp_getDestId_def NRPdcpRrcUe_getDestId_def ue_dest_def info)
  with to have "to_entity (idToMacCid 0 lcid) (pkt\<lparr>pp_info := ?i lcid\<rparr>) pr1 b = Inr (pr', b', out)" by simp
  from to_entity_Inr [OF this] obtain sno where
    pr': "pr' = pr1\<lparr>pr_txEntities := smap_upd (idToMacCid 0 lcid) sno (pr_txEntities pr1)\<rparr>" by blast
  with ok conn have "map_of (pr_txEntities pr') (idToMacCid 0 lcid) = Some sno" "pr_kind pr' = NrUe"
    by (simp_all add: pr' map_of_smap_upd)
  with \<open>master \<noteq> 0\<close> show ?thesis
    by (intro exI [of _ lcid] exI [of _ sno]) (simp add: deleteEntities_def NRPdcpRrcUe_deleteEntities_def split_def
        map_of_filter_key [where p = "\<lambda>cid. MacCidToNodeId cid \<noteq> master"] MacCid_roundtrip)
qed

end
