(* ===== verification/Harq_Tx.thy ===== *)
theory Harq_Tx
  imports Binder_Radio
begin

text \<open>
  Hybrid ARQ of the MAC, the sending side (\<^verbatim>\<open>simu5G/src/stack/mac/buffer/harq\<close>): \<^verbatim>\<open>LteHarqUnitTx\<close> keeps
  one PDU until it is acknowledged or given up, \<^verbatim>\<open>LteHarqProcessTx\<close> has a unit per codeword, \<^verbatim>\<open>LteHarqBufferTx\<close>
  a process per identifier and chooses what is sent next.  Calls of the MAC are recorded in the order they are
  made; the statistics are not modelled.
\<close>

section \<open>PDUs\<close>

type_synonym Codeword = "16 word"
type_synonym Acid = "8 word"

definition HARQ_NONE :: Acid where "HARQ_NONE = 255"
definition MAX_CODEWORDS :: nat where "MAX_CODEWORDS = 2"

datatype HarqAcknowledgment = HARQNACK | HARQACK
datatype TxHarqPduStatus = TXHARQ_PDU_BUFFERED | TXHARQ_PDU_WAITING | TXHARQ_PDU_EMPTY | TXHARQ_PDU_SELECTED

text \<open>A packet with a PDU in front and its \<^verbatim>\<open>UserControlInfo\<close>; an SDU is a name and a length.\<close>

record mac_pdu =
  mp_id :: int
  mp_macPduId :: int
  mp_headerLength :: nat
  mp_sduList :: "(nat \<times> nat) list"
  mp_ceList :: "nat list"
  mp_sourceId :: MacNodeId
  mp_destId :: MacNodeId
  mp_direction :: Direction
  mp_carrierFrequency :: real
  mp_acid :: Acid
  mp_cw :: Codeword
  mp_txNumber :: "8 word"
  mp_ndi :: bool
  mp_deciderResult :: bool

definition mp_byteLength :: "mac_pdu \<Rightarrow> nat" where
  "mp_byteLength p = sum_list (map snd (mp_sduList p)) + mp_headerLength p"

text \<open>Calls to the MAC: a PDU given up, the need of a retransmission (of a base station), and so on.\<close>

datatype harq_call =
  DiscardMacPdu mac_pdu | SignalProcessForRtx MacNodeId real Direction | HarqAckToFlowManager mac_pdu
  | InsertMacPdu mac_pdu | SendLowerPackets mac_pdu

text \<open>Whether the owner is a base station, and the conversion of seconds to simulation time.\<close>

record harq_env =
  he_nodeB :: bool
  he_simtime :: "real \<Rightarrow> simtime"

section \<open>A unit\<close>

record HarqUnitTx =
  hu_pdu :: "mac_pdu option"
  hu_pduId :: int
  hu_pduLength :: nat
  hu_acid :: Acid
  hu_cw :: Codeword
  hu_transmissions :: "8 word"
  hu_status :: TxHarqPduStatus
  hu_txTime :: simtime
  hu_maxHarqRtx :: u32

definition new_HarqUnitTx :: "Acid \<Rightarrow> Codeword \<Rightarrow> u32 \<Rightarrow> HarqUnitTx" where
  "new_HarqUnitTx acid cw maxHarqRtx =
     \<lparr>hu_pdu = None, hu_pduId = - 1, hu_pduLength = 0, hu_acid = acid, hu_cw = cw, hu_transmissions = 0,
      hu_status = TXHARQ_PDU_EMPTY, hu_txTime = 0, hu_maxHarqRtx = maxHarqRtx\<rparr>"

definition resetUnit :: "HarqUnitTx \<Rightarrow> HarqUnitTx" where
  "resetUnit u = u\<lparr>hu_transmissions := 0, hu_pduId := - 1, hu_pdu := None, hu_status := TXHARQ_PDU_EMPTY, hu_pduLength := 0\<rparr>"

definition HarqUnitTx_insertPdu :: "mac_pdu \<Rightarrow> HarqUnitTx \<Rightarrow> HarqUnitTx res" where
  "HarqUnitTx_insertPdu pkt u =
     (if hu_status u \<noteq> TXHARQ_PDU_EMPTY then Inl (RuntimeError ''Trying to insert macPdu in already busy harq unit'')
      else if mp_cw pkt \<noteq> hu_cw u then Inl (RuntimeError ''mismatch in cw settings'')
      else Inr (u\<lparr>hu_pdu := Some (pkt\<lparr>mp_macPduId := mp_id pkt, mp_acid := hu_acid u, mp_cw := hu_cw u\<rparr>),
                  hu_pduId := mp_id pkt, hu_transmissions := 0, hu_status := TXHARQ_PDU_SELECTED,
                  hu_pduLength := mp_byteLength pkt\<rparr>))"

definition HarqUnitTx_markSelected :: "HarqUnitTx \<Rightarrow> HarqUnitTx res" where
  "HarqUnitTx_markSelected u =
     (if hu_status u \<noteq> TXHARQ_PDU_BUFFERED then Inl (RuntimeError ''trying to select for transmission an empty buffer'')
      else Inr (u\<lparr>hu_status := TXHARQ_PDU_SELECTED\<rparr>))"

definition HarqUnitTx_extractPdu :: "simtime \<Rightarrow> HarqUnitTx \<Rightarrow> (mac_pdu \<times> HarqUnitTx) res" where
  "HarqUnitTx_extractPdu now u =
     (if hu_status u \<noteq> TXHARQ_PDU_SELECTED then Inl (RuntimeError ''Trying to extract macPdu from not selected H-ARQ unit'')
      else (case hu_pdu u of None \<Rightarrow> Inl NullDeref
        | Some p \<Rightarrow>
            let t = hu_transmissions u + 1; p = p\<lparr>mp_txNumber := t, mp_ndi := (t = 1)\<rparr>
            in Inr (p, u\<lparr>hu_txTime := now, hu_transmissions := t, hu_status := TXHARQ_PDU_WAITING, hu_pdu := Some p\<rparr>)))"

text \<open>A PDU is given up with the NACK of its last transmission; the comparison is in \<^verbatim>\<open>unsigned int\<close>.\<close>

definition HarqUnitTx_pduFeedback ::
  "harq_env \<Rightarrow> HarqAcknowledgment \<Rightarrow> HarqUnitTx \<Rightarrow> (bool \<times> HarqUnitTx \<times> harq_call list) res" where
  "HarqUnitTx_pduFeedback env a u =
     (case hu_pdu u of None \<Rightarrow> Inl NullDeref
      | Some p \<Rightarrow>
          if hu_status u \<noteq> TXHARQ_PDU_WAITING then Inl (RuntimeError ''Feedback sent to an H-ARQ unit not waiting for it'')
          else let r = (case a of
                    HARQACK \<Rightarrow> (True, resetUnit u, [])
                  | HARQNACK \<Rightarrow>
                      if ucast (hu_transmissions u) = hu_maxHarqRtx u + 1 then (True, resetUnit u, [DiscardMacPdu p])
                      else (False, u\<lparr>hu_status := TXHARQ_PDU_BUFFERED\<rparr>,
                            if he_nodeB env then [SignalProcessForRtx (mp_destId p) (mp_carrierFrequency p) (mp_direction p)] else []))
               in if mp_direction p = DL \<or> mp_direction p = UL then Inr r
                  else Inl (RuntimeError ''LteHarqUnitTx::pduFeedback(): unknown direction''))"

definition HarqUnitTx_selfNack :: "harq_env \<Rightarrow> simtime \<Rightarrow> HarqUnitTx \<Rightarrow> (bool \<times> HarqUnitTx \<times> harq_call list) res" where
  "HarqUnitTx_selfNack env now u =
     (if hu_status u = TXHARQ_PDU_WAITING
      then Inl (RuntimeError ''LteHarqUnitTx::selfNack(): Trying to send self NACK to a unit waiting for feedback'')
      else if hu_status u \<noteq> TXHARQ_PDU_BUFFERED
      then Inl (RuntimeError ''LteHarqUnitTx::selfNack(): Trying to send self NACK to an idle or selected unit'')
      else HarqUnitTx_pduFeedback env HARQNACK (u\<lparr>hu_transmissions := hu_transmissions u + 1, hu_txTime := now\<rparr>))"

definition HarqUnitTx_dropPdu :: "HarqUnitTx \<Rightarrow> HarqUnitTx res" where
  "HarqUnitTx_dropPdu u =
     (if hu_status u \<noteq> TXHARQ_PDU_BUFFERED
      then Inl (RuntimeError ''LteHarqUnitTx::dropPdu(): H-ARQ TX unit: cannot drop pdu if state is not BUFFERED'')
      else Inr (resetUnit u))"

definition HarqUnitTx_forceDropUnit :: "HarqUnitTx \<Rightarrow> HarqUnitTx" where
  "HarqUnitTx_forceDropUnit u = resetUnit u"

definition HarqUnitTx_getPdu :: "HarqUnitTx \<Rightarrow> mac_pdu res" where
  "HarqUnitTx_getPdu u = (case hu_pdu u of None \<Rightarrow> Inl NullDeref | Some p \<Rightarrow> Inr p)"

section \<open>A process\<close>

record HarqProcessTx =
  hpt_units :: "HarqUnitTx list"
  hpt_acid :: Acid
  hpt_numEmptyUnits :: "8 word"
  hpt_numSelected :: u32
  hpt_dropped :: bool

definition new_HarqProcessTx :: "Acid \<Rightarrow> nat \<Rightarrow> u32 \<Rightarrow> HarqProcessTx" where
  "new_HarqProcessTx acid numUnits maxHarqRtx =
     \<lparr>hpt_units = map (\<lambda>i. new_HarqUnitTx acid (of_nat i) maxHarqRtx) [0..<numUnits], hpt_acid = acid,
      hpt_numEmptyUnits = of_nat numUnits, hpt_numSelected = 0, hpt_dropped = False\<rparr>"

definition numHarqUnits :: "HarqProcessTx \<Rightarrow> 8 word" where
  "numHarqUnits p = of_nat (length (hpt_units p))"

definition get_unit :: "Codeword \<Rightarrow> HarqProcessTx \<Rightarrow> HarqUnitTx res" where
  "get_unit cw p = vec_at (hpt_units p) (unat cw)"

definition put_unit :: "Codeword \<Rightarrow> HarqUnitTx \<Rightarrow> HarqProcessTx \<Rightarrow> HarqProcessTx" where
  "put_unit cw u p = p\<lparr>hpt_units := (hpt_units p)[unat cw := u]\<rparr>"

definition HarqProcessTx_isEmpty :: "HarqProcessTx \<Rightarrow> bool" where
  "HarqProcessTx_isEmpty p \<longleftrightarrow> hpt_numEmptyUnits p = numHarqUnits p"

definition units_in :: "TxHarqPduStatus \<Rightarrow> HarqProcessTx \<Rightarrow> Codeword list" where
  "units_in st p = map of_nat (filter (\<lambda>i. hu_status (hpt_units p ! i) = st) [0..<length (hpt_units p)])"

definition readyUnitsIds :: "HarqProcessTx \<Rightarrow> Codeword list" where "readyUnitsIds p = units_in TXHARQ_PDU_BUFFERED p"
definition HarqProcessTx_emptyUnitsIds :: "HarqProcessTx \<Rightarrow> Codeword list" where
  "HarqProcessTx_emptyUnitsIds p = units_in TXHARQ_PDU_EMPTY p"
definition selectedUnitsIds :: "HarqProcessTx \<Rightarrow> Codeword list" where "selectedUnitsIds p = units_in TXHARQ_PDU_SELECTED p"

definition hasReadyUnits :: "HarqProcessTx \<Rightarrow> bool" where
  "hasReadyUnits p \<longleftrightarrow> (\<exists>u\<in>set (hpt_units p). hu_status u = TXHARQ_PDU_BUFFERED)"

text \<open>\<open>limit\<close> is \<^verbatim>\<open>NOW + 1\<close>.\<close>

definition getOldestUnitTxTime :: "simtime \<Rightarrow> HarqProcessTx \<Rightarrow> simtime" where
  "getOldestUnitTxTime limit p =
     fold (\<lambda>u oldest. if hu_status u = TXHARQ_PDU_BUFFERED \<and> hu_txTime u < oldest then hu_txTime u else oldest) (hpt_units p) limit"

definition HarqProcessTx_insertPdu :: "mac_pdu \<Rightarrow> Codeword \<Rightarrow> HarqProcessTx \<Rightarrow> HarqProcessTx res" where
  "HarqProcessTx_insertPdu pkt cw p =
     rbind (get_unit cw p) (\<lambda>u. rbind (HarqUnitTx_insertPdu pkt u) (\<lambda>u.
       Inr ((put_unit cw u p)\<lparr>hpt_numEmptyUnits := hpt_numEmptyUnits p - 1, hpt_numSelected := hpt_numSelected p + 1, hpt_dropped := False\<rparr>)))"

definition HarqProcessTx_markSelected :: "Codeword \<Rightarrow> HarqProcessTx \<Rightarrow> HarqProcessTx res" where
  "HarqProcessTx_markSelected cw p =
     (if hpt_numSelected p = ucast (numHarqUnits p)
      then Inl (RuntimeError ''H-ARQ TX process: cannot select another unit because they are all already selected'')
      else rbind (get_unit cw p) (\<lambda>u. rbind (HarqUnitTx_markSelected u) (\<lambda>u.
             Inr ((put_unit cw u p)\<lparr>hpt_numSelected := hpt_numSelected p + 1\<rparr>))))"

definition HarqProcessTx_extractPdu :: "simtime \<Rightarrow> Codeword \<Rightarrow> HarqProcessTx \<Rightarrow> (mac_pdu \<times> HarqProcessTx) res" where
  "HarqProcessTx_extractPdu now cw p =
     (if hpt_numSelected p = 0 then Inl (RuntimeError ''H-ARQ TX process: cannot extract pdu: numSelected = 0 '')
      else rbind (get_unit cw p) (\<lambda>u. rbind (HarqUnitTx_extractPdu now u) (\<lambda>(pdu, u).
             Inr (pdu, (put_unit cw u p)\<lparr>hpt_numSelected := hpt_numSelected p - 1\<rparr>))))"

text \<open>After a feedback: one more empty unit if the unit was reset; whether the process is empty.\<close>

definition count_reset :: "Codeword \<Rightarrow> bool \<times> HarqUnitTx \<times> harq_call list \<Rightarrow> HarqProcessTx \<Rightarrow> bool \<times> HarqProcessTx \<times> harq_call list" where
  "count_reset cw r p =
     (let (reset, u, calls) = r;
          p = (put_unit cw u p)\<lparr>hpt_numEmptyUnits := (if reset then hpt_numEmptyUnits p + 1 else hpt_numEmptyUnits p)\<rparr>
      in (HarqProcessTx_isEmpty p, p, calls))"

definition HarqProcessTx_pduFeedback ::
  "harq_env \<Rightarrow> HarqAcknowledgment \<Rightarrow> Codeword \<Rightarrow> HarqProcessTx \<Rightarrow> (bool \<times> HarqProcessTx \<times> harq_call list) res" where
  "HarqProcessTx_pduFeedback env fb cw p =
     rbind (get_unit cw p) (\<lambda>u. rbind (HarqUnitTx_pduFeedback env fb u) (\<lambda>r. Inr (count_reset cw r p)))"

definition HarqProcessTx_selfNack ::
  "harq_env \<Rightarrow> simtime \<Rightarrow> Codeword \<Rightarrow> HarqProcessTx \<Rightarrow> (bool \<times> HarqProcessTx \<times> harq_call list) res" where
  "HarqProcessTx_selfNack env now cw p =
     rbind (get_unit cw p) (\<lambda>u. rbind (HarqUnitTx_selfNack env now u) (\<lambda>r. Inr (count_reset cw r p)))"

definition HarqProcessTx_getPdu :: "Codeword \<Rightarrow> HarqProcessTx \<Rightarrow> mac_pdu res" where
  "HarqProcessTx_getPdu cw p = rbind (get_unit cw p) HarqUnitTx_getPdu"

definition HarqProcessTx_dropPdu :: "Codeword \<Rightarrow> HarqProcessTx \<Rightarrow> HarqProcessTx res" where
  "HarqProcessTx_dropPdu cw p =
     rbind (get_unit cw p) (\<lambda>u. rbind (HarqUnitTx_dropPdu u) (\<lambda>u.
       Inr ((put_unit cw u p)\<lparr>hpt_numEmptyUnits := hpt_numEmptyUnits p + 1\<rparr>)))"

definition HarqProcessTx_forceDropProcess :: "HarqProcessTx \<Rightarrow> HarqProcessTx" where
  "HarqProcessTx_forceDropProcess p =
     p\<lparr>hpt_units := map HarqUnitTx_forceDropUnit (hpt_units p), hpt_numEmptyUnits := numHarqUnits p, hpt_numSelected := 0, hpt_dropped := True\<rparr>"

definition HarqProcessTx_forceDropUnit :: "Codeword \<Rightarrow> HarqProcessTx \<Rightarrow> (bool \<times> HarqProcessTx) res" where
  "HarqProcessTx_forceDropUnit cw p =
     rbind (get_unit cw p) (\<lambda>u.
       let p = (put_unit cw (HarqUnitTx_forceDropUnit u) p)
                 \<lparr>hpt_numSelected := (if hu_status u = TXHARQ_PDU_SELECTED then hpt_numSelected p - 1 else hpt_numSelected p),
                  hpt_numEmptyUnits := hpt_numEmptyUnits p + 1\<rparr>
       in Inr (HarqProcessTx_isEmpty p, p))"

definition HarqProcessTx_getProcessStatus :: "HarqProcessTx \<Rightarrow> (Codeword \<times> TxHarqPduStatus) list" where
  "HarqProcessTx_getProcessStatus p = map (\<lambda>i. (of_nat i, hu_status (hpt_units p ! i))) [0..<length (hpt_units p)]"

definition HarqProcessTx_isActive :: "HarqProcessTx \<Rightarrow> bool" where
  "HarqProcessTx_isActive p \<longleftrightarrow> (\<exists>s\<in>set (HarqProcessTx_getProcessStatus p). snd s \<noteq> TXHARQ_PDU_EMPTY)"

section \<open>The buffer of a destination\<close>

record HarqBufferTx =
  hbt_processes :: "HarqProcessTx list"
  hbt_numEmptyProc :: u32
  hbt_selectedAcid :: Acid
  hbt_nodeId :: MacNodeId

definition new_HarqBufferTx :: "nat \<Rightarrow> u32 \<Rightarrow> MacNodeId \<Rightarrow> HarqBufferTx" where
  "new_HarqBufferTx numProc maxHarqRtx dst =
     \<lparr>hbt_processes = map (\<lambda>i. new_HarqProcessTx (of_nat i) MAX_CODEWORDS maxHarqRtx) [0..<numProc],
      hbt_numEmptyProc = of_nat numProc, hbt_selectedAcid = HARQ_NONE, hbt_nodeId = dst\<rparr>"

definition get_process :: "Acid \<Rightarrow> HarqBufferTx \<Rightarrow> HarqProcessTx res" where
  "get_process acid b = vec_at (hbt_processes b) (unat acid)"

definition put_process :: "Acid \<Rightarrow> HarqProcessTx \<Rightarrow> HarqBufferTx \<Rightarrow> HarqBufferTx" where
  "put_process acid p b = b\<lparr>hbt_processes := (hbt_processes b)[unat acid := p]\<rparr>"

definition LteHarqBufferTx_getProcess :: "Acid \<Rightarrow> HarqBufferTx \<Rightarrow> HarqProcessTx res" where
  "LteHarqBufferTx_getProcess acid b =
     (case vec_at (hbt_processes b) (unat acid) of
        Inl _ \<Rightarrow> Inl (RuntimeError ''LteHarqBufferTx::getProcess(): acid out of bounds'') | Inr p \<Rightarrow> Inr p)"

definition firstReadyForRtx :: "harq_env \<Rightarrow> simtime \<Rightarrow> HarqBufferTx \<Rightarrow> Acid \<times> Codeword list" where
  "firstReadyForRtx env now b =
     (let limit = now + he_simtime env 1;
          (acid, _) = fold (\<lambda>i (acid, oldest).
            let p = hbt_processes b ! i
            in if hasReadyUnits p \<and> getOldestUnitTxTime limit p < oldest then (of_nat i, getOldestUnitTxTime limit p) else (acid, oldest))
            [0..<length (hbt_processes b)] (HARQ_NONE, limit)
      in (acid, if acid = HARQ_NONE then [] else readyUnitsIds (hbt_processes b ! unat acid)))"

definition pduLength :: "Acid \<Rightarrow> Codeword \<Rightarrow> HarqBufferTx \<Rightarrow> nat res" where
  "pduLength acid cw b = rbind (get_process acid b) (\<lambda>p. rbind (get_unit cw p) (\<lambda>u. Inr (hu_pduLength u)))"

text \<open>With more units than transport blocks, the first PDU takes the contents of the others, whose units are dropped;
  while they move, the first packet has no PDU in front.\<close>

fun merge_units :: "Codeword \<Rightarrow> Codeword list \<Rightarrow> mac_pdu \<Rightarrow> HarqProcessTx \<Rightarrow> (mac_pdu \<times> HarqProcessTx) res" where
  "merge_units cw [] base p = Inr (base, p)"
| "merge_units cw (c # cs) base p =
     rbind (HarqProcessTx_getPdu c p) (\<lambda>guest.
       if c = cw then Inl CastError
       else rbind (HarqProcessTx_dropPdu c p) (\<lambda>p.
              merge_units cw cs (base\<lparr>mp_sduList := mp_sduList base @ mp_sduList guest, mp_ceList := mp_ceList base @ mp_ceList guest\<rparr>) p))"

fun select_units :: "Codeword list \<Rightarrow> HarqProcessTx \<Rightarrow> HarqProcessTx res" where
  "select_units [] p = Inr p"
| "select_units (cw # cws) p = rbind (HarqProcessTx_markSelected cw p) (select_units cws)"

definition HarqBufferTx_markSelected :: "Acid \<times> Codeword list \<Rightarrow> 8 word \<Rightarrow> HarqBufferTx \<Rightarrow> HarqBufferTx res" where
  "HarqBufferTx_markSelected unitIds availableTbs b =
     (case unitIds of
        (acid, []) \<Rightarrow> Inr b
      | (acid, cw # cws) \<Rightarrow>
          if availableTbs = 0 then Inr b
          else rbind (get_process acid b) (\<lambda>p.
               rbind (if length (cw # cws) > unat availableTbs
                      then rbind (HarqProcessTx_getPdu cw p) (\<lambda>base. rbind (merge_units cw cws base p) (\<lambda>(base, p).
                           rbind (get_unit cw p) (\<lambda>u. HarqProcessTx_markSelected cw (put_unit cw (u\<lparr>hu_pdu := Some base\<rparr>) p))))
                      else select_units (cw # cws) p) (\<lambda>p.
                 Inr ((put_process acid p b)\<lparr>hbt_selectedAcid := acid\<rparr>))))"

definition HarqBufferTx_insertPdu :: "Acid \<Rightarrow> Codeword \<Rightarrow> mac_pdu \<Rightarrow> HarqBufferTx \<Rightarrow> (HarqBufferTx \<times> harq_call list) res" where
  "HarqBufferTx_insertPdu acid cw pkt b =
     rbind (get_process acid b) (\<lambda>p.
       if hbt_selectedAcid b = HARQ_NONE \<and> \<not> HarqProcessTx_isEmpty p
       then Inl (RuntimeError ''H-ARQ TX buffer: new process selected for tx is not completely empty'')
       else rbind (get_unit cw p) (\<lambda>u.
         if hu_status u \<noteq> TXHARQ_PDU_EMPTY then Inl (RuntimeError ''LteHarqBufferTx::insertPdu(): unit is not empty'')
         else rbind (HarqProcessTx_insertPdu pkt cw p) (\<lambda>p.
              rbind (HarqProcessTx_getPdu cw p) (\<lambda>pkt.
                Inr ((put_process acid p b)\<lparr>hbt_selectedAcid := acid, hbt_numEmptyProc := hbt_numEmptyProc b - 1\<rparr>, [InsertMacPdu pkt])))))"

text \<open>The first process that is empty, unless one has been selected in this slot.\<close>

definition HarqBufferTx_firstAvailable :: "HarqBufferTx \<Rightarrow> Acid \<times> Codeword list" where
  "HarqBufferTx_firstAvailable b =
     (let acid = (if hbt_selectedAcid b = HARQ_NONE
                  then (case filter (\<lambda>i. HarqProcessTx_isEmpty (hbt_processes b ! i)) [0..<length (hbt_processes b)] of
                          [] \<Rightarrow> HARQ_NONE | i # _ \<Rightarrow> of_nat i)
                  else hbt_selectedAcid b)
      in (acid, if acid = HARQ_NONE then [] else HarqProcessTx_emptyUnitsIds (hbt_processes b ! unat acid)))"

definition HarqBufferTx_getEmptyUnits :: "Acid \<Rightarrow> HarqBufferTx \<Rightarrow> (Acid \<times> Codeword list) res" where
  "HarqBufferTx_getEmptyUnits acid b = rbind (get_process acid b) (\<lambda>p. Inr (acid, HarqProcessTx_emptyUnitsIds p))"

record LteHarqFeedback =
  hf_acid :: Acid
  hf_cw :: "8 word"
  hf_result :: bool
  hf_fbMacPduId :: int

definition receiveHarqFeedback :: "harq_env \<Rightarrow> LteHarqFeedback \<Rightarrow> HarqBufferTx \<Rightarrow> (HarqBufferTx \<times> harq_call list) res" where
  "receiveHarqFeedback env fb b =
     (let acid = hf_acid fb; cw = ucast (hf_cw fb)
      in rbind (get_process acid b) (\<lambda>p. rbind (get_unit cw p) (\<lambda>u.
           if hpt_dropped p then Inr (b, [])
           else if hf_fbMacPduId fb \<noteq> hu_pduId u
           then Inl (RuntimeError ''H-ARQ TX: fb is not for the pdu in this unit, maybe the addressed one was dropped'')
           else rbind (if hf_result fb then rbind (HarqUnitTx_getPdu u) (\<lambda>pdu. Inr [HarqAckToFlowManager pdu]) else Inr []) (\<lambda>ack.
                rbind (HarqProcessTx_pduFeedback env (if hf_result fb then HARQACK else HARQNACK) cw p) (\<lambda>(reset, p, calls).
                  Inr ((put_process acid p b)\<lparr>hbt_numEmptyProc := (if reset then hbt_numEmptyProc b + 1 else hbt_numEmptyProc b)\<rparr>, ack @ calls))))))"

fun extract_units :: "simtime \<Rightarrow> Codeword list \<Rightarrow> HarqProcessTx \<Rightarrow> (HarqProcessTx \<times> harq_call list) res" where
  "extract_units now [] p = Inr (p, [])"
| "extract_units now (cw # cws) p =
     rbind (HarqProcessTx_extractPdu now cw p) (\<lambda>(pkt, p).
     rbind (extract_units now cws p) (\<lambda>(p, calls). Inr (p, SendLowerPackets pkt # calls)))"

definition sendSelectedDown :: "simtime \<Rightarrow> HarqBufferTx \<Rightarrow> (HarqBufferTx \<times> harq_call list) res" where
  "sendSelectedDown now b =
     (if hbt_selectedAcid b = HARQ_NONE then Inr (b, [])
      else rbind (get_process (hbt_selectedAcid b) b) (\<lambda>p.
           rbind (extract_units now (selectedUnitsIds p) p) (\<lambda>(p, calls).
             Inr ((put_process (hbt_selectedAcid b) p b)\<lparr>hbt_selectedAcid := HARQ_NONE\<rparr>, calls))))"

fun drop_units :: "Codeword list \<Rightarrow> HarqProcessTx \<Rightarrow> HarqProcessTx res" where
  "drop_units [] p = Inr p"
| "drop_units (cw # cws) p = rbind (HarqProcessTx_dropPdu cw p) (drop_units cws)"

definition HarqBufferTx_dropProcess :: "Acid \<Rightarrow> HarqBufferTx \<Rightarrow> HarqBufferTx res" where
  "HarqBufferTx_dropProcess acid b =
     rbind (get_process acid b) (\<lambda>p. rbind (drop_units (readyUnitsIds p) p) (\<lambda>p.
       Inr ((put_process acid p b)\<lparr>hbt_numEmptyProc := hbt_numEmptyProc b + 1\<rparr>)))"

fun nack_units :: "harq_env \<Rightarrow> simtime \<Rightarrow> Codeword list \<Rightarrow> bool \<Rightarrow> HarqProcessTx \<Rightarrow> (bool \<times> HarqProcessTx \<times> harq_call list) res" where
  "nack_units env now [] reset p = Inr (reset, p, [])"
| "nack_units env now (cw # cws) reset p =
     rbind (HarqProcessTx_selfNack env now cw p) (\<lambda>(reset, p, calls).
     rbind (nack_units env now cws reset p) (\<lambda>(reset, p, calls'). Inr (reset, p, calls @ calls')))"

definition HarqBufferTx_selfNack :: "harq_env \<Rightarrow> simtime \<Rightarrow> Acid \<Rightarrow> HarqBufferTx \<Rightarrow> (HarqBufferTx \<times> harq_call list) res" where
  "HarqBufferTx_selfNack env now acid b =
     rbind (get_process acid b) (\<lambda>p. rbind (nack_units env now (readyUnitsIds p) False p) (\<lambda>(reset, p, calls).
       Inr ((put_process acid p b)\<lparr>hbt_numEmptyProc := (if reset then hbt_numEmptyProc b + 1 else hbt_numEmptyProc b)\<rparr>, calls)))"

definition HarqBufferTx_forceDropProcess :: "Acid \<Rightarrow> HarqBufferTx \<Rightarrow> HarqBufferTx res" where
  "HarqBufferTx_forceDropProcess acid b =
     rbind (get_process acid b) (\<lambda>p.
       Inr ((put_process acid (HarqProcessTx_forceDropProcess p) b)
              \<lparr>hbt_selectedAcid := (if acid = hbt_selectedAcid b then HARQ_NONE else hbt_selectedAcid b), hbt_numEmptyProc := hbt_numEmptyProc b + 1\<rparr>))"

definition HarqBufferTx_forceDropUnit :: "Acid \<Rightarrow> Codeword \<Rightarrow> HarqBufferTx \<Rightarrow> HarqBufferTx res" where
  "HarqBufferTx_forceDropUnit acid cw b =
     rbind (get_process acid b) (\<lambda>p. rbind (HarqProcessTx_forceDropUnit cw p) (\<lambda>(reset, p).
       let b' = put_process acid p b
       in Inr (if reset then b'\<lparr>hbt_selectedAcid := (if acid = hbt_selectedAcid b then HARQ_NONE else hbt_selectedAcid b),
                                hbt_numEmptyProc := hbt_numEmptyProc b + 1\<rparr> else b')))"

definition HarqBufferTx_getBufferStatus :: "HarqBufferTx \<Rightarrow> (Codeword \<times> TxHarqPduStatus) list list" where
  "HarqBufferTx_getBufferStatus b = map HarqProcessTx_getProcessStatus (hbt_processes b)"

definition HarqBufferTx_isActive :: "HarqBufferTx \<Rightarrow> bool" where
  "HarqBufferTx_isActive b \<longleftrightarrow> (\<exists>p\<in>set (hbt_processes b). HarqProcessTx_isActive p)"

definition isInUnitList :: "Acid \<Rightarrow> Codeword \<Rightarrow> Acid \<times> Codeword list \<Rightarrow> bool" where
  "isInUnitList acid cw unitIds \<longleftrightarrow> acid = fst unitIds \<and> cw \<in> set (snd unitIds)"

end
