(* ===== verification/Harq_Rx.thy ===== *)
theory Harq_Rx
  imports Harq_Tx
begin

text \<open>
  Hybrid ARQ of the MAC, the receiving side: \<^verbatim>\<open>LteHarqProcessRx\<close> evaluates a PDU per codeword,
  \<^verbatim>\<open>LteHarqBufferRx\<close> sends the feedback and hands the correct PDUs up.  The result of the decoding comes with the
  PDU; the statistics are not modelled, except for the access to the MAC of the sender they need.
\<close>

section \<open>A process\<close>

datatype RxHarqPduStatus = RXHARQ_PDU_EMPTY | RXHARQ_PDU_EVALUATING | RXHARQ_PDU_CORRECT | RXHARQ_PDU_CORRUPTED

text \<open>The four vectors of the class have an element per codeword.\<close>

record HarqProcessRx =
  hpr_pdu :: "mac_pdu option list"
  hpr_status :: "RxHarqPduStatus list"
  hpr_rxTime :: "simtime list"
  hpr_result :: "bool list"
  hpr_acid :: Acid
  hpr_transmissions :: "8 word"
  hpr_maxHarqRtx :: "8 word"
  hpr_harqFbEvaluationTimer :: "16 word"

definition new_HarqProcessRx :: "Acid \<Rightarrow> 8 word \<Rightarrow> 16 word \<Rightarrow> HarqProcessRx" where
  "new_HarqProcessRx acid maxHarqRtx timer =
     \<lparr>hpr_pdu = replicate MAX_CODEWORDS None, hpr_status = replicate MAX_CODEWORDS RXHARQ_PDU_EMPTY,
      hpr_rxTime = replicate MAX_CODEWORDS 0, hpr_result = replicate MAX_CODEWORDS False, hpr_acid = acid,
      hpr_transmissions = 0, hpr_maxHarqRtx = maxHarqRtx, hpr_harqFbEvaluationTimer = timer\<rparr>"

text \<open>The calls of \<^verbatim>\<open>at\<close> on the four vectors; they have the same length.\<close>

definition rx_status :: "Codeword \<Rightarrow> HarqProcessRx \<Rightarrow> RxHarqPduStatus res" where
  "rx_status cw p = vec_at (hpr_status p) (unat cw)"

definition rx_pdu :: "Codeword \<Rightarrow> HarqProcessRx \<Rightarrow> mac_pdu res" where
  "rx_pdu cw p = rbind (vec_at (hpr_pdu p) (unat cw)) (\<lambda>x. case x of None \<Rightarrow> Inl NullDeref | Some pdu \<Rightarrow> Inr pdu)"

definition HarqProcessRx_insertPdu :: "simtime \<Rightarrow> Codeword \<Rightarrow> mac_pdu \<Rightarrow> HarqProcessRx \<Rightarrow> HarqProcessRx res" where
  "HarqProcessRx_insertPdu now cw pkt p =
     rbind (rx_status cw p) (\<lambda>st.
       if mp_ndi pkt \<and> st \<noteq> RXHARQ_PDU_EMPTY
       then Inl (RuntimeError ''New data arriving in busy harq process -- this should not happen'')
       else if \<not> mp_ndi pkt \<and> st \<noteq> RXHARQ_PDU_EMPTY \<and> st \<noteq> RXHARQ_PDU_CORRUPTED
       then Inl (RuntimeError ''Trying to insert macPdu in non-empty rx harq process'')
       else let i = unat cw
            in Inr (p\<lparr>hpr_pdu := (hpr_pdu p)[i := Some pkt], hpr_result := (hpr_result p)[i := mp_deciderResult pkt],
                      hpr_status := (hpr_status p)[i := RXHARQ_PDU_EVALUATING], hpr_rxTime := (hpr_rxTime p)[i := now],
                      hpr_transmissions := hpr_transmissions p + 1\<rparr>))"

text \<open>From the \<^verbatim>\<open>Binder\<close>: the numerology of a carrier (\<^verbatim>\<open>operator[]\<close>) and the duration of its slots in seconds.\<close>

definition getNumerologyIndexFromCarrierFreq :: "real \<Rightarrow> Binder \<Rightarrow> NumerologyIndex \<times> Binder" where
  "getNumerologyIndexFromCarrierFreq f b =
     (let (n, m) = smap_index 0 f (carrierFreqToNumerologyIndex b) in (n, b\<lparr>carrierFreqToNumerologyIndex := m\<rparr>))"

definition getSlotDurationFromNumerologyIndex :: "NumerologyIndex \<Rightarrow> real" where
  "getSlotDurationFromNumerologyIndex n = 1 / 2 ^ unat n / 1000"

definition isEvaluated :: "harq_env \<Rightarrow> simtime \<Rightarrow> Codeword \<Rightarrow> HarqProcessRx \<Rightarrow> Binder \<Rightarrow> (bool \<times> Binder) res" where
  "isEvaluated env now cw p b =
     rbind (rx_status cw p) (\<lambda>st.
       if st \<noteq> RXHARQ_PDU_EVALUATING then Inr (False, b)
       else rbind (rx_pdu cw p) (\<lambda>pdu. rbind (vec_at (hpr_rxTime p) (unat cw)) (\<lambda>rxTime.
            let (n, b) = getNumerologyIndexFromCarrierFreq (mp_carrierFrequency pdu) b
            in Inr (he_simtime env (getSlotDurationFromNumerologyIndex n * real_of_int (uint (hpr_harqFbEvaluationTimer p) - 1))
                      \<le> now - rxTime, b))))"

definition purgeCorruptedPdu :: "Codeword \<Rightarrow> HarqProcessRx \<Rightarrow> HarqProcessRx" where
  "purgeCorruptedPdu cw p = p\<lparr>hpr_pdu := (hpr_pdu p)[unat cw := None]\<rparr>"

definition resetCodeword :: "Codeword \<Rightarrow> HarqProcessRx \<Rightarrow> HarqProcessRx" where
  "resetCodeword cw p =
     (let i = unat cw
      in p\<lparr>hpr_pdu := (hpr_pdu p)[i := None], hpr_status := (hpr_status p)[i := RXHARQ_PDU_EMPTY],
           hpr_rxTime := (hpr_rxTime p)[i := 0], hpr_result := (hpr_result p)[i := False], hpr_transmissions := 0\<rparr>)"

text \<open>The feedback of an evaluated PDU; the limit of transmissions is compared as \<^verbatim>\<open>int\<close>.\<close>

definition createFeedback ::
  "harq_env \<Rightarrow> simtime \<Rightarrow> Codeword \<Rightarrow> HarqProcessRx \<Rightarrow> Binder \<Rightarrow> (LteHarqFeedback \<times> HarqProcessRx \<times> Binder \<times> harq_call list) res" where
  "createFeedback env now cw p b =
     rbind (isEvaluated env now cw p b) (\<lambda>(evaluated, b).
       if \<not> evaluated then Inl (RuntimeError ''Cannot send feedback for a pdu not in EVALUATING state'')
       else rbind (rx_pdu cw p) (\<lambda>pdu. rbind (vec_at (hpr_result p) (unat cw)) (\<lambda>result.
         let fb = \<lparr>hf_acid = hpr_acid p, hf_cw = ucast cw, hf_result = result, hf_fbMacPduId = mp_macPduId pdu\<rparr>
         in if result then Inr (fb, p\<lparr>hpr_status := (hpr_status p)[unat cw := RXHARQ_PDU_CORRECT]\<rparr>, b, [])
            else let p = p\<lparr>hpr_status := (hpr_status p)[unat cw := RXHARQ_PDU_CORRUPTED]\<rparr>
                 in if unat (hpr_transmissions p) = unat (hpr_maxHarqRtx p) + 1
                    then Inr (fb, resetCodeword cw (purgeCorruptedPdu cw p), b, [])
                    else Inr (fb, p, b, if he_nodeB env then [SignalProcessForRtx (mp_sourceId pdu) (mp_carrierFrequency pdu) (mp_direction pdu)] else []))))"

definition isCorrect :: "Codeword \<Rightarrow> HarqProcessRx \<Rightarrow> bool res" where
  "isCorrect cw p = rbind (rx_status cw p) (\<lambda>st. Inr (st = RXHARQ_PDU_CORRECT))"

definition HarqProcessRx_extractPdu :: "Codeword \<Rightarrow> HarqProcessRx \<Rightarrow> (mac_pdu \<times> HarqProcessRx) res" where
  "HarqProcessRx_extractPdu cw p =
     rbind (isCorrect cw p) (\<lambda>ok.
       if \<not> ok then Inl (RuntimeError ''Cannot extract pdu if the state is not CORRECT'')
       else rbind (rx_pdu cw p) (\<lambda>pdu. Inr (pdu, resetCodeword cw p)))"

definition HarqProcessRx_getByteLength :: "Codeword \<Rightarrow> HarqProcessRx \<Rightarrow> nat res" where
  "HarqProcessRx_getByteLength cw p =
     rbind (vec_at (hpr_pdu p) (unat cw)) (\<lambda>x. Inr (case x of None \<Rightarrow> 0 | Some pdu \<Rightarrow> mp_byteLength pdu))"

definition HarqProcessRx_isEmpty :: "HarqProcessRx \<Rightarrow> bool" where
  "HarqProcessRx_isEmpty p \<longleftrightarrow> list_all (\<lambda>st. st = RXHARQ_PDU_EMPTY) (hpr_status p)"

definition HarqProcessRx_emptyUnitsIds :: "HarqProcessRx \<Rightarrow> Codeword list" where
  "HarqProcessRx_emptyUnitsIds p =
     map of_nat (filter (\<lambda>i. hpr_status p ! i = RXHARQ_PDU_EMPTY) [0..<length (hpr_status p)])"

definition HarqProcessRx_getProcessStatus :: "HarqProcessRx \<Rightarrow> (Codeword \<times> RxHarqPduStatus) list" where
  "HarqProcessRx_getProcessStatus p = map (\<lambda>i. (of_nat i, hpr_status p ! i)) [0..<length (hpr_status p)]"

definition HarqProcessRx_isActive :: "HarqProcessRx \<Rightarrow> bool" where
  "HarqProcessRx_isActive p \<longleftrightarrow> (\<exists>s\<in>set (HarqProcessRx_getProcessStatus p). snd s \<noteq> RXHARQ_PDU_EMPTY)"

section \<open>The buffer of a source\<close>

text \<open>\<open>hbr_macUe\<close>: the MAC of the sender is still there.\<close>

record HarqBufferRx =
  hbr_processes :: "HarqProcessRx list"
  hbr_nodeId :: MacNodeId
  hbr_macUe :: bool

definition new_HarqBufferRx :: "nat \<Rightarrow> 8 word \<Rightarrow> 16 word \<Rightarrow> MacNodeId \<Rightarrow> HarqBufferRx" where
  "new_HarqBufferRx num maxHarqRtx timer nodeId =
     \<lparr>hbr_processes = map (\<lambda>i. new_HarqProcessRx (of_nat i) maxHarqRtx timer) [0..<num], hbr_nodeId = nodeId, hbr_macUe = True\<rparr>"

definition unregister_macUe :: "HarqBufferRx \<Rightarrow> HarqBufferRx" where
  "unregister_macUe b = b\<lparr>hbr_macUe := False\<rparr>"

text \<open>\<^verbatim>\<open>LteMacBase::isHarqReset\<close>: the processes of a sender were aborted in this slot.\<close>

definition isHarqReset :: "simtime \<Rightarrow> (MacNodeId, simtime) smap \<Rightarrow> MacNodeId \<Rightarrow> bool" where
  "isHarqReset now resetHarq srcId = (map_of resetHarq srcId = Some now)"

definition HarqBufferRx_insertPdu ::
  "simtime \<Rightarrow> (MacNodeId, simtime) smap \<Rightarrow> Codeword \<Rightarrow> mac_pdu \<Rightarrow> HarqBufferRx \<Rightarrow> HarqBufferRx res" where
  "HarqBufferRx_insertPdu now resetHarq cw pkt b =
     (if isHarqReset now resetHarq (mp_sourceId pkt) then Inr b
      else rbind (vec_at (hbr_processes b) (unat (mp_acid pkt))) (\<lambda>p.
           rbind (HarqProcessRx_insertPdu now cw pkt p) (\<lambda>p.
             Inr (b\<lparr>hbr_processes := (hbr_processes b)[unat (mp_acid pkt) := p]\<rparr>))))"

text \<open>A pass over the codewords of a process, and over the processes.\<close>

fun feedback_codewords ::
  "harq_env \<Rightarrow> simtime \<Rightarrow> Codeword list \<Rightarrow> HarqProcessRx \<Rightarrow> Binder \<Rightarrow> (HarqProcessRx \<times> Binder \<times> LteHarqFeedback list \<times> harq_call list) res" where
  "feedback_codewords env now [] p b = Inr (p, b, [], [])"
| "feedback_codewords env now (cw # cws) p b =
     rbind (isEvaluated env now cw p b) (\<lambda>(evaluated, b).
       if evaluated
       then rbind (createFeedback env now cw p b) (\<lambda>(fb, p, b, calls).
            rbind (feedback_codewords env now cws p b) (\<lambda>(p, b, fbs, calls'). Inr (p, b, fb # fbs, calls @ calls')))
       else feedback_codewords env now cws p b)"

definition codewords :: "Codeword list" where
  "codewords = map of_nat [0..<MAX_CODEWORDS]"

fun feedback_processes ::
  "harq_env \<Rightarrow> simtime \<Rightarrow> HarqProcessRx list \<Rightarrow> Binder \<Rightarrow> (HarqProcessRx list \<times> Binder \<times> LteHarqFeedback list \<times> harq_call list) res" where
  "feedback_processes env now [] b = Inr ([], b, [], [])"
| "feedback_processes env now (p # ps) b =
     rbind (feedback_codewords env now codewords p b) (\<lambda>(p, b, fbs, calls).
     rbind (feedback_processes env now ps b) (\<lambda>(ps, b, fbs', calls'). Inr (p # ps, b, fbs @ fbs', calls @ calls')))"

definition HarqBufferRx_sendFeedback ::
  "harq_env \<Rightarrow> simtime \<Rightarrow> HarqBufferRx \<Rightarrow> Binder \<Rightarrow> (HarqBufferRx \<times> Binder \<times> LteHarqFeedback list \<times> harq_call list) res" where
  "HarqBufferRx_sendFeedback env now h b =
     rbind (feedback_processes env now (hbr_processes h) b) (\<lambda>(ps, b, fbs, calls).
       Inr (h\<lparr>hbr_processes := ps\<rparr>, b, fbs, calls))"

fun extract_codewords :: "bool \<Rightarrow> Codeword list \<Rightarrow> HarqProcessRx \<Rightarrow> (HarqProcessRx \<times> mac_pdu list) res" where
  "extract_codewords macUe [] p = Inr (p, [])"
| "extract_codewords macUe (cw # cws) p =
     rbind (isCorrect cw p) (\<lambda>ok.
       if ok
       then rbind (HarqProcessRx_extractPdu cw p) (\<lambda>(pdu, p).
            if \<not> macUe then Inl NullDeref
            else rbind (extract_codewords macUe cws p) (\<lambda>(p, pdus). Inr (p, pdu # pdus)))
       else extract_codewords macUe cws p)"

fun extract_processes :: "bool \<Rightarrow> HarqProcessRx list \<Rightarrow> (HarqProcessRx list \<times> mac_pdu list) res" where
  "extract_processes macUe [] = Inr ([], [])"
| "extract_processes macUe (p # ps) =
     rbind (extract_codewords macUe codewords p) (\<lambda>(p, pdus).
     rbind (extract_processes macUe ps) (\<lambda>(ps, pdus'). Inr (p # ps, pdus @ pdus')))"

definition extractCorrectPdus ::
  "harq_env \<Rightarrow> simtime \<Rightarrow> HarqBufferRx \<Rightarrow> Binder \<Rightarrow> (HarqBufferRx \<times> Binder \<times> LteHarqFeedback list \<times> harq_call list \<times> mac_pdu list) res" where
  "extractCorrectPdus env now h b =
     rbind (HarqBufferRx_sendFeedback env now h b) (\<lambda>(h, b, fbs, calls).
     rbind (extract_processes (hbr_macUe h) (hbr_processes h)) (\<lambda>(ps, pdus).
       Inr (h\<lparr>hbr_processes := ps\<rparr>, b, fbs, calls, pdus)))"

fun purge_codewords :: "Codeword list \<Rightarrow> HarqProcessRx \<Rightarrow> (HarqProcessRx \<times> nat) res" where
  "purge_codewords [] p = Inr (p, 0)"
| "purge_codewords (cw # cws) p =
     rbind (rx_status cw p) (\<lambda>st.
       if st = RXHARQ_PDU_CORRUPTED
       then rbind (purge_codewords cws (resetCodeword cw (purgeCorruptedPdu cw p))) (\<lambda>(p, n). Inr (p, Suc n))
       else purge_codewords cws p)"

fun purge_processes :: "HarqProcessRx list \<Rightarrow> (HarqProcessRx list \<times> nat) res" where
  "purge_processes [] = Inr ([], 0)"
| "purge_processes (p # ps) =
     rbind (purge_codewords codewords p) (\<lambda>(p, n). rbind (purge_processes ps) (\<lambda>(ps, n'). Inr (p # ps, n + n')))"

definition purgeCorruptedPdus :: "HarqBufferRx \<Rightarrow> (HarqBufferRx \<times> nat) res" where
  "purgeCorruptedPdus h = rbind (purge_processes (hbr_processes h)) (\<lambda>(ps, n). Inr (h\<lparr>hbr_processes := ps\<rparr>, n))"

definition HarqBufferRx_getEmptyUnits :: "Acid \<Rightarrow> HarqBufferRx \<Rightarrow> (Acid \<times> Codeword list) res" where
  "HarqBufferRx_getEmptyUnits acid h = rbind (vec_at (hbr_processes h) (unat acid)) (\<lambda>p. Inr (acid, HarqProcessRx_emptyUnitsIds p))"

definition HarqBufferRx_firstAvailable :: "HarqBufferRx \<Rightarrow> Acid \<times> Codeword list" where
  "HarqBufferRx_firstAvailable h =
     (let acid = (case filter (\<lambda>i. HarqProcessRx_isEmpty (hbr_processes h ! i)) [0..<length (hbr_processes h)] of
                    [] \<Rightarrow> HARQ_NONE | i # _ \<Rightarrow> of_nat i)
      in (acid, if acid = HARQ_NONE then [] else HarqProcessRx_emptyUnitsIds (hbr_processes h ! unat acid)))"

definition HarqBufferRx_getBufferStatus :: "HarqBufferRx \<Rightarrow> (Codeword \<times> RxHarqPduStatus) list list" where
  "HarqBufferRx_getBufferStatus h = map HarqProcessRx_getProcessStatus (hbr_processes h)"

definition HarqBufferRx_isActive :: "HarqBufferRx \<Rightarrow> bool" where
  "HarqBufferRx_isActive h \<longleftrightarrow> (\<exists>p\<in>set (hbr_processes h). HarqProcessRx_isActive p)"

end
