(* ===== verification/Harq_Link.thy ===== *)
theory Harq_Link
  imports Harq_Rx
begin

text \<open>
  A sending and a receiving HARQ buffer joined by a radio link, as the MAC of two nodes drives them when it uses one
  codeword: each PDU goes to a free process, the packets in the air and the feedback on its way may arrive in
  any order, with any result, and retransmissions happen whenever the scheduler asks for one.  The phases of a
  process, \<open>harq_phase\<close>, are the abstract state of both ends.
\<close>

section \<open>The link\<close>

record harq_link =
  hl_tx :: HarqBufferTx
  hl_rx :: HarqBufferRx
  hl_binder :: Binder
  hl_air :: "mac_pdu list"
  hl_fbs :: "LteHarqFeedback list"
  hl_accepted :: "mac_pdu list"
  hl_delivered :: "mac_pdu list"
  hl_acked :: "mac_pdu list"
  hl_discarded :: "mac_pdu list"

definition harq_init :: "nat \<Rightarrow> nat \<Rightarrow> 16 word \<Rightarrow> MacNodeId \<Rightarrow> MacNodeId \<Rightarrow> Binder \<Rightarrow> harq_link" where
  "harq_init N m timer src dst b =
     \<lparr>hl_tx = new_HarqBufferTx N (of_nat m) dst, hl_rx = new_HarqBufferRx N (of_nat m) timer src, hl_binder = b,
      hl_air = [], hl_fbs = [], hl_accepted = [], hl_delivered = [], hl_acked = [], hl_discarded = []\<rparr>"

datatype harq_event =
  NewPdu simtime mac_pdu | Retransmit simtime | Arrive simtime Acid bool | Evaluate simtime | FeedbackArrives Acid

definition sent_pdus :: "harq_call list \<Rightarrow> mac_pdu list" where
  "sent_pdus calls = concat (map (\<lambda>c. case c of SendLowerPackets p \<Rightarrow> [p] | _ \<Rightarrow> []) calls)"

definition acked_pdus :: "harq_call list \<Rightarrow> mac_pdu list" where
  "acked_pdus calls = concat (map (\<lambda>c. case c of HarqAckToFlowManager p \<Rightarrow> [p] | _ \<Rightarrow> []) calls)"

definition discarded_pdus :: "harq_call list \<Rightarrow> mac_pdu list" where
  "discarded_pdus calls = concat (map (\<lambda>c. case c of DiscardMacPdu p \<Rightarrow> [p] | _ \<Rightarrow> []) calls)"

text \<open>Taking the first element with a property out of a list.\<close>

fun take_first :: "('a \<Rightarrow> bool) \<Rightarrow> 'a list \<Rightarrow> ('a \<times> 'a list) option" where
  "take_first P [] = None"
| "take_first P (x # xs) = (if P x then Some (x, xs) else map_option (\<lambda>(y, ys). (y, x # ys)) (take_first P xs))"

definition send_down :: "simtime \<Rightarrow> HarqBufferTx \<Rightarrow> harq_link \<Rightarrow> harq_link res" where
  "send_down now tx s = rbind (sendSelectedDown now tx) (\<lambda>(tx, calls).
     Inr (s\<lparr>hl_tx := tx, hl_air := hl_air s @ sent_pdus calls\<rparr>))"

definition harq_event_step :: "harq_env \<Rightarrow> harq_env \<Rightarrow> harq_event \<Rightarrow> harq_link \<Rightarrow> harq_link res" where
  "harq_event_step txe rxe e s = (case e of
       NewPdu now p \<Rightarrow>
         (case HarqBufferTx_firstAvailable (hl_tx s) of
            (acid, cw # _) \<Rightarrow>
              rbind (HarqBufferTx_insertPdu acid cw (p\<lparr>mp_cw := cw\<rparr>) (hl_tx s)) (\<lambda>(tx, _).
                send_down now tx (s\<lparr>hl_accepted := hl_accepted s @ [p]\<rparr>))
          | (acid, []) \<Rightarrow> Inr s)
     | Retransmit now \<Rightarrow>
         rbind (HarqBufferTx_markSelected (firstReadyForRtx txe now (hl_tx s)) 1 (hl_tx s)) (\<lambda>tx. send_down now tx s)
     | Arrive now acid r \<Rightarrow>
         (case take_first (\<lambda>p. mp_acid p = acid) (hl_air s) of None \<Rightarrow> Inr s
          | Some (p, air) \<Rightarrow> rbind (HarqBufferRx_insertPdu now [] (mp_cw p) (p\<lparr>mp_deciderResult := r\<rparr>) (hl_rx s)) (\<lambda>rx.
              Inr (s\<lparr>hl_rx := rx, hl_air := air\<rparr>)))
     | Evaluate now \<Rightarrow>
         rbind (extractCorrectPdus rxe now (hl_rx s) (hl_binder s)) (\<lambda>(rx, b, fbs, _, pdus).
           Inr (s\<lparr>hl_rx := rx, hl_binder := b, hl_fbs := hl_fbs s @ fbs, hl_delivered := hl_delivered s @ pdus\<rparr>))
     | FeedbackArrives acid \<Rightarrow>
         (case take_first (\<lambda>f. hf_acid f = acid) (hl_fbs s) of None \<Rightarrow> Inr s
          | Some (f, fbs) \<Rightarrow> rbind (receiveHarqFeedback txe f (hl_tx s)) (\<lambda>(tx, calls).
              Inr (s\<lparr>hl_tx := tx, hl_fbs := fbs, hl_acked := hl_acked s @ acked_pdus calls, hl_discarded := hl_discarded s @ discarded_pdus calls\<rparr>))))"

fun harq_run :: "harq_env \<Rightarrow> harq_env \<Rightarrow> harq_event list \<Rightarrow> harq_link \<Rightarrow> harq_link res" where
  "harq_run txe rxe [] s = Inr s"
| "harq_run txe rxe (e # es) s = rbind (harq_event_step txe rxe e s) (harq_run txe rxe es)"

section \<open>Phases of a process\<close>

text \<open>With the PDU as it was last sent, and the number of its transmissions.\<close>

datatype harq_phase =
  Idle | InAir mac_pdu nat | Evaluating mac_pdu nat bool | AckSent mac_pdu nat | NackSent mac_pdu nat | Failed mac_pdu nat

definition held :: "harq_phase \<Rightarrow> (mac_pdu \<times> nat) option" where
  "held ph = (case ph of Idle \<Rightarrow> None | InAir q n \<Rightarrow> Some (q, n) | Evaluating q n _ \<Rightarrow> Some (q, n)
     | AckSent q n \<Rightarrow> Some (q, n) | NackSent q n \<Rightarrow> Some (q, n) | Failed q n \<Rightarrow> Some (q, n))"

text \<open>The sending end of a process between two slots: no unit is selected, and the second codeword is not used.\<close>

definition tx_rep :: "nat \<Rightarrow> nat \<Rightarrow> harq_phase \<Rightarrow> HarqProcessTx \<Rightarrow> bool" where
  "tx_rep m i ph P \<longleftrightarrow> hpt_numSelected P = 0 \<and> \<not> hpt_dropped P \<and>
     (\<exists>u v. hpt_units P = [u, v] \<and> hu_status v = TXHARQ_PDU_EMPTY \<and> hu_transmissions v = 0 \<and> hu_cw u = 0 \<and> hu_acid u = of_nat i \<and> hu_maxHarqRtx u = of_nat m \<and>
        (case held ph of
           None \<Rightarrow> hu_status u = TXHARQ_PDU_EMPTY \<and> hu_transmissions u = 0 \<and> hpt_numEmptyUnits P = 2
         | Some (q, n) \<Rightarrow> hu_status u = (case ph of Failed _ _ \<Rightarrow> TXHARQ_PDU_BUFFERED | _ \<Rightarrow> TXHARQ_PDU_WAITING) \<and> hpt_numEmptyUnits P = 1 \<and>
             hu_pdu u = Some q \<and> hu_pduId u = mp_id q \<and> mp_macPduId q = mp_id q \<and> mp_acid q = of_nat i \<and> mp_cw q = 0 \<and>
             (mp_direction q = DL \<or> mp_direction q = UL) \<and> (mp_ndi q \<longleftrightarrow> n = 1) \<and> hu_transmissions u = of_nat n \<and> 0 < n \<and>
             (case ph of Failed _ _ \<Rightarrow> n \<le> m | _ \<Rightarrow> n \<le> Suc m)))"

text \<open>The receiving end: what its first codeword looks like.\<close>

definition rx_expect :: "nat \<Rightarrow> harq_phase \<Rightarrow> RxHarqPduStatus \<times> nat" where
  "rx_expect m ph = (case ph of
       Idle \<Rightarrow> (RXHARQ_PDU_EMPTY, 0) | AckSent _ _ \<Rightarrow> (RXHARQ_PDU_EMPTY, 0)
     | InAir _ n \<Rightarrow> if n = 1 then (RXHARQ_PDU_EMPTY, 0) else (RXHARQ_PDU_CORRUPTED, n - 1)
     | Evaluating _ n _ \<Rightarrow> (RXHARQ_PDU_EVALUATING, n)
     | NackSent _ n \<Rightarrow> if n = Suc m then (RXHARQ_PDU_EMPTY, 0) else (RXHARQ_PDU_CORRUPTED, n)
     | Failed _ n \<Rightarrow> (RXHARQ_PDU_CORRUPTED, n))"

definition rx_rep :: "nat \<Rightarrow> nat \<Rightarrow> harq_phase \<Rightarrow> HarqProcessRx \<Rightarrow> bool" where
  "rx_rep m i ph R \<longleftrightarrow> hpr_acid R = of_nat i \<and> hpr_maxHarqRtx R = of_nat m \<and>
     hpr_status R = [fst (rx_expect m ph), RXHARQ_PDU_EMPTY] \<and> hpr_transmissions R = of_nat (snd (rx_expect m ph)) \<and>
     length (hpr_rxTime R) = 2 \<and> length (hpr_pdu R) = 2 \<and> length (hpr_result R) = 2 \<and>
     (\<forall>q n r. ph = Evaluating q n r \<longrightarrow> hpr_pdu R ! 0 = Some (q\<lparr>mp_deciderResult := r\<rparr>) \<and> hpr_result R ! 0 = r)"

definition air_of :: "harq_phase \<Rightarrow> mac_pdu list" where
  "air_of ph = (case ph of InAir q _ \<Rightarrow> [q] | _ \<Rightarrow> [])"

definition fbs_of :: "nat \<Rightarrow> harq_phase \<Rightarrow> LteHarqFeedback list" where
  "fbs_of i ph = (case ph of
       AckSent q _ \<Rightarrow> [\<lparr>hf_acid = of_nat i, hf_cw = 0, hf_result = True, hf_fbMacPduId = mp_id q\<rparr>]
     | NackSent q _ \<Rightarrow> [\<lparr>hf_acid = of_nat i, hf_cw = 0, hf_result = False, hf_fbMacPduId = mp_id q\<rparr>] | _ \<Rightarrow> [])"

text \<open>What a PDU carries.\<close>

definition content :: "mac_pdu \<Rightarrow> int \<times> (nat \<times> nat) list \<times> nat list" where
  "content p = (mp_id p, mp_sduList p, mp_ceList p)"

definition contents :: "mac_pdu list \<Rightarrow> (int \<times> (nat \<times> nat) list \<times> nat list) multiset" where
  "contents ps = mset (map content ps)"

definition held_contents :: "harq_phase \<Rightarrow> (int \<times> (nat \<times> nat) list \<times> nat list) multiset" where
  "held_contents ph = (case held ph of None \<Rightarrow> {#} | Some (q, _) \<Rightarrow> {#content q#})"

definition ack_contents :: "harq_phase \<Rightarrow> (int \<times> (nat \<times> nat) list \<times> nat list) multiset" where
  "ack_contents ph = (case ph of AckSent q _ \<Rightarrow> {#content q#} | _ \<Rightarrow> {#})"

definition link_rep :: "nat \<Rightarrow> nat \<Rightarrow> harq_link \<Rightarrow> harq_phase list \<Rightarrow> bool" where
  "link_rep N m s ph \<longleftrightarrow> length ph = N \<and> length (hbt_processes (hl_tx s)) = N \<and> length (hbr_processes (hl_rx s)) = N \<and>
     hbt_selectedAcid (hl_tx s) = HARQ_NONE \<and> hbr_macUe (hl_rx s) \<and>
     (\<forall>i<N. tx_rep m i (ph ! i) (hbt_processes (hl_tx s) ! i) \<and> rx_rep m i (ph ! i) (hbr_processes (hl_rx s) ! i) \<and>
        filter (\<lambda>p. mp_acid p = of_nat i) (hl_air s) = air_of (ph ! i) \<and>
        filter (\<lambda>f. hf_acid f = of_nat i) (hl_fbs s) = fbs_of i (ph ! i)) \<and>
     (\<forall>p\<in>set (hl_air s). unat (mp_acid p) < N) \<and> (\<forall>f\<in>set (hl_fbs s). unat (hf_acid f) < N)"

definition books :: "harq_link \<Rightarrow> harq_phase list \<Rightarrow> bool" where
  "books s ph \<longleftrightarrow>
     contents (hl_accepted s) = contents (hl_acked s) + contents (hl_discarded s) + sum_list (map held_contents ph) \<and>
     contents (hl_delivered s) = contents (hl_acked s) + sum_list (map ack_contents ph)"

section \<open>The sending end\<close>

lemma get_unit_pair: "hpt_units P = [u, v] \<Longrightarrow> get_unit 0 P = Inr u"
  by (simp add: get_unit_def vec_at_def)

lemma units_in_pair:
  "hpt_units P = [u, v] \<Longrightarrow> units_in st P = (if hu_status u = st then [0] else []) @ (if hu_status v = st then [1] else [])"
  by (simp add: units_in_def upt_rec)

lemma put_unit_pair: "hpt_units P = [u, v] \<Longrightarrow> put_unit 0 u' P = P\<lparr>hpt_units := [u', v]\<rparr>"
  by (simp add: put_unit_def)

lemmas pair_simps = get_unit_pair units_in_pair put_unit_pair

lemma of_nat_u8: "n < 256 \<Longrightarrow> n' < 256 \<Longrightarrow> (of_nat n :: 8 word) = of_nat n' \<longleftrightarrow> n = n'"
  by (simp add: word_unat_eq_iff unat_of_nat)

lemma unat_u8: "n < 256 \<Longrightarrow> unat (of_nat n :: 8 word) = n"
  by (simp add: unat_of_nat)

lemma last_transmission:
  assumes "m \<le> 254" "n \<le> Suc m"
  shows "(ucast (of_nat n :: 8 word) :: u32) = of_nat m + 1 \<longleftrightarrow> n = Suc m"
proof -
  have "unat (ucast (of_nat n :: 8 word) :: u32) = n" using assms by (simp add: unsigned_ucast_eq unat_of_nat take_bit_nat_eq_self)
  moreover have "unat (of_nat (Suc m) :: u32) = Suc m" using assms unat_of_nat [where x = "Suc m" and 'a = 32] by (simp del: of_nat_Suc)
  ultimately show ?thesis by (metis of_nat_Suc add.commute word_unat_eq_iff)
qed

lemma tx_new:
  assumes P: "tx_rep m i Idle P" and p: "mp_cw p = 0" "mp_direction p = DL \<or> mp_direction p = UL"
  shows "\<exists>P1 P2 q x. HarqProcessTx_insertPdu p 0 P = Inr P1 \<and> HarqProcessTx_getPdu 0 P1 = Inr x \<and>
     extract_units now (selectedUnitsIds P1) P1 = Inr (P2, [SendLowerPackets q]) \<and> tx_rep m i (InAir q 1) P2 \<and> content q = content p"
proof -
  from P obtain u v where P': "hpt_units P = [u, v]" "hpt_numSelected P = 0" "\<not> hpt_dropped P" "hpt_numEmptyUnits P = 2"
    "hu_status v = TXHARQ_PDU_EMPTY" "hu_transmissions v = 0" "hu_cw u = 0" "hu_acid u = of_nat i" "hu_maxHarqRtx u = of_nat m"
    "hu_status u = TXHARQ_PDU_EMPTY" "hu_transmissions u = 0" by (auto simp: tx_rep_def held_def)
  let ?q = "p\<lparr>mp_macPduId := mp_id p, mp_acid := of_nat i, mp_cw := 0\<rparr>"
  let ?u1 = "u\<lparr>hu_pdu := Some ?q, hu_pduId := mp_id p, hu_transmissions := 0, hu_status := TXHARQ_PDU_SELECTED, hu_pduLength := mp_byteLength p\<rparr>"
  let ?P1 = "P\<lparr>hpt_units := [?u1, v], hpt_numEmptyUnits := 1, hpt_numSelected := 1, hpt_dropped := False\<rparr>"
  let ?q2 = "?q\<lparr>mp_txNumber := 1, mp_ndi := True\<rparr>"
  let ?P2 = "?P1\<lparr>hpt_units := [?u1\<lparr>hu_txTime := now, hu_transmissions := 1, hu_status := TXHARQ_PDU_WAITING, hu_pdu := Some ?q2\<rparr>, v], hpt_numSelected := 0\<rparr>"
  have "HarqProcessTx_insertPdu p 0 P = Inr ?P1"
    using P' p by (simp add: HarqProcessTx_insertPdu_def HarqUnitTx_insertPdu_def pair_simps)
  moreover have "HarqProcessTx_getPdu 0 ?P1 = Inr ?q"
    by (simp add: HarqProcessTx_getPdu_def HarqUnitTx_getPdu_def pair_simps)
  moreover have "extract_units now (selectedUnitsIds ?P1) ?P1 = Inr (?P2, [SendLowerPackets ?q2])"
    using P' by (simp add: selectedUnitsIds_def pair_simps HarqProcessTx_extractPdu_def HarqUnitTx_extractPdu_def Let_def)
  moreover have "tx_rep m i (InAir ?q2 1) ?P2" using P' p(2) by (simp add: tx_rep_def held_def)
  ultimately show ?thesis
    by (intro exI [of _ ?P1] exI [of _ ?P2] exI [of _ ?q2] exI [of _ ?q]) (simp add: content_def)
qed

lemma tx_rtx:
  assumes P: "tx_rep m i (Failed q n) P" and "m \<le> 254"
  shows "\<exists>P1 P2 q'. HarqProcessTx_markSelected 0 P = Inr P1 \<and>
     extract_units now (selectedUnitsIds P1) P1 = Inr (P2, [SendLowerPackets q']) \<and> tx_rep m i (InAir q' (Suc n)) P2 \<and> content q' = content q"
proof -
  from P obtain u v where P': "hpt_units P = [u, v]" "hpt_numSelected P = 0" "\<not> hpt_dropped P" "hpt_numEmptyUnits P = 1"
    "hu_status v = TXHARQ_PDU_EMPTY" "hu_transmissions v = 0" "hu_cw u = 0" "hu_acid u = of_nat i" "hu_maxHarqRtx u = of_nat m"
    "hu_status u = TXHARQ_PDU_BUFFERED" "hu_pdu u = Some q" "hu_pduId u = mp_id q" "mp_macPduId q = mp_id q" "mp_acid q = of_nat i"
    "mp_cw q = 0" "mp_direction q = DL \<or> mp_direction q = UL" "hu_transmissions u = of_nat n" "0 < n" "n \<le> m"
    by (auto simp: tx_rep_def held_def)
  let ?u1 = "u\<lparr>hu_status := TXHARQ_PDU_SELECTED\<rparr>"
  let ?P1 = "P\<lparr>hpt_units := [?u1, v], hpt_numSelected := 1\<rparr>"
  let ?q2 = "q\<lparr>mp_txNumber := of_nat (Suc n), mp_ndi := False\<rparr>"
  let ?P2 = "?P1\<lparr>hpt_units := [?u1\<lparr>hu_txTime := now, hu_transmissions := of_nat (Suc n), hu_status := TXHARQ_PDU_WAITING, hu_pdu := Some ?q2\<rparr>, v], hpt_numSelected := 0\<rparr>"
  have t: "hu_transmissions u + 1 = of_nat (Suc n)" "(of_nat (Suc n) :: 8 word) \<noteq> 1"
    using P'(17-19) assms(2) of_nat_u8 [of "Suc n" 1] by simp_all
  have "HarqProcessTx_markSelected 0 P = Inr ?P1"
    using P' by (simp add: HarqProcessTx_markSelected_def HarqUnitTx_markSelected_def pair_simps numHarqUnits_def)
  moreover have "extract_units now (selectedUnitsIds ?P1) ?P1 = Inr (?P2, [SendLowerPackets ?q2])"
    using P' t by (simp add: selectedUnitsIds_def pair_simps HarqProcessTx_extractPdu_def HarqUnitTx_extractPdu_def Let_def del: of_nat_Suc)
  moreover have "tx_rep m i (InAir ?q2 (Suc n)) ?P2" using P' by (simp add: tx_rep_def held_def)
  ultimately show ?thesis by (intro exI [of _ ?P1] exI [of _ ?P2] exI [of _ ?q2]) (simp add: content_def)
qed

lemma tx_ack:
  assumes "tx_rep m i (AckSent q n) P"
  shows "\<exists>P'. HarqProcessTx_pduFeedback env HARQACK 0 P = Inr (True, P', []) \<and> tx_rep m i Idle P'"
proof -
  from assms obtain u v where P': "hpt_units P = [u, v]" "hpt_numSelected P = 0" "\<not> hpt_dropped P" "hpt_numEmptyUnits P = 1"
    "hu_status v = TXHARQ_PDU_EMPTY" "hu_transmissions v = 0" "hu_cw u = 0" "hu_acid u = of_nat i" "hu_maxHarqRtx u = of_nat m"
    "hu_status u = TXHARQ_PDU_WAITING" "hu_pdu u = Some q" "mp_direction q = DL \<or> mp_direction q = UL"
    by (auto simp: tx_rep_def held_def)
  let ?P' = "P\<lparr>hpt_units := [resetUnit u, v], hpt_numEmptyUnits := 2\<rparr>"
  have "HarqProcessTx_pduFeedback env HARQACK 0 P = Inr (True, ?P', [])"
    using P' by (simp add: HarqProcessTx_pduFeedback_def HarqUnitTx_pduFeedback_def pair_simps count_reset_def HarqProcessTx_isEmpty_def numHarqUnits_def)
  moreover have "tx_rep m i Idle ?P'" using P' by (simp add: tx_rep_def held_def resetUnit_def)
  ultimately show ?thesis by blast
qed

lemma tx_nack:
  assumes "tx_rep m i (NackSent q n) P" and "m \<le> 254"
  shows "\<exists>P' calls. HarqProcessTx_pduFeedback env HARQNACK 0 P = Inr (n = Suc m, P', calls) \<and> acked_pdus calls = [] \<and>
     discarded_pdus calls = (if n = Suc m then [q] else []) \<and> tx_rep m i (if n = Suc m then Idle else Failed q n) P'"
proof -
  from assms(1) obtain u v where P': "hpt_units P = [u, v]" "hpt_numSelected P = 0" "\<not> hpt_dropped P" "hpt_numEmptyUnits P = 1"
    "hu_status v = TXHARQ_PDU_EMPTY" "hu_transmissions v = 0" "hu_cw u = 0" "hu_acid u = of_nat i" "hu_maxHarqRtx u = of_nat m"
    "hu_status u = TXHARQ_PDU_WAITING" "hu_pdu u = Some q" "hu_pduId u = mp_id q" "mp_macPduId q = mp_id q" "mp_acid q = of_nat i"
    "mp_cw q = 0" "mp_direction q = DL \<or> mp_direction q = UL" "mp_ndi q \<longleftrightarrow> n = 1" "hu_transmissions u = of_nat n" "0 < n" "n \<le> Suc m"
    by (auto simp: tx_rep_def held_def)
  have rtx: "ucast (hu_transmissions u) = hu_maxHarqRtx u + 1 \<longleftrightarrow> n = Suc m"
    using P' last_transmission [OF assms(2) P'(20)] by simp
  show ?thesis
  proof (cases "n = Suc m")
    case True
    let ?P' = "P\<lparr>hpt_units := [resetUnit u, v], hpt_numEmptyUnits := 2\<rparr>"
    have "HarqProcessTx_pduFeedback env HARQNACK 0 P = Inr (True, ?P', [DiscardMacPdu q])"
      using P' rtx True by (simp add: HarqProcessTx_pduFeedback_def HarqUnitTx_pduFeedback_def pair_simps count_reset_def HarqProcessTx_isEmpty_def numHarqUnits_def)
    moreover have "tx_rep m i Idle ?P'" using P' by (simp add: tx_rep_def held_def resetUnit_def)
    ultimately show ?thesis using True by (simp add: acked_pdus_def discarded_pdus_def)
  next
    case False
    let ?P' = "P\<lparr>hpt_units := [u\<lparr>hu_status := TXHARQ_PDU_BUFFERED\<rparr>, v]\<rparr>"
    let ?calls = "if he_nodeB env then [SignalProcessForRtx (mp_destId q) (mp_carrierFrequency q) (mp_direction q)] else []"
    have "HarqProcessTx_pduFeedback env HARQNACK 0 P = Inr (False, ?P', ?calls)"
      using P' rtx False by (simp add: HarqProcessTx_pduFeedback_def HarqUnitTx_pduFeedback_def pair_simps count_reset_def HarqProcessTx_isEmpty_def numHarqUnits_def)
    moreover have "tx_rep m i (Failed q n) ?P'" using P' False by (simp add: tx_rep_def held_def)
    ultimately show ?thesis using False by (simp add: acked_pdus_def discarded_pdus_def)
  qed
qed

section \<open>The receiving end\<close>

lemma rx_arrive:
  assumes R: "rx_rep m i (InAir q n) R" and q: "mp_cw q = 0" "mp_ndi q \<longleftrightarrow> n = 1" and n: "0 < n"
  shows "\<exists>R'. HarqProcessRx_insertPdu now 0 (q\<lparr>mp_deciderResult := r\<rparr>) R = Inr R' \<and> rx_rep m i (Evaluating q n r) R'"
proof -
  from R have R': "hpr_acid R = of_nat i" "hpr_maxHarqRtx R = of_nat m"
    "hpr_status R = [if n = 1 then RXHARQ_PDU_EMPTY else RXHARQ_PDU_CORRUPTED, RXHARQ_PDU_EMPTY]"
    "hpr_transmissions R = of_nat (n - 1)" "length (hpr_rxTime R) = 2" "length (hpr_pdu R) = 2" "length (hpr_result R) = 2"
    by (auto simp: rx_rep_def rx_expect_def split: if_splits)
  have "(of_nat (n - 1) :: 8 word) + 1 = of_nat n" using n by (cases n) simp_all
  with R' q show ?thesis
    by (simp add: HarqProcessRx_insertPdu_def rx_status_def vec_at_def rx_rep_def rx_expect_def Let_def)
qed

text \<open>Asking for the numerology again gives the same one, and the Binder does not change any more.\<close>

lemma map_of_smap_upd_same: "map_of (smap_upd k v m) k = Some v"
  by (induction m) auto

lemma numerology_again:
  "getNumerologyIndexFromCarrierFreq f (snd (getNumerologyIndexFromCarrierFreq f b)) = getNumerologyIndexFromCarrierFreq f b"
  by (auto simp: getNumerologyIndexFromCarrierFreq_def smap_index_def map_of_smap_upd_same split_def Let_def split: option.splits)

definition rx_elapsed :: "harq_env \<Rightarrow> simtime \<Rightarrow> mac_pdu \<Rightarrow> HarqProcessRx \<Rightarrow> Binder \<Rightarrow> bool" where
  "rx_elapsed env now q R b \<longleftrightarrow>
     he_simtime env (getSlotDurationFromNumerologyIndex (fst (getNumerologyIndexFromCarrierFreq (mp_carrierFrequency q) b)) *
       real_of_int (uint (hpr_harqFbEvaluationTimer R) - 1)) \<le> now - hpr_rxTime R ! 0"

text \<open>The phase after the feedback of an evaluated PDU, and what goes up.\<close>

definition after_feedback :: "harq_phase \<Rightarrow> harq_phase" where
  "after_feedback ph = (case ph of Evaluating q n r \<Rightarrow> if r then AckSent q n else NackSent q n | _ \<Rightarrow> ph)"

definition evaluated_step :: "nat \<Rightarrow> harq_phase \<Rightarrow> harq_phase \<Rightarrow> LteHarqFeedback list \<Rightarrow> mac_pdu list \<Rightarrow> bool" where
  "evaluated_step i ph ph' fbs pdus \<longleftrightarrow>
     (ph' = ph \<and> fbs = [] \<and> pdus = []) \<or>
     (\<exists>q n r. ph = Evaluating q n r \<and> ph' = after_feedback ph \<and> fbs = fbs_of i ph' \<and> contents pdus = ack_contents ph')"

lemma rx_evaluate:
  assumes R: "rx_rep m i ph R" and m: "m \<le> 254" and n: "\<And>q n r. ph = Evaluating q n r \<Longrightarrow> 0 < n \<and> n \<le> Suc m \<and> mp_macPduId q = mp_id q"
  shows "\<exists>R1 R2 b' fbs calls pdus ph'. feedback_codewords env now codewords R b = Inr (R1, b', fbs, calls) \<and>
     extract_codewords True codewords R1 = Inr (R2, pdus) \<and> rx_rep m i ph' R2 \<and> evaluated_step i ph ph' fbs pdus"
proof -
  define s where "s = fst (rx_expect m ph)"
  obtain x y a c where "hpr_pdu R = [x, y]" "hpr_result R = [a, c]" using R by (auto simp: rx_rep_def numeral_2_eq_2 length_Suc_conv)
  with R have R': "hpr_acid R = of_nat i" "hpr_maxHarqRtx R = of_nat m" "hpr_status R = [s, RXHARQ_PDU_EMPTY]"
    "s = fst (rx_expect m ph)" "hpr_transmissions R = of_nat (snd (rx_expect m ph))" "length (hpr_rxTime R) = 2"
    "hpr_pdu R = [x, y]" "hpr_result R = [a, c]"
    by (simp_all add: rx_rep_def s_def)
  have cws: "codewords = [0, 1]" by (simp add: codewords_def MAX_CODEWORDS_def upt_rec)
  have s: "s \<noteq> RXHARQ_PDU_CORRECT" unfolding R'(4) by (simp add: rx_expect_def split: harq_phase.splits)
  have not_1: "isEvaluated env now 1 P b = Inr (False, b)" "isCorrect 1 P = Inr False"
    if "length (hpr_status P) = 2" "hpr_status P ! 1 = RXHARQ_PDU_EMPTY" for P b
    using that by (simp_all add: isEvaluated_def isCorrect_def rx_status_def vec_at_def)
  show ?thesis
  proof (cases "s = RXHARQ_PDU_EVALUATING \<and> rx_elapsed env now (the x) R b")
    case False
    have "\<exists>b'. isEvaluated env now 0 R b = Inr (False, b')"
    proof (cases "s = RXHARQ_PDU_EVALUATING")
      case True
      then obtain q n r where "ph = Evaluating q n r" unfolding R'(4) by (auto simp: rx_expect_def split: harq_phase.splits if_splits)
      with R R'(7) have "x = Some (q\<lparr>mp_deciderResult := r\<rparr>)" by (auto simp: rx_rep_def)
      with False True R' show ?thesis
        by (auto simp: isEvaluated_def rx_status_def rx_pdu_def vec_at_def rx_elapsed_def split_def Let_def)
    qed (use R' in \<open>simp add: isEvaluated_def rx_status_def vec_at_def\<close>)
    then obtain b' where "isEvaluated env now 0 R b = Inr (False, b')" by blast
    then have "feedback_codewords env now codewords R b = Inr (R, b', [], [])" using R' not_1 by (simp add: cws)
    moreover have "extract_codewords True codewords R = Inr (R, [])"
      using R' s not_1 by (simp add: cws isCorrect_def rx_status_def vec_at_def)
    moreover have "evaluated_step i ph ph [] []" by (simp add: evaluated_step_def)
    ultimately show ?thesis using R by blast
  next
    case True
    then obtain q n r where ph: "ph = Evaluating q n r" unfolding R'(4) by (auto simp: rx_expect_def split: harq_phase.splits if_splits)
    with R R'(7,8) have xa: "x = Some (q\<lparr>mp_deciderResult := r\<rparr>)" "a = r" by (auto simp: rx_rep_def)
    have t: "hpr_transmissions R = of_nat n" using R'(5) ph by (simp add: rx_expect_def)
    let ?b = "snd (getNumerologyIndexFromCarrierFreq (mp_carrierFrequency q) b)"
    have ev: "isEvaluated env now 0 R b = Inr (True, ?b)" "isEvaluated env now 0 R ?b = Inr (True, ?b)"
      using True R' xa numerology_again [of "mp_carrierFrequency q" b]
      by (simp_all add: isEvaluated_def rx_status_def rx_pdu_def vec_at_def rx_elapsed_def split_def Let_def)
    let ?fb = "\<lparr>hf_acid = of_nat i, hf_cw = 0, hf_result = r, hf_fbMacPduId = mp_id q\<rparr>"
    show ?thesis
    proof (cases r)
      case True
      let ?R1 = "R\<lparr>hpr_status := [RXHARQ_PDU_CORRECT, RXHARQ_PDU_EMPTY]\<rparr>"
      let ?R2 = "resetCodeword 0 ?R1"
      have "feedback_codewords env now codewords R b = Inr (?R1, ?b, [?fb], [])"
        using ev R' xa True n [OF ph] not_1 by (simp add: cws createFeedback_def rx_pdu_def vec_at_def Let_def)
      moreover have "extract_codewords True codewords ?R1 = Inr (?R2, [q\<lparr>mp_deciderResult := r\<rparr>])"
        using R' xa not_1 by (simp add: cws isCorrect_def HarqProcessRx_extractPdu_def rx_status_def rx_pdu_def vec_at_def resetCodeword_def Let_def)
      moreover have "rx_rep m i (AckSent q n) ?R2"
        using R' by (simp add: rx_rep_def rx_expect_def resetCodeword_def Let_def)
      moreover have "evaluated_step i ph (AckSent q n) [?fb] [q\<lparr>mp_deciderResult := r\<rparr>]"
        using ph True by (auto simp: evaluated_step_def after_feedback_def fbs_of_def contents_def content_def ack_contents_def)
      ultimately show ?thesis by blast
    next
      case False
      have last: "unat (hpr_transmissions R) = unat (hpr_maxHarqRtx R) + 1 \<longleftrightarrow> n = Suc m"
        using R'(2) t n [OF ph] m by (simp add: unat_u8)
      let ?R0 = "R\<lparr>hpr_status := [RXHARQ_PDU_CORRUPTED, RXHARQ_PDU_EMPTY]\<rparr>"
      let ?R1 = "if n = Suc m then resetCodeword 0 (purgeCorruptedPdu 0 ?R0) else ?R0"
      have R1: "length (hpr_status ?R1) = 2" "hpr_status ?R1 ! 1 = RXHARQ_PDU_EMPTY" "hpr_status ?R1 ! 0 \<noteq> RXHARQ_PDU_CORRECT"
        by (simp_all add: resetCodeword_def purgeCorruptedPdu_def Let_def)
      have "\<exists>calls. feedback_codewords env now codewords R b = Inr (?R1, ?b, [?fb], calls)"
        using ev R' xa False n [OF ph] last not_1 [OF R1(1,2)]
        by (cases "n = Suc m") (simp_all add: cws createFeedback_def rx_pdu_def vec_at_def Let_def)
      moreover have "extract_codewords True codewords ?R1 = Inr (?R1, [])"
        using R1(3) R1(1) not_1 [OF R1(1,2)] by (simp only: cws extract_codewords.simps) (simp add: isCorrect_def rx_status_def vec_at_def)
      moreover have "rx_rep m i (NackSent q n) ?R1"
        using R' t by (simp add: rx_rep_def rx_expect_def resetCodeword_def purgeCorruptedPdu_def Let_def)
      moreover have "evaluated_step i ph (NackSent q n) [?fb] []"
        using ph False by (auto simp: evaluated_step_def after_feedback_def fbs_of_def contents_def ack_contents_def)
      ultimately show ?thesis by blast
    qed
  qed
qed

section \<open>All processes of a buffer\<close>

lemma tx_rep_bounds:
  assumes "tx_rep m i ph P" and "held ph = Some (q, n)"
  shows "0 < n" "n \<le> Suc m" "mp_macPduId q = mp_id q" "mp_acid q = of_nat i" "mp_cw q = 0" "mp_ndi q \<longleftrightarrow> n = 1"
  using assms by (auto simp: tx_rep_def held_def split: harq_phase.splits)

lemma evaluated_step_facts:
  assumes "evaluated_step i ph ph' fbs pdus"
  shows "fbs_of i ph @ fbs = fbs_of i ph'" "contents pdus + ack_contents ph = ack_contents ph'" "held_contents ph' = held_contents ph"
    "air_of ph' = air_of ph" "tx_rep m i ph P \<Longrightarrow> tx_rep m i ph' P" "\<forall>f\<in>set fbs. hf_acid f = of_nat i"
proof -
  consider "ph' = ph" "fbs = []" "pdus = []"
    | (ack) q n where "ph = Evaluating q n True" "ph' = AckSent q n" "fbs = fbs_of i ph'" "contents pdus = ack_contents ph'"
    | (nack) q n where "ph = Evaluating q n False" "ph' = NackSent q n" "fbs = fbs_of i ph'" "contents pdus = ack_contents ph'"
    using assms by (auto simp: evaluated_step_def after_feedback_def split: if_splits)
  note c = this
  note d = fbs_of_def ack_contents_def held_contents_def held_def air_of_def contents_def
  show "fbs_of i ph @ fbs = fbs_of i ph'" "contents pdus + ack_contents ph = ack_contents ph'" "held_contents ph' = held_contents ph"
    "air_of ph' = air_of ph" "\<forall>f\<in>set fbs. hf_acid f = of_nat i"
    using c by (cases; simp add: d)+
  show "tx_rep m i ph P \<Longrightarrow> tx_rep m i ph' P" using c by (cases; simp add: tx_rep_def held_def)
qed

definition turn :: "nat \<Rightarrow> nat \<Rightarrow> harq_phase list \<Rightarrow> harq_phase list \<Rightarrow> LteHarqFeedback list \<Rightarrow> mac_pdu list \<Rightarrow> bool" where
  "turn m k ph ph' fbs pdus \<longleftrightarrow> length ph' = length ph \<and>
     (\<forall>j<length ph. fbs_of (k + j) (ph ! j) @ filter (\<lambda>f. hf_acid f = of_nat (k + j)) fbs = fbs_of (k + j) (ph' ! j) \<and>
        air_of (ph' ! j) = air_of (ph ! j) \<and> (\<forall>P. tx_rep m (k + j) (ph ! j) P \<longrightarrow> tx_rep m (k + j) (ph' ! j) P)) \<and>
     (\<forall>f\<in>set fbs. k \<le> unat (hf_acid f) \<and> unat (hf_acid f) < k + length ph) \<and>
     map held_contents ph' = map held_contents ph \<and>
     contents pdus + sum_list (map ack_contents ph) = sum_list (map ack_contents ph')"

lemma turn_Cons:
  assumes s: "evaluated_step k p p' fbs pdus" and t: "turn m (Suc k) ph ph' fbs' pdus'" and k: "k + length (p # ph) \<le> 255"
  shows "turn m k (p # ph) (p' # ph') (fbs @ fbs') (pdus @ pdus')"
proof -
  note f = evaluated_step_facts [OF s]
  have own: "filter (\<lambda>f. hf_acid f = of_nat k) fbs = fbs" using f(6) by (simp add: filter_id_conv)
  have "of_nat k \<noteq> (of_nat (Suc k + j) :: 8 word)" if "j < length ph" for j
    using k that by (subst of_nat_u8) auto
  with f(6) have none: "filter (\<lambda>f. hf_acid f = of_nat (Suc k + j)) fbs = []" if "j < length ph" for j
    using that by (auto simp: filter_empty_conv simp del: of_nat_add of_nat_Suc)
  have "unat (of_nat k :: 8 word) = k" using k by (subst unat_u8) auto
  then have other: "filter (\<lambda>f. hf_acid f = of_nat k) fbs' = []"
    using t by (fastforce simp: turn_def filter_empty_conv)
  have acids: "k \<le> unat (hf_acid g) \<and> unat (hf_acid g) < k + length (p # ph)" if "g \<in> set (fbs @ fbs')" for g
    using that f(6) t \<open>unat (of_nat k :: 8 word) = k\<close> by (auto simp: turn_def)
  have "contents (pdus @ pdus') + sum_list (map ack_contents (p # ph)) = sum_list (map ack_contents (p' # ph'))"
    using f(2) t by (simp add: turn_def contents_def ac_simps)
  moreover have "\<forall>j<Suc (length ph). fbs_of (k + j) ((p # ph) ! j) @ filter (\<lambda>f. hf_acid f = of_nat (k + j)) (fbs @ fbs') = fbs_of (k + j) ((p' # ph') ! j) \<and>
        air_of ((p' # ph') ! j) = air_of ((p # ph) ! j) \<and> (\<forall>P. tx_rep m (k + j) ((p # ph) ! j) P \<longrightarrow> tx_rep m (k + j) ((p' # ph') ! j) P)"
    unfolding All_less_Suc2
  proof (intro conjI allI impI)
    fix j assume j: "j < length ph"
    with t have "fbs_of (Suc k + j) (ph ! j) @ filter (\<lambda>f. hf_acid f = of_nat (Suc k + j)) fbs' = fbs_of (Suc k + j) (ph' ! j)"
      "air_of (ph' ! j) = air_of (ph ! j)" "\<And>P. tx_rep m (Suc k + j) (ph ! j) P \<Longrightarrow> tx_rep m (Suc k + j) (ph' ! j) P"
      unfolding turn_def by blast+
    with none [OF j]
    show "fbs_of (k + Suc j) ((p # ph) ! Suc j) @ filter (\<lambda>f. hf_acid f = of_nat (k + Suc j)) (fbs @ fbs') = fbs_of (k + Suc j) ((p' # ph') ! Suc j)"
      "air_of ((p' # ph') ! Suc j) = air_of ((p # ph) ! Suc j)"
      "\<And>P. tx_rep m (k + Suc j) ((p # ph) ! Suc j) P \<Longrightarrow> tx_rep m (k + Suc j) ((p' # ph') ! Suc j) P"
      by (simp_all del: of_nat_Suc of_nat_add)
  qed (use own other f in simp_all)
  ultimately show ?thesis using t f(3) acids by (simp add: turn_def)
qed

lemma evaluate_processes:
  assumes "length ph = length Rs" "k + length Rs \<le> 255" "m \<le> 254"
    and "\<forall>j<length Rs. rx_rep m (k + j) (ph ! j) (Rs ! j) \<and> (\<exists>P. tx_rep m (k + j) (ph ! j) P)"
  shows "\<exists>Rs1 Rs2 b' fbs calls pdus ph'. feedback_processes env now Rs b = Inr (Rs1, b', fbs, calls) \<and>
     extract_processes True Rs1 = Inr (Rs2, pdus) \<and> length Rs2 = length Rs \<and>
     (\<forall>j<length Rs. rx_rep m (k + j) (ph' ! j) (Rs2 ! j)) \<and> turn m k ph ph' fbs pdus"
  using assms
proof (induction Rs arbitrary: ph k b)
  case Nil
  then show ?case by (simp add: turn_def contents_def)
next
  case (Cons R Rs)
  then obtain p ph0 where ph: "ph = p # ph0" by (cases ph) auto
  from Cons.prems have "rx_rep m (k + 0) (ph ! 0) R" "\<exists>P. tx_rep m (k + 0) (ph ! 0) P" by fastforce+
  then obtain P where R: "rx_rep m k p R" and P: "tx_rep m k p P" by (auto simp: ph)
  have n: "\<And>q n r. p = Evaluating q n r \<Longrightarrow> 0 < n \<and> n \<le> Suc m \<and> mp_macPduId q = mp_id q"
    using tx_rep_bounds [OF P] by (simp add: held_def)
  obtain R1 R2 b1 fbs calls pdus p' where
    r: "feedback_codewords env now codewords R b = Inr (R1, b1, fbs, calls)" "extract_codewords True codewords R1 = Inr (R2, pdus)"
      "rx_rep m k p' R2" "evaluated_step k p p' fbs pdus"
    using rx_evaluate [OF R Cons.prems(3), where env = env and now = now and b = b] n by blast
  have "\<forall>j<length Rs. rx_rep m (Suc k + j) (ph0 ! j) (Rs ! j) \<and> (\<exists>P. tx_rep m (Suc k + j) (ph0 ! j) P)"
    using Cons.prems(4) by (simp add: ph All_less_Suc2)
  from Cons.IH [OF _ _ Cons.prems(3) this, of b1] Cons.prems(1,2) obtain Rs1 Rs2 b2 fbs' calls' pdus' ph' where
    i: "feedback_processes env now Rs b1 = Inr (Rs1, b2, fbs', calls')" "extract_processes True Rs1 = Inr (Rs2, pdus')"
      "length Rs2 = length Rs" "\<forall>j<length Rs. rx_rep m (Suc k + j) (ph' ! j) (Rs2 ! j)" "turn m (Suc k) ph0 ph' fbs' pdus'"
    by (auto simp: ph)
  have "turn m k ph (p' # ph') (fbs @ fbs') (pdus @ pdus')"
    unfolding ph using turn_Cons [OF r(4) i(5)] Cons.prems(1,2) by (simp add: ph)
  moreover have "\<forall>j<length (R # Rs). rx_rep m (k + j) ((p' # ph') ! j) ((R2 # Rs2) ! j)"
    using r(3) i(4) by (simp add: All_less_Suc2)
  ultimately show ?case using r(1,2) i(1-3)
    by (intro exI [of _ "R1 # Rs1"] exI [of _ "R2 # Rs2"] exI [of _ b2] exI [of _ "fbs @ fbs'"] exI [of _ "calls @ calls'"]
        exI [of _ "pdus @ pdus'"] exI [of _ "p' # ph'"]) simp
qed

section \<open>One event\<close>

lemma take_first_None: "take_first P xs = None \<Longrightarrow> filter P xs = []"
  by (induction xs) (auto split: if_splits)

lemma take_first_Some:
  "take_first P xs = Some (y, ys) \<Longrightarrow> P y \<and> filter P xs = y # filter P ys \<and> (\<forall>Q. \<not> Q y \<longrightarrow> filter Q ys = filter Q xs) \<and> set xs = insert y (set ys)"
  by (induction xs arbitrary: ys) (auto split: if_splits)

lemma sum_list_update_phase:
  fixes f :: "harq_phase \<Rightarrow> 'b multiset"
  shows "i < length ph \<Longrightarrow> sum_list (map f (ph[i := x])) + f (ph ! i) = sum_list (map f ph) + f x"
  by (induction ph arbitrary: i) (auto simp: ac_simps nth_Cons split: nat.splits)

lemma rx_rep_cong:
  assumes "rx_rep m i ph R" "rx_expect m ph' = rx_expect m ph" "\<And>q n r. ph' \<noteq> Evaluating q n r"
  shows "rx_rep m i ph' R"
  using assms by (simp add: rx_rep_def)

text \<open>An event at process \<open>i\<close> that leaves the others alone.\<close>

lemma link_rep_update:
  assumes L: "link_rep N m s ph" and i: "i < N" "N \<le> 255"
    and tx: "hbt_processes (hl_tx s') = (hbt_processes (hl_tx s))[i := P]" "hbt_selectedAcid (hl_tx s') = HARQ_NONE" "tx_rep m i x P"
    and rx: "hbr_processes (hl_rx s') = (hbr_processes (hl_rx s))[i := R]" "hbr_macUe (hl_rx s')" "rx_rep m i x R"
    and air: "filter (\<lambda>p. mp_acid p = of_nat i) (hl_air s') = air_of x"
      "\<And>j. j < N \<Longrightarrow> j \<noteq> i \<Longrightarrow> filter (\<lambda>p. mp_acid p = of_nat j) (hl_air s') = filter (\<lambda>p. mp_acid p = of_nat j) (hl_air s)"
      "set (hl_air s') \<subseteq> set (hl_air s) \<union> {p. mp_acid p = of_nat i}"
    and fbs: "filter (\<lambda>f. hf_acid f = of_nat i) (hl_fbs s') = fbs_of i x"
      "\<And>j. j < N \<Longrightarrow> j \<noteq> i \<Longrightarrow> filter (\<lambda>f. hf_acid f = of_nat j) (hl_fbs s') = filter (\<lambda>f. hf_acid f = of_nat j) (hl_fbs s)"
      "set (hl_fbs s') \<subseteq> set (hl_fbs s)"
  shows "link_rep N m s' (ph[i := x])"
proof -
  have "unat (of_nat i :: 8 word) < N" using i by (simp add: unat_u8)
  with air(3) L have a: "\<forall>p\<in>set (hl_air s'). unat (mp_acid p) < N" by (auto simp: link_rep_def)
  have len: "length ph = N" "length (hbt_processes (hl_tx s)) = N" "length (hbr_processes (hl_rx s)) = N" using L by (simp_all add: link_rep_def)
  have "tx_rep m j (ph[i := x] ! j) (hbt_processes (hl_tx s') ! j) \<and> rx_rep m j (ph[i := x] ! j) (hbr_processes (hl_rx s') ! j) \<and>
        filter (\<lambda>p. mp_acid p = of_nat j) (hl_air s') = air_of (ph[i := x] ! j) \<and>
        filter (\<lambda>f. hf_acid f = of_nat j) (hl_fbs s') = fbs_of j (ph[i := x] ! j)" if "j < N" for j
  proof (cases "j = i")
    case True
    with i len tx rx air(1) fbs(1) show ?thesis by simp
  next
    case False
    with that L len tx(1) rx(1) air(2) fbs(2) show ?thesis by (simp add: link_rep_def)
  qed
  with a len tx(1,2) rx(1,2) fbs(3) L show ?thesis by (auto simp: link_rep_def)
qed

lemma other_acid: "i < N \<Longrightarrow> j < N \<Longrightarrow> N \<le> 255 \<Longrightarrow> j \<noteq> i \<Longrightarrow> (of_nat i :: 8 word) \<noteq> of_nat j"
  by (subst of_nat_u8) auto

lemma link_rep_at:
  assumes "link_rep N m s ph" "i < N"
  shows "tx_rep m i (ph ! i) (hbt_processes (hl_tx s) ! i)" "rx_rep m i (ph ! i) (hbr_processes (hl_rx s) ! i)"
    "filter (\<lambda>p. mp_acid p = of_nat i) (hl_air s) = air_of (ph ! i)" "filter (\<lambda>f. hf_acid f = of_nat i) (hl_fbs s) = fbs_of i (ph ! i)"
  using assms by (simp_all add: link_rep_def)

lemma acid_small: "i < N \<Longrightarrow> N \<le> 255 \<Longrightarrow> unat (of_nat i :: 8 word) = i \<and> (of_nat i :: 8 word) \<noteq> HARQ_NONE"
proof -
  assume "i < N" "N \<le> 255"
  moreover from this have "unat (of_nat i :: 8 word) = i" by (simp add: unat_u8)
  ultimately show ?thesis by (auto simp: HARQ_NONE_def)
qed

definition link_ok :: "nat \<Rightarrow> nat \<Rightarrow> harq_link \<Rightarrow> harq_phase list \<Rightarrow> bool" where
  "link_ok N m s ph \<longleftrightarrow> link_rep N m s ph \<and> books s ph"

lemma get_process_at: "link_rep N m s ph \<Longrightarrow> i < N \<Longrightarrow> N \<le> 255 \<Longrightarrow> get_process (of_nat i) (hl_tx s) = Inr (hbt_processes (hl_tx s) ! i)"
  using acid_small [of i N] by (simp add: get_process_def vec_at_def link_rep_def)

lemma put_process_at: "i < N \<Longrightarrow> N \<le> 255 \<Longrightarrow> put_process (of_nat i) P b = b\<lparr>hbt_processes := (hbt_processes b)[i := P]\<rparr>"
  using acid_small [of i N] by (simp add: put_process_def)

text \<open>Sending down what process \<open>i\<close> has selected.\<close>

lemma send_down_at:
  assumes "i < N" "N \<le> 255" "hbt_selectedAcid b = of_nat i" "i < length (hbt_processes b)"
    and "extract_units now (selectedUnitsIds (hbt_processes b ! i)) (hbt_processes b ! i) = Inr (P2, [SendLowerPackets q])"
  shows "send_down now b s = Inr (s\<lparr>hl_tx := b\<lparr>hbt_processes := (hbt_processes b)[i := P2], hbt_selectedAcid := HARQ_NONE\<rparr>, hl_air := hl_air s @ [q]\<rparr>)"
  using assms acid_small [OF assms(1,2)]
  by (simp add: send_down_def sendSelectedDown_def get_process_def vec_at_def put_process_at [OF assms(1,2)] sent_pdus_def)

lemma tx_isEmpty:
  assumes "tx_rep m i ph P"
  shows "HarqProcessTx_isEmpty P \<longleftrightarrow> ph = Idle" "ph = Idle \<Longrightarrow> HarqProcessTx_emptyUnitsIds P = [0, 1]"
    "ph = Idle \<Longrightarrow> \<exists>u. get_unit 0 P = Inr u \<and> hu_status u = TXHARQ_PDU_EMPTY"
    "hasReadyUnits P \<longleftrightarrow> (\<exists>q n. ph = Failed q n)" "ph = Failed q n \<Longrightarrow> readyUnitsIds P = [0]"
  using assms
  by (auto simp: tx_rep_def held_def HarqProcessTx_isEmpty_def numHarqUnits_def HarqProcessTx_emptyUnitsIds_def units_in_pair
      get_unit_pair hasReadyUnits_def readyUnitsIds_def split: harq_phase.splits)

text \<open>A new PDU.\<close>

lemma new_pdu_step:
  assumes ok: "link_ok N m s ph" and N: "N \<le> 255" and dir: "mp_direction p = DL \<or> mp_direction p = UL"
  shows "\<exists>s' ph'. harq_event_step txe rxe (NewPdu now p) s = Inr s' \<and> link_ok N m s' ph'"
proof -
  from ok have L: "link_rep N m s ph" and B: "books s ph" by (simp_all add: link_ok_def)
  let ?b = "hl_tx s"
  have len: "length (hbt_processes ?b) = N" "length ph = N" and sel: "hbt_selectedAcid ?b = HARQ_NONE" using L by (simp_all add: link_rep_def)
  let ?free = "filter (\<lambda>i. HarqProcessTx_isEmpty (hbt_processes ?b ! i)) [0..<N]"
  show ?thesis
  proof (cases ?free)
    case Nil
    then have "HarqBufferTx_firstAvailable ?b = (HARQ_NONE, [])" by (simp add: HarqBufferTx_firstAvailable_def sel len)
    with ok show ?thesis by (auto simp: harq_event_step_def)
  next
    case (Cons i ks)
    then have "i \<in> set ?free" by simp
    then have i: "i < N" and e: "HarqProcessTx_isEmpty (hbt_processes ?b ! i)" by simp_all
    note at = link_rep_at [OF L i] and ac = acid_small [OF i N]
    from e have idle: "ph ! i = Idle" using tx_isEmpty(1) [OF at(1)] by simp
    let ?P = "hbt_processes ?b ! i" and ?p = "p\<lparr>mp_cw := 0\<rparr>"
    from tx_isEmpty(3) [OF at(1) idle] obtain u where u: "get_unit 0 ?P = Inr u" "hu_status u = TXHARQ_PDU_EMPTY" by blast
    have fa: "HarqBufferTx_firstAvailable ?b = (of_nat i, [0, 1])"
      using ac tx_isEmpty(2) [OF at(1) idle] by (simp add: HarqBufferTx_firstAvailable_def sel len Cons)
    have "tx_rep m i Idle ?P" using at(1) idle by simp
    from tx_new [OF this, of ?p now] dir obtain P1 P2 q x where t: "HarqProcessTx_insertPdu ?p 0 ?P = Inr P1" "HarqProcessTx_getPdu 0 P1 = Inr x"
      "extract_units now (selectedUnitsIds P1) P1 = Inr (P2, [SendLowerPackets q])" "tx_rep m i (InAir q 1) P2" "content q = content ?p" by auto
    let ?b1 = "?b\<lparr>hbt_processes := (hbt_processes ?b)[i := P1], hbt_selectedAcid := of_nat i, hbt_numEmptyProc := hbt_numEmptyProc ?b - 1\<rparr>"
    have ins: "HarqBufferTx_insertPdu (of_nat i) 0 ?p ?b = Inr (?b1, [InsertMacPdu x])"
      using e u t(1,2) by (simp add: HarqBufferTx_insertPdu_def get_process_at [OF L i N] put_process_at [OF i N])
    let ?s1 = "s\<lparr>hl_accepted := hl_accepted s @ [p]\<rparr>"
    let ?s2 = "?s1\<lparr>hl_tx := ?b1\<lparr>hbt_processes := (hbt_processes ?b)[i := P2], hbt_selectedAcid := HARQ_NONE\<rparr>, hl_air := hl_air s @ [q]\<rparr>"
    have "send_down now ?b1 ?s1 = Inr ?s2"
      using send_down_at [OF i N, of ?b1 now P2 q ?s1] t(3) i len(1) by simp
    with ins have run: "harq_event_step txe rxe (NewPdu now p) s = Inr ?s2" by (simp add: harq_event_step_def fa)
    have "mp_acid q = of_nat i" using tx_rep_bounds(4) [OF t(4)] by (simp add: held_def)
    moreover have "rx_rep m i (InAir q 1) (hbr_processes (hl_rx s) ! i)"
      using at(2) idle by (intro rx_rep_cong [OF at(2)]) (simp_all add: rx_expect_def)
    ultimately have "link_rep N m ?s2 (ph[i := InAir q 1])"
      using L i at(3,4) idle t(4) other_acid [OF i _ N]
      by (intro link_rep_update [OF L i N, where P = P2 and R = "hbr_processes (hl_rx s) ! i"])
        (auto simp: air_of_def fbs_of_def link_rep_def)
    moreover have "books ?s2 (ph[i := InAir q 1])"
    proof -
      have "sum_list (map held_contents (ph[i := InAir q 1])) = sum_list (map held_contents ph) + {#content p#}"
        "sum_list (map ack_contents (ph[i := InAir q 1])) = sum_list (map ack_contents ph)"
        using sum_list_update_phase [of i ph held_contents "InAir q 1"] sum_list_update_phase [of i ph ack_contents "InAir q 1"] i len(2) idle t(5)
        by (simp_all add: held_contents_def held_def ack_contents_def content_def)
      with B show ?thesis by (simp add: books_def contents_def)
    qed
    ultimately show ?thesis using run by (auto simp: link_ok_def)
  qed
qed

text \<open>A retransmission.\<close>

lemma firstReadyForRtx_cases:
  assumes L: "link_rep N m s ph" and N: "N \<le> 255"
  shows "firstReadyForRtx env now (hl_tx s) = (HARQ_NONE, []) \<or>
    (\<exists>i q n. i < N \<and> ph ! i = Failed q n \<and> firstReadyForRtx env now (hl_tx s) = (of_nat i, [0]))"
proof -
  let ?ps = "hbt_processes (hl_tx s)"
  let ?f = "\<lambda>i (acid :: Acid, oldest). let p = ?ps ! i; limit = now + he_simtime env 1
            in if hasReadyUnits p \<and> getOldestUnitTxTime limit p < oldest then (of_nat i, getOldestUnitTxTime limit p) else (acid, oldest)"
  have inv: "fst (fold ?f ks (a, t)) = a \<or> (\<exists>i\<in>set ks. hasReadyUnits (?ps ! i) \<and> fst (fold ?f ks (a, t)) = of_nat i)" for ks a t
  proof (induction ks arbitrary: a t)
    case (Cons i ks)
    let ?at = "?f i (a, t)"
    from Cons.IH [of "fst ?at" "snd ?at"]
    have "fst (fold ?f (i # ks) (a, t)) = fst ?at \<or> (\<exists>j\<in>set ks. hasReadyUnits (?ps ! j) \<and> fst (fold ?f (i # ks) (a, t)) = of_nat j)"
      by simp
    moreover have "fst ?at = a \<or> hasReadyUnits (?ps ! i) \<and> fst ?at = of_nat i" by (simp add: Let_def)
    ultimately show ?case by auto
  qed simp
  have len: "length ?ps = N" using L by (simp add: link_rep_def)
  obtain a t where at: "fold ?f [0..<N] (HARQ_NONE, now + he_simtime env 1) = (a, t)" by fastforce
  then have r: "firstReadyForRtx env now (hl_tx s) = (a, if a = HARQ_NONE then [] else readyUnitsIds (?ps ! unat a))"
    by (simp add: firstReadyForRtx_def len Let_def)
  from inv [of "[0..<N]" HARQ_NONE "now + he_simtime env 1"] at
  consider "a = HARQ_NONE" | i where "i < N" "hasReadyUnits (?ps ! i)" "a = of_nat i" by auto
  then show ?thesis
  proof cases
    case 1
    with r show ?thesis by simp
  next
    case 2
    note at = link_rep_at(1) [OF L 2(1)]
    from 2(2) tx_isEmpty(4) [OF at] obtain q n where "ph ! i = Failed q n" by auto
    with 2 r tx_isEmpty(5) [OF at] acid_small [OF 2(1) N] show ?thesis by auto
  qed
qed

lemma retransmit_step:
  assumes ok: "link_ok N m s ph" and N: "N \<le> 255" and m: "m \<le> 254"
  shows "\<exists>s' ph'. harq_event_step txe rxe (Retransmit now) s = Inr s' \<and> link_ok N m s' ph'"
proof -
  from ok have L: "link_rep N m s ph" and B: "books s ph" by (simp_all add: link_ok_def)
  let ?b = "hl_tx s"
  have len: "length (hbt_processes ?b) = N" "length ph = N" and sel: "hbt_selectedAcid ?b = HARQ_NONE" using L by (simp_all add: link_rep_def)
  from firstReadyForRtx_cases [OF L N, of txe now] consider
    (none) "firstReadyForRtx txe now ?b = (HARQ_NONE, [])"
    | (rtx) i q n where "i < N" "ph ! i = Failed q n" "firstReadyForRtx txe now ?b = (of_nat i, [0])" by blast
  then show ?thesis
  proof cases
    case none
    then have "harq_event_step txe rxe (Retransmit now) s = Inr s"
      by (simp add: harq_event_step_def HarqBufferTx_markSelected_def send_down_def sendSelectedDown_def sel sent_pdus_def)
    with ok show ?thesis by blast
  next
    case rtx
    note i = rtx(1)
    note at = link_rep_at [OF L i] and ac = acid_small [OF i N]
    let ?P = "hbt_processes ?b ! i"
    have "tx_rep m i (Failed q n) ?P" using at(1) rtx(2) by simp
    from tx_rtx [OF this m, of now] obtain P1 P2 q' where t: "HarqProcessTx_markSelected 0 ?P = Inr P1"
      "extract_units now (selectedUnitsIds P1) P1 = Inr (P2, [SendLowerPackets q'])" "tx_rep m i (InAir q' (Suc n)) P2" "content q' = content q" by blast
    let ?b1 = "?b\<lparr>hbt_processes := (hbt_processes ?b)[i := P1], hbt_selectedAcid := of_nat i\<rparr>"
    have "HarqBufferTx_markSelected (of_nat i, [0]) 1 ?b = Inr ?b1"
      using t(1) by (simp add: HarqBufferTx_markSelected_def get_process_at [OF L i N] put_process_at [OF i N])
    moreover let ?s2 = "s\<lparr>hl_tx := ?b1\<lparr>hbt_processes := (hbt_processes ?b)[i := P2], hbt_selectedAcid := HARQ_NONE\<rparr>, hl_air := hl_air s @ [q']\<rparr>"
    have "send_down now ?b1 s = Inr ?s2"
      using send_down_at [OF i N, of ?b1 now P2 q' s] t(2) i len(1) by simp
    ultimately have run: "harq_event_step txe rxe (Retransmit now) s = Inr ?s2" by (simp add: harq_event_step_def rtx(3))
    have n: "0 < n" using tx_rep_bounds(1) [OF \<open>tx_rep m i (Failed q n) ?P\<close>] by (simp add: held_def)
    have "mp_acid q' = of_nat i" using tx_rep_bounds(4) [OF t(3)] by (simp add: held_def)
    moreover have "rx_rep m i (InAir q' (Suc n)) (hbr_processes (hl_rx s) ! i)"
      using n rtx(2) by (intro rx_rep_cong [OF at(2)]) (simp_all add: rx_expect_def)
    ultimately have "link_rep N m ?s2 (ph[i := InAir q' (Suc n)])"
      using L i at(3,4) rtx(2) t(3) other_acid [OF i _ N]
      by (intro link_rep_update [OF L i N, where P = P2 and R = "hbr_processes (hl_rx s) ! i"])
        (auto simp: air_of_def fbs_of_def link_rep_def)
    moreover have "books ?s2 (ph[i := InAir q' (Suc n)])"
    proof -
      have "sum_list (map held_contents (ph[i := InAir q' (Suc n)])) = sum_list (map held_contents ph)"
        "sum_list (map ack_contents (ph[i := InAir q' (Suc n)])) = sum_list (map ack_contents ph)"
        using sum_list_update_phase [of i ph held_contents "InAir q' (Suc n)"] sum_list_update_phase [of i ph ack_contents "InAir q' (Suc n)"] i len(2) rtx(2) t(4)
        by (simp_all add: held_contents_def held_def ack_contents_def)
      with B show ?thesis by (simp add: books_def)
    qed
    ultimately show ?thesis using run by (auto simp: link_ok_def)
  qed
qed

text \<open>A PDU arrives.\<close>

lemma arrive_step:
  assumes ok: "link_ok N m s ph" and N: "N \<le> 255"
  shows "\<exists>s' ph'. harq_event_step txe rxe (Arrive now acid r) s = Inr s' \<and> link_ok N m s' ph'"
proof -
  from ok have L: "link_rep N m s ph" and B: "books s ph" by (simp_all add: link_ok_def)
  have len: "length ph = N" "length (hbr_processes (hl_rx s)) = N" using L by (simp_all add: link_rep_def)
  show ?thesis
  proof (cases "take_first (\<lambda>p. mp_acid p = acid) (hl_air s)")
    case None
    with ok show ?thesis by (auto simp: harq_event_step_def)
  next
    case (Some pa)
    then obtain p air where pa: "take_first (\<lambda>p. mp_acid p = acid) (hl_air s) = Some (p, air)" by (cases pa) auto
    note tf = take_first_Some [OF pa]
    define i where "i = unat acid"
    have i: "i < N" using tf L by (auto simp: i_def link_rep_def)
    have acid: "acid = of_nat i" by (simp add: i_def)
    note at = link_rep_at [OF L i]
    from at(3) tf acid have "p # filter (\<lambda>p. mp_acid p = of_nat i) air = air_of (ph ! i)" by simp
    then obtain n where ph: "ph ! i = InAir p n" and air: "filter (\<lambda>p. mp_acid p = of_nat i) air = []"
      by (auto simp: air_of_def split: harq_phase.splits)
    have h: "held (ph ! i) = Some (p, n)" by (simp add: ph held_def)
    note b = tx_rep_bounds [OF at(1) h]
    let ?R = "hbr_processes (hl_rx s) ! i"
    have "rx_rep m i (InAir p n) ?R" using at(2) ph by simp
    from rx_arrive [OF this b(5,6,1), of now r] obtain R' where R': "HarqProcessRx_insertPdu now 0 (p\<lparr>mp_deciderResult := r\<rparr>) ?R = Inr R'"
      "rx_rep m i (Evaluating p n r) R'" by blast
    let ?s2 = "s\<lparr>hl_rx := (hl_rx s)\<lparr>hbr_processes := (hbr_processes (hl_rx s))[i := R']\<rparr>, hl_air := air\<rparr>"
    have run: "harq_event_step txe rxe (Arrive now acid r) s = Inr ?s2"
      using R'(1) b(4,5) i len(2) acid_small [OF i N]
      by (simp add: harq_event_step_def pa HarqBufferRx_insertPdu_def isHarqReset_def vec_at_def)
    have "tx_rep m i (Evaluating p n r) (hbt_processes (hl_tx s) ! i)"
      using at(1) by (simp add: ph tx_rep_def held_def)
    then have "link_rep N m ?s2 (ph[i := Evaluating p n r])"
      using L i at(4) ph R'(2) tf air acid other_acid [OF i _ N] b(4)
      by (intro link_rep_update [OF L i N, where P = "hbt_processes (hl_tx s) ! i" and R = R'])
        (auto simp: air_of_def fbs_of_def link_rep_def)
    moreover have "books ?s2 (ph[i := Evaluating p n r])"
    proof -
      have "sum_list (map held_contents (ph[i := Evaluating p n r])) = sum_list (map held_contents ph)"
        "sum_list (map ack_contents (ph[i := Evaluating p n r])) = sum_list (map ack_contents ph)"
        using sum_list_update_phase [of i ph held_contents "Evaluating p n r"] sum_list_update_phase [of i ph ack_contents "Evaluating p n r"] i len(1) ph
        by (simp_all add: held_contents_def held_def ack_contents_def)
      with B show ?thesis by (simp add: books_def)
    qed
    ultimately show ?thesis using run by (auto simp: link_ok_def)
  qed
qed

text \<open>The receiver evaluates what it has.\<close>

lemma evaluate_step:
  assumes ok: "link_ok N m s ph" and N: "N \<le> 255" and m: "m \<le> 254"
  shows "\<exists>s' ph'. harq_event_step txe rxe (Evaluate now) s = Inr s' \<and> link_ok N m s' ph'"
proof -
  from ok have L: "link_rep N m s ph" and B: "books s ph" by (simp_all add: link_ok_def)
  let ?Rs = "hbr_processes (hl_rx s)"
  have len: "length ph = length ?Rs" "length ?Rs = N" using L by (simp_all add: link_rep_def)
  have "\<forall>j<length ?Rs. rx_rep m (0 + j) (ph ! j) (?Rs ! j) \<and> (\<exists>P. tx_rep m (0 + j) (ph ! j) P)"
    using L by (auto simp: link_rep_def)
  from evaluate_processes [OF len(1) _ m this, of rxe now "hl_binder s"] len(2) N obtain Rs1 Rs2 b' fbs calls pdus ph' where
    f: "feedback_processes rxe now ?Rs (hl_binder s) = Inr (Rs1, b', fbs, calls)" "extract_processes True Rs1 = Inr (Rs2, pdus)"
      "length Rs2 = N" "\<forall>j<N. rx_rep m j (ph' ! j) (Rs2 ! j)" "turn m 0 ph ph' fbs pdus" by auto
  let ?s' = "s\<lparr>hl_rx := (hl_rx s)\<lparr>hbr_processes := Rs2\<rparr>, hl_binder := b', hl_fbs := hl_fbs s @ fbs, hl_delivered := hl_delivered s @ pdus\<rparr>"
  have "hbr_macUe (hl_rx s)" using L by (simp add: link_rep_def)
  with f(1,2) have run: "harq_event_step txe rxe (Evaluate now) s = Inr ?s'"
    by (simp add: harq_event_step_def extractCorrectPdus_def HarqBufferRx_sendFeedback_def)
  have t: "length ph' = N" "map held_contents ph' = map held_contents ph" "contents pdus + sum_list (map ack_contents ph) = sum_list (map ack_contents ph')"
    "\<forall>f\<in>set fbs. unat (hf_acid f) < N"
    "\<And>j. j < N \<Longrightarrow> fbs_of j (ph ! j) @ filter (\<lambda>f. hf_acid f = of_nat j) fbs = fbs_of j (ph' ! j) \<and> air_of (ph' ! j) = air_of (ph ! j) \<and>
       (\<forall>P. tx_rep m j (ph ! j) P \<longrightarrow> tx_rep m j (ph' ! j) P)"
    using f(5) len by (simp_all add: turn_def)
  have "link_rep N m ?s' ph'" using L t(1,4,5) f(3,4) by (auto simp: link_rep_def)
  moreover have "books ?s' ph'"
    using B t(2,3) by (simp add: books_def contents_def) (metis (no_types, lifting) add.assoc add.commute)
  ultimately show ?thesis using run by (auto simp: link_ok_def)
qed

text \<open>A feedback arrives.\<close>

lemma feedback_step:
  assumes ok: "link_ok N m s ph" and N: "N \<le> 255" and m: "m \<le> 254"
  shows "\<exists>s' ph'. harq_event_step txe rxe (FeedbackArrives acid) s = Inr s' \<and> link_ok N m s' ph'"
proof (cases "take_first (\<lambda>f. hf_acid f = acid) (hl_fbs s)")
  case None
  with ok show ?thesis by (auto simp: harq_event_step_def)
next
  case (Some fa)
  from ok have L: "link_rep N m s ph" and B: "books s ph" by (simp_all add: link_ok_def)
  have len: "length ph = N" "length (hbt_processes (hl_tx s)) = N" using L by (simp_all add: link_rep_def)
  from Some obtain f fbs where fa: "take_first (\<lambda>f. hf_acid f = acid) (hl_fbs s) = Some (f, fbs)" by (cases fa) auto
  note tf = take_first_Some [OF fa]
  define i where "i = unat acid"
  have i: "i < N" using tf L by (auto simp: i_def link_rep_def)
  have acid: "acid = of_nat i" by (simp add: i_def)
  note at = link_rep_at [OF L i]
  from at(4) tf acid have "f # filter (\<lambda>f. hf_acid f = of_nat i) fbs = fbs_of i (ph ! i)" by simp
  then obtain q n where ph: "ph ! i = (if hf_result f then AckSent q n else NackSent q n)" and fbs: "filter (\<lambda>f. hf_acid f = of_nat i) fbs = []"
    and f: "hf_acid f = of_nat i" "hf_cw f = 0" "hf_fbMacPduId f = mp_id q"
    by (auto simp: fbs_of_def split: harq_phase.splits)
  let ?P = "hbt_processes (hl_tx s) ! i"
  have h: "held (ph ! i) = Some (q, n)" by (simp add: ph held_def)
  from at(1) h obtain u where u: "get_unit 0 ?P = Inr u" "hu_pduId u = mp_id q" "hu_pdu u = Some q" "\<not> hpt_dropped ?P"
    by (auto simp: tx_rep_def get_unit_pair)
  define x where "x = (if hf_result f \<or> n = Suc m then Idle else Failed q n)"
  have "\<exists>reset P' calls. HarqProcessTx_pduFeedback txe (if hf_result f then HARQACK else HARQNACK) 0 ?P = Inr (reset, P', calls) \<and>
     acked_pdus calls = [] \<and> discarded_pdus calls = (if \<not> hf_result f \<and> n = Suc m then [q] else []) \<and> tx_rep m i x P'"
  proof (cases "hf_result f")
    case True
    with at(1) ph have "tx_rep m i (AckSent q n) ?P" by simp
    from tx_ack [OF this, of txe] True show ?thesis by (auto simp: x_def acked_pdus_def discarded_pdus_def)
  next
    case False
    with at(1) ph have "tx_rep m i (NackSent q n) ?P" by simp
    from tx_nack [OF this m, of txe] False show ?thesis by (auto simp: x_def)
  qed
  then obtain reset P' calls where p: "HarqProcessTx_pduFeedback txe (if hf_result f then HARQACK else HARQNACK) 0 ?P = Inr (reset, P', calls)"
    "acked_pdus calls = []" "discarded_pdus calls = (if \<not> hf_result f \<and> n = Suc m then [q] else [])" "tx_rep m i x P'" by blast
  let ?b' = "(hl_tx s)\<lparr>hbt_processes := (hbt_processes (hl_tx s))[i := P'],
     hbt_numEmptyProc := (if reset then hbt_numEmptyProc (hl_tx s) + 1 else hbt_numEmptyProc (hl_tx s))\<rparr>"
  let ?ack = "if hf_result f then [HarqAckToFlowManager q] else []"
  have "receiveHarqFeedback txe f (hl_tx s) = Inr (?b', ?ack @ calls)"
    using p(1) u f by (simp add: receiveHarqFeedback_def get_process_at [OF L i N] put_process_at [OF i N] HarqUnitTx_getPdu_def Let_def)
  moreover let ?s' = "s\<lparr>hl_tx := ?b', hl_fbs := fbs, hl_acked := hl_acked s @ (if hf_result f then [q] else []),
     hl_discarded := hl_discarded s @ (if \<not> hf_result f \<and> n = Suc m then [q] else [])\<rparr>"
  have "acked_pdus (?ack @ calls) = (if hf_result f then [q] else [])" "discarded_pdus (?ack @ calls) = (if \<not> hf_result f \<and> n = Suc m then [q] else [])"
    using p(2,3) by (simp_all add: acked_pdus_def discarded_pdus_def)
  ultimately have run: "harq_event_step txe rxe (FeedbackArrives acid) s = Inr ?s'"
    by (simp add: harq_event_step_def fa)
  have "rx_rep m i x (hbr_processes (hl_rx s) ! i)"
    using ph by (intro rx_rep_cong [OF at(2)]) (auto simp: x_def rx_expect_def)
  then have "link_rep N m ?s' (ph[i := x])"
    using L i at(3,4) ph p(4) tf fbs acid other_acid [OF i _ N] f(1)
    by (intro link_rep_update [OF L i N, where P = P' and R = "hbr_processes (hl_rx s) ! i"])
      (auto simp: air_of_def fbs_of_def x_def link_rep_def)
  moreover have "books ?s' (ph[i := x])"
  proof -
    have "sum_list (map held_contents (ph[i := x])) + {#content q#} = sum_list (map held_contents ph) + held_contents x"
      "sum_list (map ack_contents (ph[i := x])) + ack_contents (ph ! i) = sum_list (map ack_contents ph)"
      using sum_list_update_phase [of i ph held_contents x] sum_list_update_phase [of i ph ack_contents x] i len(1) h
      by (simp_all add: held_contents_def ack_contents_def x_def)
    with B ph show ?thesis
      by (auto simp: books_def contents_def held_contents_def held_def ack_contents_def x_def split: if_splits)
  qed
  ultimately show ?thesis using run by (auto simp: link_ok_def)
qed

section \<open>Runs\<close>

text \<open>The PDUs that the MAC sends are for the downlink or the uplink.\<close>

definition event_ok :: "harq_event \<Rightarrow> bool" where
  "event_ok e \<longleftrightarrow> (case e of NewPdu _ p \<Rightarrow> mp_direction p = DL \<or> mp_direction p = UL | _ \<Rightarrow> True)"

lemma harq_step_ok:
  assumes "link_ok N m s ph" "N \<le> 255" "m \<le> 254" "event_ok e"
  shows "\<exists>s' ph'. harq_event_step txe rxe e s = Inr s' \<and> link_ok N m s' ph'"
  using assms new_pdu_step retransmit_step arrive_step evaluate_step feedback_step by (cases e) (auto simp: event_ok_def)

lemma harq_run_ok:
  assumes "link_ok N m s ph" "N \<le> 255" "m \<le> 254" "\<forall>e\<in>set es. event_ok e"
  shows "\<exists>s' ph'. harq_run txe rxe es s = Inr s' \<and> link_ok N m s' ph'"
  using assms
proof (induction es arbitrary: s ph)
  case (Cons e es)
  with harq_step_ok [of N m s ph e txe rxe] obtain s1 ph1 where "harq_event_step txe rxe e s = Inr s1" "link_ok N m s1 ph1" by auto
  with Cons show ?case by simp
qed auto

lemma sum_list_empty [simp]: "sum_list (replicate n {#}) = {#}"
  by (induction n) simp_all

lemma tx_rep_new: "tx_rep m i Idle (new_HarqProcessTx (of_nat i) MAX_CODEWORDS (of_nat m))"
  by (simp add: tx_rep_def held_def new_HarqProcessTx_def new_HarqUnitTx_def MAX_CODEWORDS_def upt_rec)

lemma rx_rep_new: "rx_rep m i Idle (new_HarqProcessRx (of_nat i) (of_nat m) timer)"
  by (simp add: rx_rep_def rx_expect_def new_HarqProcessRx_def MAX_CODEWORDS_def numeral_2_eq_2)

lemma harq_init_ok: "link_ok N m (harq_init N m timer src dst b) (replicate N Idle)"
proof -
  have "link_rep N m (harq_init N m timer src dst b) (replicate N Idle)"
    using tx_rep_new rx_rep_new
    by (simp add: link_rep_def harq_init_def new_HarqBufferTx_def new_HarqBufferRx_def air_of_def fbs_of_def)
  moreover have "books (harq_init N m timer src dst b) (replicate N Idle)"
    by (simp add: books_def harq_init_def contents_def held_contents_def held_def ack_contents_def)
  ultimately show ?thesis by (simp add: link_ok_def)
qed

lemma ack_held: "ack_contents ph \<subseteq># held_contents ph"
  by (auto simp: ack_contents_def held_contents_def held_def split: harq_phase.splits)

lemma ack_held_sum: "sum_list (map ack_contents ph) \<subseteq># sum_list (map held_contents ph)"
  by (induction ph) (simp_all add: ack_held subset_mset.add_mono)

lemma tx_rep_transmissions:
  assumes "tx_rep m i ph P" "m \<le> 254" "u \<in> set (hpt_units P)"
  shows "unat (hu_transmissions u) \<le> Suc m"
proof -
  from assms(1) obtain v w where vw: "hpt_units P = [v, w]" "hu_transmissions w = 0" by (auto simp: tx_rep_def)
  have "hu_transmissions v = (case held ph of None \<Rightarrow> 0 | Some (_, n) \<Rightarrow> of_nat n)"
    using assms(1) vw by (auto simp: tx_rep_def split: option.splits)
  moreover have "n \<le> Suc m" if "held ph = Some (q, n)" for q n using tx_rep_bounds(2) [OF assms(1) that] .
  ultimately show ?thesis using assms(2,3) vw by (cases "held ph") (auto simp: unat_u8)
qed

lemma tx_rep_active:
  assumes "tx_rep m i ph P"
  shows "HarqProcessTx_isActive P \<longleftrightarrow> ph \<noteq> Idle"
proof -
  from assms obtain v w where vw: "hpt_units P = [v, w]" "hu_status w = TXHARQ_PDU_EMPTY" by (auto simp: tx_rep_def)
  have "HarqProcessTx_isActive P \<longleftrightarrow> hu_status v \<noteq> TXHARQ_PDU_EMPTY"
    using vw by (simp add: HarqProcessTx_isActive_def HarqProcessTx_getProcessStatus_def upt_rec)
  also have "\<dots> \<longleftrightarrow> ph \<noteq> Idle"
    using assms vw by (cases ph) (simp_all add: tx_rep_def held_def)
  finally show ?thesis .
qed

text \<open>
  C21. HARQ on one codeword, in uplink or downlink, loses and duplicates nothing.  With up to 255 processes and up to
  254 retransmissions, whatever order the PDUs and the feedback of the processes arrive in, whatever the results of
  the decoding are and whenever the scheduler asks for retransmissions, no operation of the two buffers fails.  The PDUs handed up and the PDUs given up are among the
  accepted ones, each at most once and with its contents; when no process is active any more they are all of them.
  No PDU is sent more often than the limit allows.
\<close>

theorem harq_conserves_pdus:
  assumes "N \<le> 255" and "m \<le> 254" and "\<forall>e\<in>set evs. event_ok e"
  shows "\<exists>s. harq_run txe rxe evs (harq_init N m timer src dst b) = Inr s \<and>
     contents (hl_delivered s) + contents (hl_discarded s) \<subseteq># contents (hl_accepted s) \<and>
     (\<not> HarqBufferTx_isActive (hl_tx s) \<longrightarrow> contents (hl_delivered s) + contents (hl_discarded s) = contents (hl_accepted s)) \<and>
     (\<forall>P\<in>set (hbt_processes (hl_tx s)). \<forall>u\<in>set (hpt_units P). unat (hu_transmissions u) \<le> Suc m)"
proof -
  from harq_run_ok [OF harq_init_ok assms] obtain s ph where
    run: "harq_run txe rxe evs (harq_init N m timer src dst b) = Inr s" and "link_ok N m s ph" by blast
  then have L: "link_rep N m s ph" and B: "books s ph" by (simp_all add: link_ok_def)
  have len: "length ph = N" "length (hbt_processes (hl_tx s)) = N" using L by (simp_all add: link_rep_def)
  have "contents (hl_delivered s) + contents (hl_discarded s) \<subseteq># contents (hl_accepted s)"
    using B ack_held_sum [of ph] by (simp add: books_def ac_simps)
  moreover have "contents (hl_delivered s) + contents (hl_discarded s) = contents (hl_accepted s)" if "\<not> HarqBufferTx_isActive (hl_tx s)"
  proof -
    have "ph ! i = Idle" if "i < N" for i
      using tx_rep_active [OF link_rep_at(1) [OF L that]] \<open>\<not> HarqBufferTx_isActive (hl_tx s)\<close> that len(2)
      by (auto simp: HarqBufferTx_isActive_def)
    with len(1) have "ph = replicate N Idle" by (simp add: list_eq_iff_nth_eq)
    with B show ?thesis by (simp add: books_def held_contents_def held_def ack_contents_def)
  qed
  moreover have "\<forall>P\<in>set (hbt_processes (hl_tx s)). \<forall>u\<in>set (hpt_units P). unat (hu_transmissions u) \<le> Suc m"
    proof (intro ballI)
    fix P u assume "P \<in> set (hbt_processes (hl_tx s))" and u: "u \<in> set (hpt_units P)"
    then obtain i where "i < N" "P = hbt_processes (hl_tx s) ! i" using len(2) by (auto simp: in_set_conv_nth)
    with tx_rep_transmissions [OF _ assms(2) u] link_rep_at(1) [OF L] show "unat (hu_transmissions u) \<le> Suc m" by blast
  qed
  ultimately show ?thesis using run by blast
qed

text \<open>Two PDUs over two processes and one retransmission, with feedback out of order.\<close>

definition harq_sample_env :: harq_env where
  "harq_sample_env = \<lparr>he_nodeB = True, he_simtime = (\<lambda>x. \<lfloor>x * 1000000\<rfloor>)\<rparr>"

definition harq_sample_pdu :: "int \<Rightarrow> mac_pdu" where
  "harq_sample_pdu k = \<lparr>mp_id = k, mp_macPduId = 0, mp_headerLength = 2, mp_sduList = [(nat k, 40)], mp_ceList = [], mp_sourceId = 1, mp_destId = 2049,
     mp_direction = DL, mp_carrierFrequency = 2, mp_acid = 0, mp_cw = 0, mp_txNumber = 0, mp_ndi = True, mp_deciderResult = False\<rparr>"

definition harq_sample_events :: "harq_event list" where
  "harq_sample_events = [NewPdu 0 (harq_sample_pdu 7), NewPdu 1000 (harq_sample_pdu 8), Arrive 1000 0 False, Arrive 2000 1 True, Evaluate 6000,
     FeedbackArrives 1, FeedbackArrives 0, Retransmit 8000, Arrive 9000 0 True, Evaluate 13000, FeedbackArrives 0]"

theorem harq_conserves_pdus_witness:
  "\<exists>s. harq_run harq_sample_env harq_sample_env harq_sample_events (harq_init 8 3 4 1 2049 new_Binder) = Inr s \<and>
     contents (hl_delivered s) + contents (hl_discarded s) \<subseteq># contents (hl_accepted s) \<and>
     (HarqBufferTx_isActive (hl_tx s) \<or> contents (hl_delivered s) + contents (hl_discarded s) = contents (hl_accepted s))"
proof -
  have "\<forall>e\<in>set harq_sample_events. event_ok e" by (simp add: harq_sample_events_def event_ok_def harq_sample_pdu_def)
  then show ?thesis
    using harq_conserves_pdus [of 8 3 harq_sample_events harq_sample_env harq_sample_env 4 1 2049 new_Binder] by auto
qed

definition ids_of :: "harq_link res \<Rightarrow> (int list \<times> int list) option" where
  "ids_of r = (case r of Inl _ \<Rightarrow> None | Inr s \<Rightarrow> Some (map mp_id (hl_delivered s), map mp_id (hl_discarded s)))"

lemma harq_sample_run_delivers:
  "ids_of (harq_run harq_sample_env harq_sample_env harq_sample_events (harq_init 8 3 4 1 2049 new_Binder)) = Some ([8, 7], [])"
  by code_simp

section \<open>Where the code fails\<close>

text \<open>A negative acknowledgement of one's own never works: the unit is ready for a retransmission, and \<open>pduFeedback\<close>
  refuses a unit that does not wait.\<close>

lemma selfNack_always_fails: "\<exists>e. HarqUnitTx_selfNack env now u = Inl e"
  by (auto simp: HarqUnitTx_selfNack_def HarqUnitTx_pduFeedback_def split: option.splits)

text \<open>
  With both codewords in use the receiving process counts the transmissions of both in one counter.  If every
  decoding fails, the sender gives both PDUs up after the fourth transmission, while the receiver resets the first
  codeword only; the next PDU on the second codeword ends the simulation.
\<close>

fun insert_all :: "simtime \<Rightarrow> mac_pdu list \<Rightarrow> HarqBufferRx \<Rightarrow> HarqBufferRx res" where
  "insert_all now [] rx = Inr rx"
| "insert_all now (p # ps) rx = rbind (HarqBufferRx_insertPdu now [] (mp_cw p) p rx) (insert_all now ps)"

fun receive_all :: "LteHarqFeedback list \<Rightarrow> HarqBufferTx \<Rightarrow> HarqBufferTx res" where
  "receive_all [] tx = Inr tx"
| "receive_all (f # fs) tx = rbind (receiveHarqFeedback harq_sample_env f tx) (\<lambda>(tx, _). receive_all fs tx)"

definition failed_attempt :: "simtime \<Rightarrow> HarqBufferTx \<times> HarqBufferRx \<Rightarrow> (HarqBufferTx \<times> HarqBufferRx) res" where
  "failed_attempt now = (\<lambda>(tx, rx).
     rbind (sendSelectedDown now tx) (\<lambda>(tx, calls).
     rbind (insert_all now (sent_pdus calls) rx) (\<lambda>rx.
     rbind (extractCorrectPdus harq_sample_env (now + 5000) rx new_Binder) (\<lambda>(rx, _, fbs, _, _).
     rbind (receive_all fbs tx) (\<lambda>tx.
     rbind (HarqBufferTx_markSelected (firstReadyForRtx harq_sample_env (now + 6000) tx) 2 tx) (\<lambda>tx. Inr (tx, rx)))))))"

fun failed_attempts :: "nat \<Rightarrow> simtime \<Rightarrow> HarqBufferTx \<times> HarqBufferRx \<Rightarrow> (HarqBufferTx \<times> HarqBufferRx) res" where
  "failed_attempts 0 now s = Inr s"
| "failed_attempts (Suc n) now s = rbind (failed_attempt now s) (failed_attempts n (now + 8000))"

definition both_inserted :: "HarqBufferTx \<times> HarqBufferRx \<Rightarrow> (HarqBufferTx \<times> HarqBufferRx) res" where
  "both_inserted = (\<lambda>(tx, rx). rbind (HarqBufferTx_insertPdu 0 0 (harq_sample_pdu 7) tx) (\<lambda>(tx, _).
     rbind (HarqBufferTx_insertPdu 0 1 ((harq_sample_pdu 8)\<lparr>mp_cw := 1\<rparr>) tx) (\<lambda>(tx, _). Inr (tx, rx))))"

definition two_codewords :: "HarqBufferTx \<times> HarqBufferRx" where
  "two_codewords = (new_HarqBufferTx 1 3 2049, new_HarqBufferRx 1 3 4 1)"

lemma second_codeword_stays_corrupted:
  "(case rbind (both_inserted two_codewords) (failed_attempts 4 0) of Inl _ \<Rightarrow> False
    | Inr (tx, rx) \<Rightarrow> \<not> HarqBufferTx_isActive tx \<and> map hpr_status (hbr_processes rx) = [[RXHARQ_PDU_EMPTY, RXHARQ_PDU_CORRUPTED]])"
  "rbind (rbind (both_inserted two_codewords) (failed_attempts 4 0)) (\<lambda>s. rbind (both_inserted s) (failed_attempt 40000)) =
     Inl (RuntimeError ''New data arriving in busy harq process -- this should not happen'')"
  by code_simp+

end
