(* ===== verification/Spec2Isabelle.thy ===== *)
theory Spec2Isabelle
  imports Highway_Scenario Ip_To_Nic Membership_Protocol Orchestration_App Rlc_Um Pdcp_Rrc Harq_Link
begin

text \<open>
  ConvoyV2X: vehicles and roadside units share what they perceive (a digital twin) over a 5G
  network that they organise themselves, as convoys of clusters.  This development models the
  convoy architecture (\<^verbatim>\<open>src/convoy-architecture/src\<close>) and the parts of the 5G framework that it
  extends or drives (\<^verbatim>\<open>src/simu5G/src\<close>: Binder, physical layer, the handover of packets, and the
  user plane below IP: PDCP, RLC in unacknowledged mode and the HARQ buffers of the MAC), and proves
  what makes them work together.

  \<^bold>\<open>Parts and theories.\<close>  Paths below \<^verbatim>\<open>convoy-architecture/src\<close> unless they start with
  \<^verbatim>\<open>simu5G\<close>.

  \<^item> Foundations.  \<^verbatim>\<open>Convoy_Prelude\<close>: machine types, errors as values (\<open>res\<close>), the
    \<^verbatim>\<open>std::vector\<close> idioms, the unsigned age test, the locale of a record that keeps the freshest
    entry per key.  \<^verbatim>\<open>Std_Containers\<close>: \<^verbatim>\<open>std::map\<close> and \<^verbatim>\<open>std::set\<close> as strictly sorted lists,
    with the locale \<open>std_map\<close>.  \<^verbatim>\<open>Event_Kernel\<close>: the scheduling calls of OMNeT++ as the
    parameter \<open>K\<close> (locale \<open>event_kernel\<close>), and the start/update/stop protocol of the
    applications (locale \<open>periodic_app\<close>).  \<^verbatim>\<open>Convoy_Defs\<close>: \<^verbatim>\<open>common/defs.h\<close>, the structs of
    \<^verbatim>\<open>simu5G/src/common/ConvoyArchitectureDefs.h\<close> and the message classes.
  \<^item> Binder, the global directory (\<^verbatim>\<open>simu5G/src/common/binder/Binder.cc\<close>).
    \<^verbatim>\<open>Binder_Nodes\<close>: identifiers, next hops, masters.  \<^verbatim>\<open>Binder_Convoy\<close>: convoys and clusters.
    \<^verbatim>\<open>Binder_Radio\<close>: carriers, numerologies, slot formats, uplink transmissions, addresses,
    handover records.
  \<^item> Stores (\<^verbatim>\<open>stores/\<close>).  \<^verbatim>\<open>Member_Store\<close>, \<^verbatim>\<open>Subscriber_Store\<close>, \<^verbatim>\<open>Dtwin_Store\<close>.
  \<^item> Radio.  \<^verbatim>\<open>Convoy_Phy\<close>: broadcast, attachment and handover of \<^verbatim>\<open>LtePhyBase\<close>,
    \<^verbatim>\<open>LtePhyEnb\<close>, \<^verbatim>\<open>LtePhyUe\<close>, \<^verbatim>\<open>NRPhyUe\<close> (\<^verbatim>\<open>simu5G/src/stack/phy/layer\<close>).
    \<^verbatim>\<open>Cluster_Device\<close>: \<^verbatim>\<open>devices/ClusterDevice\<close>, whose start registers it with the Binder.
  \<^item> Packets during a handover.  \<^verbatim>\<open>Ip_To_Nic\<close>: \<^verbatim>\<open>simu5G/src/stack/ip2nic/IP2Nic\<close>, the handover
    manager and the X2 switch.  \<^verbatim>\<open>Split_Bearers\<close>: the packet counter of split bearers.
  \<^item> PDCP (\<^verbatim>\<open>simu5G/src/stack/pdcp_rrc\<close>).  \<^verbatim>\<open>Conn_Table\<close>: \<^verbatim>\<open>ConnectionsTable\<close> and the
    numbering of connections.  \<^verbatim>\<open>Pdcp_Reordering\<close>: \<^verbatim>\<open>NRRxPdcpEntity\<close>.  \<^verbatim>\<open>Pdcp_Rrc\<close>: the PDCP
    modules of UEs and base stations, their sending and receiving entities, and
    \<^verbatim>\<open>simu5G/src/stack/dualConnectivityManager\<close>.
  \<^item> RLC (\<^verbatim>\<open>simu5G/src/stack/rlc/um\<close>).  \<^verbatim>\<open>Rlc_Um_Tx\<close>, \<^verbatim>\<open>Rlc_Um_Rx\<close>: the two entities of a
    connection (\<^verbatim>\<open>UmTxEntity\<close>, \<^verbatim>\<open>UmRxEntity\<close>).  \<^verbatim>\<open>Rlc_Um_Link\<close>: a sender and a receiver joined
    by a link that loses and reorders PDUs.  \<^verbatim>\<open>Rlc_Um\<close>: the modules \<^verbatim>\<open>LteRlcUm\<close> and
    \<^verbatim>\<open>LteRlcUmD2D\<close>, which hold an entity per connection.
  \<^item> HARQ (\<^verbatim>\<open>simu5G/src/stack/mac/buffer/harq\<close>).  \<^verbatim>\<open>Harq_Tx\<close>, \<^verbatim>\<open>Harq_Rx\<close>: units, processes
    and buffers of the two ends.  \<^verbatim>\<open>Harq_Link\<close>: the two ends joined by the air interface.
  \<^item> Control (\<^verbatim>\<open>controls/\<close>).  \<^verbatim>\<open>Membership_Control\<close>: scan, join, found, report, obey.
    \<^verbatim>\<open>Membership_Protocol\<close>: the abstract protocol that the agent refines.
    \<^verbatim>\<open>Routing_Control\<close>: the switch between applications, network and backend.
  \<^item> Applications (\<^verbatim>\<open>apps/\<close>).  \<^verbatim>\<open>Perception\<close> (Detector, Tracker), \<^verbatim>\<open>Localizer_App\<close>,
    \<^verbatim>\<open>Publish_Subscribe\<close> (Publisher, Subscriber), \<^verbatim>\<open>Maneuver_App\<close>, \<^verbatim>\<open>Orchestration_App\<close>.
  \<^item> Simulation set-up.  \<^verbatim>\<open>Highway_Scenario\<close>: \<^verbatim>\<open>nodes/BaseNode\<close> and
    \<^verbatim>\<open>scenarios/highway/HighwayScenario\<close>.
  \<^item> This theory: the properties that span components.

  \<^bold>\<open>How they interact.\<close>  The Detector lists what it sees, the Tracker hands the list to the
  DtwinStore; the Localizer and the Maneuver application read that store, the Publisher publishes
  it, the Subscriber asks the publishers for theirs.  All their messages pass the RoutingControl,
  which asks the MembershipControl for publishers and clusters and the Binder for next hops.  The
  MembershipControl owns two ClusterDevices, whose physical layers broadcast and receive cluster
  announcements; it reports to the backend's MemberStore, from which the ConvoyOrchestration
  derives its orders.  Below them a datagram passes IP2Nic, PDCP (which numbers its
  connection and, with dual connectivity, may send it to another station over X2), RLC (which cuts it
  to the grants of the MAC) and the HARQ processes; these layers are modelled one by one, with the
  packets they exchange as values.

  \<^bold>\<open>How the model corresponds to the code.\<close>  A class is a \<^theory_text>\<open>record\<close> of its members (prefixed, the
  rest of a field's name is the source's); a method \<^verbatim>\<open>C::m\<close> is the definition \<open>C_m\<close> (methods of
  the Binder and a few unambiguous helpers are just \<open>m\<close>).  Module parameters are records \<open>..._par\<close>.  A
  handler takes the state, the time \<open>now\<close> and a message, and returns the new state and the messages it
  sends with their gates; where it can fail it returns \<open>Inl\<close> of an \<open>error\<close> (failed cast, null
  dereference, assertion, \<^verbatim>\<open>cRuntimeError\<close>, use after free, array access out of range).
  Reads through \<^verbatim>\<open>operator[]\<close> change the store, and the model returns the changed store.  Loops are
  folds and structural recursions over the containers, so almost every definition is total and no fuel is
  needed; the searches of the split-bearer table and of the connections table are partial functions, shown to
  end while the table has room, and so is the loop that moves the window of the RLC receiver, shown to end
  in every run; the other unbounded behaviour is the event loop, modelled by step
  relations (\<open>registry_step\<close>, \<open>ue_step\<close>, \<open>dtwin_step\<close>, \<open>mc_step\<close>, \<open>mc_live\<close>), by runs over lists
  of events (\<open>tx_run\<close>, \<open>rx_run\<close>, \<open>nrx_run\<close>, \<open>harq_run\<close>) and, for timers that
  end, by \<open>update_times\<close> and \<open>setup_rounds\<close>, whose bound on the number of rounds is shown to be enough.

  \<^bold>\<open>Parameters.\<close>  Code outside the repository is an argument with its documented laws as
  hypotheses: the event queue \<open>K\<close>; \<^verbatim>\<open>std::sort\<close> (\<open>std_sort\<close>) and \<^verbatim>\<open>std::partition\<close>
  (\<open>std_partition\<close>, any order within the two parts); radio measurements; the simulated traffic;
  the rounding of a \<^verbatim>\<open>double\<close> to simulation time (\<open>he_simtime\<close>).
  Each locale is interpreted on the definitions of the component that provides it, and each
  hypothesis on a parameter is met by a concrete function in a witness.

  \<^bold>\<open>What the theorems show.\<close>  Stores: exact effect of updates and expiry, last-writer rules under
  reordering, round trip through the twin, unique names.  Binder: unique identifiers while a range
  lasts, a consistent convoy registry in every reachable state, round trip of cluster
  registration, maximal numerology, hand-over of the uplink map between slots.  Radio: an ordered
  attachment completes, next hop and master agree in every reachable state, a handover candidate
  changes only for a reason.  Handover: no packet is lost, duplicated or reordered at the UE, the source
  or the target; split bearers alternate.  PDCP: the SDUs of a split bearer are delivered in order across
  one gap (not across two), header compression is undone, dual connectivity sends each datagram down
  the right leg, connections are numbered uniquely.  RLC: over any link a receiver delivers a subsequence of
  what was accepted, over a link without losses all of it, and reordering within the window is
  repaired; flows do not disturb each other, a PDU fits its grant, a switch of the D2D mode releases what
  was held.  HARQ: for every interleaving of arrivals, feedback and retransmissions, no accepted
  PDU is lost or handed up twice, and none is sent more often than permitted.  Control: the agent's invariant in every reachable state with casts as
  its only failure, refinement of the membership protocol (one scan, then orders, which are obeyed), a scan joins the strongest fitting cluster or founds a fresh convoy, exact routing
  targets and single-hop forwarding.  Applications: exact lists of detections and partners, the
  time at which a station is localised.  Set-up: the scenario places all stations and ends, the
  stations leave no gap, every station serves its side of the centre line.  End to end: detections reach the twin, member reports reach the
  backend, maneuver messages reach the partner.  Some theorems state behaviour that the authors did
  not intend (orders that cannot be routed, expired objects that reappear, clusters that stay
  registered, an identifier range that overruns, a second codeword that blocks its process); they describe the code as it is.

  \<^bold>\<open>Bounds.\<close>  \<^verbatim>\<open>uint64_t\<close> time stamps, 32-bit counters and 16-bit node identifiers are words
  and wrap.  \<^verbatim>\<open>int\<close> identifiers are \<open>int\<close>; where the code converts them to 16 bits the model does.
  \<^verbatim>\<open>double\<close> is \<open>real\<close>: no rounding, no NaN.
  The theorems on RLC ask for fewer than \<open>2^31\<close> PDUs and a window that is not empty, those on PDCP for one
  late number within half a window and fewer connections than slots, those on HARQ for at most 255
  processes and 254 retransmissions, which are \<^verbatim>\<open>unsigned char\<close>.

  \<^bold>\<open>Not modelled.\<close>  Logging, watches, statistics (delay, throughput) and the graphical display; of
  Simu5G the schedulers and AMC of the MAC, the HARQ of direct links, RLC in acknowledged and transparent
  mode, GTP, MEC, the channel models and the decoding of data frames; INET, Veins and veins_inet:
  vendored third-party code that the convoy architecture runs unchanged (calls into it are recorded, see
  \<^verbatim>\<open>Convoy_Phy\<close>).
\<close>

section \<open>Perception: from the traffic to the digital twin\<close>

text \<open>
  C31. What a station sees is in its digital twin at once: an update of the detector, handed
  through the tracker to the store, leaves in the store every visible object (names being
  distinct) with its plane position, its heading and the current time, provided the store holds
  nothing from the future.
\<close>

theorem detections_reach_twin:
  assumes "DtwinStore_ok st" and "to_u64 (dt_object_max_age st) \<noteq> 0"
    and "distinct (map wo_fullName (visible_objects de stn world))"
    and "\<forall>ts \<in> snd ` set (dt_object_timestamp st). ts \<le> to_u64 now"
  shows "\<exists>de' m g tr' m' g' st'. Detector_tick K par stn world now de = (de', [(m, g)]) \<and>
     Tracker_handleMessage (ExtMsg g m) tr = Inr (tr', [(m', g')]) \<and>
     DtwinStore_handleMessage K' now (ExtMsg ''in'' m') st = Inr st' \<and> DtwinStore_ok st' \<and>
     (\<forall>obj \<in> set (visible_objects de stn world). dt_kin st' (wo_fullName obj) =
        (Some (to_u64 now), Some (cx (wo_position obj)), Some (cy (wo_position obj)), Some 0, Some (wo_angle obj)))"
proof -
  let ?vis = "visible_objects de stn world" and ?n = "length (visible_objects de stn world)"
  let ?de = "Detector_gatherDetectedObjects stn world now de"
  let ?ol = "de_detected_objects ?de"
  have wf: "ol_wf ?ol" "ol_timestamp ?ol = to_u64 now" "ol_n_objects ?ol = int ?n"
      "ol_object_id ?ol = map wo_fullName ?vis"
    by (simp_all add: gather_eq ol_wf_def append_detections_def new_ObjectList_def)
  have kin: "ol_kin ?ol i = (Some (to_u64 now), Some (cx (wo_position (?vis ! i))),
      Some (cy (wo_position (?vis ! i))), Some 0, Some (wo_angle (?vis ! i)))" if "i < ?n" for i
    using that by (simp add: ol_kin_def gather_eq append_detections_def new_ObjectList_def)
  have "\<not> expired (to_u64 now) (to_u64 (dt_object_max_age st)) (ol_timestamp ?ol)"
    using assms(2) wf(2) by (simp add: expired_def word_le_0_iff)
  from updateObjects_effect [OF assms(1) wf(1) this] obtain st' where
    st': "DtwinStore_updateObjects now ?ol st = Inr st'" "DtwinStore_ok st'"
      "\<And>k. dt_kin st' k = (case find (\<lambda>i. ol_object_id ?ol ! i = k) (rev [0..<nat (ol_n_objects ?ol)]) of
         Some i \<Rightarrow> if accepts (ol_timestamp ?ol) st k then ol_kin ?ol i else dt_kin st k
       | None \<Rightarrow> dt_kin st k)"
    by blast
  have acc: "accepts (to_u64 now) st k" for k
    using assms(4) by (auto simp: accepts_def split: option.splits dest!: map_of_SomeD)
  have "dt_kin st' (wo_fullName (?vis ! i)) = ol_kin ?ol i" if "i < ?n" for i
  proof -
    have "find (\<lambda>j. ol_object_id ?ol ! j = wo_fullName (?vis ! i)) (rev [0..<?n]) = Some i"
      using that wf(4) nth_eq_iff_index_eq [OF assms(3)] by (intro find_unique_index) auto
    then show ?thesis by (simp add: st'(3) wf acc)
  qed
  then have "\<forall>obj \<in> set ?vis. dt_kin st' (wo_fullName obj) =
      (Some (to_u64 now), Some (cx (wo_position obj)), Some (cy (wo_position obj)), Some 0, Some (wo_angle obj))"
    using kin by (auto simp: in_set_conv_nth)
  with st' show ?thesis
    by (simp add: Detector_tick_eq Let_def Tracker_handleMessage_def Tracker_updateTrackedObjects_def
        Tracker_publishTrackedObjects_def DtwinStore_handleMessage_def)
qed

definition sample_world :: world where
  "sample_world = [''car'' \<mapsto> [Some \<lparr>wo_fullName = ''car[0]'', wo_detectorStationType = ''vehicle'',
     wo_position = \<lparr>cx = 40, cy = 7, cz = 0\<rparr>, wo_angle = 0\<rparr>, None]]"

definition sample_detector :: "(string \<rightharpoonup> simtime) Detector" where
  "sample_detector = Detector_initialize fes_kernel \<lparr>dp_fovLimitRange = 100, dp_fovLimitAngleMin = - 3,
     dp_fovLimitAngleMax = 3, dp_times = \<lparr>at_start = 0, at_stop = 9, at_rate = 1\<rparr>,
     dp_detectedClasses = ''car''\<rparr> 0 Map.empty"

lemma sample_visible:
  "visible_objects sample_detector sample_station sample_world = [\<lparr>wo_fullName = ''car[0]'',
     wo_detectorStationType = ''vehicle'', wo_position = \<lparr>cx = 40, cy = 7, cz = 0\<rparr>, wo_angle = 0\<rparr>]"
  by (simp add: visible_objects_def sample_detector_def sample_world_def sample_station_def Detector_initialize_def
      class_objects_def in_fov_def coord_distance_def)

theorem detections_reach_twin_witness:
  "\<exists>de' m g tr' m' g' st'. Detector_tick fes_kernel \<lparr>dp_fovLimitRange = 100, dp_fovLimitAngleMin = - 3,
       dp_fovLimitAngleMax = 3, dp_times = \<lparr>at_start = 0, at_stop = 9, at_rate = 1\<rparr>, dp_detectedClasses = ''car''\<rparr>
       sample_station sample_world 4 sample_detector = (de', [(m, g)]) \<and>
     Tracker_handleMessage (ExtMsg g m) Tracker_initialize = Inr (tr', [(m', g')]) \<and>
     DtwinStore_handleMessage fes_kernel 4 (ExtMsg ''in'' m') sample_store = Inr st' \<and>
     dt_kin st' ''car[0]'' = (Some 4, Some 40, Some 7, Some 0, Some 0)"
proof -
  have "to_u64 (dt_object_max_age sample_store) \<noteq> 0" "dt_object_timestamp sample_store = []"
    by (simp_all add: sample_store_def DtwinStore_initialize_def to_u64_def)
  moreover have "distinct (map wo_fullName (visible_objects sample_detector sample_station sample_world))"
    by (simp add: sample_visible)
  ultimately show ?thesis
    using detections_reach_twin [OF sample_store_simps(1), of sample_detector sample_station sample_world 4 fes_kernel
        "\<lparr>dp_fovLimitRange = 100, dp_fovLimitAngleMin = - 3, dp_fovLimitAngleMax = 3,
          dp_times = \<lparr>at_start = 0, at_stop = 9, at_rate = 1\<rparr>, dp_detectedClasses = ''car''\<rparr>" Tracker_initialize fes_kernel]
    by (simp add: sample_visible to_u64_def) blast
qed

section \<open>Member reports: from a vehicle to the backend's record\<close>


text \<open>A vehicle with address 5 in cluster 3, which knows the roadside unit that manages it.\<close>

definition sample_rsu :: Publication where
  "sample_rsu = \<lparr>p_name = ''d1rsu[0]'', p_id = 3, p_position = \<lparr>cx = 0, cy = 0, cz = 0\<rparr>, p_fov = 400,
     p_direction = TOP, p_cluster = 3\<rparr>"

definition vehicle_agent :: "(string \<rightharpoonup> simtime) MembershipControl" where
  "vehicle_agent = (cluster_agent MEMBER_DEVICE 5)\<lparr>mc_publishers := [sample_rsu]\<rparr>"

definition vehicle_ctx :: "(string \<rightharpoonup> simtime) rc_ctx" where
  "vehicle_ctx = (cluster_ctx MEMBER_DEVICE 5)\<lparr>rc_membershipControl := Some vehicle_agent\<rparr>"

definition station_ctx :: "StationType \<Rightarrow> (string \<rightharpoonup> simtime) rc_ctx" where
  "station_ctx ty = (cluster_ctx MASTER_DEVICE 3)\<lparr>rc_par := sample_rc_par ty\<rparr>"

lemma vehicle_simps [simp]:
  "mc_device_pr vehicle_agent = Some ((sample_device MEMBER_DEVICE)\<lparr>cd_address := 5, cd_address_manager := 3\<rparr>)"
  "mc_device_gw vehicle_agent = Some (sample_device GATEWAY_DEVICE)"
  "cd_device_type (sample_device dty) = dty"
  "devices_ok vehicle_agent" "MembershipControl_readPublishers vehicle_agent = [sample_rsu]"
  "rc_par vehicle_ctx = sample_rc_par VEHICLE" "rc_membershipControl vehicle_ctx = Some vehicle_agent"
  "rc_binder vehicle_ctx = cluster_binder" "rc_getModule vehicle_ctx = cluster_modules"
  "rc_par (station_ctx ty) = sample_rc_par ty" "rc_membershipControl (station_ctx ty) = Some (cluster_agent MASTER_DEVICE 3)"
  "p_id sample_rsu = 3" "p_direction sample_rsu = TOP" "getNextHop 3 cluster_binder = Inr 3"
  by (simp_all add: vehicle_agent_def vehicle_ctx_def station_ctx_def cluster_agent_def sample_device_def
      devices_ok_def MembershipControl_readPublishers_def sample_rsu_def cluster_binder_def getNextHop_def sample_agent_def)


section \<open>Orchestration: from the backend to nowhere\<close>

text \<open>
  C40. The backend's orders are never routed: every message that an update of the orchestration
  application sends (one per reported member) makes the routing control of the backend fail,
  because that casts it to the class \<^verbatim>\<open>Orchestration\<close> while the application sends a
  \<^verbatim>\<open>ConvoyControlService\<close>.
\<close>

theorem orchestration_orders_fail:
  "length (snd (ConvoyOrchestration_tick K tm now store co)) = length (MemberStore_readCCSReports store) \<and>
   (\<forall>(m, gate) \<in> set (snd (ConvoyOrchestration_tick K tm now store co)). gate = ''out'' \<and>
      RoutingControl_handleMessage part ctx ''inUlMemberControl'' m = Inl CastError)"
  by (auto simp: ConvoyOrchestration_tick_eq RoutingControl_handleMessage_def RoutingControl_msgHandlerOrchestration_def)

theorem orchestration_orders_fail_witness:
  "RoutingControl_handleMessage stable_partition (station_ctx BACKEND) ''inUlMemberControl''
     (fst (hd (snd (ConvoyOrchestration_tick fes_kernel \<lparr>at_start = 0, at_stop = 9, at_rate = 1\<rparr> 5
        \<lparr>member_ccs_record = [node_of_status new_MemberStatus], mst_queue = Map.empty\<rparr>
        \<lparr>co_current_state = [], co_desired_state = [], co_queue = Map.empty\<rparr>)))) = Inl CastError"
proof -
  let ?st = "\<lparr>member_ccs_record = [node_of_status new_MemberStatus], mst_queue = Map.empty\<rparr>
      :: (string \<rightharpoonup> simtime) member_store"
  let ?out = "snd (ConvoyOrchestration_tick fes_kernel \<lparr>at_start = 0, at_stop = 9, at_rate = 1\<rparr> 5 ?st
      \<lparr>co_current_state = [], co_desired_state = [], co_queue = Map.empty\<rparr>)"
  note r = orchestration_orders_fail [of fes_kernel "\<lparr>at_start = 0, at_stop = 9, at_rate = 1\<rparr>" 5 ?st
      "\<lparr>co_current_state = [], co_desired_state = [], co_queue = Map.empty\<rparr>" stable_partition "station_ctx BACKEND"]
  from r have "?out \<noteq> []" by (auto simp: MemberStore_readCCSReports_def)
  then have "hd ?out \<in> set ?out" by simp
  with r show ?thesis by fastforce
qed

section \<open>Publications: what a subscriber is told about a lost object\<close>

text \<open>
  An object that has expired at a publisher is reborn at its subscribers: if its id is among
  the first \<open>dt_n_objects\<close> ids of the publisher's store, the next publication lists it at
  position 0, and the receiving store takes it over as an object seen just now at position 0.
\<close>

theorem expired_object_reborn_at_subscriber:
  assumes "DtwinStore_ok st" and "0 < dt_n_objects st"
    and "i < nat (dt_n_objects (DtwinStore_checkObjectExpiry now st))"
    and "dt_n_objects (DtwinStore_checkObjectExpiry now st) \<le> int (length (dt_object_id st))"
    and "map_of (dt_object_timestamp st) (dt_object_id st ! i) = Some ts"
    and "expired (to_u64 now) (to_u64 (dt_object_max_age st)) ts"
    and "DtwinStore_ok rst" and "to_u64 (dt_object_max_age rst) \<noteq> 0" and "accepts (to_u64 now) rst (dt_object_id st ! i)"
  shows "\<exists>s' m su' m' rst'.
     Publisher_tick K tm stn now (pu, DtwinStore_checkObjectExpiry now st) = (s', [(m, ''out'')]) \<and>
     Subscriber_handleMessage K' tm' stn' now (ExtMsg ''in'' m) su = Inr (su', [(m', ''out_dtwin'')]) \<and>
     DtwinStore_handleMessage K'' now (ExtMsg ''in'' m') rst = Inr rst' \<and>
     dt_kin rst' (dt_object_id st ! i) = (Some (to_u64 now), Some 0, Some 0, Some 0, Some 0)"
proof -
  let ?st = "DtwinStore_checkObjectExpiry now st" and ?k = "dt_object_id st ! i"
  have ok: "DtwinStore_ok ?st" using assms(1) by (rule DtwinStore_checkObjectExpiry_ok)
  obtain ol st2 where rd: "DtwinStore_readFromStore stn now ?st = (ol, st2)"
    by (cases "DtwinStore_readFromStore stn now ?st")
  have n: "dt_n_objects ?st \<le> int (length (dt_object_id ?st))" using assms(4) by simp
  note ol = readFromStore_list [OF ok rd n]
  have i: "i < length (dt_object_id st)" using assms(3,4) by linarith
  have "dt_kin ?st ?k = (None, None, None, None, None)"
    by (rule checkObjectExpiry_gone) (fact assms)+
  then have kin: "ol_kin ol i = (Some (to_u64 now), Some 0, Some 0, Some 0, Some 0)" "ol_object_id ol ! i = ?k"
    using ol i by (simp_all add: ol_kin_def dt_kin_def dflt_def Let_def)
  have "\<not> expired (to_u64 now) (to_u64 (dt_object_max_age rst)) (ol_timestamp ol)"
    using assms(8) ol by (simp add: expired_def word_le_0_iff)
  with updateObjects_effect [OF assms(7)] ol obtain rst'
    where rst': "DtwinStore_updateObjects now ol rst = Inr rst'"
      "\<And>k. dt_kin rst' k = (case find (\<lambda>i. ol_object_id ol ! i = k) (rev [0..<nat (ol_n_objects ol)]) of
         Some i \<Rightarrow> if accepts (ol_timestamp ol) rst k then ol_kin ol i else dt_kin rst k
       | None \<Rightarrow> dt_kin rst k)"
    by blast
  have "distinct (dt_object_id st)" using assms(1) by (simp add: DtwinStore_ok_def sset_distinct)
  then have "find (\<lambda>j. ol_object_id ol ! j = ?k) (rev [0..<nat (ol_n_objects ol)]) = Some i"
    using ol i assms(3,4) by (intro find_unique_index) (auto simp: nth_eq_iff_index_eq Let_def)
  then have "dt_kin rst' ?k = (Some (to_u64 now), Some 0, Some 0, Some 0, Some 0)"
    using rst'(2) [of ?k] kin ol assms(9) by simp
  then show ?thesis
    using rd ol assms(3) rst'(1)
    by (simp add: Publisher_tick_eq Let_def Subscriber_handleMessage_def Subscriber_receiveDtwinMessage_def
        DtwinStore_handleMessage_def)
qed

theorem expired_object_reborn_at_subscriber_witness:
  "\<exists>s' m su' m' rst'.
     Publisher_tick \<lparr>k_scheduleAt = \<lambda>t e q. q, k_cancelEvent = \<lambda>e q. q, k_deliver = \<lambda>e q. q, k_arrival = \<lambda>q e. None\<rparr>
       \<lparr>at_start = 0, at_stop = 90, at_rate = 1\<rparr> sample_station 10 (\<lparr>pu_queue = ()\<rparr>, DtwinStore_checkObjectExpiry 10 aged_store) =
       (s', [(m, ''out'')]) \<and>
     Subscriber_handleMessage fes_kernel \<lparr>at_start = 0, at_stop = 90, at_rate = 1\<rparr> sample_station 10 (ExtMsg ''in'' m)
       \<lparr>su_subscriber_id = [], su_roi_tag = [], su_qos_tag = [], su_subscriber_type = [], su_queue = Map.empty\<rparr> =
       Inr (su', [(m', ''out_dtwin'')]) \<and>
     DtwinStore_handleMessage fes_kernel 10 (ExtMsg ''in'' m') sample_store = Inr rst' \<and>
     dt_kin rst' ''a'' = (Some 10, Some 0, Some 0, Some 0, Some 0)"
proof -
  have aged: "dt_object_id aged_store = [''a'', ''b'']" "dt_n_objects aged_store = 2"
      "map_of (dt_object_timestamp aged_store) ''a'' = Some 2" "dt_n_objects (DtwinStore_checkObjectExpiry 10 aged_store) = 1"
      "expired (to_u64 10) (to_u64 (dt_object_max_age aged_store)) 2"
    by (simp_all add: aged_store_def DtwinStore_checkObjectExpiry_def Let_def expired_def to_u64_def erase_object_def
        smap_del_def)
  have rst: "to_u64 (dt_object_max_age sample_store) \<noteq> 0" "accepts (to_u64 10) sample_store ''a''"
    by (simp_all add: sample_store_def DtwinStore_initialize_def to_u64_def accepts_def)
  from expired_object_reborn_at_subscriber [OF aged_store_ok _ _ _ _ aged(5) sample_store_simps(1) rst(1), where i = 0
      and K = "\<lparr>k_scheduleAt = \<lambda>t e q. q, k_cancelEvent = \<lambda>e q. q, k_deliver = \<lambda>e q. q, k_arrival = \<lambda>q e. None\<rparr>"
      and tm = "\<lparr>at_start = 0, at_stop = 90, at_rate = 1\<rparr>" and stn = sample_station and pu = "\<lparr>pu_queue = ()\<rparr>"
      and K' = fes_kernel and tm' = "\<lparr>at_start = 0, at_stop = 90, at_rate = 1\<rparr>" and stn' = sample_station
      and su = "\<lparr>su_subscriber_id = [], su_roi_tag = [], su_qos_tag = [], su_subscriber_type = [], su_queue = Map.empty\<rparr>"
      and K'' = fes_kernel]
  show ?thesis using aged rst by (simp add: to_u64_def)
qed

end
